(* ===== verification/Prelude.thy ===== *)
theory Prelude
  imports Main "HOL-Library.Monad_Syntax" "HOL-Library.Word"
begin

text \<open>
  What every component of the development shares: C strings as NUL-free character lists
  with the string.h / stdlib.h routines the code uses, decimal printing and reading,
  the environment in which shell commands run, and the collections of simp rules.

  A C string is its bytes up to the terminator, so \<open>strlen\<close> is \<open>length\<close>.  Where the code copies
  into a fixed buffer the copy is a function of the buffer size (\<open>cbuf\<close>, \<open>strncpy_str\<close>);
  a null pointer of type \<open>char *\<close> is \<open>None\<close>.
\<close>

named_theorems cstr "equations of the C string routines"
named_theorems effect_simps "equations of the command environment"

section \<open>Characters\<close>

definition isspace :: "char \<Rightarrow> bool" where
  "isspace c \<longleftrightarrow> c = CHR 0x20 \<or> c = CHR 0x09 \<or> c = CHR 0x0A \<or> c = CHR 0x0B \<or> c = CHR 0x0C \<or> c = CHR 0x0D"

definition isdigit :: "char \<Rightarrow> bool" where
  "isdigit c \<longleftrightarrow> 48 \<le> (of_char c :: nat) \<and> (of_char c :: nat) \<le> 57"

definition tolower :: "char \<Rightarrow> char" where
  "tolower c = (if 65 \<le> (of_char c :: nat) \<and> (of_char c :: nat) \<le> 90 then char_of ((of_char c :: nat) + 32) else c)"

definition toupper :: "char \<Rightarrow> char" where
  "toupper c = (if 97 \<le> (of_char c :: nat) \<and> (of_char c :: nat) \<le> 122 then char_of ((of_char c :: nat) - 32) else c)"

section \<open>string.h\<close>

text \<open>\<open>strncmp(a, b, n) == 0\<close>: the first \<open>n\<close> bytes agree, a shorter string ending the comparison.\<close>

definition strneq :: "nat \<Rightarrow> string \<Rightarrow> string \<Rightarrow> bool" where
  "strneq n a b \<longleftrightarrow> take n a = take n b"

definition strncaseeq :: "nat \<Rightarrow> string \<Rightarrow> string \<Rightarrow> bool" where
  "strncaseeq n a b \<longleftrightarrow> take n (map tolower a) = take n (map tolower b)"

definition strcaseeq :: "string \<Rightarrow> string \<Rightarrow> bool" where
  "strcaseeq a b \<longleftrightarrow> map tolower a = map tolower b"

lemma strneq_refl [simp]: "strneq n a a"
  by (simp add: strneq_def)

lemma strneq_prefix [cstr]: "strneq (length a) b a \<longleftrightarrow> (\<exists>r. b = a @ r)"
proof
  assume "strneq (length a) b a"
  then have "take (length a) b = a" by (simp add: strneq_def)
  then show "\<exists>r. b = a @ r" by (metis append_take_drop_id)
qed (auto simp: strneq_def)

lemma strneq_Nil [simp]: "strneq n [] b \<longleftrightarrow> n = 0 \<or> b = []"
  by (cases n; cases b) (auto simp: strneq_def)

lemma strncaseeq_zero [simp]: "strncaseeq 0 a b"
  by (simp add: strncaseeq_def)

text \<open>\<open>strstr(s, pat) != NULL\<close>, and the text before the first occurrence.\<close>

fun strstr_pre :: "string \<Rightarrow> string \<Rightarrow> string option" where
  "strstr_pre pat [] = (if pat = [] then Some [] else None)"
| "strstr_pre pat (c # s) =
     (if take (length pat) (c # s) = pat then Some []
      else map_option (Cons c) (strstr_pre pat s))"

definition contains :: "string \<Rightarrow> string \<Rightarrow> bool" where
  "contains s pat \<longleftrightarrow> strstr_pre pat s \<noteq> None"

lemma strstr_pre_split: "strstr_pre pat s = Some a \<Longrightarrow> \<exists>b. s = a @ pat @ b"
proof (induction s arbitrary: a)
  case Nil
  then show ?case by (simp split: if_splits)
next
  case (Cons c s)
  show ?case
  proof (cases "take (length pat) (c # s) = pat")
    case True
    with Cons.prems show ?thesis by (metis append_Nil append_take_drop_id option.inject strstr_pre.simps(2))
  next
    case False
    with Cons obtain a' where "a = c # a'" "strstr_pre pat s = Some a'" by auto
    with Cons.IH show ?thesis by auto
  qed
qed

lemma strstr_pre_prefix [simp]: "strstr_pre pat (pat @ s) = Some []"
proof (cases "pat @ s")
  case (Cons c t)
  have "take (length pat) (pat @ s) = pat" by simp
  then show ?thesis unfolding Cons by simp
qed simp

lemma contains_append [intro]: "contains (a @ pat @ b) pat"
proof (induction a)
  case Nil
  show ?case by (simp add: contains_def)
next
  case (Cons c a)
  then show ?case by (auto simp: contains_def)
qed

text \<open>\<open>snprintf(buf, n, ...)\<close> keeps at most \<open>n - 1\<close> bytes; so does
  \<open>strncpy(buf, s, n - 1)\<close> into a zeroed or explicitly terminated buffer.\<close>

definition cbuf :: "nat \<Rightarrow> string \<Rightarrow> string" where
  "cbuf n s = take (n - 1) s"

lemma cbuf_id [simp]: "length s < n \<Longrightarrow> cbuf n s = s"
  by (simp add: cbuf_def)

lemma length_cbuf: "0 < n \<Longrightarrow> length (cbuf n s) < n"
  by (auto simp: cbuf_def)

text \<open>\<open>strtok(s, "/")\<close> called until it returns NULL: the maximal non-empty runs without the
  delimiter.\<close>

function strtok_all :: "char \<Rightarrow> string \<Rightarrow> string list" where
  "strtok_all d s =
     (let s1 = dropWhile (\<lambda>c. c = d) s
      in if s1 = [] then []
         else takeWhile (\<lambda>c. c \<noteq> d) s1 # strtok_all d (dropWhile (\<lambda>c. c \<noteq> d) s1))"
  by pat_completeness auto
termination
proof (relation "measure (\<lambda>(d, s). length s)", goal_cases)
  case 1
  show ?case by simp
next
  case (2 d s s1)
  have "length s1 \<le> length s" unfolding 2(1) by (rule length_dropWhile_le)
  moreover from 2 have "hd s1 \<noteq> d" by (metis (full_types) hd_dropWhile)
  then have "length (dropWhile (\<lambda>c. c \<noteq> d) s1) < length s1"
    using 2(2) by (cases s1) (auto simp: le_imp_less_Suc length_dropWhile_le)
  ultimately show ?case by simp
qed

declare strtok_all.simps [simp del]

lemma strtok_all_tokens: "t \<in> set (strtok_all d s) \<Longrightarrow> t \<noteq> [] \<and> d \<notin> set t"
proof (induction d s rule: strtok_all.induct)
  case (1 d s)
  let ?s1 = "dropWhile (\<lambda>c. c = d) s"
  show ?case
  proof (cases "?s1 = []")
    case True
    with "1.prems" show ?thesis by (simp add: strtok_all.simps [of d s])
  next
    case False
    then have hd: "hd ?s1 \<noteq> d" by (metis (full_types) hd_dropWhile)
    from False "1.prems" consider "t = takeWhile (\<lambda>c. c \<noteq> d) ?s1"
      | "t \<in> set (strtok_all d (dropWhile (\<lambda>c. c \<noteq> d) ?s1))"
      by (simp add: strtok_all.simps [of d s] Let_def del: dropWhile_eq_Nil_conv) blast
    then show ?thesis
    proof cases
      case 1
      with False hd show ?thesis by (cases ?s1) (auto dest: set_takeWhileD)
    next
      case 2
      with "1.IH" False show ?thesis by blast
    qed
  qed
qed

text \<open>\<open>trim_whitespace\<close> of wtsl_cfg_manager.c is built from these two.\<close>

definition ltrim :: "string \<Rightarrow> string" where
  "ltrim s = dropWhile isspace s"

definition rtrim :: "string \<Rightarrow> string" where
  "rtrim s = rev (dropWhile isspace (rev s))"

lemma ltrim_id: "s = [] \<or> \<not> isspace (hd s) \<Longrightarrow> ltrim s = s"
  by (cases s) (auto simp: ltrim_def)

lemma rtrim_id: "s = [] \<or> \<not> isspace (last s) \<Longrightarrow> rtrim s = s"
  by (cases s rule: rev_cases) (auto simp: rtrim_def)

lemma rtrim_append_space: "(\<forall>c \<in> set w. isspace c) \<Longrightarrow> rtrim (s @ w) = rtrim s"
  by (simp add: rtrim_def dropWhile_append)

lemma rtrim_append_nonspace: "rtrim t \<noteq> [] \<Longrightarrow> rtrim (s @ t) = s @ rtrim t"
  by (auto simp: rtrim_def dropWhile_append dropWhile_eq_Nil_conv)

lemma rtrim_eq_Nil: "rtrim s = [] \<longleftrightarrow> (\<forall>c \<in> set s. isspace c)"
  by (simp add: rtrim_def dropWhile_eq_Nil_conv)

section \<open>Reading lines\<close>

text \<open>\<open>fgets\<close> into a buffer of \<open>n + 1\<close> bytes: up to and with the newline, at most \<open>n\<close> bytes; and the
  texts of the calls until the end of the file.\<close>

fun take_line :: "nat \<Rightarrow> string \<Rightarrow> string \<times> string" where
  "take_line 0 s = ([], s)"
| "take_line (Suc n) [] = ([], [])"
| "take_line (Suc n) (c # s) = (if c = CHR 0x0A then ([c], s)
     else let (l, r) = take_line n s in (c # l, r))"

lemma take_line_length: "0 < n \<Longrightarrow> s \<noteq> [] \<Longrightarrow> length (snd (take_line n s)) < length s"
proof (induction n s rule: take_line.induct)
  case (3 n c s)
  then show ?case by (cases n; cases s) (auto split: prod.splits)
qed auto

function fgets_all :: "nat \<Rightarrow> string \<Rightarrow> string list" where
  "fgets_all n s = (if s = [] \<or> n = 0 then [] else fst (take_line n s) # fgets_all n (snd (take_line n s)))"
  by pat_completeness auto
termination
  by (relation "measure (\<lambda>(n, s). length s)") (simp_all add: take_line_length)

declare fgets_all.simps [simp del]

lemma take_line_line: "CHR 0x0A \<notin> set b \<Longrightarrow> length b < n \<Longrightarrow> take_line n (b @ CHR 0x0A # s) = (b @ [CHR 0x0A], s)"
proof (induction b arbitrary: n)
  case Nil
  then show ?case by (cases n) auto
next
  case (Cons c b)
  then show ?case by (cases n) auto
qed

lemma fgets_all_Nil [simp]: "fgets_all n [] = []"
  by (simp add: fgets_all.simps)

lemma fgets_all_line:
  "CHR 0x0A \<notin> set b \<Longrightarrow> length b < n \<Longrightarrow> fgets_all n (b @ CHR 0x0A # s) = (b @ [CHR 0x0A]) # fgets_all n s"
  by (simp add: fgets_all.simps [of n "b @ CHR 0x0A # s"] take_line_line)

section \<open>Decimal numbers: printf, strtol, atoi\<close>

definition digit_char :: "nat \<Rightarrow> char" where
  "digit_char d = char_of (48 + d)"

definition digit_val :: "char \<Rightarrow> nat" where
  "digit_val c = (of_char c :: nat) - 48"

lemma of_char_digit_char [simp]: "d < 10 \<Longrightarrow> (of_char (digit_char d) :: nat) = 48 + d"
  by (simp add: digit_char_def)

lemma isdigit_digit_char [simp]: "d < 10 \<Longrightarrow> isdigit (digit_char d)"
  by (simp add: isdigit_def)

lemma digit_val_digit_char [simp]: "d < 10 \<Longrightarrow> digit_val (digit_char d) = d"
  by (simp add: digit_val_def)

text \<open>\<open>printf("%u")\<close> and \<open>printf("%d")\<close>.\<close>

fun show_nat :: "nat \<Rightarrow> string" where
  "show_nat n = (if n < 10 then [digit_char n] else show_nat (n div 10) @ [digit_char (n mod 10)])"

declare show_nat.simps [simp del]

definition show_int :: "int \<Rightarrow> string" where
  "show_int i = (if i < 0 then CHR ''-'' # show_nat (nat (- i)) else show_nat (nat i))"

lemma show_nat_nonempty [simp]: "show_nat n \<noteq> []"
  by (subst show_nat.simps) simp

lemma show_nat_digits: "\<forall>c \<in> set (show_nat n). isdigit c"
proof (induction n rule: show_nat.induct)
  case (1 n)
  show ?case by (cases "n < 10") (use 1 in \<open>auto simp: show_nat.simps [of n]\<close>)
qed

lemma isdigit_not_space: "isdigit c \<Longrightarrow> \<not> isspace c"
  by (auto simp: isdigit_def isspace_def)

lemma show_int_chars: "c \<in> set (show_int i) \<Longrightarrow> isdigit c \<or> c = CHR ''-''"
  using show_nat_digits by (auto simp: show_int_def split: if_splits)

lemma show_int_nonempty [simp]: "show_int i \<noteq> []"
  by (simp add: show_int_def)

lemma show_int_not_space: "c \<in> set (show_int i) \<Longrightarrow> \<not> isspace c"
  by (drule show_int_chars) (auto simp: isdigit_not_space, simp add: isspace_def)

lemma length_show_nat: "m < 10 ^ d \<Longrightarrow> 0 < d \<Longrightarrow> length (show_nat m) \<le> d"
proof (induction d arbitrary: m)
  case (Suc d)
  show ?case
  proof (cases "m < 10")
    case True
    then show ?thesis by (simp add: show_nat.simps [of m])
  next
    case False
    with Suc.prems have "0 < d" by (cases d) auto
    moreover from Suc.prems have "m div 10 < 10 ^ d" by (simp add: less_mult_imp_div_less mult.commute)
    ultimately show ?thesis using Suc.IH [of "m div 10"] False by (simp add: show_nat.simps [of m])
  qed
qed simp

lemma length_show_int:
  assumes "- (2 ^ 31) \<le> i" "i < 2 ^ 31"
  shows "length (show_int i) \<le> 11"
proof -
  from assms have "nat i < 10 ^ 10" "nat (- i) < 10 ^ 10" by auto
  from length_show_nat [OF this(1)] length_show_nat [OF this(2)] show ?thesis
    by (auto simp: show_int_def)
qed

fun read_digits :: "nat \<Rightarrow> string \<Rightarrow> nat \<times> string" where
  "read_digits n [] = (n, [])"
| "read_digits n (c # s) = (if isdigit c then read_digits (10 * n + digit_val c) s else (n, c # s))"

lemma read_digits_append:
  "(\<forall>c \<in> set u. isdigit c) \<Longrightarrow> read_digits n (u @ s) = read_digits (fst (read_digits n u)) s"
  by (induction u arbitrary: n) auto

lemma read_digits_all: "(\<forall>c \<in> set u. isdigit c) \<Longrightarrow> snd (read_digits n u) = []"
  by (induction u arbitrary: n) auto

lemma read_show_nat: "read_digits 0 (show_nat n) = (n, [])"
proof (induction n rule: show_nat.induct)
  case (1 n)
  show ?case
  proof (cases "n < 10")
    case True
    then show ?thesis by (simp add: show_nat.simps [of n])
  next
    case False
    with "1.IH" show_nat_digits [of "n div 10"] show ?thesis
      by (simp add: show_nat.simps [of n] read_digits_append)
  qed
qed

text \<open>\<open>strtol(s, &end, 10)\<close> saturates at the bounds of \<open>long\<close> (\<open>lmax\<close> is \<open>LONG_MAX\<close>,
  \<open>2^31 - 1\<close> on the 32-bit target and \<open>2^63 - 1\<close> on the 64-bit one); with no digits it
  returns 0 and \<open>end = s\<close>.  The conversion to \<open>int\<close> keeps the low 32 bits.\<close>

definition sign_split :: "string \<Rightarrow> bool \<times> string" where
  "sign_split t = (case t of [] \<Rightarrow> (False, [])
     | c # r \<Rightarrow> if c = CHR ''-'' then (True, r) else if c = CHR ''+'' then (False, r) else (False, t))"

definition clamp :: "int \<Rightarrow> int \<Rightarrow> int" where
  "clamp lmax i = max (- lmax - 1) (min lmax i)"

definition strtol :: "int \<Rightarrow> string \<Rightarrow> int \<times> string" where
  "strtol lmax s =
     (let (neg, u) = sign_split (ltrim s) in
      if u = [] \<or> \<not> isdigit (hd u) then (0, s)
      else let (n, r) = read_digits 0 u
           in (clamp lmax (if neg then - int n else int n), r))"

definition to_int32 :: "int \<Rightarrow> int" where
  "to_int32 i = sint (word_of_int i :: 32 word)"

definition atoi :: "int \<Rightarrow> string \<Rightarrow> int" where
  "atoi lmax s = to_int32 (fst (strtol lmax s))"

lemma to_int32_range: "- (2 ^ 31) \<le> to_int32 i \<and> to_int32 i < 2 ^ 31"
  using sint_range_size [of "word_of_int i :: 32 word"] by (simp add: to_int32_def word_size)

lemma to_int32_id [simp]: "- (2 ^ 31) \<le> i \<Longrightarrow> i < 2 ^ 31 \<Longrightarrow> to_int32 i = i"
  by (simp add: to_int32_def sint_sbintrunc' signed_take_bit_int_eq_self)

lemma show_nat_hd_digit: "isdigit (hd (show_nat n))"
  using show_nat_digits [of n] by (cases "show_nat n") auto

lemma ltrim_show_int [simp]: "ltrim (show_int i) = show_int i"
  by (rule ltrim_id) (use show_int_not_space [of "hd (show_int i)" i] in simp)

lemma sign_split_show_int:
  "sign_split (show_int i) = (if i < 0 then (True, show_nat (nat (- i))) else (False, show_nat (nat i)))"
proof (cases "i < 0")
  case True
  then show ?thesis by (simp add: show_int_def sign_split_def)
next
  case False
  obtain c r where cr: "show_nat (nat i) = c # r" by (cases "show_nat (nat i)") auto
  with show_nat_hd_digit [of "nat i"] have "isdigit c" by simp
  then have "c \<noteq> CHR ''-'' \<and> c \<noteq> CHR ''+''" by (auto simp: isdigit_def)
  with False cr show ?thesis by (simp add: show_int_def sign_split_def)
qed

lemma strtol_show_int:
  assumes "- lmax - 1 \<le> i" "i \<le> lmax"
  shows "strtol lmax (show_int i) = (i, [])"
  using assms show_nat_hd_digit
  by (simp add: strtol_def sign_split_show_int read_show_nat clamp_def)

lemma atoi_show_int:
  assumes "- (2 ^ 31) \<le> i" "i < 2 ^ 31" "2 ^ 31 - 1 \<le> lmax"
  shows "atoi lmax (show_int i) = i"
  using assms by (simp add: atoi_def strtol_show_int)

section \<open>The shell\<close>

text \<open>
  \<open>system\<close> and \<open>popen\<close> hand a command line to a shell outside the program.  Whether \<open>popen\<close>
  succeeds, the exit status (0 is success) and the output are functions of the commands already run and of the command itself; the
  program's own effect is the sequence of command lines, which the state carries.
\<close>

record shell =
  sh_popen :: "string list \<Rightarrow> string \<Rightarrow> bool"
  sh_rc :: "string list \<Rightarrow> string \<Rightarrow> int"
  sh_out :: "string list \<Rightarrow> string \<Rightarrow> string"

definition run_cmd :: "shell \<Rightarrow> string list \<Rightarrow> string \<Rightarrow> int \<times> string list" where
  "run_cmd sh tr c = (sh_rc sh tr c, tr @ [c])"

fun run_cmds :: "shell \<Rightarrow> string list \<Rightarrow> string list \<Rightarrow> string list" where
  "run_cmds sh tr [] = tr"
| "run_cmds sh tr (c # cs) = run_cmds sh (snd (run_cmd sh tr c)) cs"

lemma snd_run_cmd [simp, effect_simps]: "snd (run_cmd sh tr c) = tr @ [c]"
  by (simp add: run_cmd_def)

lemma fst_run_cmd [simp, effect_simps]: "fst (run_cmd sh tr c) = sh_rc sh tr c"
  by (simp add: run_cmd_def)

lemma run_cmds_append [simp, effect_simps]: "run_cmds sh tr cs = tr @ cs"
  by (induction cs arbitrary: tr) auto

definition quiet_shell :: shell where
  "quiet_shell = \<lparr>sh_popen = (\<lambda>_ _. True), sh_rc = (\<lambda>_ _. 0), sh_out = (\<lambda>_ _. [])\<rparr>"

end
