(* ===== verification/LinkHeap.thy ===== *)
theory LinkHeap
  imports Prelude
begin

text \<open>
  The part of the C heap that holds singly linked cells, shared by the generic list
  (utils/wtsl_core_list.c) and the node list (slal/node/wtsl_core_node_list.c): a finite map
  from addresses to cells with a \<open>next\<close> pointer.  A pointer is an address or \<open>None\<close> (NULL).
  Reading through a pointer that is not allocated yields \<open>None\<close>, the memory fault, so
  "does not fault" is provable rather than assumed.  \<open>chain h p as q\<close> says that following
  \<open>next\<close> from \<open>p\<close> visits the cells \<open>as\<close> in order and ends at \<open>q\<close>.
\<close>

record 'v cell =
  val :: 'v
  nxt :: "nat option"

type_synonym 'v cells = "nat \<rightharpoonup> 'v cell"

text \<open>
  The allocator: \<open>brk\<close> is the next address it hands out, \<open>oom\<close> the outcomes of the coming
  \<open>malloc\<close> calls (\<open>True\<close> = out of memory, no entry = success).
\<close>

record allocator =
  brk :: nat
  oom :: "bool list"

definition malloc :: "'h allocator_scheme \<Rightarrow> nat option \<times> 'h allocator_scheme" where
  "malloc h = (case oom h of
     True # r \<Rightarrow> (None, h\<lparr>oom := r\<rparr>)
   | _ \<Rightarrow> (Some (brk h), h\<lparr>brk := Suc (brk h), oom := tl (oom h)\<rparr>))"

lemma malloc_cases:
  assumes "malloc h = (r, h')"
  obtains (oom) "r = None" "h' = h\<lparr>oom := tl (oom h)\<rparr>"
  | (ok) "r = Some (brk h)" "h' = h\<lparr>brk := Suc (brk h), oom := tl (oom h)\<rparr>"
  using assms by (auto simp: malloc_def split: list.splits bool.splits)

lemma malloc_result: "fst (malloc h) = None \<longleftrightarrow> (\<exists>r. oom h = True # r)"
  by (auto simp: malloc_def split: list.splits bool.splits)

primrec chain :: "'v cells \<Rightarrow> nat option \<Rightarrow> nat list \<Rightarrow> nat option \<Rightarrow> bool" where
  "chain h p [] q \<longleftrightarrow> p = q"
| "chain h p (a # as) q \<longleftrightarrow> p = Some a \<and> (\<exists>c. h a = Some c \<and> chain h (nxt c) as q)"

lemma chain_append [simp]:
  "chain h p (as @ bs) q \<longleftrightarrow> (\<exists>m. chain h p as m \<and> chain h m bs q)"
  by (induction as arbitrary: p) auto

lemma chain_update_other [simp]: "a \<notin> set as \<Longrightarrow> chain (h(a := c)) p as q \<longleftrightarrow> chain h p as q"
  by (induction as arbitrary: p) auto

lemma chain_allocated: "chain h p as q \<Longrightarrow> set as \<subseteq> dom h"
  by (induction as arbitrary: p) auto

lemma chain_det: "chain h p as None \<Longrightarrow> chain h p bs None \<Longrightarrow> as = bs"
proof (induction as arbitrary: p bs)
  case Nil
  then show ?case by (cases bs) auto
next
  case (Cons a as)
  then show ?case by (cases bs) auto
qed

lemma chain_None_distinct: "chain h p as None \<Longrightarrow> distinct as"
proof (induction as arbitrary: p)
  case (Cons a as)
  then obtain c where c: "h a = Some c" "chain h (nxt c) as None" by auto
  have "a \<notin> set as"
  proof
    assume "a \<in> set as"
    then obtain xs ys where "as = xs @ a # ys" by (meson split_list)
    with c have "chain h (nxt c) ys None" by auto
    with c have "as = ys" by (blast intro: chain_det)
    with \<open>as = xs @ a # ys\<close> show False by simp
  qed
  with Cons.IH c show ?case by auto
qed simp

lemma chain_NullD: "chain h None as q \<Longrightarrow> as = [] \<and> q = None"
  by (cases as) auto

lemma chain_None_iff: "chain h p as None \<Longrightarrow> p = None \<longleftrightarrow> as = []"
  by (cases as) auto

text \<open>Walking \<open>n\<close> steps along \<open>next\<close>, as the indexed loops of the code do.\<close>

fun advance :: "'v cells \<Rightarrow> nat option \<Rightarrow> nat \<Rightarrow> nat option option" where
  "advance h p 0 = Some p"
| "advance h p (Suc n) = do { a \<leftarrow> p; c \<leftarrow> h a; advance h (nxt c) n }"

lemma advance_chain: "chain h p as m \<Longrightarrow> advance h p (length as) = Some m"
  by (induction as arbitrary: p) auto

lemma advance_nth:
  assumes "chain h p as q" "i < length as"
  shows "advance h p i = Some (Some (as ! i))"
proof -
  have "as = take i as @ as ! i # drop (Suc i) as"
    using assms(2) by (rule id_take_nth_drop)
  with assms(1) have "chain h p (take i as) (Some (as ! i))"
    by (metis chain.simps(2) chain_append)
  from advance_chain [OF this] assms(2) show ?thesis by simp
qed

text \<open>The last cell of a non-empty chain: \<open>while (cur->next) cur = cur->next\<close>.\<close>

partial_function (option) walk_last :: "'v cells \<Rightarrow> nat \<Rightarrow> nat option" where
  "walk_last h a = do {
     c \<leftarrow> h a;
     (case nxt c of None \<Rightarrow> Some a | Some b \<Rightarrow> walk_last h b) }"

lemma walk_last_chain: "chain h (Some a) (as @ [z]) None \<Longrightarrow> walk_last h a = Some z"
proof (induction as arbitrary: a)
  case Nil
  then show ?case by (auto simp: walk_last.simps)
next
  case (Cons b as)
  then show ?case by (cases as) (auto simp: walk_last.simps [of h b])
qed

text \<open>Redirecting the \<open>next\<close> pointer of the last cell before a split point.\<close>

lemma chain_splice:
  assumes "chain h p (as @ [a]) m" "a \<notin> set as" "chain h r bs q" "a \<notin> set bs" "h a = Some c"
  shows "chain (h(a \<mapsto> c\<lparr>nxt := r\<rparr>)) p (as @ a # bs) q"
  using assms by auto

lemma chain_nth_split:
  assumes "chain h p as q" "i < length as"
  shows "chain h p (take i as) (Some (as ! i)) \<and>
    (\<exists>c. h (as ! i) = Some c \<and> chain h (nxt c) (drop (Suc i) as) q)"
proof -
  have "as = take i as @ as ! i # drop (Suc i) as"
    using assms(2) by (rule id_take_nth_drop)
  with assms(1) show ?thesis by (metis chain.simps(2) chain_append)
qed

text \<open>The index of the first element the comparison accepts.\<close>

fun first_index :: "('a \<Rightarrow> bool) \<Rightarrow> 'a list \<Rightarrow> nat option" where
  "first_index P [] = None"
| "first_index P (x # xs) = (if P x then Some 0 else map_option Suc (first_index P xs))"

lemma first_index_Some:
  "first_index P xs = Some i \<Longrightarrow> i < length xs \<and> P (xs ! i) \<and> (\<forall>j < i. \<not> P (xs ! j))"
proof (induction xs arbitrary: i)
  case (Cons x xs)
  then show ?case by (fastforce simp: less_Suc_eq_0_disj split: if_splits)
qed simp

lemma first_index_None: "first_index P xs = None \<longleftrightarrow> (\<forall>x \<in> set xs. \<not> P x)"
  by (induction xs) auto

end
