(* ===== verification/CoreList.thy ===== *)
theory CoreList
  imports LinkHeap
begin

text \<open>
  The generic singly linked list of utils/wtsl_core_list.c, at the level of its heap: a
  \<open>ListNode\<close> is a cell whose value is the address of a separately allocated data block, a
  \<open>List\<close> is the record of head pointer, element size and count.  \<open>malloc\<close> may fail: the heap
  carries the outcomes of the coming allocations (\<open>True\<close> = out of memory).  Operations that read
  through pointers return \<open>None\<close> on a memory fault (a NULL or dangling read, a second \<open>free\<close>).

  The lemmas relate the heap to the abstract sequence \<open>xs\<close> it stores (\<open>is_list h l xs\<close>): every
  operation keeps the representation, computes the corresponding list function and never faults;
  \<open>list_destroy\<close> leaves no cell or block of the list allocated.
\<close>

section \<open>State\<close>

record 'a heap = allocator +
  cells :: "nat cells"
  blocks :: "nat \<rightharpoonup> 'a"
  released :: "'a list"

record clist =
  head :: "nat option"
  data_size :: nat
  lsize :: int

definition set_next :: "nat \<Rightarrow> nat option \<Rightarrow> 'a heap \<Rightarrow> 'a heap option" where
  "set_next a p h = do { c \<leftarrow> cells h a; Some (h\<lparr>cells := (cells h)(a \<mapsto> c\<lparr>nxt := p\<rparr>)\<rparr>) }"

section \<open>Operations\<close>

definition list_create :: "nat \<Rightarrow> 'a heap \<Rightarrow> clist option \<times> 'a heap" where
  "list_create sz h = (case malloc h of
     (None, h1) \<Rightarrow> (None, h1)
   | (Some _, h1) \<Rightarrow> (Some \<lparr>head = None, data_size = sz, lsize = 0\<rparr>, h1))"

text \<open>The node is freed again when its data block cannot be allocated, so it is entered into the
  heap only after both allocations succeeded.\<close>

definition create_node :: "'a \<Rightarrow> 'a heap \<Rightarrow> nat option \<times> 'a heap" where
  "create_node x h = (case malloc h of
     (None, h1) \<Rightarrow> (None, h1)
   | (Some n, h1) \<Rightarrow> (case malloc h1 of
        (None, h2) \<Rightarrow> (None, h2)
      | (Some d, h2) \<Rightarrow> (Some n, h2\<lparr>blocks := (blocks h2)(d \<mapsto> x),
                                 cells := (cells h2)(n \<mapsto> \<lparr>val = d, nxt = None\<rparr>)\<rparr>)))"

definition list_insert_head ::
    "clist option \<Rightarrow> 'a option \<Rightarrow> 'a heap \<Rightarrow> (clist option \<times> 'a heap) option" where
  "list_insert_head lp data h = (case (lp, data) of
     (Some l, Some x) \<Rightarrow>
       (case create_node x h of
          (None, h1) \<Rightarrow> Some (lp, h1)
        | (Some n, h1) \<Rightarrow> do {
            h2 \<leftarrow> set_next n (head l) h1;
            Some (Some (l\<lparr>head := Some n, lsize := lsize l + 1\<rparr>), h2) })
   | _ \<Rightarrow> Some (lp, h))"

definition list_insert_tail ::
    "clist option \<Rightarrow> 'a option \<Rightarrow> 'a heap \<Rightarrow> (clist option \<times> 'a heap) option" where
  "list_insert_tail lp data h = (case (lp, data) of
     (Some l, Some x) \<Rightarrow>
       (case create_node x h of
          (None, h1) \<Rightarrow> Some (lp, h1)
        | (Some n, h1) \<Rightarrow>
            (case head l of
               None \<Rightarrow> Some (Some (l\<lparr>head := Some n, lsize := lsize l + 1\<rparr>), h1)
             | Some a \<Rightarrow> do {
                 z \<leftarrow> walk_last (cells h1) a;
                 h2 \<leftarrow> set_next z (Some n) h1;
                 Some (Some (l\<lparr>lsize := lsize l + 1\<rparr>), h2) }))
   | _ \<Rightarrow> Some (lp, h))"

definition list_insert_at ::
    "clist option \<Rightarrow> int \<Rightarrow> 'a option \<Rightarrow> 'a heap \<Rightarrow> (int \<times> clist option \<times> 'a heap) option" where
  "list_insert_at lp index data h = (case (lp, data) of
     (Some l, Some x) \<Rightarrow>
       (if index < 0 \<or> lsize l < index then Some (-1, lp, h)
        else if index = 0 then do {
          (lp', h') \<leftarrow> list_insert_head lp data h;
          Some (0, lp', h') }
        else do {
          cur \<leftarrow> advance (cells h) (head l) (nat (index - 1));
          (case create_node x h of
             (None, h1) \<Rightarrow> Some (-1, lp, h1)
           | (Some n, h1) \<Rightarrow> do {
               a \<leftarrow> cur;
               c \<leftarrow> cells h1 a;
               h2 \<leftarrow> set_next n (nxt c) h1;
               h3 \<leftarrow> set_next a (Some n) h2;
               Some (0, Some (l\<lparr>lsize := lsize l + 1\<rparr>), h3) }) })
   | _ \<Rightarrow> Some (-1, lp, h))"

fun find_loop :: "('a \<Rightarrow> 'b \<Rightarrow> int) \<Rightarrow> 'b \<Rightarrow> 'a heap \<Rightarrow> nat option \<Rightarrow> int \<Rightarrow> nat \<Rightarrow> int option" where
  "find_loop compare target h cur i 0 = Some (-1)"
| "find_loop compare target h cur i (Suc k) = do {
     a \<leftarrow> cur;
     c \<leftarrow> cells h a;
     x \<leftarrow> blocks h (val c);
     (if compare x target = 0 then Some i
      else find_loop compare target h (nxt c) (i + 1) k) }"

definition list_find ::
    "clist option \<Rightarrow> 'b option \<Rightarrow> ('a \<Rightarrow> 'b \<Rightarrow> int) option \<Rightarrow> 'a heap \<Rightarrow> int option" where
  "list_find lp target compare h = (case (lp, target, compare) of
     (Some l, Some t, Some cmp) \<Rightarrow>
       (if lsize l = 0 then Some (-1)
        else find_loop cmp t h (head l) 0 (nat (lsize l)))
   | _ \<Rightarrow> Some (-1))"

text \<open>The returned pointer is the address of the element's data block.\<close>

definition list_get :: "clist option \<Rightarrow> int \<Rightarrow> 'a heap \<Rightarrow> nat option option" where
  "list_get lp index h = (case lp of
     None \<Rightarrow> Some None
   | Some l \<Rightarrow>
       (if lsize l = 0 \<or> index < 0 \<or> lsize l \<le> index then Some None
        else do {
          cur \<leftarrow> advance (cells h) (head l) (nat index);
          a \<leftarrow> cur;
          c \<leftarrow> cells h a;
          Some (Some (val c)) }))"

text \<open>\<open>free_data(p->data); free(p->data); free(p)\<close>: \<open>fd\<close> tells whether the caller passed a
  \<open>FreeFunc\<close>; the payloads it was called on are recorded in \<open>released\<close>.\<close>

definition free_node :: "bool \<Rightarrow> nat \<Rightarrow> 'a heap \<Rightarrow> 'a heap option" where
  "free_node fd a h = do {
     c \<leftarrow> cells h a;
     x \<leftarrow> blocks h (val c);
     Some (h\<lparr>cells := (cells h)(a := None), blocks := (blocks h)(val c := None),
             released := (if fd then released h @ [x] else released h)\<rparr>) }"

definition list_remove_head ::
    "clist option \<Rightarrow> bool \<Rightarrow> 'a heap \<Rightarrow> (int \<times> clist option \<times> 'a heap) option" where
  "list_remove_head lp fd h = (case lp of
     None \<Rightarrow> Some (-1, lp, h)
   | Some l \<Rightarrow>
       (if lsize l = 0 then Some (-1, lp, h)
        else do {
          a \<leftarrow> head l;
          c \<leftarrow> cells h a;
          h1 \<leftarrow> free_node fd a h;
          Some (0, Some (l\<lparr>head := nxt c, lsize := lsize l - 1\<rparr>), h1) }))"

partial_function (option) walk_last2 :: "'v cells \<Rightarrow> nat \<Rightarrow> nat option" where
  "walk_last2 h a = do {
     c \<leftarrow> h a;
     b \<leftarrow> nxt c;
     d \<leftarrow> h b;
     (case nxt d of None \<Rightarrow> Some a | Some _ \<Rightarrow> walk_last2 h b) }"

text \<open>Unlinking the cell after \<open>cur\<close>, common to the two removals inside the list.\<close>

definition unlink_after ::
    "nat option \<Rightarrow> clist \<Rightarrow> bool \<Rightarrow> 'a heap \<Rightarrow> (int \<times> clist option \<times> 'a heap) option" where
  "unlink_after cur l fd h = do {
     a \<leftarrow> cur;
     c \<leftarrow> cells h a;
     t \<leftarrow> nxt c;
     d \<leftarrow> cells h t;
     h1 \<leftarrow> set_next a (nxt d) h;
     h2 \<leftarrow> free_node fd t h1;
     Some (0, Some (l\<lparr>lsize := lsize l - 1\<rparr>), h2) }"

text \<open>\<open>list_remove_tail\<close> stores NULL where \<open>list_remove_at\<close> stores \<open>temp->next\<close>; for the last
  cell they are the same pointer.\<close>

definition list_remove_tail ::
    "clist option \<Rightarrow> bool \<Rightarrow> 'a heap \<Rightarrow> (int \<times> clist option \<times> 'a heap) option" where
  "list_remove_tail lp fd h = (case lp of
     None \<Rightarrow> Some (-1, lp, h)
   | Some l \<Rightarrow>
       (if lsize l = 0 then Some (-1, lp, h)
        else if lsize l = 1 then list_remove_head lp fd h
        else do {
          hd0 \<leftarrow> head l;
          a \<leftarrow> walk_last2 (cells h) hd0;
          c \<leftarrow> cells h a;
          t \<leftarrow> nxt c;
          h1 \<leftarrow> set_next a None h;
          h2 \<leftarrow> free_node fd t h1;
          Some (0, Some (l\<lparr>lsize := lsize l - 1\<rparr>), h2) }))"

definition list_remove_at ::
    "clist option \<Rightarrow> int \<Rightarrow> bool \<Rightarrow> 'a heap \<Rightarrow> (int \<times> clist option \<times> 'a heap) option" where
  "list_remove_at lp index fd h = (case lp of
     None \<Rightarrow> Some (-1, lp, h)
   | Some l \<Rightarrow>
       (if index < 0 \<or> lsize l \<le> index then Some (-1, lp, h)
        else if index = 0 then list_remove_head lp fd h
        else do {
          cur \<leftarrow> advance (cells h) (head l) (nat (index - 1));
          unlink_after cur l fd h }))"

definition list_remove_by_value ::
    "clist option \<Rightarrow> 'b option \<Rightarrow> ('a \<Rightarrow> 'b \<Rightarrow> int) option \<Rightarrow> bool \<Rightarrow> 'a heap
      \<Rightarrow> (int \<times> clist option \<times> 'a heap) option" where
  "list_remove_by_value lp target compare fd h = do {
     index \<leftarrow> list_find lp target compare h;
     (if index = -1 then Some (-1, lp, h) else list_remove_at lp index fd h) }"

text \<open>The payloads in the order the callback is called on them.\<close>

partial_function (option) traverse_loop :: "'a heap \<Rightarrow> nat option \<Rightarrow> 'a list option" where
  "traverse_loop h cur = (case cur of
     None \<Rightarrow> Some []
   | Some a \<Rightarrow> do {
       c \<leftarrow> cells h a;
       x \<leftarrow> blocks h (val c);
       xs \<leftarrow> traverse_loop h (nxt c);
       Some (x # xs) })"

definition list_traverse :: "clist option \<Rightarrow> 'a heap \<Rightarrow> 'a list option" where
  "list_traverse lp h = (case lp of
     None \<Rightarrow> Some []
   | Some l \<Rightarrow> if lsize l = 0 then Some [] else traverse_loop h (head l))"

definition list_size :: "clist option \<Rightarrow> int" where
  "list_size lp = (case lp of None \<Rightarrow> -1 | Some l \<Rightarrow> lsize l)"

partial_function (option) destroy_loop :: "bool \<Rightarrow> nat option \<Rightarrow> 'a heap \<Rightarrow> 'a heap option" where
  "destroy_loop fd cur h = (case cur of
     None \<Rightarrow> Some h
   | Some a \<Rightarrow> do {
       c \<leftarrow> cells h a;
       h1 \<leftarrow> free_node fd a h;
       destroy_loop fd (nxt c) h1 })"

definition list_destroy :: "clist option \<Rightarrow> bool \<Rightarrow> 'a heap \<Rightarrow> 'a heap option" where
  "list_destroy lp fd h = (case lp of None \<Rightarrow> Some h | Some l \<Rightarrow> destroy_loop fd (head l) h)"

section \<open>The sequence a list represents\<close>

text \<open>One triple per node: its address, the address of its data block, the payload.\<close>

primrec seg :: "'a heap \<Rightarrow> nat option \<Rightarrow> (nat \<times> nat \<times> 'a) list \<Rightarrow> nat option \<Rightarrow> bool" where
  "seg h p [] q \<longleftrightarrow> p = q"
| "seg h p (t # ts) q \<longleftrightarrow>
     p = Some (fst t) \<and> (\<exists>m. cells h (fst t) = Some \<lparr>val = fst (snd t), nxt = m\<rparr> \<and>
       blocks h (fst (snd t)) = Some (snd (snd t)) \<and> seg h m ts q)"

definition bounded :: "'a heap \<Rightarrow> bool" where
  "bounded h \<longleftrightarrow> (\<forall>a \<ge> brk h. cells h a = None \<and> blocks h a = None)"

definition lrep :: "'a heap \<Rightarrow> clist \<Rightarrow> (nat \<times> nat \<times> 'a) list \<Rightarrow> bool" where
  "lrep h l ts \<longleftrightarrow> seg h (head l) ts None \<and> lsize l = int (length ts) \<and>
     distinct (map (fst \<circ> snd) ts) \<and> bounded h"

abbreviation payloads :: "(nat \<times> nat \<times> 'a) list \<Rightarrow> 'a list" where
  "payloads ts \<equiv> map (snd \<circ> snd) ts"

definition is_list :: "'a heap \<Rightarrow> clist \<Rightarrow> 'a list \<Rightarrow> bool" where
  "is_list h l xs \<longleftrightarrow> (\<exists>ts. lrep h l ts \<and> xs = payloads ts)"

lemma is_listI: "lrep h l ts \<Longrightarrow> xs = payloads ts \<Longrightarrow> is_list h l xs"
  unfolding is_list_def by blast

lemma seg_append [simp]:
  "seg h p (ts @ us) q \<longleftrightarrow> (\<exists>m. seg h p ts m \<and> seg h m us q)"
  by (induction ts arbitrary: p) auto

lemma seg_chain: "seg h p ts q \<Longrightarrow> chain (cells h) p (map fst ts) q"
  by (induction ts arbitrary: p) auto

lemma seg_cong:
  assumes "seg h p ts q"
    and "\<And>t. t \<in> set ts \<Longrightarrow> cells h' (fst t) = cells h (fst t) \<and>
              blocks h' (fst (snd t)) = blocks h (fst (snd t))"
  shows "seg h' p ts q"
  using assms
proof (induction ts arbitrary: p)
  case (Cons t ts)
  from Cons.prems(1) obtain m where m: "p = Some (fst t)"
      "cells h (fst t) = Some \<lparr>val = fst (snd t), nxt = m\<rparr>"
      "blocks h (fst (snd t)) = Some (snd (snd t))" "seg h m ts q" by auto
  have "seg h' m ts q" by (rule Cons.IH [OF m(4)]) (use Cons.prems(2) in auto)
  with m Cons.prems(2) [of t] show ?case by auto
qed simp

lemma seg_allocated:
  "seg h p ts q \<Longrightarrow> t \<in> set ts \<Longrightarrow>
     cells h (fst t) \<noteq> None \<and> blocks h (fst (snd t)) = Some (snd (snd t))"
  by (induction ts arbitrary: p) auto

lemma seg_below:
  assumes "seg h p ts q" "bounded h" "t \<in> set ts"
  shows "fst t < brk h \<and> fst (snd t) < brk h"
proof -
  from seg_allocated [OF assms(1,3)] assms(2) show ?thesis
    unfolding bounded_def by (metis linorder_not_le option.distinct(1))
qed

lemma seg_None_distinct: "seg h p ts None \<Longrightarrow> distinct (map fst ts)"
  by (drule seg_chain) (rule chain_None_distinct)

lemma lrep_distinct: "lrep h l ts \<Longrightarrow> distinct (map fst ts) \<and> distinct (map (fst \<circ> snd) ts)"
  by (auto simp: lrep_def dest: seg_None_distinct)

lemma lrep_chain: "lrep h l ts \<Longrightarrow> chain (cells h) (head l) (map fst ts) None"
  by (auto simp: lrep_def dest: seg_chain)

text \<open>The sequence is determined by the heap.\<close>

lemma seg_det: "seg h p ts None \<Longrightarrow> seg h p us None \<Longrightarrow> ts = us"
proof (induction ts arbitrary: p us)
  case Nil
  then show ?case by (cases us) auto
next
  case (Cons t ts)
  from Cons.prems obtain u us' where us: "us = u # us'" by (cases us) auto
  from Cons.prems us have "t = u" by (auto intro!: prod_eqI)
  moreover from Cons us have "ts = us'" by fastforce
  ultimately show ?case using us by simp
qed

lemma is_list_unique: "is_list h l xs \<Longrightarrow> is_list h l ys \<Longrightarrow> xs = ys"
  unfolding is_list_def lrep_def by (metis seg_det)

section \<open>Allocation\<close>

text \<open>Both \<open>malloc\<close> calls of \<open>create_node\<close> succeed.\<close>

definition alloc_ok :: "'a heap \<Rightarrow> bool" where
  "alloc_ok h \<longleftrightarrow> True \<notin> set (take 2 (oom h))"

text \<open>Either nothing but the allocator changed, or a fresh cell holds a fresh copy of the data.\<close>

lemma create_node_cases:
  assumes "create_node x h = (r, h')"
  obtains (oom) "r = None" "\<not> alloc_ok h" "cells h' = cells h" "blocks h' = blocks h"
      "brk h \<le> brk h'"
  | (ok) "r = Some (brk h)" "alloc_ok h"
      "cells h' = (cells h)(brk h \<mapsto> \<lparr>val = Suc (brk h), nxt = None\<rparr>)"
      "blocks h' = (blocks h)(Suc (brk h) \<mapsto> x)" "brk h' = Suc (Suc (brk h))"
proof -
  obtain r1 h1 where 1: "malloc h = (r1, h1)" by fastforce
  obtain r2 h2 where 2: "malloc h1 = (r2, h2)" by fastforce
  have ok: "alloc_ok h \<longleftrightarrow> r1 \<noteq> None \<and> r2 \<noteq> None"
    using 1 2 malloc_result [of h] malloc_result [of h1]
    by (cases "oom h"; cases "tl (oom h)")
      (auto simp: alloc_ok_def malloc_def split: bool.splits list.splits)
  from 1 show thesis
  proof (cases rule: malloc_cases)
    case oom
    with 1 ok assms that show thesis by (auto simp: create_node_def)
  next
    case ok: ok
    from 2 show thesis
      by (cases rule: malloc_cases)
        (use 1 2 ok \<open>alloc_ok h \<longleftrightarrow> r1 \<noteq> None \<and> r2 \<noteq> None\<close> assms that in \<open>auto simp: create_node_def\<close>)
  qed
qed

lemma lrep_same_memory:
  "lrep h l ts \<Longrightarrow> cells h' = cells h \<Longrightarrow> blocks h' = blocks h \<Longrightarrow> brk h \<le> brk h' \<Longrightarrow> lrep h' l ts"
  by (auto simp: lrep_def bounded_def intro: seg_cong)

lemma set_next_Some:
  "cells h a = Some c \<Longrightarrow> set_next a p h = Some (h\<lparr>cells := (cells h)(a \<mapsto> c\<lparr>nxt := p\<rparr>)\<rparr>)"
  by (simp add: set_next_def)

text \<open>Redirecting the last cell of a segment.\<close>

lemma seg_relink:
  assumes "seg h p (ts @ [t]) m"
    and "cells h' (fst t) = Some \<lparr>val = fst (snd t), nxt = m'\<rparr>"
    and "\<And>u. u \<in> set ts \<Longrightarrow> cells h' (fst u) = cells h (fst u)"
    and "\<And>u. u \<in> set (ts @ [t]) \<Longrightarrow> blocks h' (fst (snd u)) = blocks h (fst (snd u))"
  shows "seg h' p (ts @ [t]) m'"
proof -
  from assms(1) have t: "seg h p ts (Some (fst t))"
      "blocks h (fst (snd t)) = Some (snd (snd t))" by auto
  have "seg h' p ts (Some (fst t))"
    by (rule seg_cong [OF t(1)]) (use assms(3,4) in auto)
  with t assms(2,4) show ?thesis by auto
qed

text \<open>Addresses handed out by the allocator are not used by the list.\<close>

lemma lrep_below:
  assumes "lrep h l ts"
  shows "\<And>t. t \<in> set ts \<Longrightarrow> fst t < brk h" "\<And>t. t \<in> set ts \<Longrightarrow> fst (snd t) < brk h"
  using seg_below [of h "head l" ts None] assms by (auto simp: lrep_def)

lemma lrep_neq:
  assumes "lrep h l ts" "t \<in> set ts"
  shows "fst t \<noteq> brk h" "fst (snd t) \<noteq> Suc (brk h)"
  using lrep_below [OF assms] by auto

lemma lrep_fresh_cell:
  assumes "lrep h l ts"
  shows "brk h \<notin> fst ` set ts"
proof
  assume "brk h \<in> fst ` set ts"
  then obtain t where "t \<in> set ts" "fst t = brk h" by auto
  with lrep_neq(1) [OF assms] show False by blast
qed

lemma lrep_fresh:
  assumes "lrep h l ts"
  shows "Suc (brk h) \<notin> (fst \<circ> snd) ` set ts"
proof
  assume "Suc (brk h) \<in> (fst \<circ> snd) ` set ts"
  then obtain t where "t \<in> set ts" "fst (snd t) = Suc (brk h)" by auto
  with lrep_neq(2) [OF assms] show False by blast
qed

section \<open>Insertion\<close>

lemma insert_head_lrep:
  assumes "lrep h l ts"
  shows "\<exists>l' h' n d. list_insert_head (Some l) (Some x) h = Some (Some l', h') \<and>
    lrep h' l' (if alloc_ok h then (n, d, x) # ts else ts)"
proof -
  obtain r h1 where c: "create_node x h = (r, h1)" by fastforce
  then show ?thesis
  proof (cases rule: create_node_cases)
    case oom
    with c assms lrep_same_memory [OF assms] show ?thesis by (auto simp: list_insert_head_def)
  next
    case ok
    let ?n = "brk h" and ?d = "Suc (brk h)"
    let ?h = "h1\<lparr>cells := (cells h1)(?n \<mapsto> \<lparr>val = ?d, nxt = head l\<rparr>)\<rparr>"
    have "seg ?h (head l) ts None"
    proof (rule seg_cong)
      show "seg h (head l) ts None" using assms by (simp add: lrep_def)
    qed (use ok lrep_neq [OF assms] in simp)
    moreover note lrep_fresh [OF assms]
    ultimately have "lrep ?h (l\<lparr>head := Some ?n, lsize := lsize l + 1\<rparr>) ((?n, ?d, x) # ts)"
      using assms ok by (auto simp: lrep_def bounded_def)
    with c ok show ?thesis by (auto simp: list_insert_head_def set_next_Some)
  qed
qed

text \<open>Inserting behind the cell of \<open>t\<close>: both the tail and the indexed insertion.\<close>

lemma lrep_insert_after:
  assumes rep: "lrep h l (ts @ t # us)"
    and seg: "seg h (Some (fst t)) (t # us) None" "seg h m us None"
    and new: "cells h1 = (cells h)(brk h \<mapsto> \<lparr>val = Suc (brk h), nxt = c\<rparr>)"
       "blocks h1 = (blocks h)(Suc (brk h) \<mapsto> x)" "brk h1 = Suc (Suc (brk h))"
    and h': "cells h' = (cells h)(brk h \<mapsto> \<lparr>val = Suc (brk h), nxt = m\<rparr>,
                                 fst t \<mapsto> \<lparr>val = fst (snd t), nxt = Some (brk h)\<rparr>)"
       "blocks h' = blocks h1" "brk h' = brk h1"
  shows "lrep h' (l\<lparr>lsize := lsize l + 1\<rparr>) (ts @ t # (brk h, Suc (brk h), x) # us)"
proof -
  note neq = lrep_neq [OF rep]
  from lrep_distinct [OF rep] have dis: "fst t \<notin> fst ` set ts" "fst t \<notin> fst ` set us" by auto
  have same: "cells h' (fst u) = cells h (fst u) \<and> blocks h' (fst (snd u)) = blocks h (fst (snd u))"
    if u: "u \<in> set ts \<union> set us" for u
  proof -
    from u dis have "fst u \<noteq> fst t" by (metis UnE imageI)
    with u neq [of u] show ?thesis by (simp add: h' new)
  qed
  have t: "blocks h' (fst (snd t)) = blocks h (fst (snd t))" "cells h' (brk h) = Some \<lparr>val = Suc (brk h), nxt = m\<rparr>"
    using neq [of t] by (simp_all add: h' new)
  obtain m' where "seg h (head l) (ts @ [t]) m'" using rep by (auto simp: lrep_def)
  then have 1: "seg h' (head l) (ts @ [t]) (Some (brk h))"
    by (rule seg_relink) (use same t h' in \<open>auto simp del: fun_upd_apply\<close>, simp add: h')
  have 2: "seg h' m us None"
    by (rule seg_cong [OF seg(2)]) (use same in auto)
  from 1 2 new h' t(2) have
    "seg h' (head l) (ts @ t # (brk h, Suc (brk h), x) # us) None" by auto
  moreover note lrep_fresh [OF rep]
  moreover have "fst t < brk h" using lrep_below(1) [OF rep, of t] by simp
  ultimately show ?thesis using rep new h' by (auto simp: lrep_def bounded_def)
qed

lemma insert_tail_lrep:
  assumes rep: "lrep h l ts"
  shows "\<exists>l' h' n d. list_insert_tail (Some l) (Some x) h = Some (Some l', h') \<and>
    lrep h' l' (if alloc_ok h then ts @ [(n, d, x)] else ts)"
proof -
  obtain r h1 where c: "create_node x h = (r, h1)" by fastforce
  then show ?thesis
  proof (cases rule: create_node_cases)
    case oom
    with c lrep_same_memory [OF rep] show ?thesis by (auto simp: list_insert_tail_def)
  next
    case ok
    show ?thesis
    proof (cases ts rule: rev_cases)
      case Nil
      with rep ok have "lrep h1 (l\<lparr>head := Some (brk h), lsize := lsize l + 1\<rparr>) [(brk h, Suc (brk h), x)]"
        by (auto simp: lrep_def bounded_def)
      with rep Nil c ok show ?thesis by (auto simp: list_insert_tail_def lrep_def)
    next
      case (snoc us t)
      with rep obtain a where a: "head l = Some a" by (cases us) (auto simp: lrep_def)
      from rep snoc have tc: "cells h (fst t) = Some \<lparr>val = fst (snd t), nxt = None\<rparr>"
          "seg h (Some (fst t)) [t] None" by (auto simp: lrep_def)
      have tn: "fst t \<noteq> brk h" using lrep_neq(1) [OF rep] snoc by simp
      from lrep_chain [OF rep] a snoc have "chain (cells h) (Some a) (map fst us @ [fst t]) None" by simp
      moreover have "brk h \<notin> set (map fst us @ [fst t])"
        using lrep_fresh_cell [OF rep] snoc by auto
      ultimately have w: "walk_last (cells h1) a = Some (fst t)"
        by (intro walk_last_chain [where as = "map fst us"]) (simp add: ok(3) del: chain_append)
      let ?h = "h1\<lparr>cells := (cells h1)(fst t \<mapsto> \<lparr>val = fst (snd t), nxt = Some (brk h)\<rparr>)\<rparr>"
      have "set_next (fst t) (Some (brk h)) h1 = Some ?h"
        using tn tc by (simp add: set_next_def ok(3))
      moreover have "lrep ?h (l\<lparr>lsize := lsize l + 1\<rparr>) (us @ t # [(brk h, Suc (brk h), x)])"
        by (rule lrep_insert_after [of h l us t "[]" None h1 None x])
          (use rep snoc tc ok in auto)
      ultimately show ?thesis using c ok a w snoc by (auto simp: list_insert_tail_def)
    qed
  qed
qed

lemma insert_at_lrep:
  assumes rep: "lrep h l ts" and i: "0 < i" "i \<le> int (length ts)"
  shows "\<exists>r l' h' n d. list_insert_at (Some l) i (Some x) h = Some (r, Some l', h') \<and>
    (if alloc_ok h then r = 0 \<and> lrep h' l' (take (nat i) ts @ (n, d, x) # drop (nat i) ts)
     else r = -1 \<and> lrep h' l' ts)"
proof -
  define k where "k = nat (i - 1)"
  then have k: "k < length ts" "nat i = Suc k" using i by auto
  define us where "us = take k ts"
  define vs where "vs = drop (Suc k) ts"
  define t where "t = ts ! k"
  have ts: "ts = us @ t # vs" using k unfolding us_def vs_def t_def by (simp add: id_take_nth_drop)
  have split: "take (nat i) ts = us @ [t]" "drop (nat i) ts = vs"
    using k by (simp_all add: us_def vs_def t_def take_Suc_conv_app_nth)
  from advance_nth [OF lrep_chain [OF rep], of k] k(1)
  have adv: "advance (cells h) (head l) k = Some (Some (fst t))" by (simp add: t_def)
  from rep ts obtain m where m: "cells h (fst t) = Some \<lparr>val = fst (snd t), nxt = m\<rparr>"
      "seg h m vs None" "seg h (Some (fst t)) (t # vs) None" by (auto simp: lrep_def)
  have tn: "fst t \<noteq> brk h" using lrep_neq(1) [OF rep] ts by simp
  have guard: "\<not> (i < 0 \<or> lsize l < i)" "i \<noteq> 0" using rep i by (auto simp: lrep_def)
  obtain r h1 where c: "create_node x h = (r, h1)" by fastforce
  then show ?thesis
  proof (cases rule: create_node_cases)
    case oom
    with c guard adv lrep_same_memory [OF rep] show ?thesis
      by (auto simp: list_insert_at_def k_def)
  next
    case ok
    let ?c1 = "(cells h1)(brk h \<mapsto> \<lparr>val = Suc (brk h), nxt = m\<rparr>)"
    let ?h = "h1\<lparr>cells := ?c1(fst t \<mapsto> \<lparr>val = fst (snd t), nxt = Some (brk h)\<rparr>)\<rparr>"
    have "list_insert_at (Some l) i (Some x) h = Some (0, Some (l\<lparr>lsize := lsize l + 1\<rparr>), ?h)"
      using guard adv c ok m tn by (auto simp: list_insert_at_def k_def set_next_def)
    moreover have "lrep ?h (l\<lparr>lsize := lsize l + 1\<rparr>) (us @ t # (brk h, Suc (brk h), x) # vs)"
      by (rule lrep_insert_after [of h l us t vs m h1 None x])
        (use rep ts m ok in \<open>auto simp: fun_eq_iff\<close>)
    ultimately show ?thesis using ok split by auto
  qed
qed

section \<open>Reading\<close>

lemma list_get_lrep:
  assumes "lrep h l ts"
  shows "list_get (Some l) i h =
    Some (if 0 \<le> i \<and> i < int (length ts) then Some (fst (snd (ts ! nat i))) else None)"
proof (cases "0 \<le> i \<and> i < int (length ts)")
  case True
  then have k: "nat i < length ts" by auto
  with assms have ts: "lrep h l (take (nat i) ts @ ts ! nat i # drop (Suc (nat i)) ts)"
    by (simp add: id_take_nth_drop [symmetric])
  from advance_nth [OF lrep_chain [OF assms], of "nat i"] k
  have "advance (cells h) (head l) (nat i) = Some (Some (fst (ts ! nat i)))" by simp
  with assms True ts k show ?thesis by (auto simp: list_get_def lrep_def)
next
  case False
  with assms show ?thesis by (auto simp: list_get_def lrep_def)
qed

lemma find_loop_seg:
  "seg h p ts q \<Longrightarrow> find_loop cmp t h p i (length ts) =
     Some (case first_index (\<lambda>x. cmp x t = 0) (payloads ts) of None \<Rightarrow> -1 | Some k \<Rightarrow> i + int k)"
  by (induction ts arbitrary: p i) (auto split: option.splits)

lemma list_find_lrep:
  assumes "lrep h l ts"
  shows "list_find (Some l) (Some t) (Some cmp) h =
    Some (case first_index (\<lambda>x. cmp x t = 0) (payloads ts) of None \<Rightarrow> -1 | Some k \<Rightarrow> int k)"
  using assms find_loop_seg [of h "head l" ts None cmp t 0]
  by (cases "ts = []") (simp_all add: list_find_def lrep_def split: option.splits)

lemma traverse_loop_seg: "seg h p ts None \<Longrightarrow> traverse_loop h p = Some (payloads ts)"
proof (induction ts arbitrary: p)
  case Nil
  then show ?case by (simp add: traverse_loop.simps)
next
  case (Cons t ts)
  then obtain m where "p = Some (fst t)" "cells h (fst t) = Some \<lparr>val = fst (snd t), nxt = m\<rparr>"
      "blocks h (fst (snd t)) = Some (snd (snd t))" "seg h m ts None" by auto
  with Cons.IH show ?case by (simp add: traverse_loop.simps [of h "Some (fst t)"])
qed

lemma list_traverse_lrep: "lrep h l ts \<Longrightarrow> list_traverse (Some l) h = Some (payloads ts)"
  by (auto simp: list_traverse_def lrep_def traverse_loop_seg)

section \<open>Removal\<close>

text \<open>Freeing one node: its cell and its block, and nothing else, leave the heap.\<close>

lemma free_node_Some:
  assumes "cells h a = Some \<lparr>val = d, nxt = m\<rparr>" "blocks h d = Some x"
  shows "free_node fd a h = Some (h\<lparr>cells := (cells h)(a := None), blocks := (blocks h)(d := None),
           released := (if fd then released h @ [x] else released h)\<rparr>)"
  using assms by (simp add: free_node_def)

lemma seg_free:
  assumes "seg h p ts q" "a \<notin> fst ` set ts" "d \<notin> (fst \<circ> snd) ` set ts"
    and "cells h' = (cells h)(a := None)" "blocks h' = (blocks h)(d := None)"
  shows "seg h' p ts q"
proof (rule seg_cong [OF assms(1)])
  fix t assume "t \<in> set ts"
  with assms(2,3) have "fst t \<noteq> a" "fst (snd t) \<noteq> d" by force+
  then show "cells h' (fst t) = cells h (fst t) \<and> blocks h' (fst (snd t)) = blocks h (fst (snd t))"
    by (simp add: assms(4,5))
qed

lemma remove_head_lrep:
  assumes rep: "lrep h l (t # ts)"
  shows "\<exists>l' h'. list_remove_head (Some l) fd h = Some (0, Some l', h') \<and> lrep h' l' ts \<and>
    released h' = (if fd then released h @ [snd (snd t)] else released h)"
proof -
  from rep obtain m where m: "head l = Some (fst t)"
      "cells h (fst t) = Some \<lparr>val = fst (snd t), nxt = m\<rparr>"
      "blocks h (fst (snd t)) = Some (snd (snd t))" "seg h m ts None" by (auto simp: lrep_def)
  from lrep_distinct [OF rep] have dis: "fst t \<notin> fst ` set ts" "fst (snd t) \<notin> (fst \<circ> snd) ` set ts"
    by auto
  let ?h = "h\<lparr>cells := (cells h)(fst t := None), blocks := (blocks h)(fst (snd t) := None),
              released := (if fd then released h @ [snd (snd t)] else released h)\<rparr>"
  have "list_remove_head (Some l) fd h = Some (0, Some (l\<lparr>head := m, lsize := lsize l - 1\<rparr>), ?h)"
    using rep m by (simp add: list_remove_head_def free_node_Some lrep_def)
  moreover have "seg ?h m ts None" by (rule seg_free [OF m(4) dis]) simp_all
  then have "lrep ?h (l\<lparr>head := m, lsize := lsize l - 1\<rparr>) ts"
    using rep by (auto simp: lrep_def bounded_def)
  ultimately show ?thesis by auto
qed

lemma unlink_after_lrep:
  assumes rep: "lrep h l (us @ t # v # vs)"
  shows "\<exists>l' h'. unlink_after (Some (fst t)) l fd h = Some (0, Some l', h') \<and> lrep h' l' (us @ t # vs) \<and>
    released h' = (if fd then released h @ [snd (snd v)] else released h)"
proof -
  from rep obtain m where t: "seg h (head l) us (Some (fst t))"
      "cells h (fst t) = Some \<lparr>val = fst (snd t), nxt = Some (fst v)\<rparr>"
      "blocks h (fst (snd t)) = Some (snd (snd t))"
    and v: "cells h (fst v) = Some \<lparr>val = fst (snd v), nxt = m\<rparr>"
      "blocks h (fst (snd v)) = Some (snd (snd v))" "seg h m vs None" by (auto simp: lrep_def)
  from lrep_distinct [OF rep] have dis: "fst t \<noteq> fst v" "fst t \<notin> fst ` set vs"
      "fst v \<notin> fst ` set us" "fst v \<notin> fst ` set vs" "fst t \<notin> fst ` set us"
      "fst (snd t) \<noteq> fst (snd v)" "fst (snd v) \<notin> (fst \<circ> snd) ` set us"
      "fst (snd v) \<notin> (fst \<circ> snd) ` set vs" by auto
  let ?h1 = "h\<lparr>cells := (cells h)(fst t \<mapsto> \<lparr>val = fst (snd t), nxt = m\<rparr>)\<rparr>"
  let ?h2 = "?h1\<lparr>cells := (cells ?h1)(fst v := None), blocks := (blocks h)(fst (snd v) := None),
              released := (if fd then released h @ [snd (snd v)] else released h)\<rparr>"
  have run: "unlink_after (Some (fst t)) l fd h = Some (0, Some (l\<lparr>lsize := lsize l - 1\<rparr>), ?h2)"
    using t v dis(1) by (simp add: unlink_after_def set_next_def free_node_def)
  from rep obtain m' where "seg h (head l) (us @ [t]) m'" by (auto simp: lrep_def)
  then have "seg ?h1 (head l) (us @ [t]) m"
    by (rule seg_relink) (use dis(5) in \<open>auto simp: image_iff\<close>)
  then have "seg ?h2 (head l) (us @ [t]) m"
    by (rule seg_free) (use dis in auto)
  moreover have "seg ?h1 m vs None"
    by (rule seg_cong [OF v(3)]) (use dis(2) in \<open>auto simp: image_iff\<close>)
  then have "seg ?h2 m vs None"
    by (rule seg_free) (use dis in auto)
  ultimately have "lrep ?h2 (l\<lparr>lsize := lsize l - 1\<rparr>) (us @ t # vs)"
    using rep by (auto simp: lrep_def bounded_def)
  with run show ?thesis by auto
qed

lemma remove_at_lrep:
  assumes rep: "lrep h l ts" and i: "0 \<le> i" "i < int (length ts)"
  shows "\<exists>l' h'. list_remove_at (Some l) i fd h = Some (0, Some l', h') \<and>
    lrep h' l' (take (nat i) ts @ drop (Suc (nat i)) ts) \<and>
    released h' = (if fd then released h @ [snd (snd (ts ! nat i))] else released h)"
proof (cases "i = 0")
  case True
  with i obtain t vs where "ts = t # vs" by (cases ts) auto
  with True rep remove_head_lrep [of h l t vs fd] show ?thesis
    by (auto simp: list_remove_at_def lrep_def)
next
  case False
  define k where "k = nat (i - 1)"
  then have k: "Suc k < length ts" "nat i = Suc k" using i False by auto
  define us where "us = take k ts"
  define vs where "vs = drop (Suc (Suc k)) ts"
  have ts: "ts = us @ ts ! k # ts ! Suc k # vs"
    using k unfolding us_def vs_def by (simp add: id_take_nth_drop Cons_nth_drop_Suc)
  have split: "take (nat i) ts = us @ [ts ! k]" "drop (Suc (nat i)) ts = vs"
    using k by (simp_all add: us_def vs_def take_Suc_conv_app_nth)
  from advance_nth [OF lrep_chain [OF rep], of k] k(1)
  have adv: "advance (cells h) (head l) k = Some (Some (fst (ts ! k)))" by simp
  have "list_remove_at (Some l) i fd h = unlink_after (Some (fst (ts ! k))) l fd h"
    using rep i False adv by (simp add: list_remove_at_def lrep_def k_def)
  moreover from rep ts have "lrep h l (us @ ts ! k # ts ! Suc k # vs)" by simp
  note unlink_after_lrep [OF this, of fd]
  ultimately show ?thesis using k split by (cases fd) simp_all
qed

lemma walk_last2_chain:
  "chain h (Some a) (as @ [y, z]) None \<Longrightarrow> walk_last2 h a = Some y"
proof (induction as arbitrary: a)
  case Nil
  then show ?case by (auto simp: walk_last2.simps)
next
  case (Cons b as)
  then obtain c where c: "a = b" "h b = Some c" "chain h (nxt c) (as @ [y, z]) None" by auto
  then obtain b' where b': "nxt c = Some b'" by (cases as) auto
  from c(3) b' obtain d where "h b' = Some d" "nxt d \<noteq> None"
    by (cases as rule: list.exhaust; cases "tl as") auto
  with Cons.IH [of b'] c b' show ?case by (auto simp: walk_last2.simps [of h b])
qed

lemma remove_tail_lrep:
  assumes rep: "lrep h l (ts @ [t])"
  shows "\<exists>l' h'. list_remove_tail (Some l) fd h = Some (0, Some l', h') \<and> lrep h' l' ts \<and>
    released h' = (if fd then released h @ [snd (snd t)] else released h)"
proof (cases ts rule: rev_cases)
  case Nil
  with rep remove_head_lrep [of h l t "[]" fd] show ?thesis
    by (auto simp: list_remove_tail_def lrep_def)
next
  case (snoc us u)
  with rep obtain a where a: "head l = Some a" by (cases us) (auto simp: lrep_def)
  have len: "lsize l = int (length us) + 2" using rep snoc by (simp add: lrep_def)
  from lrep_chain [OF rep] a snoc have "chain (cells h) (Some a) (map fst us @ [fst u, fst t]) None"
    by simp
  then have w: "walk_last2 (cells h) a = Some (fst u)" by (rule walk_last2_chain)
  from rep snoc have c: "cells h (fst u) = Some \<lparr>val = fst (snd u), nxt = Some (fst t)\<rparr>"
      "cells h (fst t) = Some \<lparr>val = fst (snd t), nxt = None\<rparr>" by (auto simp: lrep_def)
  have "list_remove_tail (Some l) fd h = unlink_after (Some (fst u)) l fd h"
    using len a w c by (simp add: list_remove_tail_def unlink_after_def)
  with unlink_after_lrep [of h l us u t "[]" fd] rep snoc show ?thesis by simp
qed

text \<open>Destroying the list: every cell and block of it is freed, once, in list order.\<close>

lemma destroy_loop_seg:
  "seg h p ts None \<Longrightarrow> distinct (map (fst \<circ> snd) ts) \<Longrightarrow>
     \<exists>h'. destroy_loop fd p h = Some h' \<and>
       cells h' = (cells h) |` (- fst ` set ts) \<and>
       blocks h' = (blocks h) |` (- (fst \<circ> snd) ` set ts) \<and>
       released h' = (if fd then released h @ payloads ts else released h)"
proof (induction ts arbitrary: p h)
  case Nil
  then show ?case by (simp add: destroy_loop.simps)
next
  case (Cons t ts)
  then obtain m where m: "p = Some (fst t)"
      "cells h (fst t) = Some \<lparr>val = fst (snd t), nxt = m\<rparr>"
      "blocks h (fst (snd t)) = Some (snd (snd t))" "seg h m ts None" by auto
  from seg_None_distinct [OF Cons.prems(1)] Cons.prems(2)
  have dis: "fst t \<notin> fst ` set ts" "fst (snd t) \<notin> (fst \<circ> snd) ` set ts" by auto
  let ?h = "h\<lparr>cells := (cells h)(fst t := None), blocks := (blocks h)(fst (snd t) := None),
              released := (if fd then released h @ [snd (snd t)] else released h)\<rparr>"
  have "seg ?h m ts None" by (rule seg_free [OF m(4) dis]) simp_all
  moreover have "distinct (map (fst \<circ> snd) ts)" using Cons.prems(2) by (simp add: comp_def)
  ultimately obtain h' where h': "destroy_loop fd m ?h = Some h'"
      "cells h' = (cells ?h) |` (- fst ` set ts)"
      "blocks h' = (blocks ?h) |` (- (fst \<circ> snd) ` set ts)"
      "released h' = (if fd then released ?h @ payloads ts else released ?h)"
    using Cons.IH [of ?h m] by blast
  have "destroy_loop fd p h = Some h'"
    using m h'(1) by (simp add: destroy_loop.simps [of fd "Some (fst t)"] free_node_Some)
  with h' show ?case by (auto simp: restrict_map_def fun_eq_iff)
qed

section \<open>The contract of the list\<close>

text \<open>
  What a client that only appends, counts and reads by index relies on.  \<open>holds s xs\<close> relates a
  state to the sequence it stores and \<open>room s\<close> says that no pending allocation fails.
\<close>

fun push_all :: "('a \<Rightarrow> 's \<Rightarrow> 's option) \<Rightarrow> 'a list \<Rightarrow> 's \<Rightarrow> 's option" where
  "push_all push [] s = Some s"
| "push_all push (x # xs) s = do { s' \<leftarrow> push x s; push_all push xs s' }"

locale indexed_seq =
  fixes holds :: "'s \<Rightarrow> 'a list \<Rightarrow> bool"
    and room :: "'s \<Rightarrow> bool"
    and push :: "'a \<Rightarrow> 's \<Rightarrow> 's option"
    and get :: "'s \<Rightarrow> int \<Rightarrow> 'a option option"
    and count :: "'s \<Rightarrow> int"
  assumes push_holds: "holds s xs \<Longrightarrow> room s \<Longrightarrow> \<exists>s'. push x s = Some s' \<and> holds s' (xs @ [x]) \<and> room s'"
    and get_holds: "holds s xs \<Longrightarrow>
      get s i = Some (if 0 \<le> i \<and> i < int (length xs) then Some (xs ! nat i) else None)"
    and count_holds: "holds s xs \<Longrightarrow> count s = int (length xs)"
begin

lemma push_all_holds:
  "holds s xs \<Longrightarrow> room s \<Longrightarrow> \<exists>s'. push_all push ys s = Some s' \<and> holds s' (xs @ ys) \<and> room s'"
proof (induction ys arbitrary: s xs)
  case (Cons y ys)
  from push_holds [OF Cons.prems] obtain s' where s': "push y s = Some s'" "holds s' (xs @ [y])" "room s'"
    by blast
  from Cons.IH [OF s'(2,3)] s'(1) show ?case by simp
qed simp

lemma push_all_get:
  assumes "holds s []" "room s"
  shows "\<exists>s'. push_all push ys s = Some s' \<and> count s' = int (length ys) \<and>
    (\<forall>i. get s' i = Some (if 0 \<le> i \<and> i < int (length ys) then Some (ys ! nat i) else None))"
  using push_all_holds [OF assms, of ys] get_holds count_holds by fastforce

end

text \<open>The list of the model provides it: states are the list record with its heap.\<close>

type_synonym 'a lstate = "clist \<times> 'a heap"

definition list_holds :: "'a lstate \<Rightarrow> 'a list \<Rightarrow> bool" where
  "list_holds s xs \<longleftrightarrow> is_list (snd s) (fst s) xs"

definition list_room :: "'a lstate \<Rightarrow> bool" where
  "list_room s \<longleftrightarrow> oom (snd s) = []"

definition list_push :: "'a \<Rightarrow> 'a lstate \<Rightarrow> 'a lstate option" where
  "list_push x s = do {
     (lp, h') \<leftarrow> list_insert_tail (Some (fst s)) (Some x) (snd s);
     l' \<leftarrow> lp;
     Some (l', h') }"

definition list_read :: "'a lstate \<Rightarrow> int \<Rightarrow> 'a option option" where
  "list_read s i = do {
     p \<leftarrow> list_get (Some (fst s)) i (snd s);
     (case p of None \<Rightarrow> Some None
      | Some d \<Rightarrow> do { x \<leftarrow> blocks (snd s) d; Some (Some x) }) }"

lemma create_node_oom: "oom h = [] \<Longrightarrow> create_node x h = (r, h') \<Longrightarrow> oom h' = []"
  by (auto simp: create_node_def malloc_def)

lemma insert_tail_oom:
  assumes "list_insert_tail (Some l) (Some x) h = Some (lp, h')" "oom h = []"
  shows "oom h' = []"
  using assms by (auto simp: list_insert_tail_def set_next_def bind_eq_Some_conv
    dest: create_node_oom split: prod.splits option.splits)

interpretation cl: indexed_seq list_holds list_room list_push list_read "\<lambda>s. list_size (Some (fst s))"
proof (unfold_locales, goal_cases)
  case (1 s xs x)
  then obtain ts where ts: "lrep (snd s) (fst s) ts" "xs = payloads ts" "oom (snd s) = []"
    by (auto simp: list_holds_def is_list_def list_room_def)
  moreover from ts(3) have "alloc_ok (snd s)" by (simp add: alloc_ok_def)
  moreover from insert_tail_lrep [OF ts(1), of x] obtain l' h' n d where
    i: "list_insert_tail (Some (fst s)) (Some x) (snd s) = Some (Some l', h')"
       "lrep h' l' (if alloc_ok (snd s) then ts @ [(n, d, x)] else ts)" by blast
  moreover from insert_tail_oom [OF i(1) ts(3)] have "oom h' = []" .
  ultimately show ?case
    by (auto simp: list_push_def list_holds_def is_list_def list_room_def intro!: exI [of _ "ts @ [(n, d, x)]"])
next
  case (2 s xs i)
  then obtain ts where ts: "lrep (snd s) (fst s) ts" "xs = payloads ts"
    by (auto simp: list_holds_def is_list_def)
  show ?case
  proof (cases "0 \<le> i \<and> i < int (length ts)")
    case True
    then have "ts ! nat i \<in> set ts" by (auto intro!: nth_mem simp: nat_less_iff)
    with ts(1) have "blocks (snd s) (fst (snd (ts ! nat i))) = Some (snd (snd (ts ! nat i)))"
      by (auto simp: lrep_def dest: seg_allocated)
    with True list_get_lrep [OF ts(1), of i] ts(2) show ?thesis by (auto simp: list_read_def)
  next
    case False
    with list_get_lrep [OF ts(1), of i] ts(2) show ?thesis by (auto simp: list_read_def)
  qed
next
  case (3 s xs)
  then show ?case by (auto simp: list_holds_def is_list_def lrep_def list_size_def)
qed

section \<open>Properties\<close>

text \<open>A list of two integers on the heap, for the instances of the properties.\<close>

definition demo_heap :: "int heap" where
  "demo_heap = \<lparr>brk = 4, oom = [], cells = [0 \<mapsto> \<lparr>val = 1, nxt = Some 2\<rparr>, 2 \<mapsto> \<lparr>val = 3, nxt = None\<rparr>],
     blocks = [1 \<mapsto> 10, 3 \<mapsto> 20], released = []\<rparr>"

definition demo_list :: clist where
  "demo_list = \<lparr>head = Some 0, data_size = 4, lsize = 2\<rparr>"

lemma demo_is_list: "is_list demo_heap demo_list [10, 20]"
  by (rule is_listI [of _ _ "[(0, 1, 10), (2, 3, 20)]"])
    (auto simp: lrep_def demo_heap_def demo_list_def bounded_def)

text \<open>C21. \<open>list_insert_at\<close> on a well-formed list and an index in range never faults; with memory it
  returns 0 and stores the sequence with the element inserted at that index, without memory it
  leaves the sequence unchanged (and reports it, except at index 0).\<close>

theorem list_insert_at_refines:
  assumes "is_list h l xs" "0 \<le> i" "i \<le> int (length xs)"
  shows "\<exists>r l' h'. list_insert_at (Some l) i (Some x) h = Some (r, Some l', h') \<and>
    is_list h' l' (if alloc_ok h then take (nat i) xs @ x # drop (nat i) xs else xs) \<and>
    (r = 0 \<longleftrightarrow> alloc_ok h \<or> i = 0)"
proof -
  from assms(1) obtain ts where ts: "lrep h l ts" "xs = payloads ts" by (auto simp: is_list_def)
  show ?thesis
  proof (cases "i = 0")
    case True
    from insert_head_lrep [OF ts(1), of x] obtain l' h' n d where ih:
      "list_insert_head (Some l) (Some x) h = Some (Some l', h')"
      "lrep h' l' (if alloc_ok h then (n, d, x) # ts else ts)" by blast
    from ih(2) have "is_list h' l' (if alloc_ok h then x # xs else xs)"
      by (rule is_listI) (simp add: ts(2))
    moreover have "list_insert_at (Some l) i (Some x) h = Some (0, Some l', h')"
      using True ih(1) ts(1) by (simp add: list_insert_at_def lrep_def)
    ultimately show ?thesis using True by auto
  next
    case False
    with assms ts insert_at_lrep [OF ts(1), of i x] obtain r l' h' n d where ia:
      "list_insert_at (Some l) i (Some x) h = Some (r, Some l', h')"
      "if alloc_ok h then r = 0 \<and> lrep h' l' (take (nat i) ts @ (n, d, x) # drop (nat i) ts)
       else r = -1 \<and> lrep h' l' ts" by auto
    from ia(2) have "is_list h' l' (if alloc_ok h then take (nat i) xs @ x # drop (nat i) xs else xs)"
      by (auto simp: ts(2) take_map drop_map intro!: is_listI split: if_splits)
    with ia False show ?thesis by (auto split: if_splits)
  qed
qed

theorem list_insert_at_refines_witness:
  "\<exists>r l' h'. list_insert_at (Some demo_list) 1 (Some 15) demo_heap = Some (r, Some l', h') \<and>
    is_list h' l' [10, 15, 20] \<and> r = 0"
  using list_insert_at_refines [OF demo_is_list, of 1 15]
  by (auto simp: alloc_ok_def demo_heap_def)

text \<open>Removing by value on a well-formed list never faults, removes exactly the first matching
  element and hands exactly that element to the free callback; with no match it returns -1 and
  changes nothing.\<close>

theorem list_remove_by_value_refines:
  assumes "is_list h l xs"
  shows "case first_index (\<lambda>x. cmp x t = 0) xs of
      None \<Rightarrow> list_remove_by_value (Some l) (Some t) (Some cmp) True h = Some (-1, Some l, h)
    | Some k \<Rightarrow> (\<exists>l' h'. list_remove_by_value (Some l) (Some t) (Some cmp) True h = Some (0, Some l', h') \<and>
        is_list h' l' (take k xs @ drop (Suc k) xs) \<and> released h' = released h @ [xs ! k])"
proof -
  from assms obtain ts where ts: "lrep h l ts" "xs = payloads ts" by (auto simp: is_list_def)
  note find = list_find_lrep [OF ts(1), of t cmp]
  show ?thesis
  proof (cases "first_index (\<lambda>x. cmp x t = 0) xs")
    case None
    with find ts(2) show ?thesis by (simp add: list_remove_by_value_def)
  next
    case (Some k)
    then have "k < length ts" using first_index_Some ts(2) by fastforce
    with remove_at_lrep [OF ts(1), of "int k" True] find Some ts(2) show ?thesis
      by (auto simp: list_remove_by_value_def take_map drop_map intro!: is_listI)
  qed
qed

theorem list_remove_by_value_refines_witness:
  "\<exists>l' h'. list_remove_by_value (Some demo_list) (Some 20) (Some (-)) True demo_heap = Some (0, Some l', h') \<and>
     is_list h' l' [10] \<and> released h' = [20]"
  using list_remove_by_value_refines [OF demo_is_list, where cmp = "(-)" and t = 20]
  by (auto simp: demo_heap_def)

text \<open>\<open>list_destroy\<close> on a well-formed list never faults (no double free, no read of a freed
  node), calls the free callback on every element once and in order, and leaves allocated exactly
  what was allocated outside the list.\<close>

theorem list_destroy_frees_all:
  assumes "is_list h l xs"
  shows "\<exists>h' ns ds. list_destroy (Some l) True h = Some h' \<and> released h' = released h @ xs \<and>
    length ns = length xs \<and> distinct ns \<and> chain (cells h) (head l) ns None \<and>
    length ds = length xs \<and> distinct ds \<and> map (blocks h) ds = map Some xs \<and>
    dom (cells h') = dom (cells h) - set ns \<and> dom (blocks h') = dom (blocks h) - set ds"
proof -
  from assms obtain ts where ts: "lrep h l ts" "xs = payloads ts" by (auto simp: is_list_def)
  let ?ns = "map fst ts" and ?ds = "map (fst \<circ> snd) ts"
  from ts(1) have seg: "seg h (head l) ts None" by (simp add: lrep_def)
  from destroy_loop_seg [OF seg, of True] lrep_distinct [OF ts(1)] obtain h' where
    "destroy_loop True (head l) h = Some h'" "cells h' = (cells h) |` (- set ?ns)"
    "blocks h' = (blocks h) |` (- set ?ds)" "released h' = released h @ xs" using ts(2) by auto
  moreover have "map (blocks h) ?ds = map Some xs"
    using seg_allocated [OF seg] ts(2) by auto
  ultimately show ?thesis using lrep_distinct [OF ts(1)] lrep_chain [OF ts(1)] ts(2)
    by (intro exI [of _ h'] exI [of _ ?ns] exI [of _ ?ds]) (auto simp: list_destroy_def)
qed

theorem list_destroy_frees_all_witness:
  "\<exists>h'. list_destroy (Some demo_list) True demo_heap = Some h' \<and> released h' = [10, 20]"
  using list_destroy_frees_all [OF demo_is_list] by (auto simp: demo_heap_def)

end
