(* ===== verification/NodeTypes.thy ===== *)
theory NodeTypes
  imports LinkHeap
begin

text \<open>
  The data of the node layer: the structs of slal/node/wtsl_core_node_manager.h,
  inc/wtsl_core_api.h and include/wtsl_user_manager.h as records, the permission levels, and the
  IPv4 text format of \<open>inet_pton\<close>/\<open>inet_ntop\<close>.  Character arrays are their contents up to the
  terminator (the arrays of these structs start zeroed, so the bytes after it are zero too, and
  a \<open>memcmp\<close> of two such arrays is an equality of strings).
\<close>

section \<open>Node information\<close>

datatype node_type = Node_Slb_G | Node_Slb_T | Node_Sle_G | Node_Sle_T | Node_Sle_P

fun node_type_code :: "node_type \<Rightarrow> int" where
  "node_type_code Node_Slb_G = 0"
| "node_type_code Node_Slb_T = 1"
| "node_type_code Node_Sle_G = 5"
| "node_type_code Node_Sle_T = 6"
| "node_type_code Node_Sle_P = 7"

record basic_info =
  bi_bw :: int
  bi_tfc_bw :: int
  bi_channel :: int
  bi_type :: int
  bi_rssi :: int
  bi_domain_cnt :: int
  bi_ip :: string
  bi_mac :: string
  bi_version :: string
  bi_name :: string
  bi_domain_name :: string
  bi_log_port :: int
  bi_net_manage_ip :: string
  bi_auto_join_net_mac :: "string list"
  bi_auto_join_net_flag :: int
  bi_bridge_interfaces :: "string list"
  bi_bridge_interface_num :: int
  bi_dhcp_enable :: int
  bi_aifh_enable :: int
  bi_sle_type :: int
  bi_sle_name :: string
  bi_sle_enable :: int
  bi_trans_tcp_port :: int
  bi_trans_udp_port :: int

record conn_info =
  ci_status :: int
  ci_rtt :: int
  ci_last_sync_time :: int

record node_info =
  basic_info :: basic_info
  conn_info :: conn_info

definition zero_basic :: basic_info where
  "zero_basic = \<lparr>bi_bw = 0, bi_tfc_bw = 0, bi_channel = 0, bi_type = 0, bi_rssi = 0, bi_domain_cnt = 0,
     bi_ip = [], bi_mac = [], bi_version = [], bi_name = [], bi_domain_name = [], bi_log_port = 0,
     bi_net_manage_ip = [], bi_auto_join_net_mac = replicate 3 [], bi_auto_join_net_flag = 0,
     bi_bridge_interfaces = replicate 7 [], bi_bridge_interface_num = 0, bi_dhcp_enable = 0,
     bi_aifh_enable = 0, bi_sle_type = 0, bi_sle_name = [], bi_sle_enable = 0,
     bi_trans_tcp_port = 0, bi_trans_udp_port = 0\<rparr>"

definition zero_info :: node_info where
  "zero_info = \<lparr>basic_info = zero_basic, conn_info = \<lparr>ci_status = 0, ci_rtt = 0, ci_last_sync_time = 0\<rparr>\<rparr>"

section \<open>The advanced parameters\<close>

record mcs_bound =
  mb_user_mac :: string
  mb_min_mcs :: int
  mb_max_mcs :: int

record mib_params =
  mp_cp_type :: int
  mp_symbol_type :: int
  mp_sysmsg_period :: int
  mp_s_cfg_idx :: int

record mcs_entry =
  me_user_idx :: int
  me_ul_mcs :: int
  me_dl_mcs :: int

record rssi_user_info =
  ru_user_idx :: int
  ru_rssi :: int
  ru_rsrp :: int
  ru_snr :: int

text \<open>\<open>user_mcs\<close> and \<open>user_rssi\<close> are counted arrays of 256 entries: lists here.\<close>

record adv_info =
  ai_devid :: int
  ai_password :: string
  ai_cell_id :: int
  ai_power :: int
  ai_cc_offset :: int
  ai_mcs_bound_table :: "mcs_bound list"
  ai_mib_params :: mib_params
  ai_sec_exch_cap :: int
  ai_sec_sec_cap :: int
  ai_lce_mode :: int
  ai_pps_enable :: int
  ai_fem_check :: string
  ai_chip_temperature :: int
  ai_range_opt :: int
  ai_slb_cnt :: int
  ai_glb_cnt :: int
  ai_wds_enable :: int
  ai_wds_mode :: int
  ai_user_mcs :: "mcs_entry list"
  ai_real_pow :: int
  ai_exp_pow :: int
  ai_user_rssi :: "rssi_user_info list"
  ai_fisa_enable :: int

section \<open>The local node\<close>

text \<open>The node type is an \<open>int\<close> in memory: \<open>config_read\<close> stores whatever the file says.\<close>

datatype splink_node_type = SP_GNODE | SP_TNODE

fun sp_code :: "splink_node_type \<Rightarrow> int" where
  "sp_code SP_GNODE = 0"
| "sp_code SP_TNODE = 1"

record splink_info =
  node_info :: node_info
  sp_node_type :: int
  link_state :: int
  user_num :: int
  uid :: int
  sp_mac :: string
  need_refresh :: bool

section \<open>Users and permissions\<close>

text \<open>A permission is a set of bits: 1 read, 2 write, 4 execute; \<open>PERMISSION_ADMIN\<close> is all of them.\<close>

datatype permission_level = PERMISSION_NONE | PERMISSION_READ | PERMISSION_WRITE | PERMISSION_EXECUTE | PERMISSION_ADMIN

fun perm_bits :: "permission_level \<Rightarrow> 32 word" where
  "perm_bits PERMISSION_NONE = 0"
| "perm_bits PERMISSION_READ = 1"
| "perm_bits PERMISSION_WRITE = 2"
| "perm_bits PERMISSION_EXECUTE = 4"
| "perm_bits PERMISSION_ADMIN = 7"

record user_ctx =
  uc_user_id :: int
  uc_group_id :: int
  uc_expire :: int
  uc_last_login_time :: int
  uc_username :: string
  uc_token :: string
  uc_permission :: permission_level

section \<open>IPv4 addresses\<close>

record sockaddr_in =
  sin_port :: "16 word"
  sin_addr :: "32 word"

fun split_on :: "char \<Rightarrow> string \<Rightarrow> string list" where
  "split_on d [] = [[]]"
| "split_on d (c # s) = (if c = d then [] # split_on d s
     else case split_on d s of [] \<Rightarrow> [[c]] | t # ts \<Rightarrow> (c # t) # ts)"

definition octet :: "string \<Rightarrow> 32 word option" where
  "octet s = (if s \<noteq> [] \<and> list_all isdigit s \<and> (hd s = CHR ''0'' \<longrightarrow> s = ''0'') \<and> fst (read_digits 0 s) \<le> 255
     then Some (of_nat (fst (read_digits 0 s))) else None)"

text \<open>\<open>inet_pton(AF_INET, s, &a) > 0\<close>: four decimal octets without leading zeros.\<close>

definition inet_pton :: "string \<Rightarrow> 32 word option" where
  "inet_pton s = (case map octet (split_on (CHR ''.'') s) of
     [Some a, Some b, Some c, Some d] \<Rightarrow> Some (push_bit 24 a + push_bit 16 b + push_bit 8 c + d)
   | _ \<Rightarrow> None)"

end
