(* ===== verification/NodeList.thy ===== *)
theory NodeList
  imports NodeTypes
begin

text \<open>
  The list of known nodes (slal/node/wtsl_core_node_list.c) on its heap: list cells hold a
  \<open>WTSLNode\<close> by value, a node points to its own allocated interface table, and the list record
  keeps head, tail and count.  A \<open>WTSLNode *\<close> into the list is the address of its cell; a node
  made by \<open>create_new_wtsl_node\<close> lives outside the list until it is copied into it.

  The lemmas relate the heap to the sequence of nodes it stores (\<open>is_nlist h l ns\<close>, which includes
  that \<open>tail\<close> is the last cell and \<open>node_count\<close> the length) and give every operation as the
  function it computes on that sequence; \<open>owns\<close> adds that the interface tables are allocated and
  not shared, which is what makes deletion and destruction free of double frees.
\<close>

section \<open>State\<close>

text \<open>\<open>perm_map\<close> is set to the global map by one constructor and left unset by the other.\<close>

record wnode =
  nd_id :: int
  nd_active :: int
  nd_addr :: sockaddr_in
  nd_last_heartbeat :: int
  nd_type :: int
  nd_info :: node_info
  nd_interface :: "nat option"
  nd_perm_map :: bool

record nheap = allocator +
  ncells :: "wnode cells"
  nodes :: "nat \<rightharpoonup> wnode"
  ifaces :: "nat set"

record nlist =
  lhead :: "nat option"
  ltail :: "nat option"
  node_count :: int

definition nd_mac :: "wnode \<Rightarrow> string" where
  "nd_mac n = bi_mac (basic_info (nd_info n))"

section \<open>Construction\<close>

definition create_wtsl_node_list :: "nheap \<Rightarrow> nlist option \<times> nheap" where
  "create_wtsl_node_list h = (case malloc h of
     (None, h1) \<Rightarrow> (None, h1)
   | (Some _, h1) \<Rightarrow> (Some \<lparr>lhead = None, ltail = None, node_count = 0\<rparr>, h1))"

definition create_node_interface :: "nheap \<Rightarrow> nat option \<times> nheap" where
  "create_node_interface h = (case malloc h of
     (None, h1) \<Rightarrow> (None, h1)
   | (Some i, h1) \<Rightarrow> (Some i, h1\<lparr>ifaces := insert i (ifaces h1)\<rparr>))"

text \<open>\<open>junk\<close> is what the uninitialised memory of \<open>malloc\<close> holds.\<close>

definition create_new_wtsl_node :: "wnode \<Rightarrow> nheap \<Rightarrow> nat option \<times> nheap" where
  "create_new_wtsl_node junk h = (case malloc h of
     (None, h1) \<Rightarrow> (None, h1)
   | (Some a, h1) \<Rightarrow> (case create_node_interface h1 of
        (None, h2) \<Rightarrow> (None, h2)
      | (Some i, h2) \<Rightarrow> (Some a, h2\<lparr>nodes := (nodes h2)(a \<mapsto> junk\<lparr>nd_interface := Some i, nd_perm_map := True\<rparr>)\<rparr>)))"

definition create_wtsl_node ::
    "wnode \<Rightarrow> int \<Rightarrow> int \<Rightarrow> int \<Rightarrow> string \<Rightarrow> int \<Rightarrow> string \<Rightarrow> nheap \<Rightarrow> nat option \<times> nheap" where
  "create_wtsl_node junk now nid ty ip port nm h = (case malloc h of
     (None, h1) \<Rightarrow> (None, h1)
   | (Some a, h1) \<Rightarrow> (case inet_pton ip of
        None \<Rightarrow> (None, h1)
      | Some ia \<Rightarrow> (case create_node_interface h1 of
           (None, h2) \<Rightarrow> (None, h2)
         | (Some i, h2) \<Rightarrow> (Some a, h2\<lparr>nodes := (nodes h2)(a \<mapsto>
              \<lparr>nd_id = nid, nd_active = nd_active junk,
               nd_addr = \<lparr>sin_port = word_of_int port, sin_addr = ia\<rparr>, nd_last_heartbeat = now,
               nd_type = ty, nd_info = zero_info\<lparr>basic_info := zero_basic\<lparr>bi_name := cbuf 128 nm\<rparr>\<rparr>,
               nd_interface = Some i, nd_perm_map = nd_perm_map junk\<rparr>)\<rparr>))))"

section \<open>Insertion\<close>

definition add_wtsl_node_to_list_tail ::
    "nlist option \<Rightarrow> wnode option \<Rightarrow> nheap \<Rightarrow> (int \<times> nlist option \<times> nheap) option" where
  "add_wtsl_node_to_list_tail lp np h = (case (lp, np) of
     (Some l, Some n) \<Rightarrow> (case malloc h of
        (None, h1) \<Rightarrow> Some (-1, lp, h1)
      | (Some a, h1) \<Rightarrow>
          let h2 = h1\<lparr>ncells := (ncells h1)(a \<mapsto> \<lparr>val = n, nxt = None\<rparr>)\<rparr> in
          (case lhead l of
             None \<Rightarrow> Some (0, Some (l\<lparr>lhead := Some a, ltail := Some a, node_count := node_count l + 1\<rparr>), h2)
           | Some _ \<Rightarrow> do {
               t \<leftarrow> ltail l;
               c \<leftarrow> ncells h2 t;
               Some (0, Some (l\<lparr>ltail := Some a, node_count := node_count l + 1\<rparr>),
                     h2\<lparr>ncells := (ncells h2)(t \<mapsto> c\<lparr>nxt := Some a\<rparr>)\<rparr>) }))
   | _ \<Rightarrow> Some (-1, lp, h))"

definition add_wtsl_node_to_list_head ::
    "nlist option \<Rightarrow> wnode option \<Rightarrow> nheap \<Rightarrow> int \<times> nlist option \<times> nheap" where
  "add_wtsl_node_to_list_head lp np h = (case (lp, np) of
     (Some l, Some n) \<Rightarrow> (case malloc h of
        (None, h1) \<Rightarrow> (-1, lp, h1)
      | (Some a, h1) \<Rightarrow>
          (0, Some (l\<lparr>lhead := Some a, ltail := (if ltail l = None then Some a else ltail l),
                     node_count := node_count l + 1\<rparr>),
           h1\<lparr>ncells := (ncells h1)(a \<mapsto> \<lparr>val = n, nxt = lhead l\<rparr>)\<rparr>))
   | _ \<Rightarrow> (-1, lp, h))"

section \<open>Traversal and search\<close>

partial_function (option) visit_loop :: "nheap \<Rightarrow> nat option \<Rightarrow> wnode list option" where
  "visit_loop h p = (case p of None \<Rightarrow> Some []
     | Some a \<Rightarrow> do { c \<leftarrow> ncells h a; r \<leftarrow> visit_loop h (nxt c); Some (val c # r) })"

text \<open>The nodes \<open>traverse_list\<close> hands to its callback, in order.\<close>

definition traverse_list :: "nlist option \<Rightarrow> bool \<Rightarrow> nheap \<Rightarrow> wnode list option" where
  "traverse_list lp callback h = (case lp of
     None \<Rightarrow> Some [] | Some l \<Rightarrow> if callback then visit_loop h (lhead l) else Some [])"

partial_function (option) active_loop :: "nheap \<Rightarrow> nat option \<Rightarrow> int \<Rightarrow> int option" where
  "active_loop h p count = (case p of None \<Rightarrow> Some count
     | Some a \<Rightarrow> do { c \<leftarrow> ncells h a;
         active_loop h (nxt c) (if nd_active (val c) \<noteq> 0 then count + 1 else count) })"

definition get_active_wtsl_node_count :: "nlist option \<Rightarrow> nheap \<Rightarrow> int option" where
  "get_active_wtsl_node_count lp h = (case lp of None \<Rightarrow> Some (-1) | Some l \<Rightarrow> active_loop h (lhead l) 0)"

partial_function (option) search_loop :: "nheap \<Rightarrow> (wnode \<Rightarrow> bool) \<Rightarrow> nat option \<Rightarrow> nat option option" where
  "search_loop h P p = (case p of None \<Rightarrow> Some None
     | Some a \<Rightarrow> do { c \<leftarrow> ncells h a;
         if P (val c) then Some (Some a) else search_loop h P (nxt c) })"

definition find_wtsl_node_by_id :: "nlist option \<Rightarrow> int \<Rightarrow> nheap \<Rightarrow> nat option option" where
  "find_wtsl_node_by_id lp nid h = (case lp of None \<Rightarrow> Some None
     | Some l \<Rightarrow> search_loop h (\<lambda>n. nd_id n = nid) (lhead l))"

definition find_wtsl_node_by_mac :: "nlist option \<Rightarrow> string option \<Rightarrow> nheap \<Rightarrow> nat option option" where
  "find_wtsl_node_by_mac lp macp h = (case (lp, macp) of
     (Some l, Some mac) \<Rightarrow> search_loop h (\<lambda>n. strncaseeq (length mac) (nd_mac n) mac) (lhead l)
   | _ \<Rightarrow> Some None)"

definition find_wtsl_node_by_ip :: "nlist option \<Rightarrow> string option \<Rightarrow> nheap \<Rightarrow> nat option option" where
  "find_wtsl_node_by_ip lp ipp h = (case (lp, ipp) of
     (Some l, Some ip) \<Rightarrow> (case inet_pton ip of
        None \<Rightarrow> Some None
      | Some target \<Rightarrow> search_loop h (\<lambda>n. sin_addr (nd_addr n) = target) (lhead l))
   | _ \<Rightarrow> Some None)"

definition find_wtsl_node_by_ip_port :: "nlist option \<Rightarrow> string option \<Rightarrow> int \<Rightarrow> nheap \<Rightarrow> nat option option" where
  "find_wtsl_node_by_ip_port lp ipp port h = (case (lp, ipp) of
     (Some l, Some ip) \<Rightarrow> (case inet_pton ip of
        None \<Rightarrow> Some None
      | Some target \<Rightarrow> search_loop h (\<lambda>n. sin_port (nd_addr n) = word_of_int port \<and>
                                         sin_addr (nd_addr n) = target) (lhead l))
   | _ \<Rightarrow> Some None)"

section \<open>Deletion\<close>

text \<open>\<open>free(node->interface)\<close>: a table that is not allocated is a fault, NULL is skipped.\<close>

definition free_iface :: "nat option \<Rightarrow> nheap \<Rightarrow> nheap option" where
  "free_iface p h = (case p of None \<Rightarrow> Some h
     | Some i \<Rightarrow> if i \<in> ifaces h then Some (h\<lparr>ifaces := ifaces h - {i}\<rparr>) else None)"

partial_function (option) locate :: "nheap \<Rightarrow> int \<Rightarrow> nat option \<Rightarrow> nat option \<Rightarrow> (nat option \<times> nat option) option" where
  "locate h nid prev cur = (case cur of None \<Rightarrow> Some (prev, None)
     | Some a \<Rightarrow> do { c \<leftarrow> ncells h a;
         if nd_id (val c) \<noteq> nid then locate h nid cur (nxt c) else Some (prev, cur) })"

definition delete_wtsl_node_by_id :: "nlist option \<Rightarrow> int \<Rightarrow> nheap \<Rightarrow> (int \<times> nlist option \<times> nheap) option" where
  "delete_wtsl_node_by_id lp nid h = (case lp of None \<Rightarrow> Some (-1, lp, h)
     | Some l \<Rightarrow> if lhead l = None then Some (-1, lp, h) else do {
         (prev, cur) \<leftarrow> locate h nid None (lhead l);
         (case cur of None \<Rightarrow> Some (-1, lp, h)
          | Some a \<Rightarrow> do {
              c \<leftarrow> ncells h a;
              (l1, h1) \<leftarrow> (case prev of
                  None \<Rightarrow> Some (l\<lparr>lhead := nxt c\<rparr>, h)
                | Some b \<Rightarrow> do { pc \<leftarrow> ncells h b;
                    Some (l, h\<lparr>ncells := (ncells h)(b \<mapsto> pc\<lparr>nxt := nxt c\<rparr>)\<rparr>) });
              let l2 = (if ltail l1 = cur then l1\<lparr>ltail := prev\<rparr> else l1);
              h2 \<leftarrow> free_iface (nd_interface (val c)) h1;
              Some (0, Some (l2\<lparr>node_count := node_count l2 - 1\<rparr>),
                    h2\<lparr>ncells := (ncells h2)(a := None)\<rparr>) }) })"

definition destroy_wtsl_node :: "nat option \<Rightarrow> nheap \<Rightarrow> nheap option" where
  "destroy_wtsl_node p h = (case p of None \<Rightarrow> Some h
     | Some a \<Rightarrow> do { n \<leftarrow> nodes h a;
         h1 \<leftarrow> free_iface (nd_interface n) h;
         Some (h1\<lparr>nodes := (nodes h1)(a := None)\<rparr>) })"

partial_function (option) destroy_nodes :: "nat option \<Rightarrow> nheap \<Rightarrow> nheap option" where
  "destroy_nodes p h = (case p of None \<Rightarrow> Some h
     | Some a \<Rightarrow> do { c \<leftarrow> ncells h a;
         h1 \<leftarrow> free_iface (nd_interface (val c)) h;
         destroy_nodes (nxt c) (h1\<lparr>ncells := (ncells h1)(a := None)\<rparr>) })"

definition destroy_wtsl_node_list :: "nlist option \<Rightarrow> nheap \<Rightarrow> nheap option" where
  "destroy_wtsl_node_list lp h = (case lp of None \<Rightarrow> Some h | Some l \<Rightarrow> destroy_nodes (lhead l) h)"

section \<open>Updates\<close>

text \<open>Writing through a node pointer: the cell keeps its \<open>next\<close> pointer.\<close>

definition put_node :: "nat \<Rightarrow> (wnode \<Rightarrow> wnode) \<Rightarrow> nheap \<Rightarrow> nheap option" where
  "put_node a f h = do { c \<leftarrow> ncells h a; Some (h\<lparr>ncells := (ncells h)(a \<mapsto> c\<lparr>val := f (val c)\<rparr>)\<rparr>) }"

definition update_wtsl_node_basicinfo :: "nlist option \<Rightarrow> basic_info \<Rightarrow> nheap \<Rightarrow> (int \<times> nheap) option" where
  "update_wtsl_node_basicinfo lp bi h = do {
     p \<leftarrow> find_wtsl_node_by_mac lp (Some (bi_mac bi)) h;
     (case p of None \<Rightarrow> Some (-1, h)
      | Some a \<Rightarrow> do { h1 \<leftarrow> put_node a (\<lambda>n. n\<lparr>nd_info := (nd_info n)\<lparr>basic_info := bi\<rparr>\<rparr>) h; Some (0, h1) }) }"

definition update_wtsl_node :: "nlist option \<Rightarrow> wnode \<Rightarrow> nheap \<Rightarrow> (int \<times> nheap) option" where
  "update_wtsl_node lp n h = do {
     p \<leftarrow> find_wtsl_node_by_mac lp (Some (nd_mac n)) h;
     (case p of None \<Rightarrow> Some (-1, h)
      | Some a \<Rightarrow> do { h1 \<leftarrow> put_node a (\<lambda>_. n) h; Some (0, h1) }) }"

definition update_wtsl_node_heartbeat :: "int \<Rightarrow> nlist option \<Rightarrow> int \<Rightarrow> nheap \<Rightarrow> (int \<times> nheap) option" where
  "update_wtsl_node_heartbeat now lp nid h = do {
     p \<leftarrow> find_wtsl_node_by_id lp nid h;
     (case p of None \<Rightarrow> Some (-1, h)
      | Some a \<Rightarrow> do { h1 \<leftarrow> put_node a (\<lambda>n. n\<lparr>nd_last_heartbeat := now, nd_active := 1\<rparr>) h; Some (0, h1) }) }"

section \<open>The stored sequence\<close>

definition nodes_at :: "nheap \<Rightarrow> nat list \<Rightarrow> wnode list" where
  "nodes_at h as = map (\<lambda>a. val (the (ncells h a))) as"

definition nrep :: "nheap \<Rightarrow> nlist \<Rightarrow> nat list \<Rightarrow> bool" where
  "nrep h l as \<longleftrightarrow> chain (ncells h) (lhead l) as None \<and>
     ltail l = (if as = [] then None else Some (last as)) \<and>
     node_count l = int (length as) \<and> (\<forall>a \<in> set as. a < brk h)"

definition is_nlist :: "nheap \<Rightarrow> nlist \<Rightarrow> wnode list \<Rightarrow> bool" where
  "is_nlist h l ns \<longleftrightarrow> (\<exists>as. nrep h l as \<and> ns = nodes_at h as)"

text \<open>The interface tables of the listed nodes are allocated and pairwise different.\<close>

definition owns :: "nheap \<Rightarrow> wnode list \<Rightarrow> bool" where
  "owns h ns \<longleftrightarrow> distinct (map nd_interface ns) \<and> (\<forall>n \<in> set ns. \<exists>i \<in> ifaces h. nd_interface n = Some i)"

lemma is_nlistI: "nrep h l as \<Longrightarrow> nodes_at h as = ns \<Longrightarrow> is_nlist h l ns"
  by (auto simp: is_nlist_def)

lemma length_nodes_at [simp]: "length (nodes_at h as) = length as"
  by (simp add: nodes_at_def)

lemma nodes_at_Nil [simp]: "nodes_at h [] = []"
  by (simp add: nodes_at_def)

lemma nodes_at_Cons: "nodes_at h (a # as) = val (the (ncells h a)) # nodes_at h as"
  by (simp add: nodes_at_def)

lemma nodes_at_append: "nodes_at h (as @ bs) = nodes_at h as @ nodes_at h bs"
  by (simp add: nodes_at_def)

lemma nodes_at_nth [simp]: "k < length as \<Longrightarrow> nodes_at h as ! k = val (the (ncells h (as ! k)))"
  by (simp add: nodes_at_def)

lemma nodes_at_cong:
  "(\<And>a. a \<in> set as \<Longrightarrow> map_option val (ncells h' a) = map_option val (ncells h a)) \<Longrightarrow>
   set as \<subseteq> dom (ncells h) \<Longrightarrow> nodes_at h' as = nodes_at h as"
  unfolding nodes_at_def by (rule map_cong) fastforce+

lemma nrep_distinct: "nrep h l as \<Longrightarrow> distinct as"
  by (auto simp: nrep_def intro: chain_None_distinct)

lemma nrep_dom: "nrep h l as \<Longrightarrow> set as \<subseteq> dom (ncells h)"
  by (auto simp: nrep_def dest: chain_allocated)

lemma is_nlist_count: "is_nlist h l ns \<Longrightarrow> node_count l = int (length ns)"
  by (auto simp: is_nlist_def nrep_def)

lemma empty_is_nlist: "is_nlist h \<lparr>lhead = None, ltail = None, node_count = 0\<rparr> []"
  by (auto simp: is_nlist_def nrep_def intro!: exI [of _ "[]"])

text \<open>The loops compute on the sequence.\<close>

lemma visit_loop_chain: "chain (ncells h) p as None \<Longrightarrow> visit_loop h p = Some (nodes_at h as)"
  by (induction as arbitrary: p) (auto simp: visit_loop.simps nodes_at_def)

lemma active_loop_chain:
  "chain (ncells h) p as None \<Longrightarrow>
   active_loop h p n = Some (n + int (length (filter (\<lambda>n. nd_active n \<noteq> 0) (nodes_at h as))))"
  by (induction as arbitrary: p n) (auto simp: active_loop.simps nodes_at_def)

lemma search_loop_chain:
  "chain (ncells h) p as None \<Longrightarrow>
   search_loop h P p = Some (map_option ((!) as) (first_index P (nodes_at h as)))"
proof (induction as arbitrary: p)
  case Nil
  then show ?case by (simp add: search_loop.simps)
next
  case (Cons a as)
  then show ?case
    by (cases "first_index P (nodes_at h as)") (auto simp: search_loop.simps [of h P "Some a"] nodes_at_def)
qed

lemma search_nrep:
  "nrep h l as \<Longrightarrow> search_loop h P (lhead l) = Some (map_option ((!) as) (first_index P (nodes_at h as)))"
  by (simp add: nrep_def search_loop_chain)

lemma find_by_id_nrep:
  "nrep h l as \<Longrightarrow> find_wtsl_node_by_id (Some l) i h =
     Some (map_option ((!) as) (first_index (\<lambda>n. nd_id n = i) (nodes_at h as)))"
  by (simp add: find_wtsl_node_by_id_def search_nrep)

lemma find_by_mac_nrep:
  "nrep h l as \<Longrightarrow> find_wtsl_node_by_mac (Some l) (Some m) h =
     Some (map_option ((!) as) (first_index (\<lambda>n. strncaseeq (length m) (nd_mac n) m) (nodes_at h as)))"
  by (simp add: find_wtsl_node_by_mac_def search_nrep)

text \<open>Writing through the pointer of the \<open>k\<close>-th node.\<close>

lemma chain_same_next:
  assumes "chain h p as q" "\<And>a. a \<in> set as \<Longrightarrow> map_option nxt (h' a) = map_option nxt (h a)"
  shows "chain h' p as q"
  using assms
proof (induction as arbitrary: p)
  case (Cons a as)
  then obtain c where "h a = Some c" "chain h (nxt c) as q" "p = Some a" by auto
  moreover from Cons.prems(2) [of a] \<open>h a = Some c\<close> obtain c' where "h' a = Some c'" "nxt c' = nxt c"
    by auto
  ultimately show ?case using Cons.IH Cons.prems(2) by auto
qed simp

lemma put_node_nrep:
  assumes "nrep h l as" "k < length as"
  shows "\<exists>h'. put_node (as ! k) f h = Some h' \<and> nrep h' l as \<and>
    nodes_at h' as = (nodes_at h as)[k := f (nodes_at h as ! k)] \<and>
    ifaces h' = ifaces h \<and> oom h' = oom h \<and> brk h' = brk h \<and> nodes h' = nodes h \<and>
    dom (ncells h') = dom (ncells h)"
proof -
  from nrep_dom [OF assms(1)] nth_mem [OF assms(2)] obtain c where c: "ncells h (as ! k) = Some c" by blast
  let ?h = "h\<lparr>ncells := (ncells h)(as ! k \<mapsto> c\<lparr>val := f (val c)\<rparr>)\<rparr>"
  have "chain (ncells ?h) (lhead l) as None"
    by (rule chain_same_next [of "ncells h"]) (use assms c in \<open>auto simp: nrep_def\<close>)
  then have "nrep ?h l as" using assms(1) by (auto simp: nrep_def)
  moreover have "nodes_at ?h as = (nodes_at h as)[k := f (nodes_at h as ! k)]"
    using assms(2) c nrep_distinct [OF assms(1)]
    by (intro nth_equalityI) (auto simp: nth_list_update nth_eq_iff_index_eq)
  moreover from c have "put_node (as ! k) f h = Some ?h" "dom (ncells ?h) = dom (ncells h)"
    by (auto simp: put_node_def)
  ultimately show ?thesis by auto
qed

text \<open>Only the allocator differs.\<close>

lemma nrep_same_cells:
  "nrep h l as \<Longrightarrow> ncells h' = ncells h \<Longrightarrow> brk h \<le> brk h' \<Longrightarrow> nrep h' l as \<and> nodes_at h' as = nodes_at h as"
  by (fastforce simp: nrep_def nodes_at_def)

lemma add_tail_nrep:
  assumes "nrep h l as"
  shows "\<exists>r l' h'. add_wtsl_node_to_list_tail (Some l) (Some n) h = Some (r, Some l', h') \<and>
    (if fst (malloc h) = None then r = -1 \<and> l' = l \<and> nrep h' l as \<and> nodes_at h' as = nodes_at h as
     else r = 0 \<and> nrep h' l' (as @ [brk h]) \<and> nodes_at h' (as @ [brk h]) = nodes_at h as @ [n]) \<and>
    ifaces h' = ifaces h \<and> nodes h' = nodes h \<and> brk h \<le> brk h' \<and> (oom h = [] \<longrightarrow> oom h' = [])"
proof -
  obtain r h1 where m: "malloc h = (r, h1)" by fastforce
  then show ?thesis
  proof (cases rule: malloc_cases)
    case oom
    with m nrep_same_cells [OF assms, of h1] show ?thesis
      by (simp add: add_wtsl_node_to_list_tail_def)
  next
    case ok
    let ?a = "brk h"
    from assms have new: "?a \<notin> set as" by (auto simp: nrep_def)
    show ?thesis
    proof (cases as rule: rev_cases)
      case Nil
      then show ?thesis using assms
        unfolding add_wtsl_node_to_list_tail_def m ok
        by (simp add: nrep_def nodes_at_def)
    next
      case (snoc bs t)
      with assms have ch: "chain (ncells h) (lhead l) (bs @ [t]) None" and t: "ltail l = Some t"
        by (auto simp: nrep_def)
      then obtain c where c: "ncells h t = Some c" "chain (ncells h) (lhead l) bs (Some t)" "nxt c = None"
        by auto
      from chain_None_distinct [OF ch] have d: "t \<notin> set bs" by simp
      let ?h = "h1\<lparr>ncells := (ncells h)(?a \<mapsto> \<lparr>val = n, nxt = None\<rparr>, t \<mapsto> c\<lparr>nxt := Some ?a\<rparr>)\<rparr>"
      from new snoc have ne: "t \<noteq> ?a" "?a \<notin> set bs" by auto
      obtain p where p: "lhead l = Some p" using ch by (cases bs) auto
      have "add_wtsl_node_to_list_tail (Some l) (Some n) h =
          Some (0, Some (l\<lparr>ltail := Some ?a, node_count := node_count l + 1\<rparr>), ?h)"
        unfolding add_wtsl_node_to_list_tail_def m ok by (simp add: p t c ne)
      moreover have "nrep ?h (l\<lparr>ltail := Some ?a, node_count := node_count l + 1\<rparr>) (as @ [?a])"
        using assms c ne d snoc by (auto simp: nrep_def ok)
      moreover have "nodes_at ?h (as @ [?a]) = nodes_at h as @ [n]"
        using snoc c ne d by (auto simp: nodes_at_def)
      ultimately show ?thesis using m by (simp add: ok)
    qed
  qed
qed

lemma add_head_nrep:
  assumes "nrep h l as"
  shows "\<exists>r l' h'. add_wtsl_node_to_list_head (Some l) (Some n) h = (r, Some l', h') \<and>
    (if fst (malloc h) = None then r = -1 \<and> nrep h' l' as \<and> nodes_at h' as = nodes_at h as
     else r = 0 \<and> nrep h' l' (brk h # as) \<and> nodes_at h' (brk h # as) = n # nodes_at h as)"
proof -
  obtain r h1 where m: "malloc h = (r, h1)" by fastforce
  then show ?thesis
  proof (cases rule: malloc_cases)
    case oom
    with m nrep_same_cells [OF assms, of h1] show ?thesis
      by (simp add: add_wtsl_node_to_list_head_def)
  next
    case ok
    from assms have new: "brk h \<notin> set as" by (auto simp: nrep_def)
    with assms show ?thesis
      unfolding add_wtsl_node_to_list_head_def m ok by (auto simp: nrep_def nodes_at_def)
  qed
qed

lemma locate_chain:
  "chain (ncells h) p as None \<Longrightarrow>
   locate h i prev p = Some (case first_index (\<lambda>n. nd_id n = i) (nodes_at h as) of
       None \<Rightarrow> (if as = [] then prev else Some (last as), None)
     | Some k \<Rightarrow> (if k = 0 then prev else Some (as ! (k - 1)), Some (as ! k)))"
proof (induction as arbitrary: p prev)
  case Nil
  then show ?case by (simp add: locate.simps)
next
  case (Cons a as)
  then obtain c where c: "p = Some a" "ncells h a = Some c" "chain (ncells h) (nxt c) as None" by auto
  show ?case
  proof (cases "nd_id (val c) = i")
    case True
    with c show ?thesis by (simp add: locate.simps [of h i prev "Some a"] nodes_at_Cons)
  next
    case False
    with c Cons.IH [OF c(3), of p] show ?thesis
      by (auto simp: locate.simps [of h i prev "Some a"] nodes_at_Cons nth_Cons' split: option.splits)
  qed
qed

text \<open>Unlinking the \<open>k\<close>-th cell.\<close>

definition unlinked :: "nheap \<Rightarrow> nat list \<Rightarrow> nat \<Rightarrow> nat option \<Rightarrow> wnode cells" where
  "unlinked h as k q = (case k of 0 \<Rightarrow> ncells h
     | Suc j \<Rightarrow> (ncells h)(as ! j \<mapsto> the (ncells h (as ! j))\<lparr>nxt := q\<rparr>))"

lemma chain_unlinked:
  assumes "chain (ncells h) p as None" "k < length as" "ncells h (as ! k) = Some c"
  shows "chain ((unlinked h as k (nxt c))(as ! k := None)) (if k = 0 then nxt c else p)
    (take k as @ drop (Suc k) as) None"
proof -
  have d: "distinct as" using assms(1) by (rule chain_None_distinct)
  have sp: "as = take k as @ as ! k # drop (Suc k) as" using assms(2) by (rule id_take_nth_drop)
  with d have nk: "as ! k \<notin> set (take k as)" "as ! k \<notin> set (drop (Suc k) as)"
    by (metis distinct.simps(2) distinct_append not_distinct_conv_prefix, metis distinct.simps(2) distinct_append)
  from chain_nth_split [OF assms(1,2)] assms(3)
  have pre: "chain (ncells h) p (take k as) (Some (as ! k))"
    and post: "chain (ncells h) (nxt c) (drop (Suc k) as) None" by auto
  show ?thesis
  proof (cases k)
    case 0
    with post nk show ?thesis by (simp add: unlinked_def)
  next
    case (Suc j)
    then have tk: "take k as = take j as @ [as ! j]" using assms(2) by (simp add: take_Suc_conv_app_nth)
    from d sp tk have nj: "as ! j \<notin> set (take j as)" "as ! j \<notin> set (drop (Suc k) as)"
      by (metis disjoint_insert(1) distinct_append list.simps(15) not_distinct_conv_prefix,
          metis append.assoc append_Cons distinct.simps(2) distinct_append in_set_conv_decomp_first Un_iff set_append list.set_intros(2))
    from assms(1,2) Suc obtain cj where cj: "ncells h (as ! j) = Some cj"
      using chain_allocated [OF assms(1)] by (metis Suc_lessD domD nth_mem subsetD)
    from chain_splice [OF pre [unfolded tk] nj(1) post nj(2) cj]
    have "chain (unlinked h as k (nxt c)) p (take k as @ drop (Suc k) as) None"
      using Suc cj tk by (simp add: unlinked_def)
    with nk Suc show ?thesis by simp
  qed
qed

text \<open>What a successful \<open>free_iface\<close> leaves.\<close>

definition without_iface :: "nat set \<Rightarrow> nat option \<Rightarrow> nat set" where
  "without_iface S p = (case p of None \<Rightarrow> S | Some i \<Rightarrow> S - {i})"

definition iface_ok :: "nheap \<Rightarrow> wnode \<Rightarrow> bool" where
  "iface_ok h n \<longleftrightarrow> (case nd_interface n of None \<Rightarrow> True | Some i \<Rightarrow> i \<in> ifaces h)"

lemma free_iface_ok:
  "iface_ok h n \<Longrightarrow> free_iface (nd_interface n) h = Some (h\<lparr>ifaces := without_iface (ifaces h) (nd_interface n)\<rparr>)"
  by (auto simp: iface_ok_def free_iface_def without_iface_def split: option.splits)

lemma free_iface_bad: "\<not> iface_ok h n \<Longrightarrow> free_iface (nd_interface n) h = None"
  by (auto simp: iface_ok_def free_iface_def split: option.splits)

definition without_nth :: "nat \<Rightarrow> 'a list \<Rightarrow> 'a list" where
  "without_nth k xs = take k xs @ drop (Suc k) xs"

lemma length_without_nth: "k < length xs \<Longrightarrow> length (without_nth k xs) = length xs - 1"
  by (simp add: without_nth_def)

lemma last_without_nth:
  "k < length xs \<Longrightarrow> without_nth k xs \<noteq> [] \<Longrightarrow> last (without_nth k xs) =
    (if Suc k = length xs then xs ! (k - 1) else last xs)"
proof (cases "Suc k = length xs")
  case True
  assume "k < length xs" "without_nth k xs \<noteq> []"
  with True show ?thesis by (auto simp: without_nth_def last_conv_nth min_def)
next
  case False
  assume "k < length xs"
  with False show ?thesis by (simp add: without_nth_def last_append)
qed

lemma delete_by_id_nrep:
  assumes "nrep h l as" "first_index (\<lambda>n. nd_id n = i) (nodes_at h as) = Some k" "iface_ok h (nodes_at h as ! k)"
  shows "\<exists>l' h'. delete_wtsl_node_by_id (Some l) i h = Some (0, Some l', h') \<and>
    nrep h' l' (without_nth k as) \<and> nodes_at h' (without_nth k as) = without_nth k (nodes_at h as) \<and>
    ifaces h' = without_iface (ifaces h) (nd_interface (nodes_at h as ! k)) \<and>
    dom (ncells h') = dom (ncells h) - {as ! k}"
proof -
  have ch: "chain (ncells h) (lhead l) as None" and tl: "ltail l = (if as = [] then None else Some (last as))"
    and cnt: "node_count l = int (length as)" and bnd: "\<forall>a \<in> set as. a < brk h"
    using assms(1) by (auto simp: nrep_def)
  from first_index_Some [OF assms(2)] have k: "k < length as" by simp
  then have ne: "as \<noteq> []" "lhead l \<noteq> None" using ch by (auto dest: chain_None_iff)
  from k nrep_dom [OF assms(1)] nth_mem [OF k] obtain c where c: "ncells h (as ! k) = Some c" by blast
  have d: "distinct as" by (rule nrep_distinct) (rule assms)
  let ?u = "unlinked h as k (nxt c)"
  let ?h = "h\<lparr>ncells := ?u(as ! k := None), ifaces := without_iface (ifaces h) (nd_interface (val c))\<rparr>"
  let ?l = "l\<lparr>lhead := (if k = 0 then nxt c else lhead l),
     ltail := (if Suc k = length as then (if k = 0 then None else Some (as ! (k - 1))) else ltail l),
     node_count := node_count l - 1\<rparr>"
  have last: "ltail l = Some (as ! k) \<longleftrightarrow> Suc k = length as"
    using tl ne k d by (auto simp: last_conv_nth nth_eq_iff_index_eq)
  have pre: "ncells h (as ! j) = Some (the (ncells h (as ! j)))" if "k = Suc j" for j
    using nrep_dom [OF assms(1)] k that by (metis Suc_lessD domD nth_mem option.sel subsetD)
  have fi: "free_iface (nd_interface (val c)) g = Some (g\<lparr>ifaces := without_iface (ifaces h) (nd_interface (val c))\<rparr>)"
    if "ifaces g = ifaces h" for g :: nheap
    using assms(3) k c that free_iface_ok [of g "val c"] by (simp add: iface_ok_def split: option.splits)
  have "delete_wtsl_node_by_id (Some l) i h = Some (0, Some ?l, ?h)"
  proof (cases k)
    case 0
    then show ?thesis using ne locate_chain [OF ch, of i None] assms(2) c fi [of h] last
      by (auto simp: delete_wtsl_node_by_id_def unlinked_def)
  next
    case (Suc j)
    with pre obtain pc where "ncells h (as ! j) = Some pc" by blast
    with Suc show ?thesis
      using ne locate_chain [OF ch, of i None] assms(2) c last fi
      by (auto simp: delete_wtsl_node_by_id_def unlinked_def)
  qed
  moreover have "nrep ?h ?l (without_nth k as)"
    using chain_unlinked [OF ch k c] tl ne k cnt bnd last_without_nth [OF k]
    by (auto simp: nrep_def without_nth_def length_without_nth dest: in_set_takeD in_set_dropD)
  moreover have "nodes_at ?h (without_nth k as) = without_nth k (nodes_at h as)"
  proof -
    have "as ! k \<notin> set (without_nth k as)"
      using d k by (auto simp: without_nth_def in_set_conv_nth nth_eq_iff_index_eq)
    then have "nodes_at ?h (without_nth k as) = nodes_at h (without_nth k as)"
      by (auto simp: nodes_at_def unlinked_def split: nat.splits)
    then show ?thesis by (simp add: nodes_at_def without_nth_def take_map drop_map)
  qed
  moreover have "dom ?u = dom (ncells h)"
    using pre by (auto simp: unlinked_def split: nat.splits)
  ultimately show ?thesis using c k by auto
qed

lemma owns_iface_ok: "owns h ns \<Longrightarrow> n \<in> set ns \<Longrightarrow> iface_ok h n"
  by (fastforce simp: owns_def iface_ok_def)

lemma owns_without_nth:
  assumes "owns h ns" "k < length ns" "nd_interface (ns ! k) = Some t" "ifaces h' = ifaces h - {t}"
  shows "owns h' (take k ns @ drop (Suc k) ns)"
proof -
  let ?r = "take k ns @ drop (Suc k) ns"
  have sp: "ns = take k ns @ ns ! k # drop (Suc k) ns" using assms(2) by (rule id_take_nth_drop)
  have dist: "distinct (map nd_interface (take k ns @ ns ! k # drop (Suc k) ns))"
    and all: "\<forall>n \<in> set (take k ns @ ns ! k # drop (Suc k) ns). \<exists>i \<in> ifaces h. nd_interface n = Some i"
    using assms(1) unfolding sp [symmetric] by (auto simp: owns_def)
  from dist assms(3) have "Some t \<notin> nd_interface ` set ?r" by auto
  with all assms(4) have "\<forall>n \<in> set ?r. \<exists>i \<in> ifaces h'. nd_interface n = Some i" by force
  moreover from dist have "distinct (map nd_interface ?r)" by auto
  ultimately show ?thesis by (simp add: owns_def)
qed

lemma destroy_nodes_chain:
  "chain (ncells h) p as None \<Longrightarrow> owns h (nodes_at h as) \<Longrightarrow>
   \<exists>h'. destroy_nodes p h = Some h' \<and> dom (ncells h') = dom (ncells h) - set as \<and>
     ifaces h' = {i \<in> ifaces h. Some i \<notin> nd_interface ` set (nodes_at h as)}"
proof (induction as arbitrary: p h)
  case Nil
  then show ?case by (simp add: destroy_nodes.simps)
next
  case (Cons a as)
  then obtain c where c: "p = Some a" "ncells h a = Some c" "chain (ncells h) (nxt c) as None" by auto
  from chain_None_distinct [OF Cons.prems(1)] have nin: "a \<notin> set as" by simp
  from Cons.prems(2) c obtain i where i: "nd_interface (val c) = Some i" "i \<in> ifaces h"
    by (auto simp: owns_def nodes_at_Cons)
  let ?h = "h\<lparr>ifaces := ifaces h - {i}, ncells := (ncells h)(a := None)\<rparr>"
  from nin have same: "nodes_at ?h as = nodes_at h as" by (auto simp: nodes_at_def)
  have "owns ?h (nodes_at ?h as)"
  proof -
    from Cons.prems(2) c i have "Some i \<notin> nd_interface ` set (nodes_at h as)"
      and d: "distinct (map nd_interface (nodes_at h as))"
      and "\<forall>n \<in> set (nodes_at h as). \<exists>j \<in> ifaces h. nd_interface n = Some j"
      by (auto simp: owns_def nodes_at_Cons)
    then have "\<forall>n \<in> set (nodes_at h as). \<exists>j \<in> ifaces h - {i}. nd_interface n = Some j"
      by (metis DiffI imageI singletonD)
    with d show ?thesis by (simp add: owns_def same)
  qed
  moreover from c(3) nin have "chain (ncells ?h) (nxt c) as None" by simp
  ultimately obtain h' where
    h': "destroy_nodes (nxt c) ?h = Some h'" "dom (ncells h') = dom (ncells ?h) - set as"
      "ifaces h' = {j \<in> ifaces ?h. Some j \<notin> nd_interface ` set (nodes_at h as)}"
    using Cons.IH [of ?h "nxt c"] unfolding same by blast
  then have "destroy_nodes p h = Some h'"
    using c i by (simp add: destroy_nodes.simps [of "Some a" h] free_iface_def)
  with h' c i show ?case by (auto simp: nodes_at_Cons)
qed

section \<open>The registry interface\<close>

text \<open>
  What the node service and the request handlers rely on: a registry stores a sequence of
  nodes; a node found by id is referred to by a pointer through which it is read and changed in
  place; appending keeps the nodes already stored.
\<close>

locale node_registry =
  fixes holds :: "'s \<Rightarrow> wnode list \<Rightarrow> bool"
    and room :: "'s \<Rightarrow> bool"
    and size :: "'s \<Rightarrow> int"
    and lookup :: "int \<Rightarrow> 's \<Rightarrow> 'p option option"
    and fetch :: "'p \<Rightarrow> 's \<Rightarrow> wnode option"
    and modify :: "'p \<Rightarrow> (wnode \<Rightarrow> wnode) \<Rightarrow> 's \<Rightarrow> 's option"
    and append :: "wnode \<Rightarrow> 's \<Rightarrow> 's option"
    and place :: "'s \<Rightarrow> nat \<Rightarrow> 'p"
  assumes size_holds: "holds s ns \<Longrightarrow> size s = int (length ns)"
    and lookup_holds: "holds s ns \<Longrightarrow>
      lookup i s = Some (map_option (place s) (first_index (\<lambda>n. nd_id n = i) ns))"
    and fetch_place: "holds s ns \<Longrightarrow> k < length ns \<Longrightarrow> fetch (place s k) s = Some (ns ! k)"
    and modify_place: "holds s ns \<Longrightarrow> k < length ns \<Longrightarrow>
      \<exists>s'. modify (place s k) f s = Some s' \<and> holds s' (ns[k := f (ns ! k)])"
    and append_holds: "holds s ns \<Longrightarrow> room s \<Longrightarrow> \<exists>s'. append n s = Some s' \<and> holds s' (ns @ [n])"

text \<open>Ids are positions: what \<open>parse_data_heartbeat\<close> gives a new node.\<close>

definition ids_positional :: "wnode list \<Rightarrow> bool" where
  "ids_positional ns \<longleftrightarrow> map nd_id ns = map int [0..<length ns]"

lemma ids_positional_nth: "ids_positional ns \<Longrightarrow> k < length ns \<Longrightarrow> nd_id (ns ! k) = int k"
  unfolding ids_positional_def by (metis add.left_neutral length_map nth_map nth_upt)

lemma ids_positional_append:
  "ids_positional ns \<Longrightarrow> nd_id n = int (length ns) \<Longrightarrow> ids_positional (ns @ [n])"
  by (simp add: ids_positional_def)

lemma ids_positional_update:
  "ids_positional ns \<Longrightarrow> nd_id n = nd_id (ns ! k) \<Longrightarrow> ids_positional (ns[k := n])"
proof (cases "k < length ns")
  case True
  assume "nd_id n = nd_id (ns ! k)"
  then have "map nd_id (ns[k := n]) = map nd_id ns"
    using True by (simp add: map_update list_update_same_conv)
  moreover assume "ids_positional ns"
  ultimately show ?thesis by (simp add: ids_positional_def)
qed (simp add: list_update_beyond)

lemma first_index_unique:
  assumes "k < length xs" "P (xs ! k)" "\<And>j. j < length xs \<Longrightarrow> P (xs ! j) \<Longrightarrow> j = k"
  shows "first_index P xs = Some k"
proof (cases "first_index P xs")
  case None
  with assms(1,2) nth_mem show ?thesis by (metis first_index_None)
next
  case (Some j)
  with first_index_Some [OF Some] assms(3) show ?thesis by simp
qed

text \<open>The scan of the node service: \<open>for (i = 0; i < count; i++) \{ p = find_by_id(i); ... \}\<close>, which
  skips the ids it does not find and stops at the first node accepted.\<close>

fun scan_ids :: "(int \<Rightarrow> 'p option option) \<Rightarrow> ('p \<Rightarrow> bool option) \<Rightarrow> nat \<Rightarrow> nat \<Rightarrow> 'p option option" where
  "scan_ids look accept i 0 = Some None"
| "scan_ids look accept i (Suc n) = do {
     p \<leftarrow> look (int i);
     (case p of None \<Rightarrow> scan_ids look accept (Suc i) n
      | Some a \<Rightarrow> do { b \<leftarrow> accept a;
          if b then Some (Some a) else scan_ids look accept (Suc i) n }) }"

context node_registry begin

lemma lookup_position:
  assumes "holds s ns" "ids_positional ns" "k < length ns"
  shows "lookup (int k) s = Some (Some (place s k))"
proof -
  have "first_index (\<lambda>n. nd_id n = int k) ns = Some k"
    by (rule first_index_unique) (use assms in \<open>auto simp: ids_positional_nth\<close>)
  with lookup_holds [OF assms(1)] show ?thesis by simp
qed

lemma scan_from:
  assumes "holds s ns" "ids_positional ns" "i + n = length ns"
  shows "scan_ids (\<lambda>j. lookup j s) (\<lambda>p. map_option P (fetch p s)) i n =
    Some (map_option (\<lambda>k. place s (i + k)) (first_index P (drop i ns)))"
  using assms(3)
proof (induction n arbitrary: i)
  case 0
  then show ?case by simp
next
  case (Suc n)
  then have i: "i < length ns" by simp
  then have dr: "drop i ns = ns ! i # drop (Suc i) ns" by (rule Cons_nth_drop_Suc [symmetric])
  from i Suc.IH [of "Suc i"] Suc.prems show ?case
    by (cases "first_index P (drop (Suc i) ns)")
      (auto simp: lookup_position [OF assms(1,2)] fetch_place [OF assms(1)] dr)
qed

lemma scan_first:
  assumes "holds s ns" "ids_positional ns"
  shows "scan_ids (\<lambda>j. lookup j s) (\<lambda>p. map_option P (fetch p s)) 0 (nat (size s)) =
    Some (map_option (place s) (first_index P ns))"
  using scan_from [OF assms, of 0 "length ns"] size_holds [OF assms(1)] by simp

end

text \<open>The model's list is such a registry; its state is the list record with its heap.\<close>

type_synonym nstate = "nlist \<times> nheap"

definition reg_holds :: "nstate \<Rightarrow> wnode list \<Rightarrow> bool" where
  "reg_holds s ns \<longleftrightarrow> is_nlist (snd s) (fst s) ns"

definition reg_room :: "nstate \<Rightarrow> bool" where
  "reg_room s \<longleftrightarrow> oom (snd s) = []"

definition reg_lookup :: "int \<Rightarrow> nstate \<Rightarrow> nat option option" where
  "reg_lookup i s = find_wtsl_node_by_id (Some (fst s)) i (snd s)"

definition reg_fetch :: "nat \<Rightarrow> nstate \<Rightarrow> wnode option" where
  "reg_fetch a s = map_option val (ncells (snd s) a)"

definition reg_modify :: "nat \<Rightarrow> (wnode \<Rightarrow> wnode) \<Rightarrow> nstate \<Rightarrow> nstate option" where
  "reg_modify a f s = map_option (Pair (fst s)) (put_node a f (snd s))"

definition reg_append :: "wnode \<Rightarrow> nstate \<Rightarrow> nstate option" where
  "reg_append n s = do {
     (r, lp, h') \<leftarrow> add_wtsl_node_to_list_tail (Some (fst s)) (Some n) (snd s);
     l' \<leftarrow> lp;
     Some (l', h') }"

definition reg_place :: "nstate \<Rightarrow> nat \<Rightarrow> nat" where
  "reg_place s k = (case advance (ncells (snd s)) (lhead (fst s)) k of Some (Some a) \<Rightarrow> a | _ \<Rightarrow> 0)"

lemma reg_place_nrep: "nrep h l as \<Longrightarrow> k < length as \<Longrightarrow> reg_place (l, h) k = as ! k"
  by (auto simp: nrep_def reg_place_def dest: advance_nth)

lemma malloc_room: "oom h = [] \<Longrightarrow> fst (malloc h) = Some (brk h)"
  by (simp add: malloc_def)

interpretation nl: node_registry reg_holds reg_room "\<lambda>s. node_count (fst s)" reg_lookup reg_fetch
  reg_modify reg_append reg_place
proof (unfold_locales, goal_cases)
  case (1 s ns)
  then show ?case by (auto simp: reg_holds_def is_nlist_count)
next
  case (2 s ns i)
  then obtain as where as: "nrep (snd s) (fst s) as" "ns = nodes_at (snd s) as"
    by (auto simp: reg_holds_def is_nlist_def)
  have "map_option ((!) as) (first_index (\<lambda>n. nd_id n = i) ns) =
      map_option (reg_place s) (first_index (\<lambda>n. nd_id n = i) ns)"
    using as reg_place_nrep [OF as(1)]
    by (cases "first_index (\<lambda>n. nd_id n = i) ns") (auto dest!: first_index_Some)
  with find_by_id_nrep [OF as(1), of i] as(2) show ?case by (simp add: reg_lookup_def)
next
  case (3 s ns k)
  then obtain as where as: "nrep (snd s) (fst s) as" "ns = nodes_at (snd s) as" "k < length as"
    by (auto simp: reg_holds_def is_nlist_def)
  from as nrep_dom [OF as(1)] nth_mem [OF as(3)] obtain c where "ncells (snd s) (as ! k) = Some c" by blast
  with as reg_place_nrep [OF as(1,3)] show ?case by (simp add: reg_fetch_def)
next
  case (4 s ns k f)
  then obtain as where as: "nrep (snd s) (fst s) as" "ns = nodes_at (snd s) as" "k < length as"
    by (auto simp: reg_holds_def is_nlist_def)
  from put_node_nrep [OF as(1,3), of f] obtain h' where
    "put_node (as ! k) f (snd s) = Some h'" "nrep h' (fst s) as" "nodes_at h' as = ns[k := f (ns ! k)]"
    unfolding as(2) by blast
  then have "is_nlist h' (fst s) (ns[k := f (ns ! k)])" by (metis is_nlist_def)
  with \<open>put_node _ _ _ = _\<close> reg_place_nrep [OF as(1,3)] show ?case
    by (simp add: reg_modify_def reg_holds_def)
next
  case (5 s ns n)
  then obtain as where as: "nrep (snd s) (fst s) as" "ns = nodes_at (snd s) as" "oom (snd s) = []"
    by (auto simp: reg_holds_def is_nlist_def reg_room_def)
  with add_tail_nrep [OF as(1), of n] malloc_room [OF as(3)] show ?case
    by (auto simp: reg_append_def reg_holds_def intro!: is_nlistI)
qed

section \<open>Properties\<close>

text \<open>A list of two nodes, for the instances of the properties.\<close>

definition demo_node :: "int \<Rightarrow> string \<Rightarrow> nat \<Rightarrow> wnode" where
  "demo_node i m ifc = \<lparr>nd_id = i, nd_active = 1, nd_addr = \<lparr>sin_port = 8081, sin_addr = 0\<rparr>,
     nd_last_heartbeat = 0, nd_type = 0,
     nd_info = zero_info\<lparr>basic_info := zero_basic\<lparr>bi_mac := m\<rparr>\<rparr>, nd_interface = Some ifc, nd_perm_map = True\<rparr>"

definition demo_nheap :: nheap where
  "demo_nheap = \<lparr>brk = 6, oom = [], ncells = [0 \<mapsto> \<lparr>val = demo_node 0 ''AA:01'' 1, nxt = Some 2\<rparr>,
     2 \<mapsto> \<lparr>val = demo_node 1 ''BB:02'' 3, nxt = None\<rparr>], nodes = Map.empty, ifaces = {1, 3}\<rparr>"

definition demo_nlist :: nlist where
  "demo_nlist = \<lparr>lhead = Some 0, ltail = Some 2, node_count = 2\<rparr>"

lemma demo_is_nlist: "is_nlist demo_nheap demo_nlist [demo_node 0 ''AA:01'' 1, demo_node 1 ''BB:02'' 3]"
  unfolding is_nlist_def
  by (rule exI [of _ "[0, 2]"]) (auto simp: nrep_def demo_nheap_def demo_nlist_def nodes_at_def)

lemma demo_owns: "owns demo_nheap [demo_node 0 ''AA:01'' 1, demo_node 1 ''BB:02'' 3]"
  by (simp add: owns_def demo_nheap_def demo_node_def)

text \<open>\<open>add_wtsl_node_to_list_tail\<close> on a well-formed list never faults: with memory it returns 0
  and the list stores the old nodes followed by a copy of the new one, with \<open>tail\<close> and
  \<open>node_count\<close> up to date; without memory it returns -1 and the list is unchanged.\<close>

theorem add_tail_refines:
  assumes "is_nlist h l ns"
  shows "\<exists>r l' h'. add_wtsl_node_to_list_tail (Some l) (Some n) h = Some (r, Some l', h') \<and>
    (if fst (malloc h) = None then r = -1 \<and> is_nlist h' l' ns else r = 0 \<and> is_nlist h' l' (ns @ [n]))"
proof -
  from assms obtain as where as: "nrep h l as" "ns = nodes_at h as" by (auto simp: is_nlist_def)
  from add_tail_nrep [OF as(1), of n] obtain r l' h' where
    "add_wtsl_node_to_list_tail (Some l) (Some n) h = Some (r, Some l', h')"
    "if fst (malloc h) = None then r = -1 \<and> l' = l \<and> nrep h' l as \<and> nodes_at h' as = nodes_at h as
     else r = 0 \<and> nrep h' l' (as @ [brk h]) \<and> nodes_at h' (as @ [brk h]) = nodes_at h as @ [n]" by blast
  then show ?thesis by (auto simp: as(2) intro: is_nlistI split: if_splits)
qed

theorem add_tail_refines_witness:
  "\<exists>l' h'. add_wtsl_node_to_list_tail (Some demo_nlist) (Some (demo_node 2 ''CC:03'' 4)) demo_nheap = Some (0, Some l', h') \<and>
     is_nlist h' l' [demo_node 0 ''AA:01'' 1, demo_node 1 ''BB:02'' 3, demo_node 2 ''CC:03'' 4]"
  using add_tail_refines [OF demo_is_nlist, of "demo_node 2 ''CC:03'' 4"]
  by (auto simp: demo_nheap_def malloc_def)

text \<open>C22. \<open>delete_wtsl_node_by_id\<close> on a well-formed list whose nodes own their interface tables never
  faults: it removes exactly the first node with that id, frees exactly its table and its cell,
  repairs \<open>tail\<close> and the count and keeps the ownership; with no such node it returns -1 and
  changes nothing.\<close>

theorem delete_by_id_refines:
  assumes "is_nlist h l ns" "owns h ns"
  shows "case first_index (\<lambda>n. nd_id n = i) ns of
      None \<Rightarrow> delete_wtsl_node_by_id (Some l) i h = Some (-1, Some l, h)
    | Some k \<Rightarrow> (\<exists>l' h' a t. delete_wtsl_node_by_id (Some l) i h = Some (0, Some l', h') \<and>
        is_nlist h' l' (take k ns @ drop (Suc k) ns) \<and> owns h' (take k ns @ drop (Suc k) ns) \<and>
        nd_interface (ns ! k) = Some t \<and> ifaces h' = ifaces h - {t} \<and>
        map_option val (ncells h a) = Some (ns ! k) \<and> dom (ncells h') = dom (ncells h) - {a})"
proof -
  from assms obtain as where as: "nrep h l as" "ns = nodes_at h as" by (auto simp: is_nlist_def)
  show ?thesis
  proof (cases "first_index (\<lambda>n. nd_id n = i) ns")
    case None
    have "delete_wtsl_node_by_id (Some l) i h = Some (-1, Some l, h)"
      using locate_chain [of h "lhead l" as i None] as None
      by (auto simp: delete_wtsl_node_by_id_def nrep_def)
    with None show ?thesis by simp
  next
    case (Some k)
    then have k: "k < length ns" using first_index_Some by blast
    then obtain t where t: "nd_interface (ns ! k) = Some t" using assms(2) nth_mem by (fastforce simp: owns_def)
    from as k nrep_dom [OF as(1)] nth_mem [of k as] obtain c where "ncells h (as ! k) = Some c"
      by (metis domD length_nodes_at subsetD)
    then have v: "map_option val (ncells h (as ! k)) = Some (ns ! k)" using as k by simp
    have ok: "iface_ok h (nodes_at h as ! k)" using owns_iface_ok [OF assms(2)] k as(2) nth_mem by metis
    from delete_by_id_nrep [OF as(1) Some [unfolded as(2)] ok] obtain l' h' where
      d: "delete_wtsl_node_by_id (Some l) i h = Some (0, Some l', h')" "nrep h' l' (without_nth k as)"
        "nodes_at h' (without_nth k as) = without_nth k ns"
        "ifaces h' = without_iface (ifaces h) (nd_interface (ns ! k))"
        "dom (ncells h') = dom (ncells h) - {as ! k}" unfolding as(2) by blast
    with owns_without_nth [OF assms(2) k t, of h'] Some t v show ?thesis
      by (auto simp: without_nth_def without_iface_def intro: is_nlistI)
  qed
qed

theorem delete_by_id_refines_witness:
  "\<exists>l' h'. delete_wtsl_node_by_id (Some demo_nlist) 1 demo_nheap = Some (0, Some l', h') \<and>
     is_nlist h' l' [demo_node 0 ''AA:01'' 1] \<and> ifaces h' = {1}"
  using delete_by_id_refines [OF demo_is_nlist demo_owns, of 1]
  by (auto simp: demo_nheap_def demo_node_def)

text \<open>\<open>destroy_wtsl_node_list\<close> on a well-formed list that owns its interface tables never faults:
  every cell and every table of the list is freed once, nothing else is.\<close>

theorem destroy_node_list_frees_all:
  assumes "is_nlist h l ns" "owns h ns"
  shows "\<exists>h' as. destroy_wtsl_node_list (Some l) h = Some h' \<and> chain (ncells h) (lhead l) as None \<and>
    distinct as \<and> length as = length ns \<and> dom (ncells h') = dom (ncells h) - set as \<and>
    ifaces h' = {i \<in> ifaces h. Some i \<notin> nd_interface ` set ns}"
proof -
  from assms obtain as where as: "nrep h l as" "ns = nodes_at h as" by (auto simp: is_nlist_def)
  with destroy_nodes_chain [of h "lhead l" as] assms(2) nrep_distinct [OF as(1)] show ?thesis
    by (auto simp: destroy_wtsl_node_list_def nrep_def)
qed

theorem destroy_node_list_frees_all_witness:
  "\<exists>h'. destroy_wtsl_node_list (Some demo_nlist) demo_nheap = Some h' \<and> ifaces h' = {}"
  using destroy_node_list_frees_all [OF demo_is_nlist demo_owns]
  by (auto simp: demo_nheap_def demo_node_def)

end
