(* ===== verification/NodeService.thy ===== *)
theory NodeService
  imports NodeList
begin

text \<open>
  The node service (slal/node/wtsl_core_node_service.c), the address helpers it uses
  (utils/wtsl_core_net_utils.c) and the threads of slal/wtsl_core_splink_state.c that start it:
  frames, the handling of a heartbeat, the receive loop, the DHCP helpers, the registration of
  the local node and the automatic network join.

  The service keeps its nodes in the list of NodeList; it is a client of the locale
  \<open>node_registry\<close>, and its lemmas go through that interface.  The clock, the memory \<open>malloc\<close>
  returns and the layout of the structs on the wire are arguments.
\<close>

section \<open>Addresses\<close>

text \<open>One \<open>getifaddrs\<close> entry: interface name, IPv4 address in text (or another family), loopback
  flag.  The function returns the last address it looked at, and fills \<open>ipstr\<close> only for the
  interface asked for.\<close>

record ifaddr =
  ifa_name :: string
  ifa_inet :: "string option"
  ifa_loopback :: bool

fun ifaddr_loop :: "string \<Rightarrow> ifaddr list \<Rightarrow> string option \<Rightarrow> string option \<Rightarrow> string option \<times> string option" where
  "ifaddr_loop ifname [] addr ipstr = (addr, ipstr)"
| "ifaddr_loop ifname (i # r) addr ipstr = (case ifa_inet i of
     None \<Rightarrow> ifaddr_loop ifname r addr ipstr
   | Some a \<Rightarrow> if ifa_loopback i then ifaddr_loop ifname r addr ipstr
       else if ifa_name i = ifname then (Some a, Some a)
       else ifaddr_loop ifname r (Some a) ipstr)"

text \<open>The result is the returned pointer and what was written to \<open>ipstr\<close>.\<close>

definition get_ipstr_by_ifname :: "ifaddr list option \<Rightarrow> string \<Rightarrow> string option \<times> string option" where
  "get_ipstr_by_ifname ifs ifname = (case ifs of None \<Rightarrow> (None, None) | Some l \<Rightarrow> ifaddr_loop ifname l None None)"

definition upto_last_dot :: "string \<Rightarrow> string option" where
  "upto_last_dot s = (if CHR ''.'' \<in> set s then Some (rev (dropWhile (\<lambda>c. c \<noteq> CHR ''.'') (rev s))) else None)"

definition get_default_gw_ipstr_by_curip :: "string option \<Rightarrow> string option" where
  "get_default_gw_ipstr_by_curip p = do { s \<leftarrow> p; t \<leftarrow> upto_last_dot s; Some (t @ ''1'') }"

section \<open>Frames\<close>

type_synonym bytes = "8 word list"

datatype msg_type = MSG_HEARTBEAT_REQ | MSG_HEARTBEAT_RSP | MSG_COMMAND | MSG_RESPONSE | MSG_UNKNOWN

fun msg_code :: "msg_type \<Rightarrow> int" where
  "msg_code MSG_HEARTBEAT_REQ = 0"
| "msg_code MSG_HEARTBEAT_RSP = 1"
| "msg_code MSG_COMMAND = 2"
| "msg_code MSG_RESPONSE = 3"
| "msg_code MSG_UNKNOWN = 4"

text \<open>
  How the structs lie in memory depends on the target; the record holds the layout: the size of
  a \<open>NodeDataHeader\<close>, its bytes for a type and a time, the type read back, and the bytes of a
  \<open>SPLINK_INFO\<close> and their reading.
\<close>

record layout =
  hdr_size :: nat
  put_hdr :: "int \<Rightarrow> int \<Rightarrow> bytes"
  get_type :: "bytes \<Rightarrow> int"
  put_info :: "splink_info \<Rightarrow> bytes"
  get_info :: "bytes \<Rightarrow> splink_info"

text \<open>The return value and the datagram handed to \<open>sendto\<close>; the payload starts one byte behind the header.\<close>

definition send_data_to_addr :: "layout \<Rightarrow> int \<Rightarrow> msg_type \<Rightarrow> bytes \<Rightarrow> int \<times> bytes option" where
  "send_data_to_addr L now ty data =
     (if length data \<ge> 2048 - hdr_size L - 1 then (-1, None)
      else (0, Some (put_hdr L (msg_code ty) now @ [0] @ data)))"

definition send_heartbeat_req :: "layout \<Rightarrow> int \<Rightarrow> sockaddr_in option \<Rightarrow> bytes option \<Rightarrow> int \<times> bytes option" where
  "send_heartbeat_req L now to_addr data = (case (to_addr, data) of
     (Some _, Some d) \<Rightarrow> send_data_to_addr L now MSG_HEARTBEAT_REQ d | _ \<Rightarrow> (-1, None))"

definition send_heartbeat_rsp :: "layout \<Rightarrow> int \<Rightarrow> sockaddr_in option \<Rightarrow> bytes option \<Rightarrow> int \<times> bytes option" where
  "send_heartbeat_rsp L now to_addr data = (case (to_addr, data) of
     (Some _, Some d) \<Rightarrow> send_data_to_addr L now MSG_HEARTBEAT_RSP d | _ \<Rightarrow> (-1, None))"

definition send_command :: "layout \<Rightarrow> int \<Rightarrow> sockaddr_in option \<Rightarrow> bytes option \<Rightarrow> int \<times> bytes option" where
  "send_command L now to_addr data = (case (to_addr, data) of
     (Some _, Some d) \<Rightarrow> send_data_to_addr L now MSG_COMMAND d | _ \<Rightarrow> (-1, None))"

section \<open>Heartbeats\<close>

record svc =
  sv_list :: "nlist option"
  sv_heap :: nheap
  sv_sent :: "(sockaddr_in \<times> bytes) list"

definition is_node_not_exist :: "svc \<Rightarrow> splink_info \<Rightarrow> int option" where
  "is_node_not_exist s pinfo = (case sv_list s of
     None \<Rightarrow> Some (-1)
   | Some l \<Rightarrow> do {
       p \<leftarrow> scan_ids (\<lambda>i. find_wtsl_node_by_id (Some l) i (sv_heap s))
              (\<lambda>a. map_option (\<lambda>n. nd_mac n = bi_mac (basic_info (node_info pinfo)))
                     (reg_fetch a (l, sv_heap s)))
              0 (nat (node_count l));
       Some (case p of None \<Rightarrow> -1 | Some _ \<Rightarrow> 0) })"

definition update_heartbeat :: "int \<Rightarrow> sockaddr_in \<Rightarrow> node_info \<Rightarrow> svc \<Rightarrow> svc option" where
  "update_heartbeat now addr ni s = (case sv_list s of
     None \<Rightarrow> Some s
   | Some l \<Rightarrow> do {
       p \<leftarrow> scan_ids (\<lambda>i. find_wtsl_node_by_id (Some l) i (sv_heap s))
              (\<lambda>a. map_option (\<lambda>n. nd_addr n = addr) (reg_fetch a (l, sv_heap s)))
              0 (nat (node_count l));
       (case p of None \<Rightarrow> Some s
        | Some a \<Rightarrow> do {
            h \<leftarrow> put_node a (\<lambda>n. n\<lparr>nd_last_heartbeat := now, nd_active := 1, nd_info := ni\<rparr>) (sv_heap s);
            Some (s\<lparr>sv_heap := h\<rparr>) }) })"

text \<open>The fields written through \<open>pNode\<close>; \<open>None\<close> when \<open>pNode\<close> or the list is NULL.\<close>

definition parse_data_heartbeat ::
    "wnode \<Rightarrow> int \<Rightarrow> sockaddr_in \<Rightarrow> splink_info option \<Rightarrow> svc \<Rightarrow> (int \<times> svc) option" where
  "parse_data_heartbeat junk now addr data s = (case data of
     None \<Rightarrow> Some (-1, s)
   | Some pinfo \<Rightarrow> do {
       ne \<leftarrow> is_node_not_exist s pinfo;
       if ne \<noteq> 0 then (case create_new_wtsl_node junk (sv_heap s) of (node, h1) \<Rightarrow> do {
         a \<leftarrow> node;
         l \<leftarrow> sv_list s;
         n0 \<leftarrow> nodes h1 a;
         let n = n0\<lparr>nd_id := node_count l, nd_active := 1, nd_last_heartbeat := now,
                    nd_addr := addr, nd_info := node_info pinfo\<rparr>;
         (ret, lp, h2) \<leftarrow> add_wtsl_node_to_list_tail (Some l) (Some n) (h1\<lparr>nodes := (nodes h1)(a \<mapsto> n)\<rparr>);
         Some (0, s\<lparr>sv_list := lp, sv_heap := h2\<rparr>) })
       else do {
         s1 \<leftarrow> update_heartbeat now addr (node_info pinfo) s;
         Some (0, s1) } })"

text \<open>The receive buffer is \<open>BUF_SIZE\<close> = 2048 zeroed bytes, of which the datagram fills the first.\<close>

definition recv_buf :: "bytes \<Rightarrow> bytes" where
  "recv_buf d = take 2047 d @ replicate (2048 - length (take 2047 d)) 0"

definition parse_data ::
    "layout \<Rightarrow> splink_info \<Rightarrow> wnode \<Rightarrow> int \<Rightarrow> sockaddr_in \<Rightarrow> bytes \<Rightarrow> svc \<Rightarrow> (int \<times> svc) option" where
  "parse_data L me junk now addr buf s =
     (let ty = get_type L buf;
          info = get_info L (drop (hdr_size L + 1) buf)
      in if ty = msg_code MSG_HEARTBEAT_REQ then do {
           (ret, s1) \<leftarrow> parse_data_heartbeat junk now addr (Some info) s;
           Some (0, case send_heartbeat_rsp L now (Some addr) (Some (put_info L me)) of
                (_, Some d) \<Rightarrow> s1\<lparr>sv_sent := sv_sent s1 @ [(addr, d)]\<rparr>
              | (_, None) \<Rightarrow> s1) }
         else if ty = msg_code MSG_HEARTBEAT_RSP then do {
           (ret, s1) \<leftarrow> parse_data_heartbeat junk now addr (Some info) s;
           Some (0, s1) }
         else Some (0, s))"

text \<open>The receive loop over what \<open>recvfrom\<close> returns while the program runs.\<close>

datatype recv_event = Recv_Timeout | Recv_Error | Recv_Data sockaddr_in bytes

fun recv_thread :: "layout \<Rightarrow> splink_info \<Rightarrow> wnode \<Rightarrow> int \<Rightarrow> recv_event list \<Rightarrow> svc \<Rightarrow> svc option" where
  "recv_thread L me junk now [] s = Some s"
| "recv_thread L me junk now (Recv_Timeout # es) s = recv_thread L me junk (now + 1) es s"
| "recv_thread L me junk now (Recv_Error # es) s = Some s"
| "recv_thread L me junk now (Recv_Data addr d # es) s = do {
     (r, s1) \<leftarrow> parse_data L me junk now addr (recv_buf d) s;
     recv_thread L me junk (now + 1) es s1 }"

text \<open>One round of the heartbeat thread, given the addresses of the interfaces.\<close>

datatype hb_action = Hb_Spin | Hb_Sleep | Hb_Fault | Hb_Invalid | Hb_Send sockaddr_in "int \<times> bytes option"

definition heartbeat_round :: "layout \<Rightarrow> ifaddr list option \<Rightarrow> int \<Rightarrow> splink_info \<Rightarrow> string \<Rightarrow> splink_info option \<Rightarrow> hb_action" where
  "heartbeat_round L ifs now me old_ip pInfo = (case pInfo of None \<Rightarrow> Hb_Spin
     | Some info \<Rightarrow>
        if bi_type (basic_info (node_info info)) \<noteq> node_type_code Node_Slb_G then
          (let ip = (case snd (get_ipstr_by_ifname ifs ''wt_br0:1'') of None \<Rightarrow> old_ip | Some a \<Rightarrow> a)
           in case get_default_gw_ipstr_by_curip (Some ip) of
                None \<Rightarrow> Hb_Fault
              | Some gw \<Rightarrow> (case inet_pton gw of
                   None \<Rightarrow> Hb_Invalid
                 | Some a \<Rightarrow> let to = \<lparr>sin_port = 8081, sin_addr = a\<rparr>
                     in Hb_Send to (send_heartbeat_req L now (Some to) (Some (put_info L me)))))
        else Hb_Sleep)"

section \<open>DHCP helpers\<close>

definition start_dhcpd_cmds :: "bool \<Rightarrow> int \<Rightarrow> string list" where
  "start_dhcpd_cmds conf_opened dhcp_enable =
     [cbuf 64 ''ifconfig wt_br0:1 192.168.100.1'', cbuf 64 ''ifconfig wt_br0:2 192.168.98.1''] @
     (if \<not> conf_opened then []
      else [''chmod +x /tmp/udhcpd.conf''] @ (if dhcp_enable \<noteq> 0 then [''udhcpd /tmp/udhcpd.conf''] else []))"

definition wtsl_core_start_dhcpd_server :: "shell \<Rightarrow> bool \<Rightarrow> int \<Rightarrow> string list \<Rightarrow> string list" where
  "wtsl_core_start_dhcpd_server sh conf_opened dhcp_enable tr = run_cmds sh tr (start_dhcpd_cmds conf_opened dhcp_enable)"

definition start_dhcpc_cmds :: "bool \<Rightarrow> int \<Rightarrow> string list" where
  "start_dhcpc_cmds script_opened dhcp_enable =
     [cbuf 64 ''ifconfig wt_br0:1 192.168.100.9'', cbuf 64 ''ifconfig wt_br0:2 192.168.98.1''] @
     (if \<not> script_opened then []
      else [''chmod +x /tmp/udhcpc_script''] @
        (if dhcp_enable \<noteq> 0 then [cbuf 64 ''udhcpc -i wt_br0:1 -s /tmp/udhcpc_script -q''] else []))"

definition wtsl_core_start_dhcpc_client :: "shell \<Rightarrow> bool \<Rightarrow> int \<Rightarrow> string list \<Rightarrow> string list" where
  "wtsl_core_start_dhcpc_client sh script_opened dhcp_enable tr = run_cmds sh tr (start_dhcpc_cmds script_opened dhcp_enable)"

section \<open>The registry of the service\<close>

text \<open>The service has a list and memory, its list stores \<open>ns\<close>, ids are positions, and the interface
  tables belong to the nodes.\<close>

definition svc_holds :: "svc \<Rightarrow> wnode list \<Rightarrow> bool" where
  "svc_holds s ns \<longleftrightarrow> (\<exists>l. sv_list s = Some l \<and> is_nlist (sv_heap s) l ns) \<and> oom (sv_heap s) = [] \<and>
     ids_positional ns \<and> owns (sv_heap s) ns \<and> (\<forall>i \<in> ifaces (sv_heap s). i < brk (sv_heap s))"

text \<open>The abstract effect of a heartbeat: a node with an unknown MAC is appended, a known MAC
  refreshes the first node that has the sender's address.\<close>

definition refreshed :: "int \<Rightarrow> node_info \<Rightarrow> wnode \<Rightarrow> wnode" where
  "refreshed now ni n = n\<lparr>nd_last_heartbeat := now, nd_active := 1, nd_info := ni\<rparr>"

definition hb_spec :: "wnode \<Rightarrow> int \<Rightarrow> sockaddr_in \<Rightarrow> node_info \<Rightarrow> nat \<Rightarrow> wnode list \<Rightarrow> wnode list" where
  "hb_spec junk now addr ni t ns =
     (if \<exists>n \<in> set ns. nd_mac n = bi_mac (basic_info ni) then
        (case first_index (\<lambda>n. nd_addr n = addr) ns of
           None \<Rightarrow> ns | Some k \<Rightarrow> ns[k := refreshed now ni (ns ! k)])
      else ns @ [junk\<lparr>nd_interface := Some t, nd_perm_map := True, nd_id := int (length ns), nd_active := 1,
                      nd_last_heartbeat := now, nd_addr := addr, nd_info := ni\<rparr>])"

lemma svc_holdsE:
  assumes "svc_holds s ns"
  obtains l where "sv_list s = Some l" "reg_holds (l, sv_heap s) ns" "oom (sv_heap s) = []"
    "ids_positional ns" "owns (sv_heap s) ns" "\<forall>i \<in> ifaces (sv_heap s). i < brk (sv_heap s)"
  using assms by (auto simp: svc_holds_def reg_holds_def)

lemma is_node_not_exist_holds:
  assumes "svc_holds s ns"
  shows "is_node_not_exist s p =
    Some (if \<exists>n \<in> set ns. nd_mac n = bi_mac (basic_info (node_info p)) then 0 else -1)"
proof -
  from assms obtain l where l: "sv_list s = Some l" "reg_holds (l, sv_heap s) ns" "ids_positional ns"
    by (rule svc_holdsE)
  note sc = nl.scan_first [OF l(2,3), where P = "\<lambda>n. nd_mac n = bi_mac (basic_info (node_info p))"]
  show ?thesis
  proof (cases "first_index (\<lambda>n. nd_mac n = bi_mac (basic_info (node_info p))) ns")
    case None
    then have "\<not> (\<exists>n \<in> set ns. nd_mac n = bi_mac (basic_info (node_info p)))"
      by (simp add: first_index_None)
    with None sc l show ?thesis by (simp add: is_node_not_exist_def reg_lookup_def)
  next
    case (Some k)
    then have "\<exists>n \<in> set ns. nd_mac n = bi_mac (basic_info (node_info p))"
      using first_index_Some [OF Some] by (intro bexI [of _ "ns ! k"]) auto
    with Some sc l show ?thesis by (simp add: is_node_not_exist_def reg_lookup_def)
  qed
qed

lemma put_node_frame:
  "put_node a f h = Some h' \<Longrightarrow> ifaces h' = ifaces h \<and> brk h' = brk h \<and> oom h' = oom h"
  by (auto simp: put_node_def bind_eq_Some_conv)

lemma owns_update:
  "owns h ns \<Longrightarrow> nd_interface n = nd_interface (ns ! k) \<Longrightarrow> owns h (ns[k := n])"
proof (cases "k < length ns")
  case True
  assume o: "owns h ns" and i: "nd_interface n = nd_interface (ns ! k)"
  from True i have "map nd_interface (ns[k := n]) = map nd_interface ns"
    by (simp add: map_update list_update_same_conv)
  moreover have "\<exists>i \<in> ifaces h. nd_interface m = Some i" if "m \<in> set (ns[k := n])" for m
  proof -
    from that have "nd_interface m \<in> nd_interface ` set ns"
      by (metis calculation image_eqI set_map)
    with o show ?thesis by (auto simp: owns_def)
  qed
  ultimately show ?thesis using o by (auto simp: owns_def)
qed (simp add: list_update_beyond)

lemma update_heartbeat_holds:
  assumes "svc_holds s ns"
  shows "\<exists>s'. update_heartbeat now addr ni s = Some s' \<and> sv_sent s' = sv_sent s \<and>
    svc_holds s' (case first_index (\<lambda>n. nd_addr n = addr) ns of
      None \<Rightarrow> ns | Some k \<Rightarrow> ns[k := refreshed now ni (ns ! k)])"
proof -
  from assms obtain l where l: "sv_list s = Some l" "reg_holds (l, sv_heap s) ns" "ids_positional ns"
    and o: "oom (sv_heap s) = []" "owns (sv_heap s) ns" "\<forall>i \<in> ifaces (sv_heap s). i < brk (sv_heap s)"
    by (rule svc_holdsE)
  note sc = nl.scan_first [OF l(2,3), where P = "\<lambda>n. nd_addr n = addr"]
  show ?thesis
  proof (cases "first_index (\<lambda>n. nd_addr n = addr) ns")
    case None
    with sc l assms show ?thesis by (auto simp: update_heartbeat_def reg_lookup_def)
  next
    case (Some k)
    then have k: "k < length ns" using first_index_Some by blast
    from nl.modify_place [OF l(2) k, of "refreshed now ni"] obtain h' where
      h': "put_node (reg_place (l, sv_heap s) k) (refreshed now ni) (sv_heap s) = Some h'"
        "reg_holds (l, h') (ns[k := refreshed now ni (ns ! k)])"
      by (auto simp: reg_modify_def)
    have "refreshed now ni = (\<lambda>n. n\<lparr>nd_last_heartbeat := now, nd_active := 1, nd_info := ni\<rparr>)"
      by (simp add: refreshed_def fun_eq_iff)
    with sc l Some h' have "update_heartbeat now addr ni s = Some (s\<lparr>sv_heap := h'\<rparr>)"
      by (simp add: update_heartbeat_def reg_lookup_def)
    moreover have "svc_holds (s\<lparr>sv_heap := h'\<rparr>) (ns[k := refreshed now ni (ns ! k)])"
    proof -
      have same: "nd_id (refreshed now ni (ns ! k)) = nd_id (ns ! k)"
        "nd_interface (refreshed now ni (ns ! k)) = nd_interface (ns ! k)" by (simp_all add: refreshed_def)
      from put_node_frame [OF h'(1)] owns_update [OF o(2) same(2)]
      have "owns h' (ns[k := refreshed now ni (ns ! k)])" by (simp add: owns_def)
      with put_node_frame [OF h'(1)] h'(2) l(1) o ids_positional_update [OF l(3) same(1)] show ?thesis
        by (simp add: svc_holds_def reg_holds_def)
    qed
    ultimately show ?thesis using Some by auto
  qed
qed

text \<open>A new node for an unknown MAC.\<close>

lemma create_new_ok:
  assumes "oom h = []"
  shows "create_new_wtsl_node junk h = (Some (brk h), h\<lparr>brk := brk h + 2, oom := [],
    ifaces := insert (Suc (brk h)) (ifaces h),
    nodes := (nodes h)(brk h \<mapsto> junk\<lparr>nd_interface := Some (Suc (brk h)), nd_perm_map := True\<rparr>)\<rparr>)"
  using assms by (simp add: create_new_wtsl_node_def create_node_interface_def malloc_def)

lemma reg_holds_same_cells:
  assumes "reg_holds (l, h) ns" "ncells h' = ncells h" "brk h \<le> brk h'"
  shows "reg_holds (l, h') ns"
proof -
  from assms(1) obtain as where "nrep h l as" "ns = nodes_at h as" by (auto simp: reg_holds_def is_nlist_def)
  with nrep_same_cells [OF _ assms(2,3)] show ?thesis by (auto simp: reg_holds_def intro: is_nlistI)
qed

lemma add_tail_frame:
  assumes "add_wtsl_node_to_list_tail (Some l) (Some n) h = Some (r, lp, h')"
  shows "ifaces h' = ifaces h \<and> brk h \<le> brk h' \<and> (oom h = [] \<longrightarrow> oom h' = [])"
proof -
  obtain q h1 where m: "malloc h = (q, h1)" by fastforce
  then show ?thesis
  proof (cases rule: malloc_cases)
    case oom
    with assms m show ?thesis by (auto simp: add_wtsl_node_to_list_tail_def)
  next
    case ok
    from assms show ?thesis
      unfolding add_wtsl_node_to_list_tail_def m ok
      by (auto simp: bind_eq_Some_conv Let_def split: option.splits)
  qed
qed

lemma heartbeat_append:
  assumes "svc_holds s ns" "is_node_not_exist s p = Some (-1)"
  shows "\<exists>s'. parse_data_heartbeat junk now addr (Some p) s = Some (0, s') \<and> sv_sent s' = sv_sent s \<and>
    svc_holds s' (ns @ [junk\<lparr>nd_interface := Some (Suc (brk (sv_heap s))), nd_perm_map := True,
      nd_id := int (length ns), nd_active := 1, nd_last_heartbeat := now, nd_addr := addr,
      nd_info := node_info p\<rparr>])"
proof -
  from assms(1) obtain l where l: "sv_list s = Some l" "reg_holds (l, sv_heap s) ns" "ids_positional ns"
    and o: "oom (sv_heap s) = []" "owns (sv_heap s) ns" "\<forall>i \<in> ifaces (sv_heap s). i < brk (sv_heap s)"
    by (rule svc_holdsE)
  let ?h = "sv_heap s" and ?t = "Suc (brk (sv_heap s))"
  let ?n = "junk\<lparr>nd_interface := Some ?t, nd_perm_map := True, nd_id := int (length ns), nd_active := 1,
    nd_last_heartbeat := now, nd_addr := addr, nd_info := node_info p\<rparr>"
  let ?h1 = "?h\<lparr>brk := brk ?h + 2, oom := [], ifaces := insert ?t (ifaces ?h), nodes := (nodes ?h)(brk ?h \<mapsto> ?n)\<rparr>"
  have cnt: "node_count l = int (length ns)" using nl.size_holds [OF l(2)] by simp
  have "reg_holds (l, ?h1) ns" "reg_room (l, ?h1)"
    by (auto intro: reg_holds_same_cells [OF l(2)] simp: reg_room_def)
  from nl.append_holds [OF this, of ?n] obtain l' h2 r where
    ad: "add_wtsl_node_to_list_tail (Some l) (Some ?n) ?h1 = Some (r, Some l', h2)" "reg_holds (l', h2) (ns @ [?n])"
    by (auto simp: reg_append_def bind_eq_Some_conv)
  have "parse_data_heartbeat junk now addr (Some p) s = Some (0, s\<lparr>sv_list := Some l', sv_heap := h2\<rparr>)"
    using assms(2) create_new_ok [OF o(1), of junk] ad(1) l(1) cnt
    by (simp add: parse_data_heartbeat_def Let_def)
  moreover have "svc_holds (s\<lparr>sv_list := Some l', sv_heap := h2\<rparr>) (ns @ [?n])"
  proof -
    from add_tail_frame [OF ad(1)] have fr: "ifaces h2 = insert ?t (ifaces ?h)" "brk ?h + 2 \<le> brk h2" "oom h2 = []"
      by auto
    from o(3) have "?t \<notin> ifaces ?h" by auto
    with o(2) have "owns h2 (ns @ [?n])" by (fastforce simp: owns_def fr)
    with fr o(3) ad(2) l(3) show ?thesis
      by (fastforce simp: svc_holds_def reg_holds_def intro!: ids_positional_append)
  qed
  ultimately show ?thesis by auto
qed

lemma heartbeat_holds:
  assumes "svc_holds s ns"
  shows "\<exists>s' t. parse_data_heartbeat junk now addr (Some p) s = Some (0, s') \<and> sv_sent s' = sv_sent s \<and>
    svc_holds s' (hb_spec junk now addr (node_info p) t ns)"
proof (cases "\<exists>n \<in> set ns. nd_mac n = bi_mac (basic_info (node_info p))")
  case True
  with is_node_not_exist_holds [OF assms, of p] have e: "is_node_not_exist s p = Some 0" by simp
  from update_heartbeat_holds [OF assms, of now addr "node_info p"] obtain s' where
    "update_heartbeat now addr (node_info p) s = Some s'" "sv_sent s' = sv_sent s"
    "svc_holds s' (case first_index (\<lambda>n. nd_addr n = addr) ns of
      None \<Rightarrow> ns | Some k \<Rightarrow> ns[k := refreshed now (node_info p) (ns ! k)])" by blast
  with e True show ?thesis by (auto simp: parse_data_heartbeat_def hb_spec_def)
next
  case False
  with is_node_not_exist_holds [OF assms, of p] have "is_node_not_exist s p = Some (-1)" by simp
  from heartbeat_append [OF assms this, of junk now addr] False show ?thesis
    unfolding hb_spec_def by auto
qed

text \<open>The nodes after a datagram, and after the events of the receive loop; the tables of appended
  nodes are given by \<open>ts\<close>, one per datagram.\<close>

definition datagram_spec :: "layout \<Rightarrow> wnode \<Rightarrow> int \<Rightarrow> sockaddr_in \<Rightarrow> bytes \<Rightarrow> nat \<Rightarrow> wnode list \<Rightarrow> wnode list" where
  "datagram_spec L junk now addr buf t ns =
     (if get_type L buf = 0 \<or> get_type L buf = 1
      then hb_spec junk now addr (node_info (get_info L (drop (hdr_size L + 1) buf))) t ns else ns)"

lemma parse_data_holds:
  assumes "svc_holds s ns"
  shows "\<exists>s' t. parse_data L me junk now addr buf s = Some (0, s') \<and>
    svc_holds s' (datagram_spec L junk now addr buf t ns)"
proof -
  let ?p = "get_info L (drop (hdr_size L + 1) buf)"
  from heartbeat_holds [OF assms, of junk now addr ?p] obtain s1 t where
    hb: "parse_data_heartbeat junk now addr (Some ?p) s = Some (0, s1)"
        "svc_holds s1 (hb_spec junk now addr (node_info ?p) t ns)" by blast
  have sent: "svc_holds (s1\<lparr>sv_sent := x\<rparr>) ns' = svc_holds s1 ns'" for x ns'
    by (simp add: svc_holds_def)
  show ?thesis
    using hb assms sent
    by (auto simp: parse_data_def datagram_spec_def Let_def split: prod.splits option.splits)
qed

lemma hb_spec_length: "length ns \<le> length (hb_spec junk now addr ni t ns)"
  by (auto simp: hb_spec_def split: option.splits)

text \<open>The existence test goes by MAC, the update by address: a known MAC heard from the address of
  another node overwrites that node, so that two nodes carry one MAC.\<close>

lemma heartbeat_duplicates_mac:
  assumes "first_index (\<lambda>n. nd_addr n = addr) ns = Some k" "j < length ns" "j \<noteq> k"
    and "nd_mac (ns ! j) = bi_mac (basic_info ni)"
  shows "\<not> distinct (map nd_mac (hb_spec junk now addr ni t ns))"
proof -
  let ?ms = "hb_spec junk now addr ni t ns"
  from first_index_Some [OF assms(1)] have k: "k < length ns" by simp
  from assms(2,4) nth_mem have "\<exists>n \<in> set ns. nd_mac n = bi_mac (basic_info ni)" by blast
  with assms(1) have ms: "?ms = ns[k := refreshed now ni (ns ! k)]" by (simp add: hb_spec_def)
  with k assms have "map nd_mac ?ms ! j = map nd_mac ?ms ! k"
    by (simp add: nth_list_update refreshed_def nd_mac_def)
  moreover have "length (map nd_mac ?ms) = length ns" by (simp add: ms)
  ultimately show ?thesis using k assms(2,3) by (metis nth_eq_iff_index_eq)
qed

section \<open>Properties\<close>

text \<open>A service that knows the two nodes of the demonstration list.\<close>

definition demo_svc :: svc where
  "demo_svc = \<lparr>sv_list = Some demo_nlist, sv_heap = demo_nheap, sv_sent = []\<rparr>"

lemma demo_svc_holds: "svc_holds demo_svc [demo_node 0 ''AA:01'' 1, demo_node 1 ''BB:02'' 3]"
  using demo_is_nlist demo_owns
  by (auto simp: svc_holds_def demo_svc_def ids_positional_def demo_nheap_def demo_node_def)

text \<open>A peer whose MAC is \<open>m\<close>, and a layout that reads the payload as that peer.\<close>

definition demo_peer :: "string \<Rightarrow> splink_info" where
  "demo_peer m = \<lparr>node_info = zero_info\<lparr>basic_info := zero_basic\<lparr>bi_mac := m\<rparr>\<rparr>, sp_node_type = sp_code SP_TNODE,
     link_state = 1, user_num = 1, uid = 0, sp_mac = [], need_refresh = False\<rparr>"

definition demo_layout :: "string \<Rightarrow> layout" where
  "demo_layout m = \<lparr>hdr_size = 24, put_hdr = (\<lambda>ty now. word_of_int ty # replicate 23 0),
     get_type = (\<lambda>b. uint (hd b)), put_info = (\<lambda>_. []), get_info = (\<lambda>_. demo_peer m)\<rparr>"





text \<open>A heartbeat frame that passes the length guard fits the receive buffer without being cut,
  and the receiver finds in it the sender's type and, at the payload offset, the sender's bytes
  (followed by the zero padding of the buffer).\<close>

theorem frame_roundtrip:
  assumes "\<And>t n r. length (put_hdr L (msg_code t) n) = hdr_size L \<and> get_type L (put_hdr L (msg_code t) n @ r) = msg_code t"
    and "hdr_size L < 2047" "send_data_to_addr L now ty data = (0, Some frame)"
  shows "length frame \<le> 2047 \<and> get_type L (recv_buf frame) = msg_code ty \<and>
    drop (hdr_size L + 1) (recv_buf frame) = data @ replicate (2048 - length frame) 0"
proof -
  from assms(3) have f: "frame = put_hdr L (msg_code ty) now @ [0] @ data"
    and g: "length data < 2048 - hdr_size L - 1"
    by (auto simp: send_data_to_addr_def split: if_splits)
  from assms(1) have h: "length (put_hdr L (msg_code ty) now) = hdr_size L" by blast
  from f g h have len: "length frame \<le> 2047" by simp
  then have b: "recv_buf frame = put_hdr L (msg_code ty) now @ [0] @ data @ replicate (2048 - length frame) 0"
    by (simp add: recv_buf_def f)
  then have "get_type L (recv_buf frame) = msg_code ty" using assms(1) by simp
  moreover have "drop (hdr_size L + 1) (recv_buf frame) = data @ replicate (2048 - length frame) 0"
    unfolding b by (simp add: h)
  ultimately show ?thesis using len by blast
qed

theorem frame_roundtrip_witness:
  "drop 25 (recv_buf (1 # replicate 23 0 @ [0] @ [7, 8])) = [7, 8] @ replicate 2021 0"
proof -
  have L: "length (put_hdr (demo_layout []) (msg_code t) n) = hdr_size (demo_layout []) \<and>
      get_type (demo_layout []) (put_hdr (demo_layout []) (msg_code t) n @ r) = msg_code t" for t n r
    by (cases t) (simp_all add: demo_layout_def)
  have "send_data_to_addr (demo_layout []) 0 MSG_HEARTBEAT_RSP [7, 8] =
      (0, Some (1 # replicate 23 0 @ [0] @ [7, 8]))"
    by (simp add: send_data_to_addr_def demo_layout_def)
  from frame_roundtrip [OF L _ this] show ?thesis by (simp add: demo_layout_def)
qed

end
