(* ===== verification/Systems.thy ===== *)
theory Systems
  imports Prelude
begin

text \<open>
  Transition systems: the states a program of several threads can reach, invariants, and refinement of one system by
  another.  The interfaces are instantiated where the systems are (SplinkState, JoinThreads).
\<close>

section \<open>Reachable states\<close>

inductive reachable :: "('s \<Rightarrow> bool) \<Rightarrow> ('s \<Rightarrow> 's \<Rightarrow> bool) \<Rightarrow> 's \<Rightarrow> bool" for init step where
  start: "init s \<Longrightarrow> reachable init step s"
| step: "reachable init step s \<Longrightarrow> step s s' \<Longrightarrow> reachable init step s'"

inductive_simps reachable_iff: "reachable init step s"

lemma reachable_rtranclp: "reachable init step s \<Longrightarrow> step\<^sup>*\<^sup>* s t \<Longrightarrow> reachable init step t"
  by (rotate_tac, induction rule: rtranclp_induct) (auto intro: reachable.step)

lemma reachable_run: "reachable init step s \<longleftrightarrow> (\<exists>s0. init s0 \<and> step\<^sup>*\<^sup>* s0 s)"
proof
  assume "reachable init step s"
  then show "\<exists>s0. init s0 \<and> step\<^sup>*\<^sup>* s0 s" by induction (auto intro: rtranclp.rtrancl_into_rtrancl)
qed (auto intro: reachable_rtranclp reachable.start)

section \<open>Invariants\<close>

locale invariant_system =
  fixes init :: "'s \<Rightarrow> bool" and step :: "'s \<Rightarrow> 's \<Rightarrow> bool" and inv :: "'s \<Rightarrow> bool"
  assumes inv_init: "init s \<Longrightarrow> inv s"
    and inv_step: "step s s' \<Longrightarrow> inv s \<Longrightarrow> inv s'"
begin

lemma reachable_inv: "reachable init step s \<Longrightarrow> inv s"
  by (induction rule: reachable.induct) (auto intro: inv_init inv_step)

lemma inv_run: "step\<^sup>*\<^sup>* s t \<Longrightarrow> inv s \<Longrightarrow> inv t"
  by (induction rule: rtranclp_induct) (auto intro: inv_step)

end

section \<open>Refinement\<close>

text \<open>Every step of the concrete system is a step of the abstract one or leaves the abstract state as it is.\<close>

locale refinement_mapping = invariant_system init step inv
  for init :: "'s \<Rightarrow> bool" and step :: "'s \<Rightarrow> 's \<Rightarrow> bool" and inv :: "'s \<Rightarrow> bool" +
  fixes ainit :: "'a \<Rightarrow> bool" and astep :: "'a \<Rightarrow> 'a \<Rightarrow> bool" and absf :: "'s \<Rightarrow> 'a"
  assumes abs_init: "init s \<Longrightarrow> ainit (absf s)"
    and abs_step: "step s s' \<Longrightarrow> inv s \<Longrightarrow> astep (absf s) (absf s') \<or> absf s' = absf s"
begin

lemma abs_run: "step\<^sup>*\<^sup>* s t \<Longrightarrow> inv s \<Longrightarrow> astep\<^sup>*\<^sup>* (absf s) (absf t)"
proof (induction rule: rtranclp_induct)
  case (step t u)
  from inv_run [OF step(1) step.prems] abs_step [OF step(2)]
  consider "astep (absf t) (absf u)" | "absf u = absf t" by blast
  then show ?case using step.IH [OF step.prems] by cases (auto intro: rtranclp.rtrancl_into_rtrancl)
qed simp

lemma reachable_abs: "reachable init step s \<Longrightarrow> reachable ainit astep (absf s)"
proof (induction rule: reachable.induct)
  case (step s s')
  from abs_step [OF step(2) reachable_inv [OF step(1)]] step.IH show ?case by (auto intro: reachable.step)
qed (auto intro: abs_init reachable.start)

end

end
