(* ===== verification/SplinkState.thy ===== *)
theory SplinkState
  imports NodeService Systems
begin

text \<open>
  The threads of slal/wtsl_core_splink_state.c: the registration of the local node with which the
  node service starts, the binding of its address, and the automatic network join of a T node as
  a step relation, in which the rest of the program changes the flags it watches at any point.
\<close>

section \<open>Registration of the local node\<close>

definition local_type :: "splink_info \<Rightarrow> int" where
  "local_type sp = (if sp_node_type sp = sp_code SP_GNODE then node_type_code Node_Slb_G else node_type_code Node_Slb_T)"

definition set_bi_type :: "int \<Rightarrow> splink_info \<Rightarrow> splink_info" where
  "set_bi_type ty sp = sp\<lparr>node_info := (node_info sp)\<lparr>basic_info := (basic_info (node_info sp))\<lparr>bi_type := ty\<rparr>\<rparr>\<rparr>"

text \<open>What \<open>wtsl_core_splink_node_service\<close> does before its loop; \<open>None\<close> when it writes through a NULL node.\<close>

definition register_local_node :: "wnode \<Rightarrow> splink_info \<Rightarrow> nheap \<Rightarrow> (splink_info \<times> svc) option" where
  "register_local_node junk sp h =
     (case create_wtsl_node_list h of (lp, h1) \<Rightarrow>
      (case create_new_wtsl_node junk h1 of (node, h2) \<Rightarrow> do {
         a \<leftarrow> node;
         n0 \<leftarrow> nodes h2 a;
         let sp1 = set_bi_type (local_type sp) sp;
         let n = n0\<lparr>nd_id := 0, nd_type := local_type sp, nd_info := node_info sp1\<rparr>;
         (ret, lp1, h3) \<leftarrow> add_wtsl_node_to_list_tail lp (Some n) (h2\<lparr>nodes := (nodes h2)(a \<mapsto> n)\<rparr>);
         Some (sp1, \<lparr>sv_list = lp1, sv_heap = h3, sv_sent = []\<rparr>) }))"

text \<open>\<open>wtsl_core_splink_start_node_service_thread\<close> gives the bound address to node 0.\<close>

definition bind_local_addr :: "sockaddr_in \<Rightarrow> svc \<Rightarrow> svc option" where
  "bind_local_addr local_addr s = do {
     p \<leftarrow> find_wtsl_node_by_id (sv_list s) 0 (sv_heap s);
     a \<leftarrow> p;
     h \<leftarrow> put_node a (\<lambda>n. n\<lparr>nd_addr := local_addr\<rparr>) (sv_heap s);
     Some (s\<lparr>sv_heap := h\<rparr>) }"

text \<open>The two outcomes of the setup before the threads start: the socket cannot be created or
  bound (-1), or node 0 has the address.\<close>

definition start_node_service :: "bool \<Rightarrow> bool \<Rightarrow> sockaddr_in \<Rightarrow> svc \<Rightarrow> (int \<times> svc) option" where
  "start_node_service socket_ok bind_ok local_addr s =
     (if \<not> socket_ok \<or> \<not> bind_ok then Some (-1, s)
      else map_option (Pair 0) (bind_local_addr local_addr s))"

section \<open>Automatic join\<close>

datatype aj_phase = AJ_Top | AJ_Flag | AJ_Link | AJ_Check | AJ_Exit

record aj =
  aj_phase :: aj_phase
  aj_idx :: nat
  aj_run :: bool
  aj_tnode :: bool
  aj_flag :: bool
  aj_linked :: bool
  aj_tried :: "nat list"

inductive aj_step :: "aj \<Rightarrow> aj \<Rightarrow> bool" where
  env: "aj_step s (s\<lparr>aj_run := r, aj_tnode := t, aj_flag := f, aj_linked := k\<rparr>)"
| leave: "aj_phase s = AJ_Top \<Longrightarrow> \<not> (aj_run s \<and> aj_tnode s) \<Longrightarrow> aj_step s (s\<lparr>aj_phase := AJ_Exit\<rparr>)"
| enter: "aj_phase s = AJ_Top \<Longrightarrow> aj_run s \<Longrightarrow> aj_tnode s \<Longrightarrow> aj_step s (s\<lparr>aj_phase := AJ_Flag\<rparr>)"
| flag_wait: "aj_phase s = AJ_Flag \<Longrightarrow> \<not> aj_flag s \<Longrightarrow> aj_step s s"
| flag_set: "aj_phase s = AJ_Flag \<Longrightarrow> aj_flag s \<Longrightarrow> aj_step s (s\<lparr>aj_phase := AJ_Link\<rparr>)"
| link_wait: "aj_phase s = AJ_Link \<Longrightarrow> aj_linked s \<Longrightarrow> aj_run s \<Longrightarrow> aj_step s (s\<lparr>aj_idx := 0\<rparr>)"
| link_down: "aj_phase s = AJ_Link \<Longrightarrow> \<not> (aj_linked s \<and> aj_run s) \<Longrightarrow> aj_step s (s\<lparr>aj_phase := AJ_Check\<rparr>)"
| flag_cleared: "aj_phase s = AJ_Check \<Longrightarrow> \<not> aj_flag s \<Longrightarrow> aj_step s (s\<lparr>aj_phase := AJ_Top\<rparr>)"
| join: "aj_phase s = AJ_Check \<Longrightarrow> aj_flag s \<Longrightarrow>
    aj_step s (s\<lparr>aj_tried := aj_tried s @ [aj_idx s],
                 aj_idx := (if aj_idx s = 2 then 0 else aj_idx s + 1), aj_phase := AJ_Top\<rparr>)"

inductive_cases aj_step_cases: "aj_step s s'"

text \<open>The thread starts at the top with index 0 and nothing tried.\<close>

definition aj_start :: "aj \<Rightarrow> bool" where
  "aj_start s \<longleftrightarrow> aj_phase s = AJ_Top \<and> aj_idx s = 0 \<and> aj_tried s = []"

abbreviation aj_reach :: "aj \<Rightarrow> bool" where
  "aj_reach \<equiv> reachable aj_start aj_step"

definition next_idx :: "nat \<Rightarrow> nat" where
  "next_idx i = (if i = 2 then 0 else i + 1)"

text \<open>The attempts walk through the three stored addresses in turn, restarting at the first.\<close>

fun in_turn :: "nat list \<Rightarrow> bool" where
  "in_turn (a # b # r) \<longleftrightarrow> (b = next_idx a \<or> b = 0) \<and> in_turn (b # r)"
| "in_turn _ \<longleftrightarrow> True"

lemma in_turn_snoc: "in_turn (xs @ [a]) \<longleftrightarrow> in_turn xs \<and> (xs = [] \<or> a = next_idx (last xs) \<or> a = 0)"
  by (induction xs rule: in_turn.induct) auto

definition aj_inv :: "aj \<Rightarrow> bool" where
  "aj_inv s \<longleftrightarrow> aj_idx s < 3 \<and> (\<forall>i \<in> set (aj_tried s). i < 3) \<and> in_turn (aj_tried s) \<and>
     (aj_tried s = [] \<longrightarrow> aj_idx s = 0) \<and>
     (aj_tried s \<noteq> [] \<longrightarrow> aj_idx s = next_idx (last (aj_tried s)) \<or> aj_idx s = 0)"

lemma aj_step_inv: "aj_step s s' \<Longrightarrow> aj_inv s \<Longrightarrow> aj_inv s'"
  by (erule aj_step_cases) (auto simp: aj_inv_def in_turn_snoc next_idx_def)

interpretation ajs: invariant_system aj_start aj_step aj_inv
  by unfold_locales (simp add: aj_start_def aj_inv_def, rule aj_step_inv)

lemma register_holds:
  assumes "oom h = []" "\<forall>i \<in> ifaces h. i < brk h"
  shows "\<exists>s t. register_local_node junk sp h = Some (set_bi_type (local_type sp) sp, s) \<and>
    svc_holds s [junk\<lparr>nd_interface := Some t, nd_perm_map := True, nd_id := 0, nd_type := local_type sp,
      nd_info := node_info (set_bi_type (local_type sp) sp)\<rparr>]"
proof -
  let ?h1 = "h\<lparr>brk := Suc (brk h), oom := []\<rparr>" and ?t = "Suc (Suc (brk h))"
  let ?n = "junk\<lparr>nd_interface := Some ?t, nd_perm_map := True, nd_id := 0, nd_type := local_type sp,
      nd_info := node_info (set_bi_type (local_type sp) sp)\<rparr>"
  let ?h2 = "?h1\<lparr>brk := Suc (brk h) + 2, oom := [], ifaces := insert ?t (ifaces h), nodes := (nodes h)(Suc (brk h) \<mapsto> ?n)\<rparr>"
  let ?l = "\<lparr>lhead = None, ltail = None, node_count = 0\<rparr>"
  have "create_wtsl_node_list h = (Some ?l, ?h1)"
    using assms(1) by (simp add: create_wtsl_node_list_def malloc_def)
  moreover have "reg_holds (?l, ?h2) []" "reg_room (?l, ?h2)"
    by (auto simp: reg_holds_def reg_room_def empty_is_nlist)
  from nl.append_holds [OF this, of ?n] obtain l' h3 r where
    ad: "add_wtsl_node_to_list_tail (Some ?l) (Some ?n) ?h2 = Some (r, Some l', h3)" "reg_holds (l', h3) [?n]"
    by (auto simp: reg_append_def bind_eq_Some_conv)
  ultimately have "register_local_node junk sp h =
      Some (set_bi_type (local_type sp) sp, \<lparr>sv_list = Some l', sv_heap = h3, sv_sent = []\<rparr>)"
    using create_new_ok [of ?h1 junk] by (simp add: register_local_node_def Let_def)
  moreover from add_tail_frame [OF ad(1)] have "ifaces h3 = insert ?t (ifaces h)" "brk h + 3 \<le> brk h3" "oom h3 = []"
    by auto
  with assms(2) ad(2) have "svc_holds \<lparr>sv_list = Some l', sv_heap = h3, sv_sent = []\<rparr> [?n]"
    by (fastforce simp: svc_holds_def reg_holds_def ids_positional_def owns_def)
  ultimately show ?thesis by blast
qed

lemma bind_holds:
  assumes "svc_holds s [n]"
  shows "\<exists>s1. bind_local_addr addr s = Some s1 \<and> svc_holds s1 [n\<lparr>nd_addr := addr\<rparr>]"
proof -
  from assms obtain l where l: "sv_list s = Some l" "reg_holds (l, sv_heap s) [n]" "ids_positional [n]"
    and o: "oom (sv_heap s) = []" "owns (sv_heap s) [n]" "\<forall>i \<in> ifaces (sv_heap s). i < brk (sv_heap s)"
    by (rule svc_holdsE)
  from nl.lookup_position [OF l(2,3), of 0]
  have f: "find_wtsl_node_by_id (Some l) 0 (sv_heap s) = Some (Some (reg_place (l, sv_heap s) 0))"
    by (simp add: reg_lookup_def)
  from nl.modify_place [OF l(2), of 0 "\<lambda>n. n\<lparr>nd_addr := addr\<rparr>"] obtain h' where
    h': "put_node (reg_place (l, sv_heap s) 0) (\<lambda>n. n\<lparr>nd_addr := addr\<rparr>) (sv_heap s) = Some h'"
      "reg_holds (l, h') [n\<lparr>nd_addr := addr\<rparr>]"
    by (auto simp: reg_modify_def)
  from f h' l(1) have "bind_local_addr addr s = Some (s\<lparr>sv_heap := h'\<rparr>)" by (simp add: bind_local_addr_def)
  moreover from put_node_frame [OF h'(1)] h'(2) l o
  have "svc_holds (s\<lparr>sv_heap := h'\<rparr>) [n\<lparr>nd_addr := addr\<rparr>]"
    by (simp add: svc_holds_def reg_holds_def ids_positional_def owns_def)
  ultimately show ?thesis by blast
qed

section \<open>Properties\<close>

text \<open>With memory, the local node is registered as the only node, with id 0 and the type of the
  link; the service that starts on it binds node 0's address without a fault, and the registry
  invariant of the node service holds.\<close>

theorem local_node_registered:
  assumes "oom h = []" "\<forall>i \<in> ifaces h. i < brk h"
  shows "\<exists>s n s1. register_local_node junk sp h = Some (set_bi_type (local_type sp) sp, s) \<and> svc_holds s [n] \<and>
    nd_id n = 0 \<and> nd_type n = local_type sp \<and> bi_type (basic_info (nd_info n)) = local_type sp \<and>
    bind_local_addr addr s = Some s1 \<and> svc_holds s1 [n\<lparr>nd_addr := addr\<rparr>]"
proof -
  from register_holds [OF assms, of junk sp] obtain s t where
    s: "register_local_node junk sp h = Some (set_bi_type (local_type sp) sp, s)"
      "svc_holds s [junk\<lparr>nd_interface := Some t, nd_perm_map := True, nd_id := 0, nd_type := local_type sp,
        nd_info := node_info (set_bi_type (local_type sp) sp)\<rparr>]" (is "svc_holds s [?n]") by blast
  from bind_holds [OF s(2), of addr] obtain s1 where
    "bind_local_addr addr s = Some s1" "svc_holds s1 [?n\<lparr>nd_addr := addr\<rparr>]" by blast
  with s show ?thesis by (intro exI [of _ s] exI [of _ ?n] exI [of _ s1]) (simp add: set_bi_type_def)
qed

theorem local_node_registered_witness:
  "\<exists>s n. register_local_node (demo_node 7 [] 0) (demo_peer ''AA:01'')
      \<lparr>brk = 0, oom = [], ncells = Map.empty, nodes = Map.empty, ifaces = {}\<rparr> =
      Some (set_bi_type 1 (demo_peer ''AA:01''), s) \<and> svc_holds s [n] \<and> nd_type n = 1"
  using local_node_registered [of "\<lparr>brk = 0, oom = [], ncells = Map.empty, nodes = Map.empty, ifaces = {}\<rparr>"
      "demo_node 7 [] 0" "demo_peer ''AA:01''"]
  by (fastforce simp: local_type_def demo_peer_def)

text \<open>In every reachable state of the join thread the index into the three stored addresses is in
  bounds, every attempt used an index in bounds, and the attempts go through the addresses in
  turn, restarting only at the first.\<close>

theorem auto_join_in_bounds:
  assumes "aj_reach s"
  shows "aj_idx s < 3 \<and> (\<forall>i \<in> set (aj_tried s). i < 3) \<and> in_turn (aj_tried s)"
  using ajs.reachable_inv [OF assms] by (simp add: aj_inv_def)

text \<open>A T node that is not linked tries the first address and moves on to the second.\<close>

definition demo_aj :: "aj_phase \<Rightarrow> aj" where
  "demo_aj ph = \<lparr>aj_phase = ph, aj_idx = 0, aj_run = True, aj_tnode = True, aj_flag = True, aj_linked = False, aj_tried = []\<rparr>"

lemma demo_aj_reach: "aj_reach ((demo_aj AJ_Top)\<lparr>aj_idx := 1, aj_tried := [0]\<rparr>)"
proof -
  have "aj_reach (demo_aj AJ_Top)" by (rule reachable.start) (simp add: demo_aj_def aj_start_def)
  moreover have "aj_step (demo_aj AJ_Top) (demo_aj AJ_Flag)"
    using aj_step.enter [of "demo_aj AJ_Top"] by (simp add: demo_aj_def)
  moreover have "aj_step (demo_aj AJ_Flag) (demo_aj AJ_Link)"
    using aj_step.flag_set [of "demo_aj AJ_Flag"] by (simp add: demo_aj_def)
  moreover have "aj_step (demo_aj AJ_Link) (demo_aj AJ_Check)"
    using aj_step.link_down [of "demo_aj AJ_Link"] by (simp add: demo_aj_def)
  moreover have "aj_step (demo_aj AJ_Check) ((demo_aj AJ_Top)\<lparr>aj_idx := 1, aj_tried := [0]\<rparr>)"
    using aj_step.join [of "demo_aj AJ_Check"] by (simp add: demo_aj_def)
  ultimately show ?thesis by (blast intro: reachable.step)
qed

theorem auto_join_in_bounds_witness:
  "in_turn (aj_tried ((demo_aj AJ_Top)\<lparr>aj_idx := 1, aj_tried := [0]\<rparr>)) \<and> aj_idx ((demo_aj AJ_Top)\<lparr>aj_idx := 1, aj_tried := [0]\<rparr>) < 3"
  using auto_join_in_bounds [OF demo_aj_reach] by blast

end
