(* ===== verification/CfgManager.thy ===== *)
theory CfgManager
  imports NodeTypes
begin

text \<open>
  The key/value configuration file (utils/wtsl_cfg_manager.c): parsing of a line, setting and
  getting a key, the integer forms, and the reading of the whole configuration into the local
  node.  The file is its content (\<open>None\<close> = no such file); lines come as \<open>fgets\<close> cuts them into a
  buffer of 512 bytes.  Keys and values are copied by \<open>strncpy\<close> into uninitialised buffers: a text
  that fills the buffer stays unterminated, and what is then read is followed by \<open>jk\<close> (key buffer)
  or \<open>jv\<close> (value buffer), the bytes the memory behind it happens to hold.

  The locale \<open>kv_config\<close> states what the rest of the program relies on: a value set is the value
  read, other keys keep theirs.  It is interpreted on \<open>config_set\<close> and \<open>config_get\<close> for files
  whose lines are complete and entries that are trimmed and fit the buffers.
\<close>

section \<open>Lines\<close>

definition trim_whitespace :: "string \<Rightarrow> string" where
  "trim_whitespace s = rtrim (ltrim s)"

definition is_valid_key :: "string \<Rightarrow> bool" where
  "is_valid_key key \<longleftrightarrow> key \<noteq> [] \<and> length key < 64 \<and>
     list_all (\<lambda>c. c \<noteq> CHR ''='' \<and> c \<noteq> CHR ''#'' \<and> c \<noteq> CHR 0x0A \<and> c \<noteq> CHR 0x0D) key"

definition is_valid_value :: "string option \<Rightarrow> bool" where
  "is_valid_value v = (case v of None \<Rightarrow> False
     | Some s \<Rightarrow> length s < 256 \<and> CHR 0x0A \<notin> set s \<and> CHR 0x0D \<notin> set s)"

text \<open>\<open>strncpy(buf, s, n - 1)\<close> into an uninitialised buffer of \<open>n\<close> bytes, read back as a string.\<close>

definition strncpy_raw :: "string \<Rightarrow> nat \<Rightarrow> string \<Rightarrow> string" where
  "strncpy_raw junk n s = (if length s < n - 1 then s else take (n - 1) s @ junk)"

text \<open>The text before and after the first \<open>=\<close>.\<close>

definition split_eq :: "string \<Rightarrow> (string \<times> string) option" where
  "split_eq s = (if CHR ''='' \<in> set s
     then Some (takeWhile (\<lambda>c. c \<noteq> CHR ''='') s, tl (dropWhile (\<lambda>c. c \<noteq> CHR ''='') s)) else None)"

definition parse_config_line :: "string \<Rightarrow> string \<Rightarrow> string \<Rightarrow> (string \<times> string) option" where
  "parse_config_line jk jv line =
     (let trimmed = trim_whitespace (cbuf 1024 line) in
      if trimmed = [] \<or> hd trimmed = CHR ''#'' then None
      else (case split_eq trimmed of
          None \<Rightarrow> None
        | Some (a, b) \<Rightarrow>
            let k = trim_whitespace a; v = trim_whitespace b in
            if \<not> is_valid_key k \<or> \<not> is_valid_value (Some v) then None
            else Some (strncpy_raw jk 64 k, strncpy_raw jv 256 v)))"

section \<open>The file\<close>

text \<open>The lines of the file as \<open>fgets\<close> reads them into the buffer of 512 bytes.\<close>

abbreviation fgets_lines :: "string \<Rightarrow> string list" where
  "fgets_lines \<equiv> fgets_all 511"

datatype config_result = CONFIG_SUCCESS | CONFIG_ERROR_IO | CONFIG_ERROR_MEMORY | CONFIG_ERROR_NOT_FOUND
  | CONFIG_ERROR_INVALID_PARAM | CONFIG_ERROR_PARSE | CONFIG_ERROR_LOCK | CONFIG_ERROR_FORMAT

fun config_code :: "config_result \<Rightarrow> int" where
  "config_code CONFIG_SUCCESS = 0"
| "config_code CONFIG_ERROR_IO = -1"
| "config_code CONFIG_ERROR_MEMORY = -2"
| "config_code CONFIG_ERROR_NOT_FOUND = -3"
| "config_code CONFIG_ERROR_INVALID_PARAM = -4"
| "config_code CONFIG_ERROR_PARSE = -5"
| "config_code CONFIG_ERROR_LOCK = -6"
| "config_code CONFIG_ERROR_FORMAT = -7"

definition entry_line :: "string \<Rightarrow> string \<Rightarrow> string" where
  "entry_line key v = key @ ''='' @ v @ [CHR 0x0A]"

text \<open>The copy of the old lines: an entry of the key becomes the new entry, the rest is kept.\<close>

definition line_has_key :: "string \<Rightarrow> string \<Rightarrow> string \<Rightarrow> string \<Rightarrow> bool" where
  "line_has_key jk jv key line = (case parse_config_line jk jv line of
     None \<Rightarrow> False | Some (k, v) \<Rightarrow> k = key)"

fun rewrite_lines :: "string \<Rightarrow> string \<Rightarrow> string \<Rightarrow> string \<Rightarrow> string list \<Rightarrow> string \<times> bool" where
  "rewrite_lines jk jv key v [] = ([], False)"
| "rewrite_lines jk jv key v (l # ls) =
     (let (out, upd) = rewrite_lines jk jv key v ls in
      if line_has_key jk jv key l then (entry_line key v @ out, True) else (l @ out, upd))"

text \<open>Which of \<open>fopen\<close> on the temporary file, \<open>fopen\<close> on the file and \<open>rename\<close> succeed.\<close>

record cfg_io =
  io_temp :: bool
  io_orig :: bool
  io_rename :: bool

definition config_set ::
    "string \<Rightarrow> string \<Rightarrow> cfg_io \<Rightarrow> string \<Rightarrow> string option \<Rightarrow> string option \<Rightarrow> config_result \<times> string option" where
  "config_set jk jv io key value file =
     (if \<not> is_valid_key key \<or> \<not> is_valid_value value then (CONFIG_ERROR_INVALID_PARAM, file)
      else if \<not> io_temp io then (CONFIG_ERROR_IO, file)
      else
        let v = the value;
            opened = (if io_orig io then Some (case file of None \<Rightarrow> [] | Some c \<Rightarrow> c) else file);
            ls = (if io_orig io then fgets_lines (the opened) else []);
            (out, key_updated) = rewrite_lines jk jv key v ls;
            new = out @ (if key_updated then [] else entry_line key v)
        in if \<not> io_rename io then (CONFIG_ERROR_IO, opened) else (CONFIG_SUCCESS, Some new))"

definition config_set_int ::
    "string \<Rightarrow> string \<Rightarrow> cfg_io \<Rightarrow> string \<Rightarrow> int \<Rightarrow> string option \<Rightarrow> config_result \<times> string option" where
  "config_set_int jk jv io key v file = config_set jk jv io key (Some (cbuf 32 (show_int v))) file"

fun get_lines :: "string \<Rightarrow> string \<Rightarrow> string \<Rightarrow> string list \<Rightarrow> string option" where
  "get_lines jk jv key [] = None"
| "get_lines jk jv key (l # ls) = (case parse_config_line jk jv l of
     None \<Rightarrow> get_lines jk jv key ls
   | Some (k, v) \<Rightarrow> if k = key then Some v else get_lines jk jv key ls)"

text \<open>\<open>cur\<close> is what the caller's buffer holds; the call validates it as a value.\<close>

definition config_get ::
    "string \<Rightarrow> string \<Rightarrow> string \<Rightarrow> string option \<Rightarrow> nat \<Rightarrow> string option \<Rightarrow> config_result \<times> string option" where
  "config_get jk jv key cur value_len file =
     (if \<not> is_valid_key key \<or> \<not> is_valid_value cur \<or> value_len = 0 then (CONFIG_ERROR_INVALID_PARAM, cur)
      else (case file of
          None \<Rightarrow> (CONFIG_ERROR_NOT_FOUND, cur)
        | Some c \<Rightarrow> (case get_lines jk jv key (fgets_lines c) of
              None \<Rightarrow> (CONFIG_ERROR_NOT_FOUND, cur)
            | Some v \<Rightarrow> (CONFIG_SUCCESS, Some (cbuf value_len v)))))"

text \<open>\<open>js\<close> is what the uninitialised local buffer holds; the last component is the integer stored.\<close>

definition config_get_int ::
    "int \<Rightarrow> string \<Rightarrow> string \<Rightarrow> string \<Rightarrow> string \<Rightarrow> bool \<Rightarrow> string option \<Rightarrow> config_result \<times> int option" where
  "config_get_int lmax jk jv js key have_value file =
     (if \<not> have_value then (CONFIG_ERROR_INVALID_PARAM, None)
      else (case config_get jk jv key (Some js) 256 file of
          (CONFIG_SUCCESS, Some s) \<Rightarrow>
            (case strtol lmax s of (num, rest) \<Rightarrow>
               if rest = s \<or> rest \<noteq> [] then (CONFIG_ERROR_FORMAT, None)
               else (CONFIG_SUCCESS, Some (to_int32 num)))
        | (r, _) \<Rightarrow> (r, None)))"

section \<open>Complete lines\<close>

definition file_line :: "string \<Rightarrow> bool" where
  "file_line l \<longleftrightarrow> (\<exists>b. l = b @ [CHR 0x0A] \<and> CHR 0x0A \<notin> set b \<and> length b < 511)"

text \<open>A file every line of which is ended by a newline and fits the buffer; no file is such a file.\<close>

definition wf_file :: "string option \<Rightarrow> bool" where
  "wf_file f \<longleftrightarrow> (case f of None \<Rightarrow> True | Some c \<Rightarrow> \<exists>ls. c = concat ls \<and> (\<forall>l \<in> set ls. file_line l))"

lemma fgets_line: "file_line l \<Longrightarrow> fgets_lines (l @ s) = l # fgets_lines s"
  by (auto simp: file_line_def fgets_all.simps [of 511 "_ @ CHR 0x0A # s"] take_line_line)

lemma fgets_concat: "(\<forall>l \<in> set ls. file_line l) \<Longrightarrow> fgets_lines (concat ls) = ls"
  by (induction ls) (simp_all add: fgets_line)

section \<open>Entries\<close>

definition trimmed :: "string \<Rightarrow> bool" where
  "trimmed s \<longleftrightarrow> s = [] \<or> \<not> isspace (hd s) \<and> \<not> isspace (last s)"

text \<open>An entry the file represents: valid, trimmed, and short enough for the buffers to be terminated.\<close>

definition good_entry :: "string \<Rightarrow> string \<Rightarrow> bool" where
  "good_entry k v \<longleftrightarrow> is_valid_key k \<and> length k < 63 \<and> trimmed k \<and>
     is_valid_value (Some v) \<and> length v < 255 \<and> trimmed v"

lemma trim_trimmed [simp]: "trimmed s \<Longrightarrow> trim_whitespace s = s"
  by (auto simp: trimmed_def trim_whitespace_def ltrim_id rtrim_id)

lemma valid_key_chars:
  "is_valid_key k \<Longrightarrow> k \<noteq> [] \<and> CHR ''='' \<notin> set k \<and> CHR ''#'' \<notin> set k \<and> CHR 0x0A \<notin> set k"
  by (auto simp: is_valid_key_def list_all_iff)

lemma split_eq_entry: "CHR ''='' \<notin> set k \<Longrightarrow> split_eq (k @ CHR ''='' # v) = Some (k, v)"
proof -
  assume "CHR ''='' \<notin> set k"
  then have "takeWhile (\<lambda>c. c \<noteq> CHR ''='') (k @ CHR ''='' # v) = k"
    "dropWhile (\<lambda>c. c \<noteq> CHR ''='') (k @ CHR ''='' # v) = CHR ''='' # v"
    by (induction k) auto
  then show ?thesis by (simp add: split_eq_def)
qed

lemma trim_entry:
  assumes "trimmed k" "k \<noteq> []" "trimmed v"
  shows "trim_whitespace (entry_line k v) = k @ CHR ''='' # v"
proof -
  have "ltrim (entry_line k v) = entry_line k v"
    using assms by (intro ltrim_id) (auto simp: trimmed_def entry_line_def)
  moreover have "rtrim (k @ CHR ''='' # v) = k @ CHR ''='' # v"
    using assms(3) by (intro rtrim_id) (auto simp: trimmed_def isspace_def)
  moreover have "entry_line k v = (k @ CHR ''='' # v) @ [CHR 0x0A]" by (simp add: entry_line_def)
  ultimately show ?thesis
    using rtrim_append_space [of "[CHR 0x0A]" "k @ CHR ''='' # v"]
    by (simp add: trim_whitespace_def isspace_def)
qed

lemma parse_entry: "good_entry k v \<Longrightarrow> parse_config_line jk jv (entry_line k v) = Some (k, v)"
proof -
  assume g: "good_entry k v"
  then have k: "k \<noteq> []" "CHR ''='' \<notin> set k" "CHR ''#'' \<notin> set k" "trimmed k" "trimmed v"
    using valid_key_chars by (auto simp: good_entry_def)
  from g have "length (entry_line k v) < 1024" by (simp add: good_entry_def entry_line_def)
  with trim_entry [of k v] k have t: "trim_whitespace (cbuf 1024 (entry_line k v)) = k @ CHR ''='' # v" by simp
  from k have "hd (k @ CHR ''='' # v) \<noteq> CHR ''#''" by (cases k) auto
  with t k g show ?thesis
    by (simp add: parse_config_line_def split_eq_entry good_entry_def strncpy_raw_def)
qed

lemma entry_file_line: "good_entry k v \<Longrightarrow> file_line (entry_line k v)"
  unfolding file_line_def
  by (rule exI [of _ "k @ ''='' @ v"])
    (auto simp: entry_line_def good_entry_def is_valid_value_def dest: valid_key_chars)

lemma entry_has_key: "good_entry k v \<Longrightarrow> line_has_key jk jv k' (entry_line k v) \<longleftrightarrow> k' = k"
  by (auto simp: line_has_key_def parse_entry)

section \<open>Set and get on lines\<close>

definition new_lines :: "string \<Rightarrow> string \<Rightarrow> string \<Rightarrow> string \<Rightarrow> string list \<Rightarrow> string list" where
  "new_lines jk jv key v ls =
     map (\<lambda>l. if line_has_key jk jv key l then entry_line key v else l) ls @
     (if list_ex (line_has_key jk jv key) ls then [] else [entry_line key v])"

lemma rewrite_lines_eq:
  "rewrite_lines jk jv key v ls =
     (concat (map (\<lambda>l. if line_has_key jk jv key l then entry_line key v else l) ls),
      list_ex (line_has_key jk jv key) ls)"
  by (induction ls) (auto simp: Let_def)

lemma config_set_ok:
  assumes "io_temp io" "io_orig io" "io_rename io" "is_valid_key k" "is_valid_value (Some v)"
  shows "config_set jk jv io k (Some v) file = (CONFIG_SUCCESS,
    Some (concat (new_lines jk jv k v (fgets_lines (case file of None \<Rightarrow> [] | Some c \<Rightarrow> c)))))"
  using assms by (simp add: config_set_def rewrite_lines_eq new_lines_def Let_def)

lemma get_new_lines:
  assumes "good_entry k v"
  shows "get_lines jk jv k' (new_lines jk jv k v ls) = (if k' = k then Some v else get_lines jk jv k' ls)"
proof (induction ls)
  case Nil
  from assms show ?case by (auto simp: new_lines_def parse_entry)
next
  case (Cons l ls)
  have "get_lines jk jv k' (new_lines jk jv k v (l # ls)) = (if line_has_key jk jv k l
      then (if k' = k then Some v else get_lines jk jv k' (map (\<lambda>l. if line_has_key jk jv k l then entry_line k v else l) ls))
      else get_lines jk jv k' (l # new_lines jk jv k v ls))"
    using assms by (auto simp: new_lines_def parse_entry)
  moreover have "get_lines jk jv k' (map (\<lambda>l. if line_has_key jk jv k l then entry_line k v else l) ls) =
      get_lines jk jv k' ls" if "k' \<noteq> k"
    using that assms by (induction ls) (auto simp: parse_entry line_has_key_def split: option.splits)
  ultimately show ?case using Cons.IH
    by (auto simp: line_has_key_def split: option.splits)
qed

lemma new_lines_wf:
  "good_entry k v \<Longrightarrow> (\<forall>l \<in> set ls. file_line l) \<Longrightarrow> \<forall>l \<in> set (new_lines jk jv k v ls). file_line l"
  by (auto simp: new_lines_def entry_file_line)

section \<open>The configuration interface\<close>

locale kv_config =
  fixes wf :: "'s \<Rightarrow> bool"
    and entry :: "'k \<Rightarrow> 'v \<Rightarrow> bool"
    and put :: "'k \<Rightarrow> 'v \<Rightarrow> 's \<Rightarrow> 's"
    and read :: "'k \<Rightarrow> 's \<Rightarrow> 'v option"
  assumes wf_put: "wf s \<Longrightarrow> entry k v \<Longrightarrow> wf (put k v s)"
    and read_put: "wf s \<Longrightarrow> entry k v \<Longrightarrow> read k' (put k v s) = (if k' = k then Some v else read k' s)"

fun put_all :: "('k \<Rightarrow> 'v \<Rightarrow> 's \<Rightarrow> 's) \<Rightarrow> ('k \<times> 'v) list \<Rightarrow> 's \<Rightarrow> 's" where
  "put_all put [] s = s"
| "put_all put ((k, v) # kvs) s = put_all put kvs (put k v s)"

context kv_config begin

lemma put_all_wf: "wf s \<Longrightarrow> (\<forall>(k, v) \<in> set kvs. entry k v) \<Longrightarrow> wf (put_all put kvs s)"
  by (induction kvs arbitrary: s) (auto simp: wf_put)

lemma read_put_all:
  "wf s \<Longrightarrow> (\<forall>(k, v) \<in> set kvs. entry k v) \<Longrightarrow>
   read k (put_all put kvs s) = (case map_of (rev kvs) k of Some v \<Rightarrow> Some v | None \<Rightarrow> read k s)"
proof (induction kvs arbitrary: s)
  case (Cons kv kvs)
  then show ?case
    by (cases kv) (auto simp: wf_put read_put map_add_def split: option.splits)
qed simp

lemma put_twice: "wf s \<Longrightarrow> entry k v \<Longrightarrow> entry k w \<Longrightarrow> read k' (put k w (put k v s)) = read k' (put k w s)"
  by (simp add: wf_put read_put)

end

text \<open>The model's file provides it when every \<open>fopen\<close> and \<open>rename\<close> succeeds.\<close>

definition io_ok :: cfg_io where
  "io_ok = \<lparr>io_temp = True, io_orig = True, io_rename = True\<rparr>"

definition cfg_put :: "string \<Rightarrow> string \<Rightarrow> string \<Rightarrow> string \<Rightarrow> string option \<Rightarrow> string option" where
  "cfg_put jk jv k v f = snd (config_set jk jv io_ok k (Some v) f)"

definition cfg_read :: "string \<Rightarrow> string \<Rightarrow> string \<Rightarrow> string option \<Rightarrow> string option" where
  "cfg_read jk jv k f = (case config_get jk jv k (Some []) 256 f of
     (CONFIG_SUCCESS, v) \<Rightarrow> v | _ \<Rightarrow> None)"

lemma cfg_put_eq:
  "good_entry k v \<Longrightarrow> cfg_put jk jv k v f =
     Some (concat (new_lines jk jv k v (fgets_lines (case f of None \<Rightarrow> [] | Some c \<Rightarrow> c))))"
  by (simp add: cfg_put_def config_set_ok io_ok_def good_entry_def)

lemma wf_file_lines: "wf_file f \<Longrightarrow> \<forall>l \<in> set (fgets_lines (case f of None \<Rightarrow> [] | Some c \<Rightarrow> c)). file_line l"
  by (cases f) (auto simp: wf_file_def fgets_concat fgets_all.simps [of 511 "[]"])

lemma cfg_read_eq:
  "cfg_read jk jv k f = (if is_valid_key k then
     map_option (cbuf 256) (get_lines jk jv k (fgets_lines (case f of None \<Rightarrow> [] | Some c \<Rightarrow> c))) else None)"
  by (cases f) (auto simp: cfg_read_def config_get_def is_valid_value_def fgets_all.simps [of 511 "[]"]
      split: option.splits)

interpretation cfg: kv_config wf_file good_entry "cfg_put jk jv" "cfg_read jk jv" for jk jv
proof (unfold_locales, goal_cases)
  case (1 s k v)
  with new_lines_wf [OF 1(2) wf_file_lines [OF 1(1)]] show ?case
    by (auto simp: cfg_put_eq wf_file_def)
next
  case (2 s k v k')
  note wf = new_lines_wf [OF 2(2) wf_file_lines [OF 2(1)], of jk jv]
  from 2(2) have "is_valid_key k" "length v < 256" by (auto simp: good_entry_def)
  with 2 wf show ?case
    by (auto simp: cfg_put_eq cfg_read_eq fgets_concat get_new_lines)
qed

section \<open>Reading the configuration\<close>

datatype storage_type = STORAGE_TYPE_UNKNOW | STORAGE_TYPE_NANDFLASH | STORAGE_TYPE_EMMC

text \<open>\<open>readable\<close> is what \<open>access(path, R_OK) == 0\<close> says.\<close>

definition detect_storage_type :: "(string \<Rightarrow> bool) \<Rightarrow> storage_type" where
  "detect_storage_type readable =
     (if readable ''/sys/block/mtdblock0'' then STORAGE_TYPE_NANDFLASH
      else if readable ''/sys/block/mmcblk0'' then STORAGE_TYPE_EMMC else STORAGE_TYPE_UNKNOW)"

text \<open>The command line run, and the MAC buffer: a short file leaves the old bytes behind its own.\<close>

definition nanddump_cmd :: string where
  "nanddump_cmd = ''nanddump -n -l 4096 /dev/mtd10 | strings | grep vap0_mac | sed '' @
     [CHR 0x27] @ ''s/vap0_mac=//'' @ [CHR 0x27] @ '' > /home/wt/vap0_mac''"

definition read_vap0_mac :: "(string \<Rightarrow> bool) \<Rightarrow> string option \<Rightarrow> string \<Rightarrow> string list \<times> string" where
  "read_vap0_mac readable content mac =
     ((case detect_storage_type readable of STORAGE_TYPE_NANDFLASH \<Rightarrow> [nanddump_cmd] | _ \<Rightarrow> []),
      (case content of None \<Rightarrow> mac
       | Some s \<Rightarrow> take 17 s @ drop (length (take 17 s)) (take 17 mac)))"

text \<open>A failed read leaves the variable alone.\<close>

record cfg_env =
  ce_lmax :: int
  ce_jk :: string
  ce_jv :: string
  ce_js :: string
  ce_readable :: "string \<Rightarrow> bool"
  ce_vap0_mac :: "string option"
  ce_file :: "string option"

definition rd_int :: "cfg_env \<Rightarrow> string \<Rightarrow> int \<Rightarrow> int" where
  "rd_int e key cur = (case config_get_int (ce_lmax e) (ce_jk e) (ce_jv e) (ce_js e) key True (ce_file e) of
     (CONFIG_SUCCESS, Some v) \<Rightarrow> v | _ \<Rightarrow> cur)"

definition rd_str :: "cfg_env \<Rightarrow> string \<Rightarrow> nat \<Rightarrow> string \<Rightarrow> string" where
  "rd_str e key n cur = (case snd (config_get (ce_jk e) (ce_jv e) key (Some cur) n (ce_file e)) of
     Some s \<Rightarrow> s | None \<Rightarrow> cur)"

text \<open>The loop over the bridge interfaces; an index past the array of seven is a memory fault.\<close>

fun read_bridges :: "cfg_env \<Rightarrow> nat \<Rightarrow> nat \<Rightarrow> string list \<Rightarrow> string list option" where
  "read_bridges e i 0 bs = Some bs"
| "read_bridges e i (Suc n) bs = (if i < length bs
     then read_bridges e (Suc i) n (bs[i := rd_str e (cbuf 32 (''BRIDGE_IF'' @ show_nat i)) 32 (bs ! i)])
     else None)"

definition read_basic :: "cfg_env \<Rightarrow> basic_info \<Rightarrow> basic_info" where
  "read_basic e n = n\<lparr>
     bi_bw := rd_int e ''BW'' (bi_bw n), bi_tfc_bw := rd_int e ''TFC_BW'' (bi_tfc_bw n),
     bi_channel := rd_int e ''CHANNEL'' (bi_channel n), bi_type := rd_int e ''TYPE'' (bi_type n),
     bi_log_port := rd_int e ''LOG_PORT'' (bi_log_port n),
     bi_auto_join_net_flag := rd_int e ''AUTO_JOIN_NET'' (bi_auto_join_net_flag n),
     bi_dhcp_enable := rd_int e ''DHCP_ENABLE'' (bi_dhcp_enable n),
     bi_aifh_enable := rd_int e ''ACS_ENABLE'' (bi_aifh_enable n),
     bi_name := rd_str e ''NAME'' 128 (bi_name n), bi_ip := rd_str e ''IP'' 16 (bi_ip n),
     bi_mac := snd (read_vap0_mac (ce_readable e) (ce_vap0_mac e) (bi_mac n)),
     bi_net_manage_ip := rd_str e ''NET_MANAGE_IP'' 16 (bi_net_manage_ip n),
     bi_auto_join_net_mac := [rd_str e ''AUTO_JOIN_NET_MAC0'' 18 (bi_auto_join_net_mac n ! 0),
        rd_str e ''AUTO_JOIN_NET_MAC1'' 18 (bi_auto_join_net_mac n ! 1),
        rd_str e ''AUTO_JOIN_NET_MAC2'' 18 (bi_auto_join_net_mac n ! 2)],
     bi_bridge_interface_num := rd_int e ''BRIDGE_IF_NUM'' (bi_bridge_interface_num n)\<rparr>"

definition read_adv :: "cfg_env \<Rightarrow> adv_info \<Rightarrow> adv_info" where
  "read_adv e a = a\<lparr>
     ai_devid := rd_int e ''DEVID'' (ai_devid a), ai_cell_id := rd_int e ''CELL_ID'' (ai_cell_id a),
     ai_cc_offset := rd_int e ''CC_SPOS'' (ai_cc_offset a),
     ai_mib_params := \<lparr>mp_cp_type = rd_int e ''CP_TYPE'' (mp_cp_type (ai_mib_params a)),
        mp_symbol_type = rd_int e ''SYMBOL_TYPE'' (mp_symbol_type (ai_mib_params a)),
        mp_sysmsg_period = rd_int e ''SYSMSG_PERIOD'' (mp_sysmsg_period (ai_mib_params a)),
        mp_s_cfg_idx = rd_int e ''S_CFG_IDX'' (mp_s_cfg_idx (ai_mib_params a))\<rparr>,
     ai_fisa_enable := rd_int e ''FISA_ENABLE'' (ai_fisa_enable a)\<rparr>"

definition read_sle :: "cfg_env \<Rightarrow> basic_info \<Rightarrow> basic_info" where
  "read_sle e n = n\<lparr>
     bi_sle_type := rd_int e ''SLE_TYPE'' (bi_sle_type n), bi_sle_name := rd_str e ''SLE_NAME'' 32 (bi_sle_name n),
     bi_sle_enable := rd_int e ''SLE_ENABLE'' (bi_sle_enable n),
     bi_trans_tcp_port := rd_int e ''TRANS_TCP_PORT'' (bi_trans_tcp_port n),
     bi_trans_udp_port := rd_int e ''TRANS_UDP_PORT'' (bi_trans_udp_port n)\<rparr>"

definition config_read :: "cfg_env \<Rightarrow> splink_info \<times> adv_info \<Rightarrow> (splink_info \<times> adv_info) option" where
  "config_read e g = (case g of (sp, adv) \<Rightarrow> do {
     let n1 = read_basic e (basic_info (node_info sp));
     bs \<leftarrow> read_bridges e 0 (nat (bi_bridge_interface_num n1)) (bi_bridge_interfaces n1);
     let n2 = read_sle e (n1\<lparr>bi_bridge_interfaces := bs\<rparr>);
     Some (sp\<lparr>node_info := (node_info sp)\<lparr>basic_info := n2\<rparr>,
              sp_node_type := rd_int e ''TYPE'' (sp_node_type sp)\<rparr>,
           read_adv e adv) })"

lemma read_bridges_length: "read_bridges e i n bs = Some bs' \<Longrightarrow> length bs' = length bs"
  by (induction e i n bs rule: read_bridges.induct) (auto split: if_splits)

lemma read_bridges_Some: "(\<exists>bs'. read_bridges e i n bs = Some bs') \<longleftrightarrow> n = 0 \<or> i + n \<le> length bs"
  by (induction e i n bs rule: read_bridges.induct) auto

section \<open>Properties\<close>

lemma config_get_eq:
  "config_get jk jv k cur n f = (if \<not> is_valid_key k \<or> \<not> is_valid_value cur \<or> n = 0
     then (CONFIG_ERROR_INVALID_PARAM, cur)
     else case get_lines jk jv k (fgets_lines (case f of None \<Rightarrow> [] | Some c \<Rightarrow> c)) of
       None \<Rightarrow> (CONFIG_ERROR_NOT_FOUND, cur) | Some v \<Rightarrow> (CONFIG_SUCCESS, Some (cbuf n v)))"
  by (cases f) (simp_all add: config_get_def fgets_all.simps [of 511 "[]"])

lemma fgets_put:
  assumes "wf_file f" "good_entry k v"
  shows "fgets_lines (case cfg_put jk jv k v f of None \<Rightarrow> [] | Some c \<Rightarrow> c) =
    new_lines jk jv k v (fgets_lines (case f of None \<Rightarrow> [] | Some c \<Rightarrow> c))"
  using new_lines_wf [OF assms(2) wf_file_lines [OF assms(1)], of jk jv] assms(2)
  by (simp add: cfg_put_eq fgets_concat)

lemma config_set_put:
  "good_entry k v \<Longrightarrow> config_set jk jv io_ok k (Some v) f = (CONFIG_SUCCESS, cfg_put jk jv k v f)"
  by (simp add: cfg_put_def config_set_ok io_ok_def good_entry_def)



lemma show_int_good:
  assumes "is_valid_key k" "length k < 63" "trimmed k" "- (2 ^ 31) \<le> i" "i < 2 ^ 31"
  shows "good_entry k (show_int i)"
proof -
  have nsp: "\<not> isspace c" if "c \<in> set (show_int i)" for c using that by (rule show_int_not_space)
  from nsp [of "CHR 0x0A"] nsp [of "CHR 0x0D"] have "CHR 0x0A \<notin> set (show_int i) \<and> CHR 0x0D \<notin> set (show_int i)"
    by (auto simp: isspace_def)
  moreover from nsp [of "hd (show_int i)"] nsp [of "last (show_int i)"] have "trimmed (show_int i)"
    by (simp add: trimmed_def)
  ultimately show ?thesis using assms(1-3) length_show_int [OF assms(4,5)]
    by (simp add: good_entry_def is_valid_value_def)
qed

text \<open>An integer stored by \<open>config_set_int\<close> is read back by \<open>config_get_int\<close>, for every 32-bit value,
  provided the uninitialised buffer of \<open>config_get_int\<close> happens to pass the value check.\<close>

theorem config_int_roundtrip:
  assumes "wf_file f" "is_valid_key k" "length k < 63" "trimmed k" "- (2 ^ 31) \<le> i" "i < 2 ^ 31"
    and "2 ^ 31 - 1 \<le> lmax" "is_valid_value (Some js)"
  shows "\<exists>f'. config_set_int jk jv io_ok k i f = (CONFIG_SUCCESS, f') \<and> wf_file f' \<and>
    config_get_int lmax jk jv js k True f' = (CONFIG_SUCCESS, Some i)"
proof -
  note g = show_int_good [OF assms(2-6)]
  have "cbuf 32 (show_int i) = show_int i" "cbuf 256 (show_int i) = show_int i"
    using length_show_int [OF assms(5,6)] by simp_all
  with g assms fgets_put [OF assms(1) g, of jk jv] show ?thesis
    by (auto simp: config_set_int_def config_set_put config_get_int_def config_get_eq get_new_lines
        strtol_show_int cfg.wf_put not_sym [OF show_int_nonempty])
qed

theorem config_int_roundtrip_witness:
  "\<exists>f'. config_set_int [] [] io_ok ''BW'' (-2147483648) None = (CONFIG_SUCCESS, f') \<and>
     config_get_int (2 ^ 31 - 1) [] [] [] ''BW'' True f' = (CONFIG_SUCCESS, Some (-2147483648))"
  using config_int_roundtrip [of None "''BW''" "-2147483648" "2 ^ 31 - 1" "[]" "[]" "[]"]
  by (auto simp: wf_file_def is_valid_key_def is_valid_value_def trimmed_def isspace_def)

text \<open>Whether \<open>config_get_int\<close> finds a key depends on the bytes its uninitialised buffer holds: when
  they are not a valid value it reports an invalid parameter for every key and every file.\<close>

theorem config_get_int_uninitialised:
  assumes "\<not> is_valid_value (Some js)"
  shows "config_get_int lmax jk jv js k True f = (CONFIG_ERROR_INVALID_PARAM, None)"
  using assms by (simp add: config_get_int_def config_get_eq)

theorem config_get_int_uninitialised_witness:
  "config_get_int (2 ^ 31 - 1) [] [] [CHR 0x0A] ''BW'' True (Some (entry_line ''BW'' ''5'')) = (CONFIG_ERROR_INVALID_PARAM, None)"
  using config_get_int_uninitialised [of "[CHR 0x0A]"] by (simp add: is_valid_value_def)

lemma fgets_unterminated:
  assumes "CHR 0x0A \<notin> set b" "length b < 511" "b \<noteq> []"
  shows "fgets_lines b = [b]"
proof -
  have "take_line n b = (b, [])" if "length b < n" for n
    using that assms(1)
  proof (induction b arbitrary: n)
    case Nil
    then show ?case by (cases n) auto
  next
    case (Cons c b)
    then show ?case by (cases n) auto
  qed
  with assms show ?thesis by (simp add: fgets_all.simps [of 511 b] fgets_all.simps [of 511 "[]"])
qed

lemma trim_open_entry:
  assumes "trimmed k" "k \<noteq> []" "trimmed v"
  shows "trim_whitespace (k @ CHR ''='' # v) = k @ CHR ''='' # v"
  by (rule trim_trimmed) (use assms in \<open>auto simp: trimmed_def isspace_def\<close>)

lemma parse_open_entry: "good_entry k v \<Longrightarrow> parse_config_line jk jv (k @ CHR ''='' # v) = Some (k, v)"
proof -
  assume g: "good_entry k v"
  then have k: "k \<noteq> []" "CHR ''='' \<notin> set k" "CHR ''#'' \<notin> set k" "trimmed k" "trimmed v"
    using valid_key_chars by (auto simp: good_entry_def)
  from k have "hd (k @ CHR ''='' # v) \<noteq> CHR ''#''" by (cases k) auto
  with trim_open_entry [of k v] k g show ?thesis
    by (simp add: parse_config_line_def split_eq_entry good_entry_def strncpy_raw_def)
qed

text \<open>A file whose last line lacks its newline is damaged by setting a new key: the new entry is
  glued to that line, so the old key reads the old value followed by the text of the new entry.\<close>

theorem config_set_glues_last_line:
  assumes "good_entry k v" "good_entry k2 v2" "k \<noteq> k2" "good_entry k (v @ k2 @ CHR ''='' # v2)"
  shows "\<exists>f'. config_set jk jv io_ok k2 (Some v2) (Some (k @ CHR ''='' # v)) = (CONFIG_SUCCESS, Some f') \<and>
    config_get jk jv k (Some []) 256 (Some f') = (CONFIG_SUCCESS, Some (v @ k2 @ CHR ''='' # v2)) \<and>
    config_get jk jv k2 (Some []) 256 (Some f') = (CONFIG_ERROR_NOT_FOUND, Some [])"
proof -
  let ?o = "k @ CHR ''='' # v"
  have nl: "CHR 0x0A \<notin> set ?o" "length ?o < 511" "?o \<noteq> []"
    using assms(1) by (auto simp: good_entry_def is_valid_value_def dest: valid_key_chars)
  have no: "\<not> line_has_key jk jv k2 ?o" using assms(3) parse_open_entry [OF assms(1)] by (simp add: line_has_key_def)
  let ?f = "entry_line k (v @ k2 @ CHR ''='' # v2)"
  have "config_set jk jv io_ok k2 (Some v2) (Some ?o) = (CONFIG_SUCCESS, Some ?f)"
    using config_set_put [OF assms(2)] no
    by (simp add: cfg_put_eq [OF assms(2)] fgets_unterminated [OF nl] new_lines_def) (simp add: entry_line_def)
  moreover have "fgets_lines ?f = [?f]"
    using fgets_concat [of "[?f]"] entry_file_line [OF assms(4)] by simp
  ultimately show ?thesis
    using parse_entry [OF assms(4)] assms(2,3,4)
    by (auto simp: config_get_eq good_entry_def is_valid_value_def)
qed

theorem config_set_glues_last_line_witness:
  "\<exists>f'. config_set [] [] io_ok ''CHANNEL'' (Some ''6'') (Some ''BW=20'') = (CONFIG_SUCCESS, Some f') \<and>
     config_get [] [] ''BW'' (Some []) 256 (Some f') = (CONFIG_SUCCESS, Some ''20CHANNEL=6'')"
  using config_set_glues_last_line [of "''BW''" "''20''" "''CHANNEL''" "''6''" "[]" "[]"]
  by (auto simp: good_entry_def is_valid_key_def is_valid_value_def trimmed_def isspace_def)

text \<open>Reading the configuration stays within the array of bridge interfaces exactly when the number
  of interfaces stored in the file (or the default, when there is none) is at most seven: nothing
  checks it, and a larger number writes past the array.\<close>

theorem config_read_bridge_bound:
  assumes "length (bi_bridge_interfaces (basic_info (node_info sp))) = 7"
  shows "config_read e (sp, adv) = None \<longleftrightarrow>
    7 < rd_int e ''BRIDGE_IF_NUM'' (bi_bridge_interface_num (basic_info (node_info sp)))"
proof -
  let ?n = "read_basic e (basic_info (node_info sp))"
  have len: "length (bi_bridge_interfaces ?n) = 7" using assms by (simp add: read_basic_def)
  have num: "bi_bridge_interface_num ?n =
      rd_int e ''BRIDGE_IF_NUM'' (bi_bridge_interface_num (basic_info (node_info sp)))"
    by (simp add: read_basic_def)
  show ?thesis
    using read_bridges_Some [of e 0 "nat (bi_bridge_interface_num ?n)" "bi_bridge_interfaces ?n"] len
    by (auto simp: config_read_def Let_def num bind_eq_None_conv)
qed

definition demo_env :: "string option \<Rightarrow> cfg_env" where
  "demo_env f = \<lparr>ce_lmax = 2 ^ 31 - 1, ce_jk = [], ce_jv = [], ce_js = [], ce_readable = (\<lambda>_. False),
     ce_vap0_mac = None, ce_file = f\<rparr>"

definition demo_adv :: adv_info where
  "demo_adv = \<lparr>ai_devid = 0, ai_password = [], ai_cell_id = 0, ai_power = 0, ai_cc_offset = 0,
     ai_mcs_bound_table = [], ai_mib_params = \<lparr>mp_cp_type = 0, mp_symbol_type = 0, mp_sysmsg_period = 0, mp_s_cfg_idx = 0\<rparr>,
     ai_sec_exch_cap = 0, ai_sec_sec_cap = 0, ai_lce_mode = 0, ai_pps_enable = 0, ai_fem_check = [],
     ai_chip_temperature = 0, ai_range_opt = 0, ai_slb_cnt = 0, ai_glb_cnt = 0, ai_wds_enable = 0, ai_wds_mode = 0,
     ai_user_mcs = [], ai_real_pow = 0, ai_exp_pow = 0, ai_user_rssi = [], ai_fisa_enable = 0\<rparr>"

definition demo_sp :: splink_info where
  "demo_sp = \<lparr>node_info = zero_info, sp_node_type = 0, link_state = 0, user_num = 0, uid = 0, sp_mac = [], need_refresh = False\<rparr>"

lemma show_int_8: "show_int 8 = ''8''"
  by code_simp

lemma demo_rd_int: "rd_int (demo_env (Some (entry_line ''BRIDGE_IF_NUM'' ''8''))) ''BRIDGE_IF_NUM'' 0 = 8"
proof -
  have g: "good_entry ''BRIDGE_IF_NUM'' ''8''"
    by (simp add: good_entry_def is_valid_key_def is_valid_value_def trimmed_def isspace_def)
  have "config_get_int (2 ^ 31 - 1) [] [] [] ''BRIDGE_IF_NUM'' True (cfg_put [] [] ''BRIDGE_IF_NUM'' ''8'' None) = (CONFIG_SUCCESS, Some 8)"
    using g fgets_put [of None, OF _ g, of "[]" "[]"] strtol_show_int [of "2 ^ 31 - 1" 8]
    by (simp add: config_get_int_def config_get_eq get_new_lines wf_file_def is_valid_value_def good_entry_def show_int_8)
  moreover have "cfg_put [] [] ''BRIDGE_IF_NUM'' ''8'' None = Some (entry_line ''BRIDGE_IF_NUM'' ''8'')"
    by (simp add: cfg_put_eq [OF g] new_lines_def fgets_all.simps)
  ultimately show ?thesis by (simp add: rd_int_def demo_env_def)
qed

lemma demo_sp_bridges: "length (bi_bridge_interfaces (basic_info (node_info demo_sp))) = 7"
  "bi_bridge_interface_num (basic_info (node_info demo_sp)) = 0"
  by (simp_all add: demo_sp_def zero_info_def zero_basic_def)

theorem config_read_bridge_bound_witness:
  "config_read (demo_env (Some (entry_line ''BRIDGE_IF_NUM'' ''8''))) (demo_sp, demo_adv) = None"
  using config_read_bridge_bound [OF demo_sp_bridges(1)] demo_rd_int
  by (simp add: demo_sp_bridges(2))

end
