(* ===== verification/UserDb.thy ===== *)
theory UserDb
  imports CfgManager
begin

text \<open>
  The user and task tables (db/wtsl_core_db.c).  SQLite is a parameter: opening a database,
  executing a statement without parameters, and preparing, binding and stepping one statement.
  The result of a step is an error on prepare, a row, \<open>SQLITE_DONE\<close> or another error; a
  statement that could not be prepared is NULL and steps to an error.

  \<open>sql_meaning\<close> is the documented meaning, on tables, of the statements this file sends;
  \<open>sqlite_sound\<close> is the hypothesis that an engine implements it.
\<close>

section \<open>The engine\<close>

datatype sql_val = SQL_Null | SQL_Int int | SQL_Text string

datatype sql_res = Prepare_Err | Sql_Row "sql_val list" | Sql_Done | Step_Err

record 'd sqlite =
  sq_open :: "string \<Rightarrow> 'd option"
  sq_exec :: "string \<Rightarrow> 'd \<Rightarrow> bool \<times> 'd"
  sq_step :: "string \<Rightarrow> sql_val list \<Rightarrow> 'd \<Rightarrow> sql_res \<times> 'd"

fun column_int :: "sql_val \<Rightarrow> int" where
  "column_int (SQL_Int i) = i"
| "column_int (SQL_Text s) = fst (strtol (2 ^ 63 - 1) s)"
| "column_int SQL_Null = 0"

text \<open>\<open>NULL\<close> columns read as a NULL pointer.\<close>

fun column_text :: "sql_val \<Rightarrow> string option" where
  "column_text (SQL_Text s) = Some s"
| "column_text (SQL_Int i) = Some (show_int i)"
| "column_text SQL_Null = None"

definition bind_text :: "string option \<Rightarrow> sql_val" where
  "bind_text p = (case p of None \<Rightarrow> SQL_Null | Some s \<Rightarrow> SQL_Text s)"

section \<open>Statements\<close>

definition col :: "string \<Rightarrow> string \<Rightarrow> string" where
  "col n t = n @ [CHR 0x09] @ t @ '',''"

definition create_user_sql :: string where
  "create_user_sql = ''CREATE TABLE IF NOT EXISTS user ('' @ col ''id'' ''INTEGER NOT NULL UNIQUE'' @
     col ''username'' ''TEXT NOT NULL'' @ col ''password'' ''TEXT NOT NULL'' @ col ''gid'' ''INTEGER'' @
     col ''token'' ''TEXT'' @ col ''expire'' ''INTEGER'' @ col ''name'' ''TEXT'' @ col ''age'' ''INTEGER'' @
     col ''gender'' ''TEXT'' @ col ''level'' ''INTEGER'' @ col ''address'' ''TEXT'' @ col ''phone'' ''TEXT'' @
     ''PRIMARY KEY('' @ [CHR 0x22] @ ''id'' @ [CHR 0x22] @ '' AUTOINCREMENT));''"

definition create_task_sql :: string where
  "create_task_sql = ''CREATE TABLE IF NOT EXISTS task(task_name TEXT PRIMARY KEY NOT NULL,used_time INTEGER,plan_time INTEGER,left_time INTEGER,reward_score INTEGER);''"

definition create_log_sql :: string where
  "create_log_sql = ''CREATE TABLE IF NOT EXISTS log(username TEXT PRIMARY KEY NOT NULL,login_token TEXT,login_time INTEGER,left_time INTEGER);''"

definition table_create_sql :: "string list" where
  "table_create_sql = [create_user_sql, create_task_sql, create_log_sql]"

definition sql_exists :: string where "sql_exists = ''SELECT username FROM user WHERE username=?''"

definition sql_insert_user :: string where
  "sql_insert_user = ''INSERT INTO user (username, password, gid, token, expire, name, age, gender, level, address, phone) VALUES (?, ?, ?, NULL, 1699999999, '' @
     [CHR 0x27, CHR 0x27] @ '', 0, '' @ [CHR 0x27, CHR 0x27] @ '', 0, '' @ [CHR 0x27, CHR 0x27] @ '', '' @ [CHR 0x27, CHR 0x27] @ '')''"

definition sql_id_gid :: string where "sql_id_gid = ''SELECT id,gid FROM user WHERE username=?''"
definition sql_password :: string where "sql_password = ''SELECT password FROM user WHERE username=?''"
definition sql_token :: string where "sql_token = ''SELECT token FROM user WHERE username=?''"
definition sql_set_token :: string where "sql_set_token = ''UPDATE user SET token=? WHERE username=?''"
definition sql_set_info :: string where
  "sql_set_info = ''UPDATE user SET name=?, age=?, gender=?, level=?, address=?, phone=? WHERE username=?''"
definition sql_put_task :: string where
  "sql_put_task = ''INSERT OR REPLACE INTO task (task_name, used_time, plan_time, left_time, reward_score) VALUES (?,?,?,?,?)''"
definition sql_ctx :: string where "sql_ctx = ''SELECT id, gid, expire FROM user WHERE username=?''"
definition sql_info :: string where
  "sql_info = ''SELECT name, age, gender, level, address, phone FROM user WHERE username=?''"
definition sql_task :: string where
  "sql_task = ''SELECT used_time, plan_time, left_time, reward_score FROM task WHERE task_name=?''"
definition sql_del_user :: string where "sql_del_user = ''DELETE FROM user WHERE username=?''"
definition sql_del_task :: string where "sql_del_task = ''DELETE FROM task WHERE task_name=?''"
definition sql_set_password :: string where "sql_set_password = ''UPDATE user SET password=? WHERE username=?''"

lemmas sql_defs = sql_exists_def sql_insert_user_def sql_id_gid_def sql_password_def sql_token_def
  sql_set_token_def sql_set_info_def sql_put_task_def sql_ctx_def sql_info_def sql_task_def
  sql_del_user_def sql_del_task_def sql_set_password_def

section \<open>Operations\<close>

fun db_create_tables :: "'d sqlite \<Rightarrow> string list \<Rightarrow> 'd \<Rightarrow> int \<times> 'd" where
  "db_create_tables E [] d = (0, d)"
| "db_create_tables E (q # qs) d = (case sq_exec E q d of
     (ok, d1) \<Rightarrow> if \<not> ok then (-1, d1) else db_create_tables E qs d1)"

definition db_create_all_tables :: "'d sqlite \<Rightarrow> 'd \<Rightarrow> int \<times> 'd" where
  "db_create_all_tables E d = db_create_tables E table_create_sql d"

definition db_user_exists :: "'d sqlite \<Rightarrow> string \<Rightarrow> 'd \<Rightarrow> bool \<times> 'd" where
  "db_user_exists E user d = (case sq_step E sql_exists [SQL_Text user] d of
     (Sql_Row _, d1) \<Rightarrow> (True, d1) | (_, d1) \<Rightarrow> (False, d1))"

definition db_register :: "'d sqlite \<Rightarrow> string option \<Rightarrow> int \<Rightarrow> string option \<Rightarrow> 'd \<Rightarrow> int \<times> 'd" where
  "db_register E user gid pwd d =
     (if user = None \<or> pwd = None \<or> user = Some [] \<or> pwd = Some [] then (-1, d)
      else (case sq_step E sql_insert_user [bind_text user, bind_text pwd, SQL_Int gid] d of
          (Sql_Done, d1) \<Rightarrow> (0, d1) | (_, d1) \<Rightarrow> (-1, d1)))"

text \<open>The outputs are left unset when there is no such row; the result is 0 all the same.\<close>

definition db_get_register_resp :: "'d sqlite \<Rightarrow> string \<Rightarrow> 'd \<Rightarrow> int \<times> (int \<times> int) option \<times> 'd" where
  "db_get_register_resp E user d = (case sq_step E sql_id_gid [SQL_Text user] d of
     (Sql_Row r, d1) \<Rightarrow> (0, Some (column_int (r ! 0), column_int (r ! 1)), d1)
   | (_, d1) \<Rightarrow> (0, None, d1))"

text \<open>\<open>None\<close> when \<open>strcmp\<close> would read a NULL password column.\<close>

definition db_check_password :: "'d sqlite \<Rightarrow> string \<Rightarrow> string \<Rightarrow> 'd \<Rightarrow> (bool \<times> 'd) option" where
  "db_check_password E user pwd d = (case sq_step E sql_password [SQL_Text user] d of
     (Sql_Row r, d1) \<Rightarrow> map_option (\<lambda>db_pwd. (pwd = db_pwd, d1)) (column_text (r ! 0))
   | (_, d1) \<Rightarrow> Some (False, d1))"

text \<open>The token goes into a zeroed buffer of 128 bytes; a NULL token column is a fault.\<close>

definition db_get_token :: "'d sqlite \<Rightarrow> string \<Rightarrow> 'd \<Rightarrow> (int \<times> string \<times> 'd) option" where
  "db_get_token E user d = (case sq_step E sql_token [SQL_Text user] d of
     (Sql_Row r, d1) \<Rightarrow> map_option (\<lambda>t. (0, cbuf 128 t, d1)) (column_text (r ! 0))
   | (_, d1) \<Rightarrow> Some (-1, [], d1))"

definition run_done :: "'d sqlite \<Rightarrow> string \<Rightarrow> sql_val list \<Rightarrow> 'd \<Rightarrow> bool \<times> 'd" where
  "run_done E q bs d = (case sq_step E q bs d of (Sql_Done, d1) \<Rightarrow> (True, d1) | (_, d1) \<Rightarrow> (False, d1))"

definition db_update_user_token :: "'d sqlite \<Rightarrow> string \<Rightarrow> string \<Rightarrow> 'd \<Rightarrow> bool \<times> 'd" where
  "db_update_user_token E username token d = run_done E sql_set_token [SQL_Text token, SQL_Text username] d"

definition db_update_userinfo ::
    "'d sqlite \<Rightarrow> string \<Rightarrow> string \<Rightarrow> int \<Rightarrow> string \<Rightarrow> int \<Rightarrow> string \<Rightarrow> string \<Rightarrow> 'd \<Rightarrow> bool \<times> 'd" where
  "db_update_userinfo E username nm age gender level address phone d =
     run_done E sql_set_info [SQL_Text nm, SQL_Int age, SQL_Text gender, SQL_Int level, SQL_Text address,
       SQL_Text phone, SQL_Text username] d"

definition db_save_or_update_task :: "'d sqlite \<Rightarrow> string \<Rightarrow> int \<Rightarrow> int \<Rightarrow> int \<Rightarrow> int \<Rightarrow> 'd \<Rightarrow> bool \<times> 'd" where
  "db_save_or_update_task E task_name used_time plan_time left_time reward_score d =
     run_done E sql_put_task [SQL_Text task_name, SQL_Int used_time, SQL_Int plan_time, SQL_Int left_time,
       SQL_Int reward_score] d"

definition db_get_user_ctx :: "'d sqlite \<Rightarrow> string \<Rightarrow> user_ctx \<Rightarrow> 'd \<Rightarrow> user_ctx \<times> 'd" where
  "db_get_user_ctx E username ctx d = (case sq_step E sql_ctx [SQL_Text username] d of
     (Sql_Row r, d1) \<Rightarrow> (ctx\<lparr>uc_user_id := column_int (r ! 0), uc_group_id := column_int (r ! 1),
                           uc_expire := column_int (r ! 2)\<rparr>, d1)
   | (_, d1) \<Rightarrow> (ctx, d1))"

record user_info =
  ui_name :: string
  ui_age :: int
  ui_gender :: string
  ui_level :: int
  ui_address :: string
  ui_phone :: string

definition text_or :: "string \<Rightarrow> sql_val \<Rightarrow> string" where
  "text_or old v = (case column_text v of None \<Rightarrow> old | Some s \<Rightarrow> s)"

definition db_get_userinfo :: "'d sqlite \<Rightarrow> string \<Rightarrow> user_info \<Rightarrow> 'd \<Rightarrow> bool \<times> user_info \<times> 'd" where
  "db_get_userinfo E username out d = (case sq_step E sql_info [SQL_Text username] d of
     (Sql_Row r, d1) \<Rightarrow> (True, \<lparr>ui_name = text_or (ui_name out) (r ! 0), ui_age = column_int (r ! 1),
         ui_gender = text_or (ui_gender out) (r ! 2), ui_level = column_int (r ! 3),
         ui_address = text_or (ui_address out) (r ! 4), ui_phone = text_or (ui_phone out) (r ! 5)\<rparr>, d1)
   | (_, d1) \<Rightarrow> (False, out, d1))"

definition db_get_taskinfo :: "'d sqlite \<Rightarrow> string \<Rightarrow> 'd \<Rightarrow> (int \<times> int \<times> int \<times> int) option \<times> 'd" where
  "db_get_taskinfo E task_name d = (case sq_step E sql_task [SQL_Text task_name] d of
     (Sql_Row r, d1) \<Rightarrow> (Some (column_int (r ! 0), column_int (r ! 1), column_int (r ! 2), column_int (r ! 3)), d1)
   | (_, d1) \<Rightarrow> (None, d1))"

definition db_delete_user :: "'d sqlite \<Rightarrow> string \<Rightarrow> 'd \<Rightarrow> bool \<times> 'd" where
  "db_delete_user E username d = run_done E sql_del_user [SQL_Text username] d"

definition db_delete_task :: "'d sqlite \<Rightarrow> string \<Rightarrow> 'd \<Rightarrow> bool \<times> 'd" where
  "db_delete_task E task_name d = run_done E sql_del_task [SQL_Text task_name] d"

definition db_change_password :: "'d sqlite \<Rightarrow> string \<Rightarrow> string option \<Rightarrow> 'd \<Rightarrow> bool \<times> 'd" where
  "db_change_password E username new_pwd d = run_done E sql_set_password [bind_text new_pwd, SQL_Text username] d"

definition db_set_default_admin_info :: "'d sqlite \<Rightarrow> 'd \<Rightarrow> int \<times> 'd" where
  "db_set_default_admin_info E d = (case db_user_exists E ''admin'' d of
     (True, d1) \<Rightarrow> (0, d1)
   | (False, d1) \<Rightarrow> (0, snd (db_register E (Some ''admin'') 0 (Some ''123456'') d1)))"

text \<open>\<open>sqlite3_exec\<close> on the key statement must leave no error message.\<close>

definition init_db :: "'d sqlite \<Rightarrow> string \<Rightarrow> string \<Rightarrow> string option \<Rightarrow> int \<times> 'd option" where
  "init_db E jk jv file =
     (let dbname = the (snd (config_get jk jv ''DBNAME'' (Some ''wtsl.db'') 64 file)) in
      case sq_open E dbname of
        None \<Rightarrow> (-1, None)
      | Some d \<Rightarrow>
          (let (rc, key) = config_get jk jv ''DBKEY'' (Some ''12345678'') 16 file;
               pragma = (if rc \<noteq> CONFIG_SUCCESS then ''PRAGMA key = '' @ [CHR 0x27] @ ''12345678'' @ [CHR 0x27] @ '';''
                         else ''PRAGMA key = '' @ [CHR 0x27] @ the key @ [CHR 0x27] @ '';'')
           in case sq_exec E pragma d of
                (False, d1) \<Rightarrow> (-1, None)
              | (True, d1) \<Rightarrow> (0, Some (snd (db_set_default_admin_info E (snd (db_create_all_tables E d1)))))))"

section \<open>The meaning of the statements\<close>

record user_row =
  r_id :: int
  r_name :: string
  r_password :: string
  r_gid :: int
  r_token :: "string option"
  r_expire :: int
  r_info :: user_info

record tables =
  t_users :: "user_row list"
  t_seq :: int
  t_tasks :: "(string \<times> int \<times> int \<times> int \<times> int) list"

definition user_of :: "tables \<Rightarrow> string \<Rightarrow> user_row option" where
  "user_of t u = find (\<lambda>r. r_name r = u) (t_users t)"

definition select_user :: "string \<Rightarrow> (user_row \<Rightarrow> sql_val list) \<Rightarrow> tables \<Rightarrow> sql_res" where
  "select_user u f t = (case user_of t u of None \<Rightarrow> Sql_Done | Some r \<Rightarrow> Sql_Row (f r))"

definition update_user :: "string \<Rightarrow> (user_row \<Rightarrow> user_row) \<Rightarrow> tables \<Rightarrow> tables" where
  "update_user u g t = t\<lparr>t_users := map (\<lambda>r. if r_name r = u then g r else r) (t_users t)\<rparr>"

definition new_row :: "int \<Rightarrow> string \<Rightarrow> string \<Rightarrow> int \<Rightarrow> user_row" where
  "new_row i u p g = \<lparr>r_id = i, r_name = u, r_password = p, r_gid = g, r_token = None, r_expire = 1699999999,
     r_info = \<lparr>ui_name = [], ui_age = 0, ui_gender = [], ui_level = 0, ui_address = [], ui_phone = []\<rparr>\<rparr>"

definition insert_user :: "string \<Rightarrow> string \<Rightarrow> int \<Rightarrow> tables \<Rightarrow> tables" where
  "insert_user u p g t = t\<lparr>t_users := t_users t @ [new_row (t_seq t + 1) u p g], t_seq := t_seq t + 1\<rparr>"

definition delete_user :: "string \<Rightarrow> tables \<Rightarrow> tables" where
  "delete_user u t = t\<lparr>t_users := filter (\<lambda>r. r_name r \<noteq> u) (t_users t)\<rparr>"

definition token_val :: "user_row \<Rightarrow> sql_val" where
  "token_val r = bind_text (r_token r)"

text \<open>A statement with these parameters answers \<open>res\<close> of the tables and changes them by \<open>upd\<close>.\<close>

definition answers ::
    "'d sqlite \<Rightarrow> ('d \<Rightarrow> tables) \<Rightarrow> string \<Rightarrow> sql_val list \<Rightarrow> (tables \<Rightarrow> sql_res) \<Rightarrow> (tables \<Rightarrow> tables) \<Rightarrow> bool" where
  "answers E tbl q bs res upd \<longleftrightarrow> (\<forall>d. \<exists>d'. sq_step E q bs d = (res (tbl d), d') \<and> tbl d' = upd (tbl d))"

definition sqlite_sound :: "'d sqlite \<Rightarrow> ('d \<Rightarrow> tables) \<Rightarrow> bool" where
  "sqlite_sound E tbl \<longleftrightarrow>
     (\<forall>u. answers E tbl sql_exists [SQL_Text u] (select_user u (\<lambda>r. [SQL_Text (r_name r)])) id) \<and>
     (\<forall>u. answers E tbl sql_id_gid [SQL_Text u] (select_user u (\<lambda>r. [SQL_Int (r_id r), SQL_Int (r_gid r)])) id) \<and>
     (\<forall>u. answers E tbl sql_password [SQL_Text u] (select_user u (\<lambda>r. [SQL_Text (r_password r)])) id) \<and>
     (\<forall>u. answers E tbl sql_token [SQL_Text u] (select_user u (\<lambda>r. [token_val r])) id) \<and>
     (\<forall>u. answers E tbl sql_ctx [SQL_Text u]
        (select_user u (\<lambda>r. [SQL_Int (r_id r), SQL_Int (r_gid r), SQL_Int (r_expire r)])) id) \<and>
     (\<forall>u p g. answers E tbl sql_insert_user [SQL_Text u, SQL_Text p, SQL_Int g] (\<lambda>_. Sql_Done) (insert_user u p g)) \<and>
     (\<forall>u tok. answers E tbl sql_set_token [SQL_Text tok, SQL_Text u] (\<lambda>_. Sql_Done)
        (update_user u (\<lambda>r. r\<lparr>r_token := Some tok\<rparr>))) \<and>
     (\<forall>u p. answers E tbl sql_set_password [SQL_Text p, SQL_Text u] (\<lambda>_. Sql_Done)
        (update_user u (\<lambda>r. r\<lparr>r_password := p\<rparr>))) \<and>
     (\<forall>u. answers E tbl sql_del_user [SQL_Text u] (\<lambda>_. Sql_Done) (delete_user u))"

lemma answersE:
  assumes "answers E tbl q bs res upd"
  obtains d' where "sq_step E q bs d = (res (tbl d), d')" "tbl d' = upd (tbl d)"
  using assms unfolding answers_def by blast

text \<open>An engine on the tables themselves, for the instances of the properties.\<close>

definition demo_step :: "string \<Rightarrow> sql_val list \<Rightarrow> tables \<Rightarrow> sql_res \<times> tables" where
  "demo_step q bs t = (case bs of
     [SQL_Text u] \<Rightarrow>
        if q = sql_exists then (select_user u (\<lambda>r. [SQL_Text (r_name r)]) t, t)
        else if q = sql_id_gid then (select_user u (\<lambda>r. [SQL_Int (r_id r), SQL_Int (r_gid r)]) t, t)
        else if q = sql_password then (select_user u (\<lambda>r. [SQL_Text (r_password r)]) t, t)
        else if q = sql_token then (select_user u (\<lambda>r. [token_val r]) t, t)
        else if q = sql_ctx then (select_user u (\<lambda>r. [SQL_Int (r_id r), SQL_Int (r_gid r), SQL_Int (r_expire r)]) t, t)
        else (Sql_Done, delete_user u t)
   | [SQL_Text a, SQL_Text u] \<Rightarrow>
        if q = sql_set_token then (Sql_Done, update_user u (\<lambda>r. r\<lparr>r_token := Some a\<rparr>) t)
        else (Sql_Done, update_user u (\<lambda>r. r\<lparr>r_password := a\<rparr>) t)
   | [SQL_Text u, SQL_Text p, SQL_Int g] \<Rightarrow> (Sql_Done, insert_user u p g t)
   | _ \<Rightarrow> (Prepare_Err, t))"

definition demo_sqlite :: "tables sqlite" where
  "demo_sqlite = \<lparr>sq_open = (\<lambda>_. Some \<lparr>t_users = [], t_seq = 0, t_tasks = []\<rparr>), sq_exec = (\<lambda>_ t. (True, t)), sq_step = demo_step\<rparr>"

lemma demo_sqlite_sound: "sqlite_sound demo_sqlite (\<lambda>t. t)"
  by (simp add: sqlite_sound_def answers_def demo_sqlite_def demo_step_def sql_defs)

section \<open>The operations on the tables\<close>

lemma db_user_exists_sound:
  assumes "sqlite_sound E tbl"
  obtains d' where "db_user_exists E u d = (user_of (tbl d) u \<noteq> None, d')" "tbl d' = tbl d"
proof -
  from assms have "answers E tbl sql_exists [SQL_Text u] (select_user u (\<lambda>r. [SQL_Text (r_name r)])) id"
    by (simp add: sqlite_sound_def)
  from answersE [OF this, of d] that show ?thesis
    by (force simp: db_user_exists_def select_user_def split: option.splits)
qed

lemma db_register_sound:
  assumes "sqlite_sound E tbl" "u \<noteq> []" "p \<noteq> []"
  obtains d' where "db_register E (Some u) g (Some p) d = (0, d')" "tbl d' = insert_user u p g (tbl d)"
proof -
  from assms have "answers E tbl sql_insert_user [SQL_Text u, SQL_Text p, SQL_Int g] (\<lambda>_. Sql_Done) (insert_user u p g)"
    by (simp add: sqlite_sound_def)
  from answersE [OF this, of d] that assms show ?thesis
    by (force simp: db_register_def bind_text_def)
qed

lemma db_register_empty:
  "u = [] \<or> p = [] \<Longrightarrow> db_register E (Some u) g (Some p) d = (-1, d)"
  by (auto simp: db_register_def)

lemma db_get_register_resp_sound:
  assumes "sqlite_sound E tbl"
  obtains d' where "db_get_register_resp E u d = (0, map_option (\<lambda>r. (r_id r, r_gid r)) (user_of (tbl d) u), d')" "tbl d' = tbl d"
proof -
  from assms have "answers E tbl sql_id_gid [SQL_Text u] (select_user u (\<lambda>r. [SQL_Int (r_id r), SQL_Int (r_gid r)])) id"
    by (simp add: sqlite_sound_def)
  from answersE [OF this, of d] that show ?thesis
    by (force simp: db_get_register_resp_def select_user_def split: option.splits)
qed

lemma db_check_password_sound:
  assumes "sqlite_sound E tbl"
  obtains d' where "db_check_password E u p d =
    Some (case user_of (tbl d) u of None \<Rightarrow> False | Some r \<Rightarrow> p = r_password r, d')" "tbl d' = tbl d"
proof -
  from assms have "answers E tbl sql_password [SQL_Text u] (select_user u (\<lambda>r. [SQL_Text (r_password r)])) id"
    by (simp add: sqlite_sound_def)
  from answersE [OF this, of d] that show ?thesis
    by (force simp: db_check_password_def select_user_def split: option.splits)
qed

lemma db_get_user_ctx_sound:
  assumes "sqlite_sound E tbl"
  obtains d' where "db_get_user_ctx E u c d = (case user_of (tbl d) u of None \<Rightarrow> c
      | Some r \<Rightarrow> c\<lparr>uc_user_id := r_id r, uc_group_id := r_gid r, uc_expire := r_expire r\<rparr>, d')" "tbl d' = tbl d"
proof -
  from assms have "answers E tbl sql_ctx [SQL_Text u]
      (select_user u (\<lambda>r. [SQL_Int (r_id r), SQL_Int (r_gid r), SQL_Int (r_expire r)])) id"
    by (simp add: sqlite_sound_def)
  from answersE [OF this, of d] that show ?thesis
    by (force simp: db_get_user_ctx_def select_user_def split: option.splits)
qed

lemma db_update_user_token_sound:
  assumes "sqlite_sound E tbl"
  obtains d' where "db_update_user_token E u t d = (True, d')" "tbl d' = update_user u (\<lambda>r. r\<lparr>r_token := Some t\<rparr>) (tbl d)"
proof -
  from assms have "answers E tbl sql_set_token [SQL_Text t, SQL_Text u] (\<lambda>_. Sql_Done) (update_user u (\<lambda>r. r\<lparr>r_token := Some t\<rparr>))"
    by (simp add: sqlite_sound_def)
  from answersE [OF this, of d] that show ?thesis
    by (force simp: db_update_user_token_def run_done_def)
qed

lemma db_change_password_sound:
  assumes "sqlite_sound E tbl"
  obtains d' where "db_change_password E u (Some p) d = (True, d')" "tbl d' = update_user u (\<lambda>r. r\<lparr>r_password := p\<rparr>) (tbl d)"
proof -
  from assms have "answers E tbl sql_set_password [SQL_Text p, SQL_Text u] (\<lambda>_. Sql_Done) (update_user u (\<lambda>r. r\<lparr>r_password := p\<rparr>))"
    by (simp add: sqlite_sound_def)
  from answersE [OF this, of d] that show ?thesis
    by (force simp: db_change_password_def run_done_def bind_text_def)
qed

lemma db_delete_user_sound:
  assumes "sqlite_sound E tbl"
  obtains d' where "db_delete_user E u d = (True, d')" "tbl d' = delete_user u (tbl d)"
proof -
  from assms have "answers E tbl sql_del_user [SQL_Text u] (\<lambda>_. Sql_Done) (delete_user u)"
    by (simp add: sqlite_sound_def)
  from answersE [OF this, of d] that show ?thesis
    by (force simp: db_delete_user_def run_done_def)
qed

text \<open>Lookups after the updates.\<close>

lemma find_map_same:
  "(\<And>r. r_name (g r) = r_name r) \<Longrightarrow>
   find (\<lambda>r. r_name r = v) (map (\<lambda>r. if r_name r = u then g r else r) rs) =
   map_option (\<lambda>r. if r_name r = u then g r else r) (find (\<lambda>r. r_name r = v) rs)"
  by (induction rs) auto

lemma user_of_update:
  "(\<And>r. r_name (g r) = r_name r) \<Longrightarrow>
   user_of (update_user u g t) v = (if v = u then map_option g (user_of t u) else user_of t v)"
proof -
  assume n: "\<And>r. r_name (g r) = r_name r"
  have "r_name r = v" if "find (\<lambda>r. r_name r = v) (t_users t) = Some r" for r
    using that by (auto simp: find_Some_iff)
  with n show ?thesis
    by (cases "find (\<lambda>r. r_name r = v) (t_users t)") (auto simp: user_of_def update_user_def find_map_same)
qed

lemma find_append: "find P (xs @ ys) = (case find P xs of None \<Rightarrow> find P ys | Some x \<Rightarrow> Some x)"
  by (induction xs) auto

lemma user_of_insert:
  "user_of (insert_user u p g t) v = (case user_of t v of Some r \<Rightarrow> Some r
     | None \<Rightarrow> if v = u then Some (new_row (t_seq t + 1) u p g) else None)"
  by (auto simp: user_of_def insert_user_def find_append new_row_def split: option.splits)

lemma user_of_delete: "user_of (delete_user u t) v = (if v = u then None else user_of t v)"
proof -
  have f: "find (\<lambda>r. r_name r = v) (filter (\<lambda>r. r_name r \<noteq> u) rs) =
      (if v = u then None else find (\<lambda>r. r_name r = v) rs)" for rs
    by (induction rs) auto
  show ?thesis using f [of "t_users t"] by (simp add: user_of_def delete_user_def)
qed

section \<open>Properties\<close>

lemma create_tables_tbl:
  "(\<And>q d. tbl (snd (sq_exec E q d)) = tbl d) \<Longrightarrow> tbl (snd (db_create_tables E qs d)) = tbl d"
proof (induction qs arbitrary: d)
  case (Cons q qs)
  obtain ok d1 where "sq_exec E q d = (ok, d1)" by fastforce
  with Cons.prems [of q d] Cons.IH [OF Cons.prems, of d1] show ?case by auto
qed simp

text \<open>When the database opens and accepts its key, initialisation leaves every user as stored and
  ensures an administrator: the stored one if there is one, otherwise a new user \<open>admin\<close> of
  group 0 with the default password.  (Creating tables that exist changes no row.)\<close>

theorem init_db_admin:
  assumes "sqlite_sound E tbl" "\<And>q d. tbl (snd (sq_exec E q d)) = tbl d" "init_db E jk jv file = (rc, Some d1)"
  shows "\<exists>path d0. sq_open E path = Some d0 \<and> rc = 0 \<and>
    (\<forall>v. v \<noteq> ''admin'' \<longrightarrow> user_of (tbl d1) v = user_of (tbl d0) v) \<and>
    user_of (tbl d1) ''admin'' = (case user_of (tbl d0) ''admin'' of Some r \<Rightarrow> Some r
      | None \<Rightarrow> Some (new_row (t_seq (tbl d0) + 1) ''admin'' ''123456'' 0))"
proof -
  from assms(3) obtain path d0 d2 pr where o: "sq_open E path = Some d0" "sq_exec E pr d0 = (True, d2)" "rc = 0"
      "d1 = snd (db_set_default_admin_info E (snd (db_create_all_tables E d2)))"
    by (auto simp: init_db_def Let_def split: option.splits prod.splits bool.splits)
  let ?d3 = "snd (db_create_all_tables E d2)"
  have t3: "tbl ?d3 = tbl d0"
    using create_tables_tbl [OF assms(2), where qs = table_create_sql and d = d2] assms(2) [of pr d0] o(2)
    by (simp add: db_create_all_tables_def)
  obtain d4 where d4: "db_user_exists E ''admin'' ?d3 = (user_of (tbl ?d3) ''admin'' \<noteq> None, d4)" "tbl d4 = tbl ?d3"
    by (rule db_user_exists_sound [OF assms(1)])
  show ?thesis
  proof (cases "user_of (tbl d0) ''admin''")
    case (Some r)
    with d4 t3 o have "tbl d1 = tbl d0" by (simp add: db_set_default_admin_info_def)
    with Some o(1,3) show ?thesis by (intro exI [of _ path] exI [of _ d0]) simp
  next
    case None
    obtain d5 where "db_register E (Some ''admin'') 0 (Some ''123456'') d4 = (0, d5)"
        "tbl d5 = insert_user ''admin'' ''123456'' 0 (tbl d4)"
      by (rule db_register_sound [OF assms(1), of "''admin''" "''123456''"]) simp_all
    with None d4 t3 o have "tbl d1 = insert_user ''admin'' ''123456'' 0 (tbl d0)"
      by (simp add: db_set_default_admin_info_def)
    with None o(1,3) show ?thesis
      by (intro exI [of _ path] exI [of _ d0]) (auto simp: user_of_insert split: option.splits)
  qed
qed

theorem init_db_admin_witness:
  "\<exists>d1. init_db demo_sqlite [] [] None = (0, Some d1) \<and> user_of d1 ''admin'' = Some (new_row 1 ''admin'' ''123456'' 0)"
proof -
  have fst0: "fst (init_db demo_sqlite [] [] None) = 0 \<and> snd (init_db demo_sqlite [] [] None) \<noteq> None"
    by (simp add: init_db_def demo_sqlite_def config_get_def is_valid_key_def is_valid_value_def split: prod.splits)
  then obtain d1 where i: "init_db demo_sqlite [] [] None = (0, Some d1)" by (cases "init_db demo_sqlite [] [] None") auto
  have "snd (sq_exec demo_sqlite q d) = d" for q d by (simp add: demo_sqlite_def)
  from init_db_admin [OF demo_sqlite_sound this i] i show ?thesis
    by (auto simp: demo_sqlite_def user_of_def)
qed

end
