(* ===== verification/CJson.thy ===== *)
theory CJson
  imports Prelude
begin

text \<open>
  The JSON values the program reads and builds, and the cJSON library as a parameter: parsing,
  the two member lookups and printing are the fields of a record that every definition using
  them takes as an argument.  A whole number is its value; another one its
  \<open>valueint\<close> and the text \<open>%g\<close> gives for its \<open>valuedouble\<close>.  The fields
  \<open>valuestring\<close> and \<open>valueint\<close> of an item are the functions below.  \<open>cjson_ok\<close> states the documented
  behaviour of the lookups: the first member whose name matches, ignoring case or not.
\<close>

datatype json = JNull | JBool bool | JNum int | JFrac int string | JStr string | JArr "json list" | JObj "(string \<times> json) list"

record cjson =
  cj_parse :: "string \<Rightarrow> json option"
  cj_get :: "json \<Rightarrow> string \<Rightarrow> json option"
  cj_get_cs :: "json \<Rightarrow> string \<Rightarrow> json option"
  cj_print :: "json \<Rightarrow> string"

fun valuestring :: "json \<Rightarrow> string option" where
  "valuestring (JStr s) = Some s"
| "valuestring _ = None"

fun valueint :: "json \<Rightarrow> int" where
  "valueint (JNum i) = i"
| "valueint (JFrac i g) = i"
| "valueint (JBool b) = (if b then 1 else 0)"
| "valueint _ = 0"

fun is_number :: "json \<Rightarrow> bool" where
  "is_number (JNum _) = True" | "is_number (JFrac _ _) = True" | "is_number _ = False"

fun is_string :: "json \<Rightarrow> bool" where
  "is_string (JStr _) = True" | "is_string _ = False"

fun is_array :: "json \<Rightarrow> bool" where
  "is_array (JArr _) = True" | "is_array _ = False"

fun is_object :: "json \<Rightarrow> bool" where
  "is_object (JObj _) = True" | "is_object _ = False"

fun array_items :: "json \<Rightarrow> json list" where
  "array_items (JArr xs) = xs"
| "array_items (JObj fs) = map snd fs"
| "array_items _ = []"

fun members :: "json \<Rightarrow> (string \<times> json) list" where
  "members (JObj fs) = fs"
| "members _ = []"

text \<open>The members in order; the first whose name the comparison accepts.\<close>

definition member_by :: "(string \<Rightarrow> string \<Rightarrow> bool) \<Rightarrow> json \<Rightarrow> string \<Rightarrow> json option" where
  "member_by eq j k = map_option snd (find (\<lambda>(n, _). eq n k) (members j))"

definition cjson_ok :: "cjson \<Rightarrow> bool" where
  "cjson_ok cj \<longleftrightarrow> cj_get cj = member_by strcaseeq \<and> cj_get_cs cj = member_by (=)"

lemma cj_get_member: "cjson_ok cj \<Longrightarrow> cj_get cj j k = member_by strcaseeq j k"
  by (simp add: cjson_ok_def)

lemma cj_get_cs_member: "cjson_ok cj \<Longrightarrow> cj_get_cs cj j k = member_by (=) j k"
  by (simp add: cjson_ok_def)

lemma member_by_Nil [simp]: "member_by eq (JObj []) k = None"
  by (simp add: member_by_def)

lemma member_by_Cons [simp]:
  "member_by eq (JObj ((n, v) # fs)) k = (if eq n k then Some v else member_by eq (JObj fs) k)"
  by (simp add: member_by_def)

text \<open>\<open>printf("%g")\<close>: six significant digits, in scientific notation from a million on.\<close>

definition strip_zeros :: "string \<Rightarrow> string" where
  "strip_zeros s = rev (dropWhile (\<lambda>c. c = CHR ''0'') (rev s))"

definition round_half_even :: "nat \<Rightarrow> nat \<Rightarrow> nat" where
  "round_half_even n d = (let q = n div d; r = n mod d in
     if 2 * r > d \<or> 2 * r = d \<and> odd q then q + 1 else q)"

definition fmt_g_nat :: "nat \<Rightarrow> string" where
  "fmt_g_nat n = (if n < 1000000 then show_nat n
     else let e = length (show_nat n) - 1;
              m = round_half_even n (10 ^ (e - 5));
              (m1, e1) = (if m = 1000000 then (100000, e + 1) else (m, e));
              ds = show_nat m1;
              frac = strip_zeros (tl ds)
          in hd ds # (if frac = [] then [] else CHR ''.'' # frac) @ ''e+'' @
             (if e1 < 10 then CHR ''0'' # show_nat e1 else show_nat e1))"

fun fmt_g :: "json \<Rightarrow> string" where
  "fmt_g (JNum i) = (if i < 0 then CHR ''-'' # fmt_g_nat (nat (- i)) else fmt_g_nat (nat i))"
| "fmt_g (JFrac i g) = g"
| "fmt_g _ = ''0''"

text \<open>A library instance for the witnesses: it knows the parse results it is given.\<close>

definition demo_cjson :: "(string \<Rightarrow> json option) \<Rightarrow> cjson" where
  "demo_cjson p = \<lparr>cj_parse = p, cj_get = member_by strcaseeq, cj_get_cs = member_by (=), cj_print = (\<lambda>_. [])\<rparr>"

lemma demo_cjson_ok [simp]: "cjson_ok (demo_cjson p)"
  by (simp add: cjson_ok_def demo_cjson_def)

end
