(* ===== verification/UserManager.thy ===== *)
theory UserManager
  imports UserDb CJson
begin

text \<open>
  Users and permissions (user/wtsl_core_user_manager.c): the permission test, the login,
  registration and password handlers with the error replies, the route table, tokens and the
  salted password digest.

  MD5, SHA-256, the clock and the random salt are arguments.  The handlers read \<open>username\<close> and
  \<open>password\<close> into pointers that are not initialised, so the pointers are arguments too: \<open>None\<close> is
  a wild pointer (using it is a memory fault), \<open>Some None\<close> is NULL.
\<close>

section \<open>Permissions\<close>

text \<open>A level covers another when it has its bits; this is a partial order with a least and a greatest level.\<close>

instantiation permission_level :: order
begin

definition less_eq_permission_level :: "permission_level \<Rightarrow> permission_level \<Rightarrow> bool" where
  "a \<le> b \<longleftrightarrow> and (perm_bits b) (perm_bits a) = perm_bits a"

definition less_permission_level :: "permission_level \<Rightarrow> permission_level \<Rightarrow> bool" where
  "(a :: permission_level) < b \<longleftrightarrow> a \<le> b \<and> \<not> b \<le> a"

instance
proof
  fix x y z :: permission_level
  show "x < y \<longleftrightarrow> x \<le> y \<and> \<not> y \<le> x" by (simp add: less_permission_level_def)
  show "x \<le> x" by (simp add: less_eq_permission_level_def)
  show "x \<le> y \<Longrightarrow> y \<le> z \<Longrightarrow> x \<le> z"
    by (cases x; cases y; cases z) (simp_all add: less_eq_permission_level_def)
  show "x \<le> y \<Longrightarrow> y \<le> x \<Longrightarrow> x = y"
    by (cases x; cases y) (simp_all add: less_eq_permission_level_def)
qed

end

lemma admin_top: "p \<le> PERMISSION_ADMIN"
  by (cases p) (simp_all add: less_eq_permission_level_def)

lemma none_bot: "PERMISSION_NONE \<le> p"
  by (cases p) (simp_all add: less_eq_permission_level_def)

definition check_permission_user :: "user_ctx option \<Rightarrow> permission_level \<Rightarrow> bool" where
  "check_permission_user ctx required = (case ctx of None \<Rightarrow> False
     | Some c \<Rightarrow> and (perm_bits (uc_permission c)) (perm_bits required) = perm_bits required)"

lemma check_permission_le: "check_permission_user (Some c) r \<longleftrightarrow> r \<le> uc_permission c"
  by (simp add: check_permission_user_def less_eq_permission_level_def)

definition check_user_has_permission :: "string \<Rightarrow> string \<Rightarrow> string \<Rightarrow> int" where
  "check_user_has_permission username tokenstr timestr = -1"

section \<open>Tokens and digests\<close>

text \<open>The digests of OpenSSL, as bytes, and the two-digit hexadecimal text of a byte list.\<close>

definition hex_digit :: "nat \<Rightarrow> char" where
  "hex_digit d = (if d < 10 then char_of (48 + d) else char_of (87 + d))"

fun hex_text :: "8 word list \<Rightarrow> string" where
  "hex_text [] = []"
| "hex_text (b # bs) = hex_digit (unat b div 16) # hex_digit (unat b mod 16) # hex_text bs"

definition str2md5 :: "(string \<Rightarrow> 8 word list) \<Rightarrow> string \<Rightarrow> string" where
  "str2md5 md5 s = hex_text (take 16 (md5 s))"

definition salt_charset :: string where
  "salt_charset = ''abcdefghijklmnopqrstuvwxyzABCDEFGHIJKLMNOPQRSTUVWXYZ0123456789./''"

text \<open>\<open>rand()\<close> yields the numbers \<open>rs\<close>.\<close>

definition generate_salt :: "nat list \<Rightarrow> string" where
  "generate_salt rs = map (\<lambda>r. salt_charset ! (r mod length salt_charset)) rs"

definition encrypt_password :: "(string \<Rightarrow> 8 word list) \<Rightarrow> string option \<Rightarrow> string option \<Rightarrow> string option" where
  "encrypt_password sha plain salt = (case (plain, salt) of
     (Some p, Some s) \<Rightarrow> Some (hex_text (take 32 (sha (p @ s)))) | _ \<Rightarrow> None)"

definition verify_password ::
    "(string \<Rightarrow> 8 word list) \<Rightarrow> string option \<Rightarrow> string option \<Rightarrow> string option \<Rightarrow> bool" where
  "verify_password sha plain encrypted salt =
     (if plain = None \<or> encrypted = None \<or> salt = None then False
      else (case encrypt_password sha plain salt of None \<Rightarrow> False | Some e \<Rightarrow> Some e = encrypted))"

text \<open>\<open>None\<close>: the text does not fit the buffer of 128 bytes \<open>sprintf\<close> writes it to.\<close>

definition generate_token :: "(string \<Rightarrow> 8 word list) \<Rightarrow> nat \<Rightarrow> nat list \<Rightarrow> string \<Rightarrow> string option" where
  "generate_token md5 ts rs user =
     (let tokenstr = user @ ''_'' @ show_nat ts @ ''_'' @ generate_salt rs in
      if length tokenstr \<ge> 128 then None else Some (cbuf 128 (str2md5 md5 tokenstr)))"

definition check_token_is_valid :: "'d sqlite \<Rightarrow> string \<Rightarrow> string \<Rightarrow> 'd \<Rightarrow> (bool \<times> 'd) option" where
  "check_token_is_valid E user token d = (case db_get_token E user d of
     None \<Rightarrow> None | Some (_, db_token, d1) \<Rightarrow> Some (db_token = token, d1))"

section \<open>Replies\<close>

datatype ret_error = RET_OK | RET_ERR_PARAM | RET_ERR_NO_MEMORY | RET_ERR_USER_IS_NOT_EXISTED
  | RET_ERR_USER_IS_EXISTED | RET_ERR_OTHER

fun ret_code :: "ret_error \<Rightarrow> int" where
  "ret_code RET_OK = 0"
| "ret_code RET_ERR_PARAM = 1"
| "ret_code RET_ERR_NO_MEMORY = 2"
| "ret_code RET_ERR_USER_IS_NOT_EXISTED = 3"
| "ret_code RET_ERR_USER_IS_EXISTED = 4"
| "ret_code RET_ERR_OTHER = 5"

fun api_err_msg :: "ret_error \<Rightarrow> string" where
  "api_err_msg RET_OK = ''success''"
| "api_err_msg RET_ERR_PARAM = ''param error''"
| "api_err_msg RET_ERR_NO_MEMORY = ''no memory''"
| "api_err_msg RET_ERR_USER_IS_NOT_EXISTED = ''user is not existed''"
| "api_err_msg RET_ERR_USER_IS_EXISTED = ''user is existed''"
| "api_err_msg RET_ERR_OTHER = ''unknown error''"

definition err_json :: "ret_error \<Rightarrow> json" where
  "err_json e = JObj [(''errcode'', JNum (ret_code e)), (''errmsg'', JStr (api_err_msg e))]"

definition wtsl_core_get_err_resp :: "cjson \<Rightarrow> ret_error \<Rightarrow> string" where
  "wtsl_core_get_err_resp cj e = cj_print cj (err_json e)"

section \<open>Handlers\<close>

text \<open>The library, the engine, the digest, the clock, the random numbers and the two uninitialised pointers.\<close>

record 'd user_env =
  ue_cj :: cjson
  ue_db :: "'d sqlite"
  ue_md5 :: "string \<Rightarrow> 8 word list"
  ue_time :: nat
  ue_rand :: "nat list"
  ue_user :: "string option option"
  ue_pwd :: "string option option"

text \<open>The context of the logged-in user and the database.\<close>

record 'd user_st =
  us_ctx :: user_ctx
  us_db :: 'd

definition item_text :: "cjson \<Rightarrow> json \<Rightarrow> string \<Rightarrow> string option option \<Rightarrow> string option option" where
  "item_text cj root key old = (case cj_get cj root key of None \<Rightarrow> old | Some j \<Rightarrow> Some (valuestring j))"

definition group_permission :: "int \<Rightarrow> permission_level" where
  "group_permission gid = (if gid = 0 then PERMISSION_ADMIN else PERMISSION_READ)"

definition wtsl_core_user_get_context :: "'d user_st \<Rightarrow> user_ctx" where
  "wtsl_core_user_get_context s = us_ctx s"

definition wtsl_core_user_set_context :: "user_ctx \<Rightarrow> 'd user_st \<Rightarrow> 'd user_st" where
  "wtsl_core_user_set_context c s = s\<lparr>us_ctx := c\<rparr>"

text \<open>\<open>Some\<close> of the reply and the new state, or a fault.\<close>

definition wtsl_core_user_login :: "'d user_env \<Rightarrow> string \<Rightarrow> 'd user_st \<Rightarrow> (string \<times> 'd user_st) option" where
  "wtsl_core_user_login e args s = (let cj = ue_cj e; E = ue_db e in
     case cj_parse cj args of
       None \<Rightarrow> Some (wtsl_core_get_err_resp cj RET_ERR_PARAM, s)
     | Some root \<Rightarrow> do {
         userp \<leftarrow> item_text cj root ''username'' (ue_user e);
         pwdp \<leftarrow> item_text cj root ''password'' (ue_pwd e);
         (case (userp, pwdp) of
            (Some user, Some pwd) \<Rightarrow>
              (case db_user_exists E user (us_db s) of
                 (False, d1) \<Rightarrow> Some (wtsl_core_get_err_resp cj RET_ERR_USER_IS_NOT_EXISTED, s\<lparr>us_db := d1\<rparr>)
               | (True, d1) \<Rightarrow> do {
                   (ok, d2) \<leftarrow> db_check_password E user pwd d1;
                   if \<not> ok then Some (wtsl_core_get_err_resp cj RET_ERR_PARAM, s\<lparr>us_db := d2\<rparr>)
                   else do {
                     token \<leftarrow> generate_token (ue_md5 e) (ue_time e) (ue_rand e) user;
                     let (ctx1, d3) = db_get_user_ctx E user ((us_ctx s)\<lparr>uc_token := token\<rparr>) d2;
                     let (ok2, d4) = db_update_user_token E user (uc_token ctx1) d3;
                     let ctx2 = ctx1\<lparr>uc_permission := group_permission (uc_group_id ctx1)\<rparr>;
                     Some (cj_print cj (JObj [(''token'', JStr (uc_token ctx2)), (''expires'', JNum (uc_expire ctx2)),
                             (''uid'', JNum (uc_user_id ctx2)), (''gid'', JNum (uc_group_id ctx2))]),
                           s\<lparr>us_ctx := ctx2, us_db := d4\<rparr>) } })
          | _ \<Rightarrow> Some (wtsl_core_get_err_resp cj RET_ERR_PARAM, s)) })"

text \<open>\<open>ju\<close> and \<open>jg\<close> are what the unset output variables hold when the new row cannot be read back.\<close>

definition wtsl_core_user_register ::
    "'d user_env \<Rightarrow> int \<Rightarrow> int \<Rightarrow> string \<Rightarrow> 'd user_st \<Rightarrow> (string \<times> 'd user_st) option" where
  "wtsl_core_user_register e ju jg args s = (let cj = ue_cj e; E = ue_db e in
     case cj_parse cj args of
       None \<Rightarrow> Some (wtsl_core_get_err_resp cj RET_ERR_PARAM, s)
     | Some root \<Rightarrow> do {
         userp \<leftarrow> item_text cj root ''username'' (ue_user e);
         pwdp \<leftarrow> item_text cj root ''password'' (ue_pwd e);
         (case (userp, pwdp) of
            (Some user, Some pwd) \<Rightarrow>
              (case db_user_exists E user (us_db s) of
                 (True, d1) \<Rightarrow> Some (wtsl_core_get_err_resp cj RET_ERR_USER_IS_EXISTED, s\<lparr>us_db := d1\<rparr>)
               | (False, d1) \<Rightarrow>
                   let (rc, d2) = db_register E (Some user) 1000 (Some pwd) d1;
                       (rc2, out, d3) = db_get_register_resp E user d2;
                       (uid, gid) = (case out of None \<Rightarrow> (ju, jg) | Some p \<Rightarrow> p)
                   in if rc2 = 0 then
                        Some (cj_print cj (JObj [(''code'', JNum (ret_code RET_OK)), (''username'', JStr user),
                                (''uid'', JNum uid), (''gid'', JNum gid)]), s\<lparr>us_db := d3\<rparr>)
                      else Some (wtsl_core_get_err_resp cj RET_ERR_OTHER, s\<lparr>us_db := d3\<rparr>))
          | _ \<Rightarrow> Some (wtsl_core_get_err_resp cj RET_ERR_PARAM, s)) })"

text \<open>The test before reading \<open>newpassword\<close> is on \<open>oldpassword\<close>: a missing new password is read through NULL.\<close>

definition wtsl_core_user_change_pwd :: "'d user_env \<Rightarrow> string \<Rightarrow> 'd user_st \<Rightarrow> (string \<times> 'd user_st) option" where
  "wtsl_core_user_change_pwd e args s = (let cj = ue_cj e; E = ue_db e in
     case cj_parse cj args of
       None \<Rightarrow> Some (wtsl_core_get_err_resp cj RET_ERR_PARAM, s)
     | Some root \<Rightarrow> do {
         userp \<leftarrow> item_text cj root ''username'' (ue_user e);
         pwdp \<leftarrow> item_text cj root ''oldpassword'' (ue_pwd e);
         (case (userp, pwdp) of
            (Some user, Some pwd) \<Rightarrow> do {
              (ok, d1) \<leftarrow> db_check_password E user pwd (us_db s);
              if \<not> ok then Some (wtsl_core_get_err_resp cj RET_ERR_PARAM, s\<lparr>us_db := d1\<rparr>)
              else do {
                newp \<leftarrow> (if cj_get cj root ''oldpassword'' \<noteq> None
                          then do { j \<leftarrow> cj_get cj root ''newpassword''; Some (valuestring j) }
                          else Some (Some pwd));
                let (rc, d2) = db_change_password E user newp d1;
                Some (cj_print cj (JObj [(''username'', JStr user), (''msg'', JStr ''change password success'')]),
                      s\<lparr>us_db := d2\<rparr>) } }
          | _ \<Rightarrow> Some (wtsl_core_get_err_resp cj RET_ERR_PARAM, s)) })"

text \<open>The handlers that are stubs.\<close>

definition wtsl_core_user_user_set_info :: "string option" where "wtsl_core_user_user_set_info = None"
definition wtsl_core_user_get_info :: "string option" where "wtsl_core_user_get_info = None"
definition wtsl_core_user_delete :: "string option" where "wtsl_core_user_delete = None"

section \<open>Routes\<close>

datatype user_route = Route_Login | Route_Register | Route_Update | Route_Get | Route_Delete | Route_ChangePwd

definition g_route_table :: "(string \<times> user_route) list" where
  "g_route_table = [(''/user/login'', Route_Login), (''/user/register'', Route_Register),
     (''/user/update_userinfo'', Route_Update), (''/user/get_userinfo'', Route_Get),
     (''/user/delete_user'', Route_Delete), (''/user/change_pwd'', Route_ChangePwd)]"

definition wtsl_core_user_get_routeitem :: "(string \<times> user_route) list \<times> nat" where
  "wtsl_core_user_get_routeitem = (g_route_table, length g_route_table)"

text \<open>Calling the handler of a route: a NULL reply is \<open>None\<close> in the inner option.\<close>

fun call_route ::
    "'d user_env \<Rightarrow> int \<Rightarrow> int \<Rightarrow> user_route \<Rightarrow> string \<Rightarrow> 'd user_st \<Rightarrow> (string option \<times> 'd user_st) option" where
  "call_route e ju jg Route_Login args s = map_option (map_prod Some id) (wtsl_core_user_login e args s)"
| "call_route e ju jg Route_Register args s = map_option (map_prod Some id) (wtsl_core_user_register e ju jg args s)"
| "call_route e ju jg Route_ChangePwd args s = map_option (map_prod Some id) (wtsl_core_user_change_pwd e args s)"
| "call_route e ju jg Route_Update args s = Some (wtsl_core_user_user_set_info, s)"
| "call_route e ju jg Route_Get args s = Some (wtsl_core_user_get_info, s)"
| "call_route e ju jg Route_Delete args s = Some (wtsl_core_user_delete, s)"

section \<open>Properties\<close>

text \<open>A request with the two string members.\<close>

definition request :: "'d user_env \<Rightarrow> string \<Rightarrow> string \<Rightarrow> string \<Rightarrow> string \<Rightarrow> string \<Rightarrow> bool" where
  "request e args k1 v1 k2 v2 \<longleftrightarrow> (\<exists>root. cj_parse (ue_cj e) args = Some root \<and>
     cj_get (ue_cj e) root k1 = Some (JStr v1) \<and> cj_get (ue_cj e) root k2 = Some (JStr v2))"

definition logged_in :: "user_row \<Rightarrow> string \<Rightarrow> user_ctx \<Rightarrow> user_ctx" where
  "logged_in r tok c = c\<lparr>uc_token := tok, uc_user_id := r_id r, uc_group_id := r_gid r, uc_expire := r_expire r,
     uc_permission := group_permission (r_gid r)\<rparr>"

lemma logged_in_admin: "uc_permission (logged_in r tok c) = PERMISSION_ADMIN \<longleftrightarrow> r_gid r = 0"
  by (simp add: logged_in_def group_permission_def)

lemma login_step:
  assumes S: "sqlite_sound (ue_db e) tbl" and q: "cj_parse (ue_cj e) args = Some root"
    and u: "item_text (ue_cj e) root ''username'' (ue_user e) = Some (Some u)"
    and p: "item_text (ue_cj e) root ''password'' (ue_pwd e) = Some (Some pw)"
  shows "case user_of (tbl (us_db s)) u of
      None \<Rightarrow> \<exists>d'. wtsl_core_user_login e args s =
        Some (wtsl_core_get_err_resp (ue_cj e) RET_ERR_USER_IS_NOT_EXISTED, s\<lparr>us_db := d'\<rparr>) \<and> tbl d' = tbl (us_db s)
    | Some r \<Rightarrow> if pw \<noteq> r_password r
        then \<exists>d'. wtsl_core_user_login e args s =
          Some (wtsl_core_get_err_resp (ue_cj e) RET_ERR_PARAM, s\<lparr>us_db := d'\<rparr>) \<and> tbl d' = tbl (us_db s)
        else case generate_token (ue_md5 e) (ue_time e) (ue_rand e) u of
          None \<Rightarrow> wtsl_core_user_login e args s = None
        | Some tok \<Rightarrow> \<exists>reply d'. wtsl_core_user_login e args s =
            Some (reply, s\<lparr>us_ctx := logged_in r tok (us_ctx s), us_db := d'\<rparr>) \<and>
            tbl d' = update_user u (\<lambda>r. r\<lparr>r_token := Some tok\<rparr>) (tbl (us_db s))"
proof -
  obtain d1 where d1: "db_user_exists (ue_db e) u (us_db s) = (user_of (tbl (us_db s)) u \<noteq> None, d1)"
      "tbl d1 = tbl (us_db s)" by (rule db_user_exists_sound [OF S])
  obtain d2 where d2: "db_check_password (ue_db e) u pw d1 =
      Some (case user_of (tbl d1) u of None \<Rightarrow> False | Some r \<Rightarrow> pw = r_password r, d2)" "tbl d2 = tbl d1"
    by (rule db_check_password_sound [OF S])
  show ?thesis
  proof (cases "user_of (tbl (us_db s)) u")
    case None
    with d1 q u p show ?thesis by (auto simp: wtsl_core_user_login_def Let_def)
  next
    case (Some r)
    show ?thesis
    proof (cases "pw = r_password r")
      case False
      with Some d1 d2 q u p show ?thesis by (auto simp: wtsl_core_user_login_def Let_def)
    next
      case True
      show ?thesis
      proof (cases "generate_token (ue_md5 e) (ue_time e) (ue_rand e) u")
        case None
        with Some True d1 d2 q u p show ?thesis by (auto simp: wtsl_core_user_login_def Let_def)
      next
        case tok: (Some tok)
        let ?c = "(us_ctx s)\<lparr>uc_token := tok\<rparr>"
        obtain d3 where d3: "db_get_user_ctx (ue_db e) u ?c d2 = (case user_of (tbl d2) u of None \<Rightarrow> ?c
            | Some r \<Rightarrow> ?c\<lparr>uc_user_id := r_id r, uc_group_id := r_gid r, uc_expire := r_expire r\<rparr>, d3)" "tbl d3 = tbl d2"
          by (rule db_get_user_ctx_sound [OF S])
        obtain d4 where d4: "db_update_user_token (ue_db e) u tok d3 = (True, d4)"
            "tbl d4 = update_user u (\<lambda>r. r\<lparr>r_token := Some tok\<rparr>) (tbl d3)"
          by (rule db_update_user_token_sound [OF S])
        from Some True tok d1 d2 d3 d4 q u p show ?thesis
          by (auto simp: wtsl_core_user_login_def Let_def logged_in_def intro!: exI [of _ d4])
      qed
    qed
  qed
qed

lemma request_items:
  "request e args k1 v1 k2 v2 \<Longrightarrow> \<exists>root. cj_parse (ue_cj e) args = Some root \<and>
     item_text (ue_cj e) root k1 x = Some (Some v1) \<and> item_text (ue_cj e) root k2 y = Some (Some v2)"
  by (auto simp: request_def item_text_def)

text \<open>C23. A login with a user name and a password, on a database engine that does what the statements
  say: an unknown user or a wrong password leaves the context and the tables as they were and
  gets the error reply; the right password makes the context that of the user, with all
  permissions exactly for group 0, and stores the fresh token in that user's row only.\<close>

theorem login_spec:
  assumes "sqlite_sound (ue_db e) tbl" "request e args ''username'' u ''password'' pw"
    and "generate_token (ue_md5 e) (ue_time e) (ue_rand e) u = Some tok"
  shows "\<exists>reply c d'. wtsl_core_user_login e args s = Some (reply, \<lparr>us_ctx = c, us_db = d'\<rparr>) \<and>
    (case user_of (tbl (us_db s)) u of
       None \<Rightarrow> reply = wtsl_core_get_err_resp (ue_cj e) RET_ERR_USER_IS_NOT_EXISTED \<and> c = us_ctx s \<and> tbl d' = tbl (us_db s)
     | Some r \<Rightarrow> if pw \<noteq> r_password r
         then reply = wtsl_core_get_err_resp (ue_cj e) RET_ERR_PARAM \<and> c = us_ctx s \<and> tbl d' = tbl (us_db s)
         else c = logged_in r tok (us_ctx s) \<and> (uc_permission c = PERMISSION_ADMIN \<longleftrightarrow> r_gid r = 0) \<and>
           tbl d' = update_user u (\<lambda>r. r\<lparr>r_token := Some tok\<rparr>) (tbl (us_db s)))"
proof -
  from request_items [OF assms(2)] obtain root where
    "cj_parse (ue_cj e) args = Some root" "item_text (ue_cj e) root ''username'' (ue_user e) = Some (Some u)"
    "item_text (ue_cj e) root ''password'' (ue_pwd e) = Some (Some pw)" by blast
  note step = login_step [OF assms(1) this, of s]
  show ?thesis
  proof (cases "user_of (tbl (us_db s)) u")
    case None
    with step show ?thesis by (cases s) auto
  next
    case (Some r)
    with step assms(3) show ?thesis
      by (cases s; cases "pw = r_password r") (auto simp: logged_in_admin)
  qed
qed

text \<open>A database with the administrator and one user, and an environment, for the instances.\<close>

definition demo_tables :: tables where
  "demo_tables = insert_user ''bob'' ''pw'' 1000 (insert_user ''admin'' ''123456'' 0 \<lparr>t_users = [], t_seq = 0, t_tasks = []\<rparr>)"

definition demo_user_env :: "json \<Rightarrow> tables user_env" where
  "demo_user_env j = \<lparr>ue_cj = demo_cjson (\<lambda>_. Some j), ue_db = demo_sqlite, ue_md5 = (\<lambda>_. [1]), ue_time = 7,
     ue_rand = [0, 1], ue_user = None, ue_pwd = None\<rparr>"

definition demo_ctx :: user_ctx where
  "demo_ctx = \<lparr>uc_user_id = 0, uc_group_id = 0, uc_expire = 0, uc_last_login_time = 0, uc_username = [],
     uc_token = [], uc_permission = PERMISSION_NONE\<rparr>"

definition demo_st :: "tables user_st" where
  "demo_st = \<lparr>us_ctx = demo_ctx, us_db = demo_tables\<rparr>"

definition two_fields :: "string \<Rightarrow> string \<Rightarrow> string \<Rightarrow> string \<Rightarrow> json" where
  "two_fields k1 v1 k2 v2 = JObj [(k1, JStr v1), (k2, JStr v2)]"

lemma demo_request:
  "\<not> strcaseeq k1 k2 \<Longrightarrow> request (demo_user_env (two_fields k1 v1 k2 v2)) args k1 v1 k2 v2"
  by (auto simp: request_def demo_user_env_def demo_cjson_def two_fields_def strcaseeq_def)

lemma demo_env_sound: "sqlite_sound (ue_db (demo_user_env j)) (\<lambda>t. t)"
  using demo_sqlite_sound by (simp add: demo_user_env_def)

lemma demo_users: "user_of demo_tables ''bob'' = Some (new_row 2 ''bob'' ''pw'' 1000)"
  "user_of demo_tables ''admin'' = Some (new_row 1 ''admin'' ''123456'' 0)"
  "user_of demo_tables ''eve'' = None"
  by (simp_all add: demo_tables_def user_of_def insert_user_def new_row_def)

lemma demo_keys: "\<not> strcaseeq ''username'' ''password''" "\<not> strcaseeq ''username'' ''oldpassword''"
  by (simp_all add: strcaseeq_def tolower_def)

lemma show_nat_7: "show_nat 7 = ''7''"
  by code_simp

lemma hex_digits: "hex_digit 0 = CHR ''0''" "hex_digit (Suc 0) = CHR ''1''"
  by (code_simp, code_simp)

lemma demo_token: "length u < 100 \<Longrightarrow>
  generate_token (ue_md5 (demo_user_env j)) (ue_time (demo_user_env j)) (ue_rand (demo_user_env j)) u = Some ''01''"
  by (simp add: generate_token_def demo_user_env_def Let_def generate_salt_def str2md5_def hex_digits show_nat_7)

theorem login_spec_witness:
  "\<exists>reply c d'. wtsl_core_user_login (demo_user_env (two_fields ''username'' ''admin'' ''password'' ''123456'')) [] demo_st =
     Some (reply, \<lparr>us_ctx = c, us_db = d'\<rparr>) \<and> uc_permission c = PERMISSION_ADMIN \<and> uc_user_id c = 1"
  using login_spec [OF demo_env_sound demo_request [OF demo_keys(1)] demo_token,
      where u = "''admin''" and pw = "''123456''" and s = demo_st and args = "[]"] demo_users
  by (auto simp: demo_st_def new_row_def logged_in_def)



text \<open>Registering a new name with a non-empty password creates a user of group 1000 with the next id
  and leaves all other users alone; a login with that name and password then gets exactly the
  read permission.  An existing name is refused and nothing changes.\<close>

theorem register_then_login:
  assumes "sqlite_sound (ue_db e) tbl" "request e args ''username'' u ''password'' pw" "u \<noteq> []" "pw \<noteq> []"
    and "generate_token (ue_md5 e) (ue_time e) (ue_rand e) u = Some tok"
  shows "\<exists>reply d'. wtsl_core_user_register e ju jg args s = Some (reply, s\<lparr>us_db := d'\<rparr>) \<and>
    (if user_of (tbl (us_db s)) u \<noteq> None
     then reply = wtsl_core_get_err_resp (ue_cj e) RET_ERR_USER_IS_EXISTED \<and> tbl d' = tbl (us_db s)
     else tbl d' = insert_user u pw 1000 (tbl (us_db s)) \<and>
       (\<forall>v. v \<noteq> u \<longrightarrow> user_of (tbl d') v = user_of (tbl (us_db s)) v) \<and>
       (\<exists>reply2 c d2. wtsl_core_user_login e args (s\<lparr>us_db := d'\<rparr>) = Some (reply2, \<lparr>us_ctx = c, us_db = d2\<rparr>) \<and>
          uc_permission c = PERMISSION_READ \<and> uc_group_id c = 1000))"
proof -
  note S = assms(1)
  from request_items [OF assms(2)] obtain root where q:
    "cj_parse (ue_cj e) args = Some root" "item_text (ue_cj e) root ''username'' (ue_user e) = Some (Some u)"
    "item_text (ue_cj e) root ''password'' (ue_pwd e) = Some (Some pw)" by blast
  obtain d1 where d1: "db_user_exists (ue_db e) u (us_db s) = (user_of (tbl (us_db s)) u \<noteq> None, d1)"
      "tbl d1 = tbl (us_db s)" by (rule db_user_exists_sound [OF S])
  obtain d2 where d2: "db_register (ue_db e) (Some u) 1000 (Some pw) d1 = (0, d2)"
      "tbl d2 = insert_user u pw 1000 (tbl d1)" by (rule db_register_sound [OF S assms(3,4)])
  obtain d3 where d3: "db_get_register_resp (ue_db e) u d2 =
      (0, map_option (\<lambda>r. (r_id r, r_gid r)) (user_of (tbl d2) u), d3)" "tbl d3 = tbl d2"
    by (rule db_get_register_resp_sound [OF S])
  show ?thesis
  proof (cases "user_of (tbl (us_db s)) u")
    case (Some r)
    with d1 q show ?thesis by (auto simp: wtsl_core_user_register_def Let_def)
  next
    case None
    with d1 d2 d3 q obtain reply where reg:
      "wtsl_core_user_register e ju jg args s = Some (reply, s\<lparr>us_db := d3\<rparr>)"
      by (auto simp: wtsl_core_user_register_def Let_def user_of_insert split: prod.splits)
    from None d1 d2 d3 have t: "tbl d3 = insert_user u pw 1000 (tbl (us_db s))"
      "user_of (tbl d3) u = Some (new_row (t_seq (tbl (us_db s)) + 1) u pw 1000)"
      by (simp_all add: user_of_insert)
    from login_step [OF S q, of "s\<lparr>us_db := d3\<rparr>"] t(2) assms(5) obtain reply2 d4 where
      "wtsl_core_user_login e args (s\<lparr>us_db := d3\<rparr>) = Some (reply2, \<lparr>us_ctx =
         logged_in (new_row (t_seq (tbl (us_db s)) + 1) u pw 1000) tok (us_ctx s), us_db = d4\<rparr>)"
      by (cases s) (auto simp: new_row_def)
    moreover have "\<forall>v. v \<noteq> u \<longrightarrow> user_of (tbl d3) v = user_of (tbl (us_db s)) v"
      by (auto simp: t(1) user_of_insert split: option.splits)
    ultimately show ?thesis using None reg t(1)
      by (auto simp: logged_in_def group_permission_def new_row_def)
  qed
qed

theorem register_then_login_witness:
  "\<exists>reply d'. wtsl_core_user_register (demo_user_env (two_fields ''username'' ''eve'' ''password'' ''x'')) 0 0 [] demo_st =
     Some (reply, demo_st\<lparr>us_db := d'\<rparr>) \<and> d' = insert_user ''eve'' ''x'' 1000 demo_tables"
  using register_then_login [OF demo_env_sound demo_request [OF demo_keys(1)] _ _ demo_token,
      where u = "''eve''" and pw = "''x''" and s = demo_st and args = "[]" and ju = 0 and jg = 0] demo_users
  by (auto simp: demo_st_def)

text \<open>Changing a password: with the right old password the user's password becomes the new one and
  no other user changes; with a wrong one nothing changes; a request without \<open>newpassword\<close> that
  carries the right old one crashes (it is read through a NULL pointer).\<close>

theorem change_pwd_spec:
  assumes "sqlite_sound (ue_db e) tbl" "cj_parse (ue_cj e) args = Some root"
    and "cj_get (ue_cj e) root ''username'' = Some (JStr u)" "cj_get (ue_cj e) root ''oldpassword'' = Some (JStr old)"
    and "user_of (tbl (us_db s)) u = Some r"
  shows "if old \<noteq> r_password r
    then \<exists>d'. wtsl_core_user_change_pwd e args s =
      Some (wtsl_core_get_err_resp (ue_cj e) RET_ERR_PARAM, s\<lparr>us_db := d'\<rparr>) \<and> tbl d' = tbl (us_db s)
    else case cj_get (ue_cj e) root ''newpassword'' of
        None \<Rightarrow> wtsl_core_user_change_pwd e args s = None
      | Some j \<Rightarrow> \<forall>new. j = JStr new \<longrightarrow> (\<exists>reply d'. wtsl_core_user_change_pwd e args s = Some (reply, s\<lparr>us_db := d'\<rparr>) \<and>
          user_of (tbl d') u = Some (r\<lparr>r_password := new\<rparr>) \<and>
          (\<forall>v. v \<noteq> u \<longrightarrow> user_of (tbl d') v = user_of (tbl (us_db s)) v))"
proof -
  note S = assms(1)
  obtain d1 where d1: "db_check_password (ue_db e) u old (us_db s) = Some (old = r_password r, d1)"
      "tbl d1 = tbl (us_db s)"
    by (rule db_check_password_sound [OF S, of u old "us_db s"]) (simp add: assms(5))
  show ?thesis
  proof (cases "old = r_password r")
    case False
    with assms(2-4) d1 show ?thesis
      by (auto simp: wtsl_core_user_change_pwd_def Let_def item_text_def)
  next
    case True
    show ?thesis
    proof (cases "cj_get (ue_cj e) root ''newpassword''")
      case None
      with True assms(2-4) d1 show ?thesis
        by (auto simp: wtsl_core_user_change_pwd_def Let_def item_text_def)
    next
      case (Some j)
      have "\<exists>reply d'. wtsl_core_user_change_pwd e args s = Some (reply, s\<lparr>us_db := d'\<rparr>) \<and>
          user_of (tbl d') u = Some (r\<lparr>r_password := new\<rparr>) \<and>
          (\<forall>v. v \<noteq> u \<longrightarrow> user_of (tbl d') v = user_of (tbl (us_db s)) v)" if "j = JStr new" for new
      proof -
        obtain d2 where d2: "db_change_password (ue_db e) u (Some new) d1 = (True, d2)"
            "tbl d2 = update_user u (\<lambda>r. r\<lparr>r_password := new\<rparr>) (tbl d1)"
          by (rule db_change_password_sound [OF S])
        with True Some that assms(2-5) d1 show ?thesis
          by (auto simp: wtsl_core_user_change_pwd_def Let_def item_text_def user_of_update intro!: exI [of _ d2])
      qed
      with True Some show ?thesis by simp
    qed
  qed
qed

theorem change_pwd_spec_witness:
  "wtsl_core_user_change_pwd (demo_user_env (two_fields ''username'' ''bob'' ''oldpassword'' ''pw'')) [] demo_st = None"
proof -
  let ?root = "two_fields ''username'' ''bob'' ''oldpassword'' ''pw''"
  let ?e = "demo_user_env ?root"
  have "cj_parse (ue_cj ?e) [] = Some ?root" "cj_get (ue_cj ?e) ?root ''username'' = Some (JStr ''bob'')"
    "cj_get (ue_cj ?e) ?root ''oldpassword'' = Some (JStr ''pw'')" "cj_get (ue_cj ?e) ?root ''newpassword'' = None"
    by (simp_all add: demo_user_env_def demo_cjson_def two_fields_def strcaseeq_def tolower_def)
  with change_pwd_spec [OF demo_env_sound this(1-3), of demo_st] demo_users show ?thesis
    by (simp add: demo_st_def new_row_def)
qed

end
