(* ===== verification/NodeManager.thy ===== *)
theory NodeManager
  imports UserManager NodeService
begin

text \<open>
  The call of a node operation (slal/node/wtsl_core_node_manager.h and .c): the X-macro table of
  the operations with the permission each needs, from which the code generates the interface
  table, the permission map and the indices, and the wrapper through which every operation of
  the web interface goes: argument check, permission check, local or remote, call.
\<close>

section \<open>The table\<close>

text \<open>Name, permission, implementing function and index.\<close>

definition node_func_list :: "(string \<times> permission_level \<times> string \<times> nat) list" where
  "node_func_list = [
     (''get_all_nodes_info'', PERMISSION_READ, ''wtsl_core_get_all_nodes_info'', 0),
     (''get_node_basicinfo'', PERMISSION_READ, ''wtsl_core_get_node_basicinfo'', 1),
     (''set_node_basicinfo'', PERMISSION_WRITE, ''wtsl_core_set_node_basicinfo'', 2),
     (''do_time_sync'', PERMISSION_EXECUTE, ''wtsl_core_do_time_sync'', 3),
     (''get_node_conninfo'', PERMISSION_READ, ''wtsl_core_get_node_conninfo'', 4),
     (''start_scan'', PERMISSION_EXECUTE, ''wtsl_core_start_scan'', 5),
     (''do_connect'', PERMISSION_EXECUTE, ''wtsl_core_do_connect'', 6),
     (''do_upload'', PERMISSION_WRITE, ''wtsl_core_do_upload'', 7),
     (''do_upgrade'', PERMISSION_ADMIN, ''wtsl_core_do_upgrade'', 8),
     (''do_reboot'', PERMISSION_ADMIN, ''wtsl_core_do_reboot'', 9),
     (''get_hw_resources_info'', PERMISSION_READ, ''wtsl_core_get_hw_resources_usage'', 10),
     (''do_autojoinNetwork'', PERMISSION_READ, ''wtsl_core_auto_join_net'', 11),
     (''show_bss_info'', PERMISSION_READ, ''wtsl_core_show_bss'', 12),
     (''get_node_advinfo'', PERMISSION_READ, ''wtsl_core_get_node_advinfo'', 13),
     (''set_node_advinfo'', PERMISSION_WRITE, ''wtsl_core_set_node_advinfo'', 14),
     (''do_disconnect'', PERMISSION_WRITE, ''wtsl_core_do_disconnect'', 15),
     (''do_restore'', PERMISSION_WRITE, ''wtsl_core_do_restore'', 16),
     (''get_node_traffic'', PERMISSION_WRITE, ''wtsl_core_get_node_traffic'', 17),
     (''do_aifh'', PERMISSION_WRITE, ''wtsl_core_do_aifh'', 18),
     (''do_chswitch'', PERMISSION_WRITE, ''wtsl_core_do_chswitch'', 19),
     (''get_adaptivemcsinfo'', PERMISSION_WRITE, ''wtsl_core_get_adaptivemcsinfo'', 20),
     (''get_traceinfo'', PERMISSION_WRITE, ''wtsl_core_get_traceinfo'', 21),
     (''get_secalg'', PERMISSION_WRITE, ''wtsl_core_get_secalg'', 22),
     (''set_adaptivemcs'', PERMISSION_WRITE, ''wtsl_core_set_adaptivemcs'', 23),
     (''do_clearschmcs'', PERMISSION_WRITE, ''wtsl_core_do_clearschmcs'', 24),
     (''get_mcsboundinfo'', PERMISSION_WRITE, ''wtsl_core_get_mcsboundinfo'', 25),
     (''set_mcsbound'', PERMISSION_WRITE, ''wtsl_core_set_mcsbound'', 26),
     (''do_throughput_test'', PERMISSION_WRITE, ''wtsl_core_do_throughput'', 27),
     (''do_shortrange_test'', PERMISSION_WRITE, ''wtsl_core_do_shortrange'', 28),
     (''do_remoterange_test'', PERMISSION_WRITE, ''wtsl_core_do_remoterange'', 29),
     (''do_sle_scan'', PERMISSION_WRITE, ''wtsl_core_sle_start_scan'', 30),
     (''get_sle_scan_result'', PERMISSION_WRITE, ''wtsl_core_sle_show_bss'', 31),
     (''do_sle_connect'', PERMISSION_WRITE, ''wtsl_core_sle_connect'', 32),
     (''do_lowpow_test'', PERMISSION_WRITE, ''wtsl_core_do_lowpow'', 33),
     (''get_sle_basicinfo'', PERMISSION_WRITE, ''wtsl_core_get_sle_basicinfo'', 34),
     (''get_sle_conninfo'', PERMISSION_WRITE, ''wtsl_core_sle_conninfo'', 35),
     (''set_sle_basicinfo'', PERMISSION_WRITE, ''wtsl_core_set_sle_basicinfo'', 36),
     (''do_lowlatency_test'', PERMISSION_WRITE, ''wtsl_core_do_lowlatency'', 37),
     (''set_sle_announce_id'', PERMISSION_WRITE, ''wtsl_core_set_announce_id'', 38),
     (''qos_get_status'', PERMISSION_READ, ''wtsl_core_qos_get_status'', 39),
     (''qos_switch'', PERMISSION_WRITE, ''wtsl_core_qos_switch'', 40),
     (''qos_get_rules'', PERMISSION_READ, ''wtsl_core_qos_get_rules'', 41),
     (''qos_set_rules'', PERMISSION_WRITE, ''wtsl_core_qos_set_rules'', 42),
     (''config_vap0_mac'', PERMISSION_WRITE, ''wtsl_core_config_vap0_mac'', 43),
     (''set_sle_trans_config'', PERMISSION_WRITE, ''wtsl_core_set_sle_trans_config'', 44),
     (''get_sle_trans_config'', PERMISSION_WRITE, ''wtsl_core_get_sle_trans_config'', 45),
     (''acl_get_status'', PERMISSION_READ, ''wtsl_core_acl_get_status'', 46),
     (''acl_switch'', PERMISSION_WRITE, ''wtsl_core_acl_switch'', 47),
     (''acl_get_rules'', PERMISSION_READ, ''wtsl_core_acl_get_rules'', 48),
     (''acl_set_rules'', PERMISSION_WRITE, ''wtsl_core_acl_set_rules'', 49)]"

record perm_entry =
  pe_func_name :: string
  pe_required :: permission_level
  pe_func_index :: nat

definition global_perm_map :: "perm_entry list" where
  "global_perm_map = map (\<lambda>(n, p, f, i). \<lparr>pe_func_name = n, pe_required = p, pe_func_index = i\<rparr>) node_func_list"

text \<open>\<open>FUNC_name\<close>, and the function the default interface table has under a name.\<close>

definition func_index :: "string \<Rightarrow> nat option" where
  "func_index name = map_option (\<lambda>(n, p, f, i). i) (find (\<lambda>(n, p, f, i). n = name) node_func_list)"

definition default_interface :: "string \<Rightarrow> string option" where
  "default_interface name = map_option (\<lambda>(n, p, f, i). f) (find (\<lambda>(n, p, f, i). n = name) node_func_list)"

section \<open>The wrapper\<close>

text \<open>0 when the node is not the local one, which the name suggests the other way round.\<close>

definition check_is_remote_node :: "string \<Rightarrow> wnode \<Rightarrow> int" where
  "check_is_remote_node local_mac n = (if \<not> strcaseeq (nd_mac n) local_mac then 0 else -1)"

definition call_remote_node_cmd :: "'s \<Rightarrow> string option \<times> 's" where
  "call_remote_node_cmd s = (None, s)"

type_synonym 's callback = "wnode \<Rightarrow> string \<Rightarrow> user_ctx \<Rightarrow> 's \<Rightarrow> (string option \<times> 's) option"

text \<open>The error log of the argument check reads \<open>node->perm_map\<close>, so a NULL node is a fault.\<close>

definition interface_wrapper ::
    "string \<Rightarrow> wnode option \<Rightarrow> 's callback option \<Rightarrow> nat \<Rightarrow> string \<Rightarrow> user_ctx option \<Rightarrow> 's \<Rightarrow> (string option \<times> 's) option" where
  "interface_wrapper local_mac node real_func idx data ctx s = (case node of
     None \<Rightarrow> None
   | Some n \<Rightarrow> (case (real_func, ctx) of
       (Some f, Some c) \<Rightarrow>
         if \<not> nd_perm_map n then Some (None, s)
         else if idx \<ge> length global_perm_map then None
         else if \<not> check_permission_user (Some c) (pe_required (global_perm_map ! idx)) then Some (None, s)
         else if check_is_remote_node local_mac n = 0 then Some (call_remote_node_cmd s)
         else f n data c s
     | _ \<Rightarrow> Some (None, s)))"

section \<open>Lemmas\<close>

lemma length_perm_map [simp]: "length global_perm_map = 50"
  by (simp add: global_perm_map_def node_func_list_def)

lemma wrapper_denied:
  "i < 50 \<Longrightarrow> \<not> pe_required (global_perm_map ! i) \<le> uc_permission c \<Longrightarrow>
   interface_wrapper m (Some n) f i d (Some c) s = Some (None, s)"
  by (auto simp: interface_wrapper_def check_permission_le split: option.splits)

lemma wrapper_effect:
  assumes "interface_wrapper m (Some n) rf i d ctx s = Some (r, s')" "i < 50"
  shows "(r = None \<and> s' = s) \<or> (\<exists>f c. rf = Some f \<and> ctx = Some c \<and> nd_perm_map n \<and>
    pe_required (global_perm_map ! i) \<le> uc_permission c \<and> strcaseeq (nd_mac n) m \<and> f n d c s = Some (r, s'))"
  using assms by (auto simp: interface_wrapper_def check_permission_le check_is_remote_node_def
      call_remote_node_cmd_def split: option.splits if_splits)

text \<open>A context whose permission covers what the table asks for.\<close>

definition allowed :: "user_ctx \<Rightarrow> string \<Rightarrow> bool" where
  "allowed c name \<longleftrightarrow> (\<exists>(n, p, f, i) \<in> set node_func_list. n = name \<and> p \<le> uc_permission c)"

lemma find_by_name:
  "(n, p, f, i) \<in> set xs \<Longrightarrow> distinct (map fst xs) \<Longrightarrow> find (\<lambda>(m, p, f, i). m = n) xs = Some (n, p, f, i)"
  by (induction xs) (auto simp: image_iff)

lemma names_distinct: "distinct (map fst node_func_list)"
  by code_simp

lemma indices_in_order: "map (\<lambda>(n, p, f, i). i) node_func_list = [0..<length node_func_list]"
  by (simp add: node_func_list_def upt_rec)

lemma func_index_entry:
  "func_index name = Some i \<Longrightarrow> i < 50 \<and> (\<exists>p f. (name, p, f, i) \<in> set node_func_list \<and> pe_required (global_perm_map ! i) = p)"
proof -
  assume "func_index name = Some i"
  then obtain p f where e: "(name, p, f, i) \<in> set node_func_list"
    by (auto simp: func_index_def find_Some_iff in_set_conv_nth) (metis nth_mem in_set_conv_nth)
  then obtain k where k: "k < length node_func_list" "node_func_list ! k = (name, p, f, i)"
    by (auto simp: in_set_conv_nth)
  moreover from k indices_in_order have "i = k" by (auto dest: arg_cong [where f = "\<lambda>xs. xs ! k"])
  moreover have "length node_func_list = 50" using length_perm_map by (simp add: global_perm_map_def)
  ultimately show ?thesis using e by (auto simp: global_perm_map_def)
qed

lemma table_entry:
  assumes "(n, p, f, i) \<in> set node_func_list"
  shows "func_index n = Some i \<and> default_interface n = Some f \<and>
      global_perm_map ! i = \<lparr>pe_func_name = n, pe_required = p, pe_func_index = i\<rparr>"
proof -
  have "find (\<lambda>(m, p, f, i). m = n) node_func_list = Some (n, p, f, i)"
    by (rule find_by_name) (use assms names_distinct in auto)
  moreover from assms obtain k where "k < length node_func_list" "node_func_list ! k = (n, p, f, i)"
    by (auto simp: in_set_conv_nth)
  moreover from this indices_in_order have "i = k" by (auto dest: arg_cong [where f = "\<lambda>xs. xs ! k"])
  ultimately show ?thesis by (simp add: func_index_def default_interface_def global_perm_map_def)
qed

section \<open>Properties\<close>

text \<open>C3. An operation runs, or has any effect at all, only if its function, the permission map and the
  context are there, the context has the permission the table asks for, and the node is the
  local one; then the result is exactly that of the operation.\<close>

theorem wrapper_gate:
  assumes "interface_wrapper m (Some n) rf i d ctx s = Some (r, s')" "i < 50"
  shows "(r = None \<and> s' = s) \<or> (\<exists>f c. rf = Some f \<and> ctx = Some c \<and> nd_perm_map n \<and>
    pe_required (global_perm_map ! i) \<le> uc_permission c \<and> strcaseeq (nd_mac n) m \<and> f n d c s = Some (r, s'))"
  using assms by (rule wrapper_effect)

definition demo_callback :: "nat callback" where
  "demo_callback n d c s = Some (Some ''ok'', s + 1)"

definition demo_reader :: user_ctx where
  "demo_reader = demo_ctx\<lparr>uc_permission := PERMISSION_READ\<rparr>"

lemma demo_mac: "strcaseeq ''AA:01'' ''aa:01''"
  by code_simp

theorem wrapper_gate_witness:
  "interface_wrapper ''aa:01'' (Some (demo_node 0 ''AA:01'' 1)) (Some demo_callback) 0 [] (Some demo_reader) 0 = Some (Some ''ok'', 1) \<and>
   pe_required (global_perm_map ! 0) \<le> PERMISSION_READ"
proof -
  have call: "interface_wrapper ''aa:01'' (Some (demo_node 0 ''AA:01'' 1)) (Some demo_callback) 0 [] (Some demo_reader) (0::nat) = Some (Some ''ok'', 1)"
    by (simp add: interface_wrapper_def demo_callback_def check_permission_le demo_reader_def check_is_remote_node_def
        demo_node_def nd_mac_def demo_mac global_perm_map_def node_func_list_def less_eq_permission_level_def)
  from wrapper_gate [OF call] call show ?thesis by (auto simp: demo_reader_def)
qed

text \<open>The generated tables agree: the entry at each index is the operation with that index, so the
  permission looked up for \<open>FUNC_name\<close> is the one the table gives to \<open>name\<close>; and the operations a
  user with only the read permission can call are exactly these eleven.\<close>

theorem func_table_aligned:
  "map (\<lambda>(n, p, f, i). (func_index n, default_interface n, global_perm_map ! i)) node_func_list =
     map (\<lambda>(n, p, f, i). (Some i, Some f, \<lparr>pe_func_name = n, pe_required = p, pe_func_index = i\<rparr>)) node_func_list \<and>
   map fst (filter (\<lambda>(n, p, f, i). p \<le> PERMISSION_READ) node_func_list) =
     [''get_all_nodes_info'', ''get_node_basicinfo'', ''get_node_conninfo'', ''get_hw_resources_info'',
      ''do_autojoinNetwork'', ''show_bss_info'', ''get_node_advinfo'', ''qos_get_status'', ''qos_get_rules'',
      ''acl_get_status'', ''acl_get_rules'']"
proof (rule conjI)
  show "map fst (filter (\<lambda>(n, p, f, i). p \<le> PERMISSION_READ) node_func_list) =
     [''get_all_nodes_info'', ''get_node_basicinfo'', ''get_node_conninfo'', ''get_hw_resources_info'',
      ''do_autojoinNetwork'', ''show_bss_info'', ''get_node_advinfo'', ''qos_get_status'', ''qos_get_rules'',
      ''acl_get_status'', ''acl_get_rules'']"
    by (simp add: node_func_list_def less_eq_permission_level_def)
next
  show "map (\<lambda>(n, p, f, i). (func_index n, default_interface n, global_perm_map ! i)) node_func_list =
     map (\<lambda>(n, p, f, i). (Some i, Some f, \<lparr>pe_func_name = n, pe_required = p, pe_func_index = i\<rparr>)) node_func_list"
    by (rule map_cong [OF refl]) (use table_entry in auto)
qed

end
