(* ===== verification/RuleSnapshot.thy ===== *)
theory RuleSnapshot
  imports CJson
begin

text \<open>
  What the QoS and the firewall engine share: building a command line in a buffer with
  \<open>snprintf\<close> and \<open>strcat\<close>, where overrunning the buffer or appending a NULL string is a memory
  fault, and the interface of the snapshot of rules, which both engines keep in an array with
  a counter.
\<close>

section \<open>Command lines\<close>

definition cat :: "nat \<Rightarrow> string option \<Rightarrow> string \<Rightarrow> string option" where
  "cat n p cmd = do { t \<leftarrow> p; if length cmd + length t < n then Some (cmd @ t) else None }"

text \<open>\<open>strcat(cmd, word); strcat(cmd, value)\<close>.\<close>

definition cat2 :: "nat \<Rightarrow> string \<Rightarrow> string option \<Rightarrow> string \<Rightarrow> string option" where
  "cat2 n w p cmd = do { c \<leftarrow> cat n (Some w) cmd; cat n p c }"

text \<open>The option is appended when the item is there (and, in the second form, is a string).\<close>

definition opt_item :: "nat \<Rightarrow> string \<Rightarrow> json option \<Rightarrow> string \<Rightarrow> string option" where
  "opt_item n w j cmd = (case j of None \<Rightarrow> Some cmd | Some v \<Rightarrow> cat2 n w (valuestring v) cmd)"

definition opt_string :: "nat \<Rightarrow> string \<Rightarrow> json option \<Rightarrow> string \<Rightarrow> string option" where
  "opt_string n w j cmd = (case j of
     Some v \<Rightarrow> if is_string v then cat2 n w (valuestring v) cmd else Some cmd | None \<Rightarrow> Some cmd)"

lemma cat_Some [simp]: "cat n (Some t) cmd = Some r \<longleftrightarrow> r = cmd @ t \<and> length r < n"
  by (auto simp: cat_def)

lemma cat_bound: "cat n p cmd = Some r \<Longrightarrow> length r < n \<and> (\<exists>t. r = cmd @ t)"
  by (auto simp: cat_def bind_eq_Some_conv split: if_splits)

lemma cat2_bound: "cat2 n w p cmd = Some r \<Longrightarrow> length r < n \<and> (\<exists>t. r = cmd @ w @ t)"
  unfolding cat2_def by (auto simp: bind_eq_Some_conv cat_def split: if_splits)

lemma opt_item_bound: "opt_item n w j cmd = Some r \<Longrightarrow> length cmd < n \<Longrightarrow> length r < n \<and> (\<exists>t. r = cmd @ t)"
  by (auto simp: opt_item_def split: option.splits dest: cat2_bound)

lemma opt_string_bound: "opt_string n w j cmd = Some r \<Longrightarrow> length cmd < n \<Longrightarrow> length r < n \<and> (\<exists>t. r = cmd @ t)"
  by (auto simp: opt_string_def split: option.splits if_splits dest: cat2_bound)

section \<open>The snapshot interface\<close>

text \<open>
  A snapshot is a list of rules of bounded length; recording a rule that fits appends it unless
  the snapshot is full or has it already, and changes nothing else the owner reads.
\<close>

definition snapshot_ok :: "nat \<Rightarrow> string list \<Rightarrow> bool" where
  "snapshot_ok cap rs \<longleftrightarrow> length rs \<le> cap \<and> distinct rs"

locale rule_log =
  fixes rules :: "'s \<Rightarrow> string list"
    and capacity :: nat
    and fits :: "string \<Rightarrow> bool"
    and record_rule :: "string \<Rightarrow> 's \<Rightarrow> 's"
  assumes rules_record: "fits c \<Longrightarrow> rules (record_rule c s) =
      (if capacity \<le> length (rules s) \<or> c \<in> set (rules s) then rules s else rules s @ [c])"
begin

lemma record_ok: "fits c \<Longrightarrow> snapshot_ok capacity (rules s) \<Longrightarrow> snapshot_ok capacity (rules (record_rule c s))"
  by (auto simp: snapshot_ok_def rules_record)

lemma record_prefix: "fits c \<Longrightarrow> \<exists>r. rules (record_rule c s) = rules s @ r"
  by (auto simp: rules_record)

lemma record_mem: "fits c \<Longrightarrow> length (rules s) < capacity \<Longrightarrow> c \<in> set (rules (record_rule c s))"
  by (auto simp: rules_record)

lemma record_twice: "fits c \<Longrightarrow> rules (record_rule c (record_rule c s)) = rules (record_rule c s)"
  by (auto simp: rules_record)

end

end
