(* ===== verification/Qos.thy ===== *)
theory Qos
  imports RuleSnapshot
begin

text \<open>
  The QoS engine (slal/slb/wtsl_core_slb_qos_core.c): its state (switch, snapshot of the rules
  added, default device), the execution of a command line, the translation of a request into a
  \<open>tc\<close> or an \<open>iptables\<close> command, and the switch that clears the rules or replays the snapshot.
  Each operation returns its result with the new state and the command lines run so far, or
  \<open>None\<close> for a memory fault.  The engine's \<open>record_rule\<close> is an instance of \<open>rule_log\<close>.
\<close>

section \<open>State\<close>

record qos_state =
  q_enabled :: bool
  q_rules :: "string list"
  q_device :: string

definition qos_init_state :: "string \<Rightarrow> qos_state" where
  "qos_init_state default_dev = \<lparr>q_enabled = True, q_rules = [], q_device = cbuf 32 default_dev\<rparr>"

text \<open>Snapshot count and rules as the array of 256 entries of 4096 bytes.\<close>

definition record_rule :: "string \<Rightarrow> qos_state \<Rightarrow> qos_state" where
  "record_rule cmd s = (if length (q_rules s) \<ge> 256 then s
     else if cmd \<in> set (q_rules s) then s
     else s\<lparr>q_rules := q_rules s @ [cbuf 4096 cmd]\<rparr>)"

interpretation qlog: rule_log q_rules 256 "\<lambda>c. length c < 4096" record_rule
  by unfold_locales (simp add: record_rule_def)

section \<open>Commands\<close>

text \<open>The output lines that fit are appended to the buffer.\<close>

fun collect :: "nat \<Rightarrow> string \<Rightarrow> string list \<Rightarrow> string" where
  "collect n buf [] = buf"
| "collect n buf (l # ls) = collect n (if length buf + length l < n then buf @ l else buf) ls"

text \<open>Result, text left in a buffer of \<open>out_len\<close> bytes, and the commands run.\<close>

definition ex_command :: "shell \<Rightarrow> string \<Rightarrow> nat \<Rightarrow> string list \<Rightarrow> int \<times> string \<times> string list" where
  "ex_command sh cmd out_len tr =
     (let full = cmd @ '' 2>&1'' in
      if length full \<ge> 4104 then (-1, cbuf out_len ''Command too long'', tr)
      else if \<not> sh_popen sh tr full then (-1, cbuf out_len ''popen failed'', tr)
      else let out = (if out_len > 1 then collect out_len [] (fgets_all 255 (sh_out sh tr full)) else []);
               rc = sh_rc sh tr full
           in if rc \<noteq> 0 then
                (-1, (if out = [] then cbuf out_len (''Command failed with exit code '' @ show_int (if rc < 0 then -1 else rc)) else out),
                 tr @ [full])
              else (0, out, tr @ [full]))"

section \<open>tc\<close>

definition is_del :: "string \<Rightarrow> bool" where
  "is_del action \<longleftrightarrow> action = ''delete'' \<or> action = ''del''"

definition tc_device :: "cjson \<Rightarrow> qos_state \<Rightarrow> json \<Rightarrow> string" where
  "tc_device cj s params = (case cj_get_cs cj params ''device'' of
     Some (JStr d) \<Rightarrow> d | _ \<Rightarrow> q_device s)"

definition tc_base :: "string \<Rightarrow> string \<Rightarrow> string \<Rightarrow> string" where
  "tc_base action obj_type dev = cbuf 4096
     (if is_del action then ''tc qdisc del dev '' @ dev
      else if obj_type = ''qdisc'' \<and> action = ''add'' then ''tc qdisc add dev '' @ dev
      else if obj_type = ''class'' \<and> action = ''add'' then ''tc class add dev '' @ dev
      else if obj_type = ''filter'' \<and> action = ''add'' then ''tc filter add dev '' @ dev
      else ''tc '' @ obj_type @ '' '' @ action @ '' dev '' @ dev)"

text \<open>The major number of a class id, when it is there and fits the local buffer.\<close>

definition class_parent :: "string \<Rightarrow> string option" where
  "class_parent cid = (let major = takeWhile (\<lambda>c. c \<noteq> CHR '':'') cid in
     if CHR '':'' \<in> set cid \<and> major \<noteq> [] \<and> length major < 29 then Some (major @ '':0'') else None)"

definition tc_parent :: "cjson \<Rightarrow> string \<Rightarrow> json \<Rightarrow> string \<Rightarrow> string option" where
  "tc_parent cj obj_type params cmd =
     (let j_parent = cj_get_cs cj params ''parent''; j_classid = cj_get_cs cj params ''classid'' in
      if obj_type = ''qdisc'' then
        (case j_parent of Some p \<Rightarrow> cat2 4096 '' parent '' (valuestring p) cmd | None \<Rightarrow> cat 4096 (Some '' root'') cmd)
      else (case j_parent of
          Some p \<Rightarrow> cat2 4096 '' parent '' (valuestring p) cmd
        | None \<Rightarrow> if obj_type = ''class'' then (case j_classid of
              Some (JStr cid) \<Rightarrow> (case class_parent cid of
                  Some p \<Rightarrow> cat2 4096 '' parent '' (Some p) cmd | None \<Rightarrow> Some cmd)
            | _ \<Rightarrow> Some cmd)
            else Some cmd))"

text \<open>The members of \<open>args\<close>: strings and numbers, in order; \<open>match\<close> of a filter keeps its keyword.\<close>

fun tc_args :: "string \<Rightarrow> (string \<times> json) list \<Rightarrow> string \<Rightarrow> string option" where
  "tc_args obj_type [] cmd = Some cmd"
| "tc_args obj_type ((k, item) # r) cmd = do {
     c \<leftarrow> (case (if is_string item then valuestring item else if is_number item then Some (cbuf 32 (fmt_g item)) else None) of
         None \<Rightarrow> Some cmd
       | Some v \<Rightarrow> cat 4096 (Some ('' '' @
           (if obj_type = ''filter'' \<and> k = ''match'' then ''match '' @ v else k @ '' '' @ v))) cmd);
     tc_args obj_type r c }"

definition tc_options :: "cjson \<Rightarrow> string \<Rightarrow> string \<Rightarrow> json \<Rightarrow> string \<Rightarrow> string option" where
  "tc_options cj action obj_type params cmd = do {
     c1 \<leftarrow> tc_parent cj obj_type params cmd;
     c2 \<leftarrow> (if obj_type = ''class'' then opt_item 4096 '' classid '' (cj_get_cs cj params ''classid'') c1 else Some c1);
     c3 \<leftarrow> (if obj_type = ''qdisc'' then opt_item 4096 '' handle '' (cj_get_cs cj params ''handle'') c2 else Some c2);
     c4 \<leftarrow> (if obj_type = ''filter'' then do {
              d \<leftarrow> opt_item 4096 '' protocol '' (cj_get_cs cj params ''protocol'') c3;
              (case cj_get_cs cj params ''prio'' of None \<Rightarrow> Some d
               | Some p \<Rightarrow> cat 4096 (Some (cbuf 16 ('' prio '' @ show_int (valueint p)))) d) }
            else Some c3);
     c5 \<leftarrow> (if action \<in> {''add'', ''replace'', ''change''} then opt_item 4096 '' '' (cj_get_cs cj params ''kind'') c4 else Some c4);
     c6 \<leftarrow> (case cj_get_cs cj params ''args'' of Some (JObj fs) \<Rightarrow> tc_args obj_type fs c5 | _ \<Rightarrow> Some c5);
     (if obj_type = ''filter'' then opt_item 4096 '' flowid '' (cj_get_cs cj params ''flowid'') c6 else Some c6) }"

definition tc_command :: "cjson \<Rightarrow> qos_state \<Rightarrow> string \<Rightarrow> string \<Rightarrow> json \<Rightarrow> string option" where
  "tc_command cj s action obj_type params =
     (let cmd = tc_base action obj_type (tc_device cj s params) in
      if is_del action then do {
        c1 \<leftarrow> opt_item 4096 '' parent '' (cj_get_cs cj params ''parent'') cmd;
        opt_item 4096 '' handle '' (cj_get_cs cj params ''handle'') c1 }
      else tc_options cj action obj_type params cmd)"

definition tc_handle_request ::
    "shell \<Rightarrow> cjson \<Rightarrow> string \<Rightarrow> string \<Rightarrow> json \<Rightarrow> nat \<Rightarrow> qos_state \<Rightarrow> string list \<Rightarrow> (int \<times> string \<times> qos_state \<times> string list) option" where
  "tc_handle_request sh cj action obj_type params err_len s tr = do {
     cmd \<leftarrow> tc_command cj s action obj_type params;
     let (ret, err, tr1) = ex_command sh cmd err_len tr;
     Some (ret, err, (if ret = 0 \<and> (action = ''add'' \<or> action = ''replace'') then record_rule cmd s else s), tr1) }"

section \<open>iptables\<close>

definition ipt_flag :: "string \<Rightarrow> string" where
  "ipt_flag action = (if is_del action then ''-D'' else if action = ''insert'' then ''-I''
     else if action = ''replace'' then ''-R'' else ''-A'')"

definition ipt_iface :: "cjson \<Rightarrow> string \<Rightarrow> string \<Rightarrow> json \<Rightarrow> string \<Rightarrow> string option" where
  "ipt_iface cj chain dev params cmd =
     (let j_in = cj_get_cs cj params ''in_interface''; j_out = cj_get_cs cj params ''out_interface'' in
      if j_in = None \<and> j_out = None then
        (if chain = ''INPUT'' \<or> chain = ''FORWARD'' then cat2 4096 '' -i '' (Some dev) cmd
         else if chain = ''OUTPUT'' then cat2 4096 '' -o '' (Some dev) cmd else Some cmd)
      else do { c \<leftarrow> opt_item 4096 '' -i '' j_in cmd; opt_item 4096 '' -o '' j_out c })"

definition ipt_key :: "string \<Rightarrow> string" where
  "ipt_key k = (if k = ''source'' \<or> k = ''src'' then ''-s '' else if k = ''destination'' \<or> k = ''dst'' then ''-d ''
     else if k = ''sport'' then ''--sport '' else if k = ''dport'' then ''--dport ''
     else if k = ''jump'' \<or> k = ''target'' then ''-j '' else ''--'' @ k @ '' '')"

fun ipt_args :: "(string \<times> json) list \<Rightarrow> string \<Rightarrow> string option" where
  "ipt_args [] cmd = Some cmd"
| "ipt_args ((k, item) # r) cmd = do {
     c \<leftarrow> (case (if is_string item then valuestring item else if is_number item then Some (cbuf 32 (show_int (valueint item))) else None) of
         None \<Rightarrow> Some cmd | Some v \<Rightarrow> cat 4096 (Some ('' '' @ ipt_key k @ v)) cmd);
     ipt_args r c }"

definition ipt_command :: "cjson \<Rightarrow> qos_state \<Rightarrow> string \<Rightarrow> string \<Rightarrow> json \<Rightarrow> string option" where
  "ipt_command cj s action chain params = do {
     c1 \<leftarrow> opt_string 4096 '' -p '' (cj_get_cs cj params ''protocol'') (cbuf 4096 (''iptables '' @ ipt_flag action @ '' '' @ chain));
     c2 \<leftarrow> ipt_iface cj chain (tc_device cj s params) params c1;
     (case cj_get_cs cj params ''args'' of Some (JObj fs) \<Rightarrow> ipt_args fs c2 | _ \<Rightarrow> Some c2) }"

definition iptables_handle_request ::
    "shell \<Rightarrow> cjson \<Rightarrow> string \<Rightarrow> string \<Rightarrow> json \<Rightarrow> qos_state \<Rightarrow> string list \<Rightarrow> (int \<times> qos_state \<times> string list) option" where
  "iptables_handle_request sh cj action chain params s tr = do {
     cmd \<leftarrow> ipt_command cj s action chain params;
     let (ret, out, tr1) = ex_command sh cmd 0 tr;
     Some (ret, (if ret = 0 \<and> action \<in> {''add'', ''insert'', ''replace''} then record_rule cmd s else s), tr1) }"

section \<open>The switch\<close>

text \<open>
  The command that is to remove a recorded \<open>iptables\<close> rule: \<open>memcpy\<close> of 13 bytes of the literal
  \<open>"iptables -D"\<close> copies its 11 characters and its terminator, so the rest of the rule is cut off.
  \<open>None\<close>: no command is run for the rule.
\<close>

definition del_cmd :: "string \<Rightarrow> string option" where
  "del_cmd rule = (if \<not> contains rule ''iptables'' then None
     else (case strstr_pre ''iptables -A'' rule of
         Some pre \<Rightarrow> Some (pre @ ''iptables -D'')
       | None \<Rightarrow> (case strstr_pre ''iptables -I'' rule of
             Some pre \<Rightarrow> Some (pre @ ''iptables -D'')
           | None \<Rightarrow> if contains rule ''iptables -R'' then None else Some rule)))"

definition qos_clear_cmds :: "qos_state \<Rightarrow> string list" where
  "qos_clear_cmds s = [cbuf 4096 (''tc qdisc del dev '' @ q_device s @ '' root 2>/dev/null''),
     cbuf 4096 (''tc qdisc del dev '' @ q_device s @ '' ingress 2>/dev/null'')] @
     List.map_filter del_cmd (q_rules s)"

definition qos_toggle_switch :: "shell \<Rightarrow> bool \<Rightarrow> qos_state \<Rightarrow> string list \<Rightarrow> int \<times> qos_state \<times> string list" where
  "qos_toggle_switch sh enable s tr =
     (if q_enabled s = enable then (0, s, tr)
      else if \<not> enable then (0, s\<lparr>q_enabled := False\<rparr>, run_cmds sh tr (qos_clear_cmds s))
      else (0, s\<lparr>q_enabled := True\<rparr>, run_cmds sh tr (q_rules s)))"

section \<open>Bounds of the command lines\<close>

lemma tc_parent_bound: "tc_parent cj ty params cmd = Some r \<Longrightarrow> length cmd < 4096 \<Longrightarrow> length r < 4096"
  by (auto simp: tc_parent_def Let_def split: if_splits option.splits json.splits dest: cat2_bound cat_bound)

lemma tc_args_bound: "tc_args ty fs cmd = Some r \<Longrightarrow> length cmd < 4096 \<Longrightarrow> length r < 4096"
proof (induction ty fs cmd rule: tc_args.induct)
  case (2 ty k item r0 cmd)
  then show ?case by (auto simp: bind_eq_Some_conv split: option.splits if_splits)
qed simp

lemma opt_item_len: "opt_item n w j cmd = Some r \<Longrightarrow> length cmd < n \<Longrightarrow> length r < n"
  by (drule opt_item_bound) auto

lemma tc_options_bound:
  assumes "tc_options cj action ty params cmd = Some r" "length cmd < 4096"
  shows "length r < 4096"
proof -
  from assms(1) obtain c1 c2 c3 c4 c5 c6 where
    c: "tc_parent cj ty params cmd = Some c1"
      "(if ty = ''class'' then opt_item 4096 '' classid '' (cj_get_cs cj params ''classid'') c1 else Some c1) = Some c2"
      "(if ty = ''qdisc'' then opt_item 4096 '' handle '' (cj_get_cs cj params ''handle'') c2 else Some c2) = Some c3"
      "(if ty = ''filter'' then do {
              d \<leftarrow> opt_item 4096 '' protocol '' (cj_get_cs cj params ''protocol'') c3;
              (case cj_get_cs cj params ''prio'' of None \<Rightarrow> Some d
               | Some p \<Rightarrow> cat 4096 (Some (cbuf 16 ('' prio '' @ show_int (valueint p)))) d) }
            else Some c3) = Some c4"
      "(if action \<in> {''add'', ''replace'', ''change''} then opt_item 4096 '' '' (cj_get_cs cj params ''kind'') c4 else Some c4) = Some c5"
      "(case cj_get_cs cj params ''args'' of Some (JObj fs) \<Rightarrow> tc_args ty fs c5 | _ \<Rightarrow> Some c5) = Some c6"
      "(if ty = ''filter'' then opt_item 4096 '' flowid '' (cj_get_cs cj params ''flowid'') c6 else Some c6) = Some r"
    unfolding tc_options_def bind_eq_Some_conv by blast
  from tc_parent_bound [OF c(1) assms(2)] have "length c1 < 4096" .
  with c(2) have "length c2 < 4096" by (auto split: if_splits dest: opt_item_len)
  with c(3) have "length c3 < 4096" by (auto split: if_splits dest: opt_item_len)
  with c(4) have "length c4 < 4096"
    by (auto simp: bind_eq_Some_conv split: if_splits option.splits dest: opt_item_len)
  with c(5) have "length c5 < 4096" by (auto split: if_splits dest: opt_item_len)
  with c(6) have "length c6 < 4096"
    by (auto split: option.splits json.splits dest: tc_args_bound)
  with c(7) show ?thesis by (auto split: if_splits dest: opt_item_len)
qed

lemma tc_command_bound: "tc_command cj s action ty params = Some cmd \<Longrightarrow> length cmd < 4096"
proof -
  assume a: "tc_command cj s action ty params = Some cmd"
  have "length (tc_base action ty (tc_device cj s params)) < 4096" unfolding tc_base_def by (rule length_cbuf) simp
  with a show ?thesis
    by (auto simp: tc_command_def Let_def bind_eq_Some_conv split: if_splits dest: opt_item_len tc_options_bound)
qed

lemma ipt_args_bound: "ipt_args fs cmd = Some r \<Longrightarrow> length cmd < 4096 \<Longrightarrow> length r < 4096 \<and> (\<exists>t. r = cmd @ t)"
proof (induction fs cmd rule: ipt_args.induct)
  case (2 k item r0 cmd)
  then show ?case by (fastforce simp: bind_eq_Some_conv split: option.splits if_splits)
qed simp

lemma ipt_iface_bound: "ipt_iface cj chain dev params cmd = Some r \<Longrightarrow> length cmd < 4096 \<Longrightarrow> length r < 4096 \<and> (\<exists>t. r = cmd @ t)"
  by (fastforce simp: ipt_iface_def Let_def bind_eq_Some_conv split: if_splits dest: opt_item_bound cat2_bound)

text \<open>The iptables command is bounded and starts as its first \<open>snprintf\<close> wrote it.\<close>

lemma ipt_command_bound:
  assumes "ipt_command cj s action chain params = Some cmd"
  shows "length cmd < 4096 \<and> (\<exists>t. cmd = cbuf 4096 (''iptables '' @ ipt_flag action @ '' '' @ chain) @ t)"
proof -
  let ?b = "cbuf 4096 (''iptables '' @ ipt_flag action @ '' '' @ chain)"
  have b: "length ?b < 4096" by (rule length_cbuf) simp
  from assms obtain c1 c2 where c: "opt_string 4096 '' -p '' (cj_get_cs cj params ''protocol'') ?b = Some c1"
      "ipt_iface cj chain (tc_device cj s params) params c1 = Some c2"
      "(case cj_get_cs cj params ''args'' of Some (JObj fs) \<Rightarrow> ipt_args fs c2 | _ \<Rightarrow> Some c2) = Some cmd"
    unfolding ipt_command_def bind_eq_Some_conv by blast
  from opt_string_bound [OF c(1) b] obtain t1 where t1: "length c1 < 4096" "c1 = ?b @ t1" by blast
  from ipt_iface_bound [OF c(2) t1(1)] obtain t2 where t2: "length c2 < 4096" "c2 = c1 @ t2" by blast
  have "length cmd < 4096 \<and> (\<exists>t. cmd = c2 @ t)"
  proof (cases "\<exists>fs. cj_get_cs cj params ''args'' = Some (JObj fs)")
    case True
    with c(3) t2(1) show ?thesis by (auto dest: ipt_args_bound)
  next
    case False
    with c(3) t2(1) show ?thesis by (auto split: option.splits json.splits)
  qed
  with t1 t2 show ?thesis by auto
qed

section \<open>Sequences of requests\<close>

datatype qos_req = Tc string string json | Ipt string string json | Toggle bool

fun qos_step :: "shell \<Rightarrow> cjson \<Rightarrow> qos_req \<Rightarrow> qos_state \<times> string list \<Rightarrow> (qos_state \<times> string list) option" where
  "qos_step sh cj (Tc action ty params) (s, tr) = map_option (\<lambda>(_, _, s1, t1). (s1, t1)) (tc_handle_request sh cj action ty params 512 s tr)"
| "qos_step sh cj (Ipt action chain params) (s, tr) = map_option (\<lambda>(_, s1, t1). (s1, t1)) (iptables_handle_request sh cj action chain params s tr)"
| "qos_step sh cj (Toggle b) (s, tr) = Some (snd (qos_toggle_switch sh b s tr))"

fun qos_run :: "shell \<Rightarrow> cjson \<Rightarrow> qos_req list \<Rightarrow> qos_state \<times> string list \<Rightarrow> (qos_state \<times> string list) option" where
  "qos_run sh cj [] st = Some st"
| "qos_run sh cj (r # rs) st = do { st1 \<leftarrow> qos_step sh cj r st; qos_run sh cj rs st1 }"

text \<open>A request leaves the snapshot alone or records one command that was run successfully.\<close>

lemma tc_snapshot:
  assumes "tc_handle_request sh cj action ty params n s tr = Some (ret, err, s', tr')"
  shows "s' = s \<or> ret = 0 \<and> (\<exists>cmd. length cmd < 4096 \<and> s' = record_rule cmd s \<and> tr' = tr @ [cmd @ '' 2>&1''])"
  using assms by (auto simp: tc_handle_request_def bind_eq_Some_conv Let_def ex_command_def
      dest!: tc_command_bound split: if_splits prod.splits)

lemma ipt_snapshot:
  assumes "iptables_handle_request sh cj action chain params s tr = Some (ret, s', tr')"
  shows "s' = s \<or> ret = 0 \<and> (\<exists>cmd. length cmd < 4096 \<and> s' = record_rule cmd s \<and> tr' = tr @ [cmd @ '' 2>&1''])"
  using assms by (auto simp: iptables_handle_request_def bind_eq_Some_conv Let_def ex_command_def
      dest!: ipt_command_bound split: if_splits prod.splits)

lemma toggle_rules: "qos_toggle_switch sh b s tr = (r, s', tr') \<Longrightarrow> q_rules s' = q_rules s"
  by (auto simp: qos_toggle_switch_def split: if_splits)

lemma qos_step_ok:
  assumes "qos_step sh cj r (s, tr) = Some (s', tr')" "snapshot_ok 256 (q_rules s)"
  shows "snapshot_ok 256 (q_rules s') \<and> (\<exists>new. q_rules s' = q_rules s @ new)"
proof (cases r)
  case (Tc action ty params)
  with assms(1) obtain ret err where "tc_handle_request sh cj action ty params 512 s tr = Some (ret, err, s', tr')" by auto
  from tc_snapshot [OF this] assms(2) qlog.record_ok qlog.record_prefix show ?thesis by auto
next
  case (Ipt action chain params)
  with assms(1) obtain ret where "iptables_handle_request sh cj action chain params s tr = Some (ret, s', tr')" by auto
  from ipt_snapshot [OF this] assms(2) qlog.record_ok qlog.record_prefix show ?thesis by auto
next
  case (Toggle b)
  with assms(1) obtain q where "qos_toggle_switch sh b s tr = (q, s', tr')" by (cases "qos_toggle_switch sh b s tr") auto
  with toggle_rules assms(2) show ?thesis by fastforce
qed

section \<open>Properties\<close>


definition demo_qos :: qos_state where
  "demo_qos = qos_init_state ''wt_br0''"

definition demo_rule :: json where
  "demo_rule = JObj [(''protocol'', JStr ''tcp'')]"

definition demo_rule_cmd :: string where
  "demo_rule_cmd = ''iptables -A INPUT -p tcp -i wt_br0''"

lemma demo_ipt: "ipt_command (demo_cjson p) demo_qos ''add'' ''INPUT'' demo_rule = Some demo_rule_cmd"
  by (simp add: ipt_command_def ipt_flag_def is_del_def ipt_iface_def tc_device_def demo_rule_def demo_cjson_def
      opt_string_def cat2_def cat_def demo_qos_def qos_init_state_def demo_rule_cmd_def)

lemma ex_quiet: "length cmd < 4096 \<Longrightarrow> ex_command quiet_shell cmd n tr = (0, [], tr @ [cmd @ '' 2>&1''])"
  by (simp add: ex_command_def quiet_shell_def Let_def)

lemma demo_rule_len: "length demo_rule_cmd < 4096"
  by (simp add: demo_rule_cmd_def)

lemma demo_qos_simps: "q_enabled demo_qos" "q_rules demo_qos = []"
  by (simp_all add: demo_qos_def qos_init_state_def)

lemma demo_run: "qos_run quiet_shell (demo_cjson p) [Ipt ''add'' ''INPUT'' demo_rule, Toggle False] (demo_qos, []) =
   Some (demo_qos\<lparr>q_rules := [demo_rule_cmd], q_enabled := False\<rparr>,
     (demo_rule_cmd @ '' 2>&1'') # qos_clear_cmds (demo_qos\<lparr>q_rules := [demo_rule_cmd]\<rparr>))"
  using demo_rule_len
  by (simp add: iptables_handle_request_def demo_ipt ex_quiet record_rule_def demo_qos_simps qos_toggle_switch_def
      qos_clear_cmds_def)


text \<open>Switching QoS off and on again runs the clearing commands, then replays exactly the snapshot in
  the order recorded, and leaves the state as it was; switching to the present setting does nothing.\<close>

theorem qos_toggle_replays:
  "qos_toggle_switch sh (q_enabled s) s tr = (0, s, tr) \<and>
   (q_enabled s \<longrightarrow> (case qos_toggle_switch sh False s tr of (r1, s1, t1) \<Rightarrow>
      qos_toggle_switch sh True s1 t1 = (0, s, tr @ qos_clear_cmds s @ q_rules s)))"
  by (simp add: qos_toggle_switch_def)

theorem qos_toggle_replays_witness:
  "snd (snd (qos_toggle_switch quiet_shell True (demo_qos\<lparr>q_enabled := False\<rparr>) [])) = []"
proof -
  have e: "q_enabled demo_qos" "q_rules demo_qos = []" by (simp_all add: demo_qos_def qos_init_state_def)
  have "qos_toggle_switch quiet_shell False demo_qos [] = (0, demo_qos\<lparr>q_enabled := False\<rparr>, qos_clear_cmds demo_qos)"
    by (simp add: qos_toggle_switch_def e)
  with qos_toggle_replays [of quiet_shell demo_qos "[]"] e
  have "qos_toggle_switch quiet_shell True (demo_qos\<lparr>q_enabled := False\<rparr>) (qos_clear_cmds demo_qos) =
    (0, demo_qos, qos_clear_cmds demo_qos)" by simp
  then show ?thesis by (simp add: qos_toggle_switch_def e)
qed

text \<open>Switching QoS off does not remove the firewall rules it recorded: for every rule an \<open>add\<close>
  request records, the command that is to delete it is the bare \<open>"iptables -D"\<close>.\<close>

theorem disable_deletes_nothing:
  assumes "ipt_command cj s ''add'' chain params = Some cmd"
  shows "del_cmd cmd = Some ''iptables -D''"
proof -
  from ipt_command_bound [OF assms] obtain t where
    t: "cmd = cbuf 4096 (''iptables '' @ ipt_flag ''add'' @ '' '' @ chain) @ t" by blast
  have "cbuf 4096 (''iptables '' @ ipt_flag ''add'' @ '' '' @ chain) = ''iptables -A'' @ take 4084 ('' '' @ chain)"
    by (simp add: cbuf_def ipt_flag_def is_del_def)
  with t obtain r where r: "cmd = ''iptables -A'' @ r" by auto
  have "strstr_pre ''iptables -A'' cmd = Some []" unfolding r by (rule strstr_pre_prefix)
  moreover have "contains cmd ''iptables''" using contains_append [of "[]" "''iptables''" "'' -A'' @ r"] r by simp
  ultimately show ?thesis by (simp add: del_cmd_def)
qed

theorem disable_deletes_nothing_witness:
  "qos_clear_cmds (demo_qos\<lparr>q_rules := [demo_rule_cmd]\<rparr>) =
     [''tc qdisc del dev wt_br0 root 2>/dev/null'', ''tc qdisc del dev wt_br0 ingress 2>/dev/null'', ''iptables -D'']"
  using disable_deletes_nothing [OF demo_ipt]
  by (simp add: qos_clear_cmds_def demo_qos_def qos_init_state_def)

text \<open>Deleting a rule does not take it out of the snapshot: after a successful or failed delete the
  snapshot is the same, so switching off and on brings every rule ever added back.\<close>

theorem delete_keeps_snapshot:
  assumes "is_del action"
  shows "(tc_handle_request sh cj action ty params n s tr = Some (ret, err, s', tr') \<longrightarrow> s' = s) \<and>
    (iptables_handle_request sh cj action chain params s tr = Some (ret, s', tr') \<longrightarrow> s' = s)"
proof (intro conjI impI)
  assume "tc_handle_request sh cj action ty params n s tr = Some (ret, err, s', tr')"
  then obtain cmd where "(case ex_command sh cmd n tr of (ret, err, tr1) \<Rightarrow>
      Some (ret, err, if ret = 0 \<and> (action = ''add'' \<or> action = ''replace'') then record_rule cmd s else s, tr1)) =
      Some (ret, err, s', tr')"
    by (auto simp: tc_handle_request_def bind_eq_Some_conv Let_def)
  with assms show "s' = s" by (cases "ex_command sh cmd n tr") (auto simp: is_del_def)
next
  assume "iptables_handle_request sh cj action chain params s tr = Some (ret, s', tr')"
  then obtain cmd where "(case ex_command sh cmd 0 tr of (ret, out, tr1) \<Rightarrow>
      Some (ret, if ret = 0 \<and> action \<in> {''add'', ''insert'', ''replace''} then record_rule cmd s else s, tr1)) =
      Some (ret, s', tr')"
    by (auto simp: iptables_handle_request_def bind_eq_Some_conv Let_def)
  with assms show "s' = s" by (cases "ex_command sh cmd 0 tr") (auto simp: is_del_def)
qed

theorem delete_keeps_snapshot_witness:
  "\<exists>ret tr'. iptables_handle_request quiet_shell (demo_cjson (\<lambda>_. None)) ''delete'' ''INPUT'' demo_rule
      (demo_qos\<lparr>q_rules := [demo_rule_cmd]\<rparr>) [] = Some (ret, demo_qos\<lparr>q_rules := [demo_rule_cmd]\<rparr>, tr')"
proof -
  have "\<exists>c. ipt_command (demo_cjson (\<lambda>_. None)) (demo_qos\<lparr>q_rules := [demo_rule_cmd]\<rparr>) ''delete'' ''INPUT'' demo_rule = Some c"
    by (simp add: ipt_command_def ipt_flag_def is_del_def ipt_iface_def tc_device_def demo_rule_def demo_cjson_def
      opt_string_def cat2_def cat_def demo_qos_def qos_init_state_def)
  then obtain c where c: "ipt_command (demo_cjson (\<lambda>_. None)) (demo_qos\<lparr>q_rules := [demo_rule_cmd]\<rparr>) ''delete'' ''INPUT'' demo_rule = Some c" ..
  obtain ret s' tr' where "iptables_handle_request quiet_shell (demo_cjson (\<lambda>_. None)) ''delete'' ''INPUT'' demo_rule
      (demo_qos\<lparr>q_rules := [demo_rule_cmd]\<rparr>) [] = Some (ret, s', tr')"
    by (cases "ex_command quiet_shell c 0 []") (auto simp: iptables_handle_request_def c)
  with delete_keeps_snapshot [of "''delete''"] show ?thesis by (auto simp: is_del_def)
qed

end
