(* ===== verification/Acl.thy ===== *)
theory Acl
  imports RuleSnapshot
begin

text \<open>
  The firewall engine (slal/slb/wtsl_core_slb_acl_core.c): its state (switch, snapshot of the rules
  added, default device), the translation of a request into an \<open>iptables\<close> command, the listing
  of a chain, and the switch of the FORWARD policy.  Results are paired with the new state and
  the command lines run; \<open>None\<close> is a memory fault.  Its \<open>record_rule\<close> is an instance of \<open>rule_log\<close>.
\<close>

section \<open>State\<close>

record acl_state =
  a_enabled :: bool
  a_rules :: "string list"
  a_device :: string

definition acl_init_state :: "string \<Rightarrow> acl_state" where
  "acl_init_state default_dev = \<lparr>a_enabled = False, a_rules = [], a_device = cbuf 32 default_dev\<rparr>"

definition acl_record_rule :: "string \<Rightarrow> acl_state \<Rightarrow> acl_state" where
  "acl_record_rule cmd s = (if length (a_rules s) \<ge> 256 then s
     else if cmd \<in> set (a_rules s) then s
     else s\<lparr>a_rules := a_rules s @ [cbuf 4096 cmd]\<rparr>)"

interpretation alog: rule_log a_rules 256 "\<lambda>c. length c < 4096" acl_record_rule
  by unfold_locales (simp add: acl_record_rule_def)

definition acl_ex_command :: "shell \<Rightarrow> string \<Rightarrow> string list \<Rightarrow> int \<times> string list" where
  "acl_ex_command sh cmd tr = (if \<not> sh_popen sh tr cmd then (-1, tr)
     else (if sh_rc sh tr cmd \<noteq> 0 then -1 else 0, tr @ [cmd]))"

section \<open>Commands\<close>

definition acl_flag :: "string \<Rightarrow> string" where
  "acl_flag action = (if action = ''delete'' \<or> action = ''del'' then ''-D'' else if action = ''insert'' then ''-I''
     else if action = ''replace'' then ''-R'' else ''-A'')"

text \<open>The parameters of the rule may be nested in a \<open>rule\<close> object.\<close>

definition rule_params :: "cjson \<Rightarrow> json \<Rightarrow> json" where
  "rule_params cj params = (case cj_get_cs cj params ''rule'' of Some (JObj fs) \<Rightarrow> JObj fs | _ \<Rightarrow> params)"

definition rule_num :: "cjson \<Rightarrow> json \<Rightarrow> json option" where
  "rule_num cj params = (case (case cj_get_cs cj params ''rule_num'' of
       None \<Rightarrow> cj_get_cs cj (rule_params cj params) ''rule_num'' | Some j \<Rightarrow> Some j) of
     Some j \<Rightarrow> if is_number j then Some j else None | None \<Rightarrow> None)"

text \<open>The ports: any port member selects the protocol module, only string ports are given.\<close>

definition acl_ports :: "cjson \<Rightarrow> json \<Rightarrow> string \<Rightarrow> string option" where
  "acl_ports cj rp cmd =
     (let d = cj_get_cs cj rp ''dest_port''; sp = cj_get_cs cj rp ''source_port'' in
      if d = None \<and> sp = None then Some cmd
      else do {
        c1 \<leftarrow> cat 4096 (Some (if cj_get_cs cj rp ''protocol'' = Some (JStr ''udp'') then '' -m udp'' else '' -m tcp'')) cmd;
        c2 \<leftarrow> opt_string 4096 '' --sport '' sp c1;
        opt_string 4096 '' --dport '' d c2 })"

definition acl_options :: "cjson \<Rightarrow> json \<Rightarrow> string \<Rightarrow> string option" where
  "acl_options cj rp cmd = do {
     c1 \<leftarrow> opt_string 4096 '' -p '' (cj_get_cs cj rp ''protocol'') cmd;
     c2 \<leftarrow> opt_string 4096 '' -s '' (cj_get_cs cj rp ''source'') c1;
     c3 \<leftarrow> opt_string 4096 '' -d '' (cj_get_cs cj rp ''destination'') c2;
     c4 \<leftarrow> opt_string 4096 '' -i '' (cj_get_cs cj rp ''in_interface'') c3;
     c5 \<leftarrow> opt_string 4096 '' -o '' (cj_get_cs cj rp ''out_interface'') c4;
     c6 \<leftarrow> acl_ports cj rp c5;
     opt_string 4096 '' -j '' (cj_get_cs cj rp ''target'') c6 }"

definition build_iptables_cmd :: "cjson \<Rightarrow> string \<Rightarrow> string \<Rightarrow> json \<Rightarrow> string option" where
  "build_iptables_cmd cj action chain params =
     (let rp = rule_params cj params in
      case rule_num cj params of
        Some j \<Rightarrow>
          (let num = cbuf 16 (show_int (valueint j));
               base = cbuf 4096 (''iptables -w '' @ acl_flag action @ '' '' @ chain @ '' '' @ num)
           in if action = ''delete'' \<or> action = ''del'' then Some base else acl_options cj rp base)
      | None \<Rightarrow> acl_options cj rp (cbuf 4096 (''iptables -w '' @ acl_flag action @ '' '' @ chain)))"

section \<open>Requests\<close>

definition acl_get_status :: "acl_state \<Rightarrow> (string \<times> json) list \<Rightarrow> (string \<times> json) list" where
  "acl_get_status s resp = resp @ [(''enabled'', JBool (a_enabled s)), (''rule_count'', JNum (int (length (a_rules s)))),
     (''device'', JStr (a_device s)), (''type'', JStr ''iptables'')]"

definition acl_toggle_switch :: "shell \<Rightarrow> bool \<Rightarrow> acl_state \<Rightarrow> string list \<Rightarrow> int \<times> acl_state \<times> string list" where
  "acl_toggle_switch sh enable s tr =
     (if a_enabled s = enable then (0, s, tr)
      else let run = (\<lambda>c t. snd (acl_ex_command sh c t)) in
        if \<not> enable then
          (0, s\<lparr>a_enabled := False\<rparr>, run ''iptables -w -P FORWARD ACCEPT'' (run ''iptables -w -F FORWARD'' tr))
        else
          (0, s\<lparr>a_enabled := True\<rparr>,
           run ''iptables -w -A FORWARD -m state --state ESTABLISHED,RELATED -j ACCEPT 2>/dev/null || true''
             (run ''iptables -w -P FORWARD DROP'' tr)))"

text \<open>The lines of \<open>iptables -S\<close> that are not policies, without their newline.\<close>

definition list_lines :: "string \<Rightarrow> json list" where
  "list_lines out = map (\<lambda>l. JStr (takeWhile (\<lambda>c. c \<noteq> CHR 0x0A) l))
     (filter (\<lambda>l. \<not> strneq 2 l ''-P'') (fgets_all 1023 out))"

definition is_list_action :: "string \<Rightarrow> bool" where
  "is_list_action action \<longleftrightarrow> action = ''list'' \<or> action = ''get''"

definition acl_list_rules :: "shell \<Rightarrow> string \<Rightarrow> (string \<times> json) list \<Rightarrow> string list \<Rightarrow> int \<times> (string \<times> json) list \<times> string list" where
  "acl_list_rules sh chain resp tr = (let cmd = cbuf 4096 (''iptables -w -S '' @ chain) in
     if \<not> sh_popen sh tr cmd then (-1, resp @ [(''error'', JStr ''Failed to execute iptables'')], tr)
     else (0, resp @ [(''rules'', JArr (list_lines (sh_out sh tr cmd)))], tr @ [cmd]))"

definition acl_handle_request ::
    "shell \<Rightarrow> cjson \<Rightarrow> string \<Rightarrow> string \<Rightarrow> json \<Rightarrow> (string \<times> json) list \<Rightarrow> acl_state \<Rightarrow> string list \<Rightarrow>
     (int \<times> (string \<times> json) list \<times> acl_state \<times> string list) option" where
  "acl_handle_request sh cj action chain params resp s tr =
     (if is_list_action action then
        (case acl_list_rules sh chain resp tr of (r, resp1, tr1) \<Rightarrow> Some (r, resp1, s, tr1))
      else do {
        cmd \<leftarrow> build_iptables_cmd cj action chain params;
        (case acl_ex_command sh cmd tr of (ret, tr1) \<Rightarrow>
           if ret = 0 then
             Some (ret, resp @ [(''success'', JBool True), (''action'', JStr action), (''chain'', JStr chain),
                (''message'', JStr ''Operation successful'')],
                (if action = ''add'' \<or> action = ''insert'' then acl_record_rule cmd s else s), tr1)
           else Some (ret, resp @ [(''success'', JBool False), (''error'', JStr ''Command execution failed'')], s, tr1)) })"

section \<open>Bounds\<close>

lemma opt_string_len: "opt_string n w j cmd = Some r \<Longrightarrow> length cmd < n \<Longrightarrow> length r < n"
  by (drule opt_string_bound) auto

lemma acl_ports_len: "acl_ports cj rp cmd = Some r \<Longrightarrow> length cmd < 4096 \<Longrightarrow> length r < 4096"
  by (auto simp: acl_ports_def Let_def bind_eq_Some_conv split: if_splits dest: opt_string_len)

lemma acl_options_len: "acl_options cj rp cmd = Some r \<Longrightarrow> length cmd < 4096 \<Longrightarrow> length r < 4096"
  unfolding acl_options_def bind_eq_Some_conv by (blast dest: opt_string_len acl_ports_len)

lemma build_len: "build_iptables_cmd cj action chain params = Some cmd \<Longrightarrow> length cmd < 4096"
  by (auto simp: build_iptables_cmd_def Let_def length_cbuf split: option.splits if_splits dest!: acl_options_len)

section \<open>Properties\<close>

text \<open>A firewall request answers success exactly when its command succeeded; it records that very
  command, and only for \<open>add\<close> and \<open>insert\<close>, at most once and up to 256 rules; a failed request, a
  deletion or a listing leaves the state as it was.\<close>

theorem acl_request_outcome:
  assumes "acl_handle_request sh cj action chain params resp s tr = Some (ret, resp', s', tr')"
    and "\<not> is_list_action action" "snapshot_ok 256 (a_rules s)"
  shows "\<exists>cmd. build_iptables_cmd cj action chain params = Some cmd \<and>
    (ret = 0 \<longleftrightarrow> sh_popen sh tr cmd \<and> sh_rc sh tr cmd = 0) \<and>
    (ret = 0 \<longleftrightarrow> resp' ! length resp = (''success'', JBool True)) \<and>
    snapshot_ok 256 (a_rules s') \<and>
    (if ret = 0 \<and> (action = ''add'' \<or> action = ''insert'') \<and> length (a_rules s) < 256 \<and> cmd \<notin> set (a_rules s)
     then a_rules s' = a_rules s @ [cmd] else s' = s)"
proof -
  from assms(1,2) obtain cmd where b: "build_iptables_cmd cj action chain params = Some cmd"
    by (auto simp: acl_handle_request_def bind_eq_Some_conv)
  note len = build_len [OF b]
  note ok = alog.record_ok [OF len assms(3)]
  show ?thesis
    using assms b len ok alog.rules_record [OF len, of s]
    by (auto simp: acl_handle_request_def acl_ex_command_def nth_append acl_record_rule_def split: if_splits)
qed

definition demo_acl :: acl_state where
  "demo_acl = acl_init_state ''wt_br0''"

definition demo_acl_rule :: json where
  "demo_acl_rule = JObj [(''protocol'', JStr ''udp''), (''dest_port'', JStr ''53''), (''target'', JStr ''DROP'')]"

lemma demo_acl_build: "build_iptables_cmd (demo_cjson p) ''add'' ''FORWARD'' demo_acl_rule =
    Some ''iptables -w -A FORWARD -p udp -m udp --dport 53 -j DROP''"
  by (simp add: build_iptables_cmd_def acl_flag_def rule_num_def rule_params_def demo_acl_rule_def demo_cjson_def
      acl_options_def acl_ports_def opt_string_def cat2_def cat_def)

lemma demo_acl_simps: "a_rules demo_acl = []"
  by (simp add: demo_acl_def acl_init_state_def)

theorem acl_request_outcome_witness:
  "\<exists>ret resp' s' tr'. acl_handle_request quiet_shell (demo_cjson (\<lambda>_. None)) ''add'' ''FORWARD'' demo_acl_rule [] demo_acl [] =
     Some (ret, resp', s', tr') \<and> ret = 0 \<and> a_rules s' = [''iptables -w -A FORWARD -p udp -m udp --dport 53 -j DROP'']"
proof -
  obtain ret resp' s' tr' where h: "acl_handle_request quiet_shell (demo_cjson (\<lambda>_. None)) ''add'' ''FORWARD'' demo_acl_rule [] demo_acl [] =
     Some (ret, resp', s', tr')"
    by (auto simp: acl_handle_request_def demo_acl_build is_list_action_def acl_ex_command_def quiet_shell_def)
  from acl_request_outcome [OF h] h show ?thesis
    by (auto simp: is_list_action_def demo_acl_simps snapshot_ok_def demo_acl_build quiet_shell_def)
qed

text \<open>The firewall switch never touches the snapshot and never replays it: switching on runs the two
  policy commands only, so the rules recorded before a switch-off (which flushes the chain) are
  not installed again, although the status still counts them.\<close>

theorem acl_toggle_forgets_rules:
  assumes "acl_toggle_switch sh True s tr = (r, s', tr')"
  shows "a_rules s' = a_rules s \<and> a_enabled s' \<and> r = 0 \<and> (\<forall>c \<in> set (drop (length tr) tr').
      c = ''iptables -w -P FORWARD DROP'' \<or>
      c = ''iptables -w -A FORWARD -m state --state ESTABLISHED,RELATED -j ACCEPT 2>/dev/null || true'') \<and>
    (''rule_count'', JNum (int (length (a_rules s)))) \<in> set (acl_get_status s' [])"
  using assms by (auto simp: acl_toggle_switch_def acl_ex_command_def acl_get_status_def Let_def split: if_splits)

theorem acl_toggle_forgets_rules_witness:
  "\<exists>s'. acl_toggle_switch quiet_shell True (demo_acl\<lparr>a_rules := [''x'']\<rparr>) [] =
     (0, s', [''iptables -w -P FORWARD DROP'',
       ''iptables -w -A FORWARD -m state --state ESTABLISHED,RELATED -j ACCEPT 2>/dev/null || true'']) \<and> a_rules s' = [''x'']"
proof -
  have t: "\<exists>s'. acl_toggle_switch quiet_shell True (demo_acl\<lparr>a_rules := [''x'']\<rparr>) [] =
     (0, s', [''iptables -w -P FORWARD DROP'',
       ''iptables -w -A FORWARD -m state --state ESTABLISHED,RELATED -j ACCEPT 2>/dev/null || true''])"
    by (simp add: acl_toggle_switch_def acl_ex_command_def quiet_shell_def demo_acl_def acl_init_state_def)
  then show ?thesis using acl_toggle_forgets_rules by fastforce
qed

end
