(* ===== verification/Multicast.thy ===== *)
theory Multicast
  imports NodeTypes
begin

text \<open>
  The multicast heartbeats between G nodes (slal/wtsl_core_splink_mc.c): the table of peers, its
  update on a heartbeat, the removal of peers that have been silent, the receipt of one packet,
  and the main loop as the rounds it makes.  The table is the array \<open>mc_nodes\<close> up to
  \<open>mc_node_count\<close>; addresses are dotted texts, which fit the entries.
\<close>

section \<open>The peer table\<close>

record mc_node =
  mc_ip :: string
  mc_last :: int

fun touch :: "int \<Rightarrow> string \<Rightarrow> mc_node list \<Rightarrow> mc_node list option" where
  "touch now ip [] = None"
| "touch now ip (n # ns) = (if mc_ip n = ip then Some (n\<lparr>mc_last := now\<rparr> # ns)
     else map_option (Cons n) (touch now ip ns))"

definition update_node_list :: "int \<Rightarrow> string \<Rightarrow> mc_node list \<Rightarrow> mc_node list" where
  "update_node_list now ip ns = (case touch now ip ns of
     Some ns' \<Rightarrow> ns'
   | None \<Rightarrow> if length ns < 1024 then ns @ [\<lparr>mc_ip = cbuf 16 ip, mc_last = now\<rparr>] else ns)"

text \<open>The inner loop moves the later entries down; the outer loop looks at position \<open>i\<close> again.\<close>

definition remove_nth :: "nat \<Rightarrow> 'a list \<Rightarrow> 'a list" where
  "remove_nth i xs = take i xs @ drop (Suc i) xs"

definition node_timeout :: int where "node_timeout = 15"

definition heartbeat_interval :: int where "heartbeat_interval = 60"

function clean_loop :: "int \<Rightarrow> nat \<Rightarrow> mc_node list \<Rightarrow> mc_node list" where
  "clean_loop now i ns = (if i < length ns then
     (if now - mc_last (ns ! i) > node_timeout then clean_loop now i (remove_nth i ns)
      else clean_loop now (Suc i) ns)
     else ns)"
  by pat_completeness auto
termination
  by (relation "measure (\<lambda>(now, i, ns). length ns - i)") (auto simp: remove_nth_def)

declare clean_loop.simps [simp del]

definition clean_timeout_mc_nodes :: "int \<Rightarrow> mc_node list \<Rightarrow> mc_node list" where
  "clean_timeout_mc_nodes now ns = clean_loop now 0 ns"

section \<open>Packets\<close>

definition heartbeat_text :: "int \<Rightarrow> string" where
  "heartbeat_text now = cbuf 128 (''HEARTBEAT:'' @ show_int now)"

text \<open>What \<open>select\<close> and \<open>recvfrom\<close> give: an error, nothing within the second, or a packet.\<close>

datatype mc_recv = MC_Error | MC_Timeout | MC_Packet string string

definition is_heartbeat :: "string \<Rightarrow> bool" where
  "is_heartbeat buffer \<longleftrightarrow> strstr_pre ''HEARTBEAT:'' buffer = Some []"

definition recv_heartbeats :: "int \<Rightarrow> mc_recv \<Rightarrow> mc_node list \<Rightarrow> mc_node list" where
  "recv_heartbeats now ev ns = (case ev of
     MC_Packet ip buffer \<Rightarrow> if is_heartbeat (cbuf 128 buffer) then update_node_list now ip ns else ns
   | _ \<Rightarrow> ns)"

section \<open>The loop\<close>

record mc_state =
  ms_last_send :: int
  ms_nodes :: "mc_node list"
  ms_sent :: "string list"

text \<open>One round at time \<open>now\<close>, receiving at time \<open>later\<close> what \<open>ev\<close> says.\<close>

definition mc_round :: "int \<Rightarrow> int \<Rightarrow> mc_recv \<Rightarrow> mc_state \<Rightarrow> mc_state" where
  "mc_round now later ev s =
     (let s1 = (if now - ms_last_send s \<ge> heartbeat_interval
                then s\<lparr>ms_last_send := now, ms_nodes := clean_timeout_mc_nodes now (ms_nodes s),
                       ms_sent := ms_sent s @ [heartbeat_text now]\<rparr>
                else s)
      in s1\<lparr>ms_nodes := recv_heartbeats later ev (ms_nodes s1)\<rparr>)"

fun mc_service :: "(int \<times> int \<times> mc_recv) list \<Rightarrow> mc_state \<Rightarrow> mc_state" where
  "mc_service [] s = s"
| "mc_service ((now, later, ev) # r) s = mc_service r (mc_round now later ev s)"

section \<open>Lemmas\<close>

definition alive :: "int \<Rightarrow> mc_node \<Rightarrow> bool" where
  "alive now n \<longleftrightarrow> now - mc_last n \<le> node_timeout"

lemma clean_loop_filter: "i \<le> length ns \<Longrightarrow> clean_loop now i ns = take i ns @ filter (alive now) (drop i ns)"
proof (induction now i ns rule: clean_loop.induct)
  case (1 now i ns)
  show ?case
  proof (cases "i < length ns")
    case True
    then have d: "drop i ns = ns ! i # drop (Suc i) ns" by (simp add: Cons_nth_drop_Suc)
    show ?thesis
    proof (cases "now - mc_last (ns ! i) > node_timeout")
      case to: True
      from True have len: "i \<le> length (remove_nth i ns)" by (simp add: remove_nth_def)
      have "take i (remove_nth i ns) = take i ns" "drop i (remove_nth i ns) = drop (Suc i) ns"
        using True by (simp_all add: remove_nth_def)
      with "1.IH"(1) [OF True to len] True to d show ?thesis
        by (simp add: clean_loop.simps [of now i ns] alive_def)
    next
      case False
      with "1.IH"(2) [OF True False] True d show ?thesis
        by (simp add: clean_loop.simps [of now i ns] alive_def take_Suc_conv_app_nth)
    qed
  next
    case False
    with "1.prems" show ?thesis by (simp add: clean_loop.simps [of now "length ns" ns])
  qed
qed

lemma clean_filter: "clean_timeout_mc_nodes now ns = filter (alive now) ns"
  by (simp add: clean_timeout_mc_nodes_def clean_loop_filter)

lemma touch_None: "touch now ip ns = None \<longleftrightarrow> ip \<notin> mc_ip ` set ns"
  by (induction ns) auto

lemma touch_Some:
  "touch now ip ns = Some ns' \<Longrightarrow> map mc_ip ns' = map mc_ip ns \<and> (\<exists>n \<in> set ns'. mc_ip n = ip \<and> mc_last n = now)"
  by (induction ns arbitrary: ns') (auto split: if_splits)

text \<open>At most 1024 peers, each address once, each fitting its entry.\<close>

definition table_ok :: "mc_node list \<Rightarrow> bool" where
  "table_ok ns \<longleftrightarrow> length ns \<le> 1024 \<and> distinct (map mc_ip ns) \<and> (\<forall>n \<in> set ns. length (mc_ip n) < 16)"

lemma update_ok:
  assumes "table_ok ns" "length ip < 16"
  shows "table_ok (update_node_list now ip ns) \<and> (length ns < 1024 \<or> ip \<in> mc_ip ` set ns \<longrightarrow>
    (\<exists>n \<in> set (update_node_list now ip ns). mc_ip n = ip \<and> mc_last n = now))"
proof (cases "touch now ip ns")
  case None
  then have new: "ip \<notin> mc_ip ` set ns" by (simp add: touch_None)
  have fits: "cbuf 16 ip = ip" using assms(2) by simp
  show ?thesis
    using assms(1) new fits by (auto simp: update_node_list_def table_ok_def None assms(2))
next
  case (Some ns')
  from touch_Some [OF this] have m: "map mc_ip ns' = map mc_ip ns"
    and n: "\<exists>n \<in> set ns'. mc_ip n = ip \<and> mc_last n = now" by auto
  from m have "length ns' = length ns" "mc_ip ` set ns' = mc_ip ` set ns"
    by (metis length_map, metis set_map)
  moreover have "\<forall>n \<in> set ns'. length (mc_ip n) < 16"
    using assms(1) \<open>mc_ip ` set ns' = mc_ip ` set ns\<close> by (auto simp: table_ok_def) (metis imageE imageI)
  ultimately show ?thesis using assms(1) m n Some by (simp add: update_node_list_def table_ok_def)
qed

lemma filter_ok: "table_ok ns \<Longrightarrow> table_ok (filter P ns)"
  by (auto simp: table_ok_def distinct_map_filter intro: order_trans [OF length_filter_le])

lemma recv_ok:
  "table_ok ns \<Longrightarrow> (\<And>ip b. ev = MC_Packet ip b \<Longrightarrow> length ip < 16) \<Longrightarrow> table_ok (recv_heartbeats now ev ns)"
  using update_ok by (auto simp: recv_heartbeats_def split: mc_recv.splits)

section \<open>Properties\<close>

text \<open>Through any sequence of rounds the peer table stays within its array and holds every address
  once (senders' dotted addresses have at most 15 characters).\<close>

theorem mc_table_invariant:
  assumes "table_ok (ms_nodes s)" "\<And>now later ip b. (now, later, MC_Packet ip b) \<in> set evs \<Longrightarrow> length ip < 16"
  shows "table_ok (ms_nodes (mc_service evs s))"
  using assms
proof (induction evs arbitrary: s)
  case (Cons e evs)
  obtain now later ev where e: "e = (now, later, ev)" by (cases e)
  have "table_ok (ms_nodes (mc_round now later ev s))"
    using Cons.prems e by (auto simp: mc_round_def Let_def clean_filter intro!: recv_ok filter_ok)
  with Cons.IH [of "mc_round now later ev s"] Cons.prems(2) e show ?case by auto
qed simp

definition demo_mc :: mc_state where
  "demo_mc = \<lparr>ms_last_send = 0, ms_nodes = [\<lparr>mc_ip = ''10.0.0.2'', mc_last = 30\<rparr>], ms_sent = []\<rparr>"

theorem mc_table_invariant_witness:
  "table_ok (ms_nodes (mc_service [(5, 6, MC_Packet ''10.0.0.9'' ''HEARTBEAT:5''), (7, 7, MC_Timeout)] demo_mc))"
  by (rule mc_table_invariant) (auto simp: demo_mc_def table_ok_def)

text \<open>The removal loop, which shifts the array and looks at the position again, keeps exactly the
  peers heard within the timeout, in order.\<close>

theorem clean_keeps_alive:
  "clean_timeout_mc_nodes now ns = filter (\<lambda>n. now - mc_last n \<le> 15) ns"
  by (simp add: clean_filter alive_def node_timeout_def [symmetric] cong: filter_cong)

text \<open>Peers send every 60 seconds but count as silent after 15: a round that sends its own heartbeat
  drops every peer not heard in the last 15 seconds, so a peer that is alive and punctual (its
  last heartbeat came between 16 and 60 seconds ago) is dropped.\<close>

theorem punctual_peer_dropped:
  assumes "n \<in> set (ms_nodes s)" "15 < now - mc_last n" "now - mc_last n \<le> heartbeat_interval"
    and "heartbeat_interval \<le> now - ms_last_send s" "distinct (map mc_ip (ms_nodes s))"
  shows "mc_ip n \<notin> mc_ip ` set (ms_nodes (mc_round now later MC_Timeout s))"
proof
  assume "mc_ip n \<in> mc_ip ` set (ms_nodes (mc_round now later MC_Timeout s))"
  with assms(4) obtain m where "m \<in> set (ms_nodes s)" "alive now m" "mc_ip m = mc_ip n"
    by (auto simp: mc_round_def recv_heartbeats_def clean_filter)
  with assms(1,2,5) show False
    by (metis (no_types, lifting) alive_def distinct_map inj_on_def leD node_timeout_def)
qed

theorem punctual_peer_dropped_witness:
  "''10.0.0.2'' \<notin> mc_ip ` set (ms_nodes (mc_round 60 61 MC_Timeout demo_mc))"
  using punctual_peer_dropped [of "\<lparr>mc_ip = ''10.0.0.2'', mc_last = 30\<rparr>" demo_mc 60 61]
  by (simp add: demo_mc_def heartbeat_interval_def)

end
