(* ===== verification/HttpApi.thy ===== *)
theory HttpApi
  imports NodeManager
begin

text \<open>
  The REST interface (protocol/http/wtsl_core_http_restful_api.c): the split of the path into its
  parts, the choice of the operation, the call through the permission wrapper on the node the
  path names, the user requests, and the reply (\<open>data_response_to_json\<close>).  The parts are the
  elements of \<open>g_url_list\<close>; \<open>list_get\<close> beyond the end is NULL, whose \<open>str\<close> is a fault.  The
  functions behind the interface table are a parameter; a GET function writes its text into the
  static buffer \<open>recv_bss\<close>, which is part of the state it works on.
\<close>

section \<open>State\<close>

record ('d, 'w) http_env =
  he_user :: "'d user_env"
  he_unset :: "int \<times> int"
  he_mac :: string
  he_lmax :: int
  he_nodes :: "'w \<Rightarrow> nlist option \<times> nheap"
  he_table :: "nat \<Rightarrow> string \<Rightarrow> (string \<times> 'w) callback option"

text \<open>\<open>g_user_ctx\<close> of this file (a copy), the users' state, \<open>recv_bss\<close> and the rest of the program.\<close>

record ('d, 'w) http_st =
  hs_ctx :: user_ctx
  hs_user :: "'d user_st"
  hs_buf :: string
  hs_world :: 'w

text \<open>\<open>((UrlData * )list_get(g_url_list, i))->str\<close>.\<close>

definition url_part :: "string list \<Rightarrow> nat \<Rightarrow> string option" where
  "url_part ts i = (if i < length ts then Some (ts ! i) else None)"

definition split_url :: "string \<Rightarrow> string list" where
  "split_url url = strtok_all (CHR ''/'') url"

text \<open>The C text in a block of bytes.\<close>

definition c_text :: "string \<Rightarrow> string" where
  "c_text s = takeWhile (\<lambda>c. c \<noteq> CHR 0x00) s"

definition find_node :: "('d, 'w) http_env \<Rightarrow> int \<Rightarrow> ('d, 'w) http_st \<Rightarrow> nat option option" where
  "find_node e i s = (let (l, h) = he_nodes e (hs_world s) in find_wtsl_node_by_id l i h)"

text \<open>\<open>CALL_INTERFACE(p_node, name, data, size, &g_user_ctx)\<close>: it reads \<open>p_node->interface->name\<close>.\<close>

definition call_interface ::
    "('d, 'w) http_env \<Rightarrow> nat option \<Rightarrow> string \<Rightarrow> string \<Rightarrow> ('d, 'w) http_st \<Rightarrow> (string option \<times> ('d, 'w) http_st) option" where
  "call_interface e p name data s = do {
     a \<leftarrow> p;
     let h = snd (he_nodes e (hs_world s));
     n \<leftarrow> map_option val (ncells h a);
     t \<leftarrow> nd_interface n;
     if t \<notin> ifaces h then None
     else do {
       i \<leftarrow> func_index name;
       (r, (b, w)) \<leftarrow> interface_wrapper (he_mac e) (Some n) (he_table e t name) i data (Some (hs_ctx s)) (hs_buf s, hs_world s);
       Some (r, s\<lparr>hs_buf := b, hs_world := w\<rparr>) } }"

section \<open>GET\<close>

text \<open>The branches on the operation's name: the text, the bytes \<open>strncmp\<close> compares, the operation and
  whether the reply is \<open>recv_bss\<close> rather than the pointer the operation returned.\<close>

definition get_routes :: "(string \<times> nat \<times> string \<times> bool) list" where
  "get_routes = [(''basicinfo'', 9, ''get_node_basicinfo'', True), (''conninfo'', 8, ''get_node_conninfo'', True),
     (''advinfo'', 7, ''get_node_advinfo'', True), (''scan'', 4, ''start_scan'', True),
     (''resourcesinfo'', 13, ''get_hw_resources_info'', False), (''show_bss_info'', 14, ''show_bss_info'', False),
     (''sle_scan'', 8, ''do_sle_scan'', False), (''sle_show_bss'', 12, ''get_sle_scan_result'', False),
     (''sle_conninfo'', 12, ''get_sle_conninfo'', False), (''sle_basicinfo'', 13, ''get_sle_basicinfo'', False),
     (''sle_trans_config'', 16, ''get_sle_trans_config'', False)]"

text \<open>The operation on the buffer, and what the branch returns.\<close>

definition get_call ::
    "('d, 'w) http_env \<Rightarrow> nat option \<Rightarrow> string \<Rightarrow> bool \<Rightarrow> ('d, 'w) http_st \<Rightarrow> (string option \<times> ('d, 'w) http_st) option" where
  "get_call e p name buf s = do {
     (r, s1) \<leftarrow> call_interface e p name (hs_buf s) s;
     Some (if r = None then None else if buf then Some (hs_buf s1) else r, s1) }"

text \<open>The rule tables' sub-branches: \<open>status\<close> and \<open>rules\<close>, and anything else falls out of the chain.\<close>

definition get_rules ::
    "('d, 'w) http_env \<Rightarrow> nat option \<Rightarrow> string \<Rightarrow> string \<Rightarrow> string \<Rightarrow> ('d, 'w) http_st \<Rightarrow> (string option \<times> ('d, 'w) http_st) option" where
  "get_rules e p way status rules s =
     (if strneq 6 way ''status'' then get_call e p status True s
      else if strneq 5 way ''rules'' then get_call e p rules True s
      else Some (Some (hs_buf s), s))"

definition wtsl_core_get_nodes_functions ::
    "('d, 'w) http_env \<Rightarrow> string list \<Rightarrow> ('d, 'w) http_st \<Rightarrow> (string option \<times> ('d, 'w) http_st) option" where
  "wtsl_core_get_nodes_functions e ts s = do {
     api \<leftarrow> url_part ts 2;
     if \<not> strneq 5 api ''nodes'' then Some (None, s)
     else if length ts \<le> 3 then do {
       p \<leftarrow> find_node e 0 s;
       get_call e p ''get_all_nodes_info'' False s }
     else if length ts = 5 then do {
       id_str \<leftarrow> url_part ts 3;
       func \<leftarrow> url_part ts 4;
       p \<leftarrow> find_node e (atoi (he_lmax e) id_str) s;
       if p = None then Some (None, s)
       else (case find (\<lambda>(k, n, f, b). strneq n func k) get_routes of
               None \<Rightarrow> Some (None, s)
             | Some (k, n, f, b) \<Rightarrow> get_call e p f b s) }
     else if length ts \<ge> 6 then do {
       id_str \<leftarrow> url_part ts 3;
       func \<leftarrow> url_part ts 4;
       p \<leftarrow> find_node e (atoi (he_lmax e) id_str) s;
       if p = None then Some (None, s)
       else if strneq 3 func ''qos'' then do {
         way \<leftarrow> url_part ts 5; get_rules e p way ''qos_get_status'' ''qos_get_rules'' s }
       else if strneq 3 func ''acl'' then do {
         way \<leftarrow> url_part ts 5; get_rules e p way ''acl_get_status'' ''acl_get_rules'' s }
       else Some (None, s) }
     else Some (Some (hs_buf s), s) }"

definition wtsl_core_get_users_functions :: "('d, 'w) http_st \<Rightarrow> (string option \<times> ('d, 'w) http_st) option" where
  "wtsl_core_get_users_functions s = Some (None, s)"

section \<open>POST\<close>

text \<open>The branches that compare the whole name have no bound, the others the bound of \<open>strncmp\<close>.\<close>

definition post_routes :: "(string \<times> nat option \<times> string) list" where
  "post_routes = [(''basicinfo'', None, ''set_node_basicinfo''), (''advinfo'', None, ''set_node_advinfo''),
     (''connect'', None, ''do_connect''), (''autojoinNetwork'', None, ''do_autojoinNetwork''),
     (''timesync'', None, ''do_time_sync''), (''reboot'', None, ''do_reboot''), (''disconnect'', None, ''do_disconnect''),
     (''restore'', None, ''do_restore''), (''aifh'', None, ''do_aifh''), (''chanswitch'', None, ''do_chswitch''),
     (''secalg'', None, ''get_secalg''), (''adaptivemcs'', None, ''set_adaptivemcs''),
     (''clearschmcs'', None, ''do_clearschmcs''), (''mcsboundinfo'', None, ''get_mcsboundinfo''),
     (''mcsbound'', None, ''set_mcsbound''), (''adaptivemcsinfo'', Some 14, ''get_adaptivemcsinfo''),
     (''traceinfo'', Some 9, ''get_traceinfo''), (''throughput_test'', Some 15, ''do_throughput_test''),
     (''shortrange_test'', Some 15, ''do_shortrange_test''), (''remoterange_test'', Some 16, ''do_remoterange_test''),
     (''lowpow_test'', Some 11, ''do_lowpow_test''), (''lowlatency_test'', Some 15, ''do_lowlatency_test''),
     (''sle_connect'', Some 11, ''do_sle_connect''), (''sle_basicinfo'', Some 13, ''set_sle_basicinfo''),
     (''sle_announce_id'', Some 13, ''set_sle_announce_id''), (''config_vap0_mac'', Some 15, ''config_vap0_mac''),
     (''sle_trans_config'', Some 16, ''set_sle_trans_config'')]"

definition route_matches :: "string \<Rightarrow> string \<times> nat option \<times> string \<Rightarrow> bool" where
  "route_matches func r = (case r of (k, None, f) \<Rightarrow> func = k | (k, Some n, f) \<Rightarrow> strneq n func k)"

text \<open>The groups with a further part: the second part of the branch is tried in order.\<close>

definition post_groups :: "(string \<times> nat \<times> (string \<times> nat \<times> string) list) list" where
  "post_groups = [(''firmware'', 8, [(''upload'', 6, ''do_upload''), (''upgrade'', 7, ''do_upgrade'')]),
     (''qos'', 3, [(''switch'', 6, ''qos_switch''), (''rules'', 5, ''qos_set_rules'')]),
     (''acl'', 3, [(''switch'', 6, ''acl_switch''), (''rules'', 5, ''acl_set_rules'')])]"

text \<open>The code after the chain: paths with six parts are tried for the traffic request.\<close>

definition post_traffic ::
    "('d, 'w) http_env \<Rightarrow> string list \<Rightarrow> string \<Rightarrow> ('d, 'w) http_st \<Rightarrow> (string option \<times> ('d, 'w) http_st) option" where
  "post_traffic e ts args s = (if length ts \<noteq> 6 then Some (None, s) else do {
     id_str \<leftarrow> url_part ts 3;
     func \<leftarrow> url_part ts 5;
     p \<leftarrow> find_node e (atoi (he_lmax e) id_str) s;
     if p = None then Some (None, s)
     else if strneq 7 func ''traffic'' then call_interface e p ''get_node_traffic'' args s
     else Some (None, s) })"

text \<open>\<open>if (g_url_list->size < 5) return NULL\<close> guards the read of part 5 in each group.\<close>

definition wtsl_core_post_nodes_functions ::
    "('d, 'w) http_env \<Rightarrow> string list \<Rightarrow> string \<Rightarrow> ('d, 'w) http_st \<Rightarrow> (string option \<times> ('d, 'w) http_st) option" where
  "wtsl_core_post_nodes_functions e ts args s = (if length ts < 5 then Some (None, s) else do {
     id_str \<leftarrow> url_part ts 3;
     func \<leftarrow> url_part ts 4;
     p \<leftarrow> find_node e (atoi (he_lmax e) id_str) s;
     if p = None then Some (None, s)
     else (case find (route_matches func) post_routes of
         Some (k, n, f) \<Rightarrow> call_interface e p f args s
       | None \<Rightarrow> (case find (\<lambda>(k, n, ways). strneq n func k) post_groups of
           Some (k, n, ways) \<Rightarrow>
             if length ts < 5 then Some (None, s)
             else do {
               way \<leftarrow> url_part ts 5;
               (case find (\<lambda>(w, m, f). strneq m way w) ways of
                  Some (w, m, f) \<Rightarrow> call_interface e p f args s
                | None \<Rightarrow> post_traffic e ts args s) }
         | None \<Rightarrow> post_traffic e ts args s)) })"

text \<open>The copy of the context is taken before the handler runs.\<close>

definition wtsl_core_post_users_functions ::
    "('d, 'w) http_env \<Rightarrow> string \<Rightarrow> string \<Rightarrow> ('d, 'w) http_st \<Rightarrow> (string option \<times> ('d, 'w) http_st) option" where
  "wtsl_core_post_users_functions e url args s =
     (let ptr = drop 7 url;
          (items, itemCount) = wtsl_core_user_get_routeitem;
          s1 = s\<lparr>hs_ctx := us_ctx (hs_user s)\<rparr>
      in case find (\<lambda>(uri, h). ptr = uri) (take itemCount items) of
           None \<Rightarrow> Some (None, s1)
         | Some (uri, h) \<Rightarrow> do {
             (r, u) \<leftarrow> call_route (he_user e) (fst (he_unset e)) (snd (he_unset e)) h (c_text args) (hs_user s1);
             Some (r, s1\<lparr>hs_user := u\<rparr>) })"

section \<open>Requests\<close>

record apiret =
  ar_status :: int
  ar_data :: "string option"

datatype api_name = Api_Nodes | Api_User

fun api_text :: "api_name \<Rightarrow> string" where
  "api_text Api_Nodes = ''nodes''" | "api_text Api_User = ''user''"

definition api_table :: "api_name list" where
  "api_table = [Api_Nodes, Api_User]"

definition api_path :: "api_name \<Rightarrow> string" where
  "api_path a = ''/api/v'' @ show_int 1 @ ''/'' @ api_text a"

definition wtcoreapi_parse_http_get_cmd ::
    "('d, 'w) http_env \<Rightarrow> string \<Rightarrow> ('d, 'w) http_st \<Rightarrow> (apiret \<times> ('d, 'w) http_st) option" where
  "wtcoreapi_parse_http_get_cmd e url s = (let ts = split_url url in
     if length ts < 3 then Some (\<lparr>ar_status = -1, ar_data = None\<rparr>, s)
     else do {
       api \<leftarrow> url_part ts 2;
       (case find (\<lambda>a. strneq (length api) api (api_text a) \<and> strneq (length (api_path a)) url (api_path a)) api_table of
          None \<Rightarrow> Some (\<lparr>ar_status = -1, ar_data = None\<rparr>, s)
        | Some a \<Rightarrow> do {
            (d, s1) \<leftarrow> (case a of Api_Nodes \<Rightarrow> wtsl_core_get_nodes_functions e ts s
                                  | Api_User \<Rightarrow> wtsl_core_get_users_functions s);
            Some (\<lparr>ar_status = (if d \<noteq> None then 0 else -1), ar_data = d\<rparr>, s1) }) })"

definition wtcoreapi_parse_http_post_cmd ::
    "('d, 'w) http_env \<Rightarrow> string \<Rightarrow> string \<Rightarrow> ('d, 'w) http_st \<Rightarrow> (apiret \<times> ('d, 'w) http_st) option" where
  "wtcoreapi_parse_http_post_cmd e url data s =
     (case find (\<lambda>a. strneq (length (api_path a)) (api_path a) url) api_table of
        None \<Rightarrow> Some (\<lparr>ar_status = -1, ar_data = None\<rparr>, s)
      | Some a \<Rightarrow> do {
          (d, s1) \<leftarrow> (case a of Api_Nodes \<Rightarrow> wtsl_core_post_nodes_functions e (split_url url) data s
                                | Api_User \<Rightarrow> wtsl_core_post_users_functions e url data s);
          Some (\<lparr>ar_status = (case d of None \<Rightarrow> -1 | Some t \<Rightarrow> if contains t ''errmsg'' then -1 else 0), ar_data = d\<rparr>, s1) })"

definition data_response_to_json :: "cjson \<Rightarrow> int \<Rightarrow> string option \<Rightarrow> string" where
  "data_response_to_json cj status data =
     (let existing = Option.bind data (cj_parse cj);
          member = (case existing of None \<Rightarrow> [] | Some j \<Rightarrow> [(''data'', j)])
      in cj_print cj (JObj ((''status'', JStr (if status \<noteq> 0 then ''Failed'' else ''success'')) # member)))"

section \<open>Lemmas\<close>

lemma call_interface_gate:
  assumes "call_interface e p name data s = Some (r, s')"
  shows "hs_ctx s' = hs_ctx s \<and> hs_user s' = hs_user s \<and> ((r = None \<and> s' = s) \<or> allowed (hs_ctx s) name)"
proof -
  from assms obtain a n i b w where i: "func_index name = Some i"
    and c: "interface_wrapper (he_mac e) (Some n) a i data (Some (hs_ctx s)) (hs_buf s, hs_world s) = Some (r, (b, w))"
    and s': "s' = s\<lparr>hs_buf := b, hs_world := w\<rparr>"
    by (auto simp: call_interface_def Let_def split: if_splits Option.bind_splits)
  from func_index_entry [OF i] obtain p f where e: "i < 50" "(name, p, f, i) \<in> set node_func_list"
    "pe_required (global_perm_map ! i) = p" by blast
  from wrapper_effect [OF c e(1)] e s' show ?thesis by (auto simp: allowed_def)
qed

lemma get_call_gate:
  assumes "get_call e p name buf s = Some (r, s')"
  shows "hs_ctx s' = hs_ctx s \<and> hs_user s' = hs_user s \<and> ((r = None \<and> s' = s) \<or> allowed (hs_ctx s) name)"
  using assms call_interface_gate [of e p name "hs_buf s" s]
  by (auto simp: get_call_def split: Option.bind_splits if_splits)

text \<open>A path is its parts, each after a slash.\<close>

definition path :: "string list \<Rightarrow> string" where
  "path ts = concat (map (Cons (CHR ''/'')) ts)"

lemma path_simps [simp]: "path [] = []" "path (t # ts) = CHR ''/'' # t @ path ts"
  by (simp_all add: path_def)

lemma split_path:
  "(\<forall>t \<in> set ts. t \<noteq> [] \<and> CHR ''/'' \<notin> set t) \<Longrightarrow> split_url (path ts) = ts"
  unfolding split_url_def
proof (induction ts)
  case Nil
  show ?case by (simp add: strtok_all.simps)
next
  case (Cons t ts)
  then obtain c u where t: "t = c # u" "c \<noteq> CHR ''/''" by (cases t) auto
  have "takeWhile (\<lambda>c. c \<noteq> CHR ''/'') (t @ path ts) = t" "dropWhile (\<lambda>c. c \<noteq> CHR ''/'') (t @ path ts) = path ts"
    using Cons.prems by (cases ts; auto simp: takeWhile_append2 dropWhile_append2 takeWhile_append dropWhile_append)+
  with Cons t show ?case by (simp add: strtok_all.simps [of _ "CHR ''/'' # _"])
qed

lemma show_int_part: "show_int i \<noteq> [] \<and> CHR ''/'' \<notin> set (show_int i)"
  using show_int_chars [of "CHR ''/''" i] by (auto simp: isdigit_def)

lemma get_route_keys:
  "\<forall>(k, n, f, b) \<in> set get_routes. find (\<lambda>(k', n, f, b). strneq n k k') get_routes = Some (k, n, f, b) \<and>
     k \<noteq> [] \<and> CHR ''/'' \<notin> set k"
  by code_simp

lemma post_route_keys:
  "\<forall>(k, n, f) \<in> set post_routes. find (route_matches k) post_routes = Some (k, n, f) \<and> k \<noteq> [] \<and> CHR ''/'' \<notin> set k"
  by code_simp

lemma group_keys:
  "\<forall>k \<in> {''firmware'', ''qos'', ''acl''}. k \<noteq> [] \<and> CHR ''/'' \<notin> set k \<and> find (route_matches k) post_routes = None \<and>
     find (\<lambda>(k', n, ways). strneq n k k') post_groups \<noteq> None"
  by code_simp

lemma api_nodes_path: "api_path Api_Nodes = ''/api/v1/nodes''"
  by code_simp

lemma api_user_path: "api_path Api_User = ''/api/v1/user''"
  by code_simp

text \<open>What a request on the node table comes to once the node is looked up.\<close>

lemma get_nodes_path:
  assumes "\<forall>t \<in> set ts. t \<noteq> [] \<and> CHR ''/'' \<notin> set t"
  shows "wtcoreapi_parse_http_get_cmd e (path ([''api'', ''v1'', ''nodes''] @ ts)) s =
    map_option (\<lambda>(d, s1). (\<lparr>ar_status = (if d \<noteq> None then 0 else -1), ar_data = d\<rparr>, s1))
      (wtsl_core_get_nodes_functions e ([''api'', ''v1'', ''nodes''] @ ts) s)"
proof -
  have "split_url (path ([''api'', ''v1'', ''nodes''] @ ts)) = [''api'', ''v1'', ''nodes''] @ ts"
    by (rule split_path) (use assms in auto)
  then show ?thesis
    by (auto simp: wtcoreapi_parse_http_get_cmd_def Let_def url_part_def api_table_def api_nodes_path strneq_def
        split: Option.bind_splits)
qed

lemma post_nodes_path:
  assumes "\<forall>t \<in> set ts. t \<noteq> [] \<and> CHR ''/'' \<notin> set t"
  shows "wtcoreapi_parse_http_post_cmd e (path ([''api'', ''v1'', ''nodes''] @ ts)) data s =
    map_option (\<lambda>(d, s1). (\<lparr>ar_status = (case d of None \<Rightarrow> -1 | Some t \<Rightarrow> if contains t ''errmsg'' then -1 else 0), ar_data = d\<rparr>, s1))
      (wtsl_core_post_nodes_functions e ([''api'', ''v1'', ''nodes''] @ ts) data s)"
proof -
  have "split_url (path ([''api'', ''v1'', ''nodes''] @ ts)) = [''api'', ''v1'', ''nodes''] @ ts"
    by (rule split_path) (use assms in auto)
  then show ?thesis
    by (auto simp: wtcoreapi_parse_http_post_cmd_def api_table_def api_nodes_path strneq_def split: Option.bind_splits)
qed

text \<open>What the two levels a login gives allow.\<close>

lemma none_allowed: "uc_permission c = PERMISSION_NONE \<Longrightarrow> \<not> allowed c name"
  by (auto simp: allowed_def node_func_list_def less_eq_permission_level_def)

definition read_operations :: "string list" where
  "read_operations = [''get_all_nodes_info'', ''get_node_basicinfo'', ''get_node_conninfo'', ''get_hw_resources_info'',
     ''do_autojoinNetwork'', ''show_bss_info'', ''get_node_advinfo'', ''qos_get_status'', ''qos_get_rules'',
     ''acl_get_status'', ''acl_get_rules'']"

lemma read_names: "\<forall>(n, p, f, i) \<in> set node_func_list. p \<le> PERMISSION_READ \<longrightarrow> n \<in> set read_operations"
  by (simp add: node_func_list_def less_eq_permission_level_def read_operations_def)

lemma read_allowed: "uc_permission c = PERMISSION_READ \<Longrightarrow> allowed c name \<Longrightarrow> name \<in> set read_operations"
  using read_names by (auto simp: allowed_def)

lemma get_rules_gate:
  assumes "get_rules e p way st ru s = Some (r, s')"
  shows "(s' = s \<and> r \<in> {None, Some (hs_buf s)}) \<or> (\<exists>name. allowed (hs_ctx s) name)"
  using assms get_call_gate [of e p st True s r s'] get_call_gate [of e p ru True s r s']
  by (auto simp: get_rules_def split: if_splits)

lemma get_nodes_gate:
  assumes "wtsl_core_get_nodes_functions e ts s = Some (r, s')"
  shows "(s' = s \<and> r \<in> {None, Some (hs_buf s)}) \<or> (\<exists>name. allowed (hs_ctx s) name)"
  using assms unfolding wtsl_core_get_nodes_functions_def
  by (auto split: Option.bind_splits if_splits option.splits dest!: get_call_gate get_rules_gate)

text \<open>A POST on the nodes fails, or is the call of one operation: one of the chain of names, one of a
  group, or the traffic request.\<close>

definition group_operations :: "string set" where
  "group_operations = {''get_node_traffic'', ''do_upload'', ''do_upgrade'', ''qos_switch'', ''qos_set_rules'', ''acl_switch'', ''acl_set_rules''}"

lemma post_traffic_cases:
  "post_traffic e ts args s = Some (r, s') \<Longrightarrow> (r = None \<and> s' = s) \<or>
     (\<exists>p. call_interface e p ''get_node_traffic'' args s = Some (r, s'))"
  by (auto simp: post_traffic_def split: if_splits Option.bind_splits)

lemma post_group_ways:
  "find (\<lambda>(k, n, ways). strneq n func k) post_groups = Some (k, n, ways) \<Longrightarrow>
   find (\<lambda>(w, m, f). strneq m way w) ways = Some (w, m, f) \<Longrightarrow> f \<in> group_operations"
  by (auto simp: post_groups_def group_operations_def split: if_splits)

lemma post_nodes_cases:
  assumes "wtsl_core_post_nodes_functions e ts args s = Some (r, s')"
  shows "(r = None \<and> s' = s) \<or> (\<exists>p name. call_interface e p name args s = Some (r, s') \<and>
    (name \<in> group_operations \<or> (5 \<le> length ts \<and> (\<exists>k n. find (route_matches (ts ! 4)) post_routes = Some (k, n, name)))))"
proof -
  have traffic: "''get_node_traffic'' \<in> group_operations" by (simp add: group_operations_def)
  show ?thesis
  proof (cases "length ts < 5")
    case True
    with assms show ?thesis by (simp add: wtsl_core_post_nodes_functions_def)
  next
    case False
    with assms obtain p where p: "find_node e (atoi (he_lmax e) (ts ! 3)) s = Some p"
      by (auto simp: wtsl_core_post_nodes_functions_def url_part_def split: Option.bind_splits)
    show ?thesis
    proof (cases "find (route_matches (ts ! 4)) post_routes")
      case (Some r)
      with False assms p show ?thesis
        by (cases r) (auto simp: wtsl_core_post_nodes_functions_def url_part_def split: if_splits)
    next
      case None
      show ?thesis
      proof (cases "find (\<lambda>(k, n, ways). strneq n (ts ! 4) k) post_groups")
        case None
        with False assms p traffic \<open>find (route_matches (ts ! 4)) post_routes = None\<close> show ?thesis
          by (auto simp: wtsl_core_post_nodes_functions_def url_part_def split: if_splits dest!: post_traffic_cases)
      next
        case g: (Some g)
        obtain k n ways where g': "g = (k, n, ways)" by (cases g)
        show ?thesis
        proof (cases "find (\<lambda>(w, m, f). strneq m (ts ! 5) w) ways")
          case None
          with False assms p traffic g g' \<open>find (route_matches (ts ! 4)) post_routes = None\<close> show ?thesis
            by (auto simp: wtsl_core_post_nodes_functions_def url_part_def split: if_splits dest!: post_traffic_cases)
        next
          case (Some w)
          obtain w' m f where w: "w = (w', m, f)" by (cases w)
          have "f \<in> group_operations" using post_group_ways g g' Some w by metis
          with False assms p g g' Some w \<open>find (route_matches (ts ! 4)) post_routes = None\<close> show ?thesis
            by (auto simp: wtsl_core_post_nodes_functions_def url_part_def split: if_splits)
        qed
      qed
    qed
  qed
qed

text \<open>A request on the users copies the context first; the handler cannot reach the copy.\<close>

lemma post_users_ctx:
  "wtsl_core_post_users_functions e url data s = Some (r, s') \<Longrightarrow> hs_ctx s' = us_ctx (hs_user s)"
  by (auto simp: wtsl_core_post_users_functions_def Let_def split_beta split: option.splits Option.bind_splits)

lemma post_login_path:
  "wtcoreapi_parse_http_post_cmd e ''/api/v1/user/login'' data s =
    map_option (\<lambda>(d, s1). (\<lparr>ar_status = (case d of None \<Rightarrow> -1 | Some t \<Rightarrow> if contains t ''errmsg'' then -1 else 0), ar_data = d\<rparr>, s1))
      (wtsl_core_post_users_functions e ''/api/v1/user/login'' data s)"
  by (auto simp: wtcoreapi_parse_http_post_cmd_def api_table_def api_nodes_path api_user_path strneq_def split: Option.bind_splits)

text \<open>A program with the two demonstration nodes, whose operations count their calls.\<close>

definition demo_http_env :: "(tables, nat) http_env" where
  "demo_http_env = \<lparr>he_user = demo_user_env (two_fields ''username'' ''admin'' ''password'' ''123456''), he_unset = (0, 0),
     he_mac = ''aa:01'', he_lmax = 2 ^ 63 - 1, he_nodes = (\<lambda>w. (Some demo_nlist, demo_nheap)),
     he_table = (\<lambda>t name. Some (\<lambda>n d c (b, w). Some (Some ''ok'', (''{}'', w + 1))))\<rparr>"

definition demo_http_st :: "permission_level \<Rightarrow> (tables, nat) http_st" where
  "demo_http_st p = \<lparr>hs_ctx = demo_ctx\<lparr>uc_permission := p\<rparr>, hs_user = demo_st, hs_buf = [], hs_world = 0\<rparr>"

lemma demo_find: "find_node demo_http_env 0 s = Some (Some 0)"
  by (simp add: find_node_def demo_http_env_def find_wtsl_node_by_id_def search_loop.simps demo_nlist_def
      demo_nheap_def demo_node_def)

lemma demo_lmax: "he_lmax demo_http_env = 2 ^ 63 - 1"
  by (simp add: demo_http_env_def)

lemma demo_call:
  assumes "func_index name = Some i" "pe_required (global_perm_map ! i) \<le> uc_permission (hs_ctx s)"
  shows "call_interface demo_http_env (Some 0) name args s =
    Some (Some ''ok'', s\<lparr>hs_buf := ''{}'', hs_world := hs_world s + 1\<rparr>)"
  using assms func_index_entry [OF assms(1)]
  by (simp add: call_interface_def demo_http_env_def demo_nheap_def demo_node_def interface_wrapper_def
      check_permission_le check_is_remote_node_def nd_mac_def demo_mac)

lemma demo_denied:
  assumes "func_index name = Some i" "\<not> pe_required (global_perm_map ! i) \<le> uc_permission (hs_ctx s)"
  shows "call_interface demo_http_env (Some 0) name args s = Some (None, s)"
  using assms func_index_entry [OF assms(1)]
  by (simp add: call_interface_def demo_http_env_def demo_nheap_def demo_node_def interface_wrapper_def
      check_permission_le check_is_remote_node_def nd_mac_def demo_mac)

lemma demo_zero: "atoi (he_lmax demo_http_env) ''0'' = 0"
  by (simp add: demo_lmax) code_simp

lemma demo_login: "\<exists>r u. wtsl_core_user_login (he_user demo_http_env) [] demo_st = Some (r, u) \<and>
    uc_permission (us_ctx u) = PERMISSION_ADMIN"
proof -
  let ?e = "demo_user_env (two_fields ''username'' ''admin'' ''password'' ''123456'')"
  obtain root where "cj_parse (ue_cj ?e) [] = Some root" "item_text (ue_cj ?e) root ''username'' (ue_user ?e) = Some (Some ''admin'')"
    "item_text (ue_cj ?e) root ''password'' (ue_pwd ?e) = Some (Some ''123456'')"
    using request_items [OF demo_request [OF demo_keys(1)]] by blast
  from login_step [OF demo_env_sound this, of demo_st] demo_users(2) demo_token [of "''admin''"]
  have "\<exists>r d. wtsl_core_user_login ?e [] demo_st =
      Some (r, demo_st\<lparr>us_ctx := logged_in (new_row 1 ''admin'' ''123456'' 0) ''01'' (us_ctx demo_st), us_db := d\<rparr>)"
    by (auto simp: demo_st_def new_row_def)
  then show ?thesis by (auto simp: demo_http_env_def logged_in_admin new_row_def)
qed

section \<open>Properties\<close>

text \<open>Every GET operation is reached by its own path on every node number: with the node in the
  registry the reply is that of the operation of the table, called on that node through the
  permission wrapper; without it the request fails and changes nothing.\<close>

theorem get_operation_reached:
  assumes "(k, n, f, b) \<in> set get_routes" "0 \<le> i" "i < 2 ^ 31" "2 ^ 31 - 1 \<le> he_lmax e"
    and "find_node e i s = Some p"
  shows "wtcoreapi_parse_http_get_cmd e (path [''api'', ''v1'', ''nodes'', show_int i, k]) s =
    (if p = None then Some (\<lparr>ar_status = -1, ar_data = None\<rparr>, s)
     else map_option (\<lambda>(d, s1). (\<lparr>ar_status = (if d \<noteq> None then 0 else -1), ar_data = d\<rparr>, s1)) (get_call e p f b s))"
proof -
  from bspec [OF get_route_keys assms(1)] have k: "find (\<lambda>(k', n, f, b). strneq n k k') get_routes = Some (k, n, f, b)"
    "k \<noteq> []" "CHR ''/'' \<notin> set k" by auto
  have "atoi (he_lmax e) (show_int i) = i" using assms by (intro atoi_show_int) auto
  then show ?thesis
    using get_nodes_path [of "[show_int i, k]" e s] show_int_part [of i] k assms(5)
    by (auto simp: wtsl_core_get_nodes_functions_def url_part_def)
qed

theorem get_operation_reached_witness:
  "wtcoreapi_parse_http_get_cmd demo_http_env (path [''api'', ''v1'', ''nodes'', show_int 0, ''basicinfo'']) (demo_http_st PERMISSION_READ) =
    Some (\<lparr>ar_status = 0, ar_data = Some ''{}''\<rparr>, (demo_http_st PERMISSION_READ)\<lparr>hs_buf := ''{}'', hs_world := 1\<rparr>)"
proof -
  have "func_index ''get_node_basicinfo'' = Some 1" by code_simp
  moreover have "pe_required (global_perm_map ! 1) \<le> PERMISSION_READ" by code_simp
  ultimately show ?thesis
    using get_operation_reached [of "''basicinfo''" 9 "''get_node_basicinfo''" True 0 demo_http_env, OF _ _ _ _ demo_find,
        where s = "demo_http_st PERMISSION_READ"]
    by (simp add: get_routes_def demo_lmax get_call_def demo_call demo_http_st_def)
qed

text \<open>Every POST operation of the chain of names is reached by its own path, \<open>adaptivemcsinfo\<close> and
  \<open>mcsboundinfo\<close> included, whose names extend other operations' names.\<close>

theorem post_operation_reached:
  assumes "(k, n, f) \<in> set post_routes" "0 \<le> i" "i < 2 ^ 31" "2 ^ 31 - 1 \<le> he_lmax e"
    and "find_node e i s = Some (Some a)"
  shows "wtcoreapi_parse_http_post_cmd e (path [''api'', ''v1'', ''nodes'', show_int i, k]) data s =
    map_option (\<lambda>(d, s1). (\<lparr>ar_status = (case d of None \<Rightarrow> -1 | Some t \<Rightarrow> if contains t ''errmsg'' then -1 else 0), ar_data = d\<rparr>, s1))
      (call_interface e (Some a) f data s)"
proof -
  from bspec [OF post_route_keys assms(1)] have k: "find (route_matches k) post_routes = Some (k, n, f)"
    "k \<noteq> []" "CHR ''/'' \<notin> set k" by auto
  have "atoi (he_lmax e) (show_int i) = i" using assms by (intro atoi_show_int) auto
  then show ?thesis
    using post_nodes_path [of "[show_int i, k]" e data s] show_int_part [of i] k assms(5)
    by (auto simp: wtsl_core_post_nodes_functions_def url_part_def)
qed

theorem post_operation_reached_witness:
  "wtcoreapi_parse_http_post_cmd demo_http_env (path [''api'', ''v1'', ''nodes'', show_int 0, ''mcsboundinfo'']) [] (demo_http_st PERMISSION_ADMIN) =
    Some (\<lparr>ar_status = 0, ar_data = Some ''ok''\<rparr>, (demo_http_st PERMISSION_ADMIN)\<lparr>hs_buf := ''{}'', hs_world := 1\<rparr>)"
proof -
  have "func_index ''get_mcsboundinfo'' = Some 25" by code_simp
  moreover have "\<not> contains ''ok'' ''errmsg''" by code_simp
  ultimately show ?thesis
    using post_operation_reached [of "''mcsboundinfo''" None "''get_mcsboundinfo''" 0 demo_http_env, OF _ _ _ _ demo_find,
        where s = "demo_http_st PERMISSION_ADMIN" and data = "[]"]
    by (simp add: post_routes_def demo_lmax demo_call demo_http_st_def admin_top)
qed

text \<open>Without a permission nothing happens: whatever the path, a GET changes no state and replies nothing
  or the text left in the buffer, and a POST on the nodes fails and changes nothing.\<close>

theorem no_permission_no_effect:
  assumes "uc_permission (hs_ctx s) = PERMISSION_NONE"
  shows "(\<forall>url r s'. wtcoreapi_parse_http_get_cmd e url s = Some (r, s') \<longrightarrow> s' = s \<and> ar_data r \<in> {None, Some (hs_buf s)}) \<and>
    (\<forall>ts args r s'. wtsl_core_post_nodes_functions e ts args s = Some (r, s') \<longrightarrow> r = None \<and> s' = s)"
proof (intro conjI allI impI)
  note no = none_allowed [OF assms]
  fix url r s'
  assume "wtcoreapi_parse_http_get_cmd e url s = Some (r, s')"
  then have "s' = s \<and> ar_data r \<in> {None, Some (hs_buf s)}"
    using no by (auto simp: wtcoreapi_parse_http_get_cmd_def Let_def wtsl_core_get_users_functions_def
        split: if_splits Option.bind_splits option.splits api_name.splits dest!: get_nodes_gate)
  then show "s' = s" "ar_data r \<in> {None, Some (hs_buf s)}" by auto
next
  note no = none_allowed [OF assms]
  fix ts args r s'
  assume "wtsl_core_post_nodes_functions e ts args s = Some (r, s')"
  from post_nodes_cases [OF this] have "r = None \<and> s' = s"
    using no call_interface_gate by blast
  then show "r = None" "s' = s" by auto
qed

theorem no_permission_no_effect_witness:
  "wtsl_core_post_nodes_functions demo_http_env [''api'', ''v1'', ''nodes'', ''0'', ''reboot''] [] (demo_http_st PERMISSION_NONE) \<noteq>
     Some (Some ''ok'', (demo_http_st PERMISSION_NONE)\<lparr>hs_world := 1\<rparr>)"
proof -
  have "uc_permission (hs_ctx (demo_http_st PERMISSION_NONE)) = PERMISSION_NONE" by (simp add: demo_http_st_def)
  from conjunct2 [OF no_permission_no_effect [OF this]] show ?thesis by blast
qed

text \<open>The level a login gives everyone outside group 0 is reading: a POST on the nodes by such a user
  that has an effect or a reply is the automatic join, the one operation that changes the
  configuration although the table asks only for reading.\<close>

theorem reader_posts_only_autojoin:
  assumes "uc_permission (hs_ctx s) = PERMISSION_READ" "wtsl_core_post_nodes_functions e ts args s = Some (r, s')"
    and "r \<noteq> None \<or> s' \<noteq> s"
  shows "5 \<le> length ts \<and> ts ! 4 = ''autojoinNetwork'' \<and> (\<exists>p. call_interface e p ''do_autojoinNetwork'' args s = Some (r, s'))"
proof -
  have routes: "\<forall>(k, n, f) \<in> set post_routes. f \<in> set read_operations \<longrightarrow> k = ''autojoinNetwork'' \<and> n = None \<and> f = ''do_autojoinNetwork''"
    by code_simp
  have groups: "\<forall>f \<in> group_operations. f \<notin> set read_operations"
    by (simp add: group_operations_def read_operations_def)
  from post_nodes_cases [OF assms(2)] assms(3) obtain p name where c: "call_interface e p name args s = Some (r, s')"
    and n: "name \<in> group_operations \<or> (5 \<le> length ts \<and> (\<exists>k n. find (route_matches (ts ! 4)) post_routes = Some (k, n, name)))"
    by blast
  from call_interface_gate [OF c] assms(3) read_allowed [OF assms(1)] have "name \<in> set read_operations" by blast
  with n groups obtain k m where l: "5 \<le> length ts" and f: "find (route_matches (ts ! 4)) post_routes = Some (k, m, name)" by blast
  from f have "(k, m, name) \<in> set post_routes" "route_matches (ts ! 4) (k, m, name)"
    by (auto simp: find_Some_iff)
  with routes \<open>name \<in> set read_operations\<close> c l show ?thesis by (auto simp: route_matches_def)
qed

theorem reader_posts_only_autojoin_witness:
  "wtsl_core_post_nodes_functions demo_http_env [''api'', ''v1'', ''nodes'', ''0'', ''autojoinNetwork''] [] (demo_http_st PERMISSION_READ) =
     Some (Some ''ok'', (demo_http_st PERMISSION_READ)\<lparr>hs_buf := ''{}'', hs_world := 1\<rparr>) \<and>
   [''api'', ''v1'', ''nodes'', ''0'', ''autojoinNetwork''] ! 4 = ''autojoinNetwork''"
proof -
  have f: "find (route_matches ''autojoinNetwork'') post_routes = Some (''autojoinNetwork'', None, ''do_autojoinNetwork'')" by code_simp
  have i: "func_index ''do_autojoinNetwork'' = Some 11" by code_simp
  have "pe_required (global_perm_map ! 11) \<le> PERMISSION_READ" by code_simp
  moreover note demo_zero
  ultimately have run: "wtsl_core_post_nodes_functions demo_http_env [''api'', ''v1'', ''nodes'', ''0'', ''autojoinNetwork''] []
      (demo_http_st PERMISSION_READ) = Some (Some ''ok'', (demo_http_st PERMISSION_READ)\<lparr>hs_buf := ''{}'', hs_world := 1\<rparr>)"
    using f i by (simp add: wtsl_core_post_nodes_functions_def url_part_def demo_find demo_call demo_http_st_def)
  have "uc_permission (hs_ctx (demo_http_st PERMISSION_READ)) = PERMISSION_READ" by (simp add: demo_http_st_def)
  from reader_posts_only_autojoin [OF this run] run show ?thesis by simp
qed

text \<open>A path with a node number and nothing after it returns with success whatever the previous request
  left in the buffer, for any context and without looking for the node.\<close>

theorem get_node_leaks_buffer:
  assumes "t \<noteq> []" "CHR ''/'' \<notin> set t"
  shows "wtcoreapi_parse_http_get_cmd e (path [''api'', ''v1'', ''nodes'', t]) s =
    Some (\<lparr>ar_status = 0, ar_data = Some (hs_buf s)\<rparr>, s)"
  using get_nodes_path [of "[t]" e s] assms
  by (simp add: wtsl_core_get_nodes_functions_def url_part_def strneq_def)

theorem get_node_leaks_buffer_witness:
  "wtcoreapi_parse_http_get_cmd demo_http_env (path [''api'', ''v1'', ''nodes'', ''7'']) ((demo_http_st PERMISSION_NONE)\<lparr>hs_buf := ''old''\<rparr>) =
    Some (\<lparr>ar_status = 0, ar_data = Some ''old''\<rparr>, (demo_http_st PERMISSION_NONE)\<lparr>hs_buf := ''old''\<rparr>)"
  using get_node_leaks_buffer [of "''7''" demo_http_env "(demo_http_st PERMISSION_NONE)\<lparr>hs_buf := ''old''\<rparr>"] by simp

text \<open>The groups' guard lets five parts through although the code reads the sixth: a POST to
  \<open>/api/v1/nodes/<id>/qos\<close>, \<open>/acl\<close> or \<open>/firmware\<close> of an existing node dereferences NULL.\<close>

theorem post_group_without_way_faults:
  assumes "k \<in> {''firmware'', ''qos'', ''acl''}" "0 \<le> i" "i < 2 ^ 31" "2 ^ 31 - 1 \<le> he_lmax e"
    and "find_node e i s = Some (Some a)"
  shows "wtcoreapi_parse_http_post_cmd e (path [''api'', ''v1'', ''nodes'', show_int i, k]) data s = None"
proof -
  from assms(1) group_keys have k: "k \<noteq> []" "CHR ''/'' \<notin> set k" "find (route_matches k) post_routes = None"
    "find (\<lambda>(k', n, ways). strneq n k k') post_groups \<noteq> None" by auto
  have "atoi (he_lmax e) (show_int i) = i" using assms by (intro atoi_show_int) auto
  then show ?thesis
    using post_nodes_path [of "[show_int i, k]" e data s] show_int_part [of i] k assms(5)
    by (auto simp: wtsl_core_post_nodes_functions_def url_part_def)
qed

theorem post_group_without_way_faults_witness:
  "wtcoreapi_parse_http_post_cmd demo_http_env (path [''api'', ''v1'', ''nodes'', show_int 0, ''qos'']) [] (demo_http_st PERMISSION_NONE) = None"
  by (rule post_group_without_way_faults [OF _ _ _ _ demo_find]) (simp_all add: demo_lmax)

text \<open>C25. The copy of the context is taken before the login runs: after the first login, whatever its
  outcome, every POST on the nodes still fails and changes nothing.\<close>

theorem first_login_without_effect:
  assumes "uc_permission (us_ctx (hs_user s)) = PERMISSION_NONE"
    and "wtcoreapi_parse_http_post_cmd e ''/api/v1/user/login'' data s = Some (r, s1)"
    and "wtsl_core_post_nodes_functions e ts args s1 = Some (q, s2)"
  shows "q = None \<and> s2 = s1"
proof -
  have "hs_ctx s1 = us_ctx (hs_user s)"
    using assms(2) unfolding post_login_path by (auto dest: post_users_ctx)
  with assms(1) have "uc_permission (hs_ctx s1) = PERMISSION_NONE" by simp
  from post_nodes_cases [OF assms(3)] none_allowed [OF this] call_interface_gate show ?thesis by blast
qed

theorem first_login_without_effect_witness:
  "\<exists>r s1. wtcoreapi_parse_http_post_cmd demo_http_env ''/api/v1/user/login'' [] (demo_http_st PERMISSION_NONE) = Some (r, s1) \<and>
     uc_permission (us_ctx (hs_user s1)) = PERMISSION_ADMIN \<and>
     wtsl_core_post_nodes_functions demo_http_env [''api'', ''v1'', ''nodes'', ''0'', ''reboot''] [] s1 = Some (None, s1)"
proof -
  obtain r u where l: "wtsl_core_user_login (he_user demo_http_env) [] demo_st = Some (r, u)"
    and u: "uc_permission (us_ctx u) = PERMISSION_ADMIN"
    using demo_login by blast
  have post: "\<exists>r. wtcoreapi_parse_http_post_cmd demo_http_env ''/api/v1/user/login'' [] (demo_http_st PERMISSION_NONE) =
      Some (r, (demo_http_st PERMISSION_NONE)\<lparr>hs_user := u\<rparr>)" (is "\<exists>r. ?P r")
    unfolding post_login_path using l
    by (simp add: wtsl_core_post_users_functions_def wtsl_core_user_get_routeitem_def g_route_table_def c_text_def
        demo_http_st_def demo_st_def demo_ctx_def)
  then obtain r where post: "?P r" ..
  have none: "uc_permission (us_ctx (hs_user (demo_http_st PERMISSION_NONE))) = PERMISSION_NONE"
    by (simp add: demo_http_st_def demo_st_def demo_ctx_def)
  have f: "find (route_matches ''reboot'') post_routes = Some (''reboot'', None, ''do_reboot'')" by code_simp
  have i: "func_index ''do_reboot'' = Some 9" by code_simp
  have "\<not> pe_required (global_perm_map ! 9) \<le> PERMISSION_NONE" by code_simp
  then have run: "\<exists>q s2. wtsl_core_post_nodes_functions demo_http_env [''api'', ''v1'', ''nodes'', ''0'', ''reboot''] []
      ((demo_http_st PERMISSION_NONE)\<lparr>hs_user := u\<rparr>) = Some (q, s2)" (is "\<exists>q s2. ?Q q s2")
    using f i demo_zero by (simp add: wtsl_core_post_nodes_functions_def url_part_def demo_find demo_denied demo_http_st_def)
  then obtain q s2 where run: "?Q q s2" by blast
  from first_login_without_effect [OF none post run] run post u show ?thesis by auto
qed

end
