(* ===== verification/HttpMain.thy ===== *)
theory HttpMain
  imports HttpApi CfgManager
begin

text \<open>
  The web server's callback (protocol/http/wtsl_core_httpmain.c).  The server library calls it
  several times for one request: first with the headers, then with the pieces of the body, at
  last with no data; what it keeps between the calls is \<open>req_data\<close>.  Sizes are 64-bit words, the
  buffer is the bytes stored so far and its capacity, and a write outside the capacity or
  through NULL is a fault (\<open>None\<close>).  The library is a parameter: whether it makes a response and
  whether it accepts one.
\<close>

section \<open>Replies\<close>

datatype mhd_result = MHD_NO | MHD_YES

record mhd =
  mh_create :: "string \<Rightarrow> bool"
  mh_queue :: "(int \<times> string) list \<Rightarrow> int \<times> string \<Rightarrow> mhd_result"

definition static_error_response :: string where
  "static_error_response = ''{'' @ [CHR 0x22] @ ''error'' @ [CHR 0x22] @ '':'' @ [CHR 0x22] @ ''Internal error'' @ [CHR 0x22] @ ''}''"

text \<open>A NULL response is not queued.\<close>

definition queue_response :: "mhd \<Rightarrow> int \<Rightarrow> string \<Rightarrow> (int \<times> string) list \<Rightarrow> mhd_result \<times> (int \<times> string) list" where
  "queue_response m code body sent =
     (if mh_create m body then (case mh_queue m sent (code, body) of
         MHD_YES \<Rightarrow> (MHD_YES, sent @ [(code, body)]) | MHD_NO \<Rightarrow> (MHD_NO, sent))
      else (MHD_NO, sent))"

definition handle_options_request :: "mhd \<Rightarrow> (int \<times> string) list \<Rightarrow> mhd_result \<times> (int \<times> string) list" where
  "handle_options_request m sent = queue_response m 200 [] sent"

definition http_response_json_str :: "mhd \<Rightarrow> string \<Rightarrow> (int \<times> string) list \<Rightarrow> mhd_result \<times> (int \<times> string) list" where
  "http_response_json_str m json sent = queue_response m 200 json sent"

section \<open>The data of a request\<close>

record req_data =
  rq_data :: string
  rq_cap :: "64 word"
  rq_expected :: "64 word"
  rq_complete :: bool
  rq_received :: bool

text \<open>The two allocations may fail; \<open>rd->data[0] = 0\<close> needs one byte.\<close>

definition init_request_data :: "int \<Rightarrow> bool \<Rightarrow> bool \<Rightarrow> string option \<Rightarrow> req_data option option" where
  "init_request_data lmax mem_rd mem_data content_length =
     (if \<not> mem_rd then Some None
      else
        let expected = (case content_length of None \<Rightarrow> 0 | Some t \<Rightarrow> word_of_int (atoi lmax t));
            cap = (if expected > 0 then expected + 1 else 1024)
        in if \<not> mem_data then Some None
           else if cap = 0 then None
           else Some (Some \<lparr>rq_data = [], rq_cap = cap, rq_expected = expected, rq_complete = False, rq_received = False\<rparr>))"

text \<open>The bytes are stored after those already there and a NUL after them.\<close>

definition append_bytes :: "string \<Rightarrow> req_data \<Rightarrow> req_data option" where
  "append_bytes up rd = (if length (rq_data rd) + length up < unat (rq_cap rd)
     then Some (rd\<lparr>rq_data := rq_data rd @ up\<rparr>) else None)"

text \<open>After a failed \<open>realloc\<close> the copy goes to NULL.\<close>

definition receive :: "bool \<Rightarrow> string \<Rightarrow> req_data \<Rightarrow> req_data option" where
  "receive mem up rd =
     (let rd1 = rd\<lparr>rq_received := True\<rparr>;
          need = word_of_nat (length (rq_data rd)) + word_of_nat (length up) + 1;
          grow = rq_cap rd < need
      in if grow \<and> \<not> mem then None
         else do {
           rd2 \<leftarrow> append_bytes up (if grow then rd1\<lparr>rq_cap := need\<rparr> else rd1);
           Some (if rq_expected rd2 > 0 \<and> word_of_nat (length (rq_data rd2)) \<ge> rq_expected rd2
                 then rd2\<lparr>rq_complete := True\<rparr> else rd2) })"

section \<open>The callback\<close>

record ('d, 'w) server =
  sv_http :: "('d, 'w) http_st"
  sv_con :: "req_data option"
  sv_sent :: "(int \<times> string) list"

record call =
  ca_url :: string
  ca_method :: string
  ca_auth :: "string option"
  ca_length :: "string option"
  ca_upload :: string
  ca_mem1 :: bool
  ca_mem2 :: bool

definition open_paths :: "string list" where
  "open_paths = [''/user/register'', ''/user/login'', ''/user/change_pwd'']"

definition http_get_cmd ::
    "('d, 'w) http_env \<Rightarrow> mhd \<Rightarrow> string \<Rightarrow> ('d, 'w) server \<Rightarrow> (mhd_result \<times> ('d, 'w) server) option" where
  "http_get_cmd e m url s = do {
     (r, h) \<leftarrow> wtcoreapi_parse_http_get_cmd e url (sv_http s);
     let (res, sent) = http_response_json_str m (data_response_to_json (ue_cj (he_user e)) (ar_status r) (ar_data r)) (sv_sent s);
     Some (res, s\<lparr>sv_http := h, sv_sent := sent\<rparr>) }"

definition wtsl_core_http_deal_post_data ::
    "('d, 'w) http_env \<Rightarrow> mhd \<Rightarrow> string \<Rightarrow> string \<Rightarrow> ('d, 'w) server \<Rightarrow> (mhd_result \<times> ('d, 'w) server) option" where
  "wtsl_core_http_deal_post_data e m url data s = do {
     (r, h) \<leftarrow> wtcoreapi_parse_http_post_cmd e url data (sv_http s);
     let (res, sent) = http_response_json_str m (data_response_to_json (ue_cj (he_user e)) (ar_status r) (ar_data r)) (sv_sent s);
     Some (res, s\<lparr>sv_http := h, sv_sent := sent\<rparr>) }"

text \<open>The result and the number of bytes of the piece left unread; the log reads the path from its eighth byte on.\<close>

definition request_handler ::
    "('d, 'w) http_env \<Rightarrow> mhd \<Rightarrow> call \<Rightarrow> ('d, 'w) server \<Rightarrow> (mhd_result \<times> nat \<times> ('d, 'w) server) option" where
  "request_handler e m c s = (let up = length (ca_upload c) in
     case sv_con s of
       None \<Rightarrow> do {
         rd \<leftarrow> init_request_data (he_lmax e) (ca_mem1 c) (ca_mem2 c) (ca_length c);
         Some (MHD_YES, up, (case rd of
            None \<Rightarrow> s\<lparr>sv_sent := snd (queue_response m 500 static_error_response (sv_sent s))\<rparr>
          | Some r \<Rightarrow> s\<lparr>sv_con := Some r\<rparr>)) }
     | Some rd \<Rightarrow>
         if ca_method c = ''OPTIONS'' then
           (let (res, sent) = handle_options_request m (sv_sent s) in Some (res, up, s\<lparr>sv_sent := sent\<rparr>))
         else if ca_method c = ''GET'' then
           (if ca_auth c = None then Some (MHD_NO, up, s)
            else map_option (\<lambda>(res, s1). (res, up, s1)) (http_get_cmd e m (ca_url c) s))
         else if ca_method c = ''POST'' then
           (if up > 0 then do {
              rd1 \<leftarrow> receive (ca_mem1 c) (ca_upload c) rd;
              Some (MHD_YES, 0, s\<lparr>sv_con := Some rd1\<rparr>) }
            else if rq_complete rd then
              (if length (ca_url c) < 7 then None
               else if ca_auth c = None \<and> drop 7 (ca_url c) \<notin> set open_paths then Some (MHD_NO, up, s)
               else do {
                 (res, s1) \<leftarrow> wtsl_core_http_deal_post_data e m (ca_url c) (rq_data rd) s;
                 Some (MHD_YES, 0, s1) })
            else Some (MHD_YES, up, s))
         else Some (MHD_YES, up, s\<lparr>sv_sent := snd (queue_response m 500 static_error_response (sv_sent s))\<rparr>))"

definition connection_cleanup :: "('d, 'w) server \<Rightarrow> ('d, 'w) server" where
  "connection_cleanup s = (if sv_con s \<noteq> None then s\<lparr>sv_con := None\<rparr> else s)"

section \<open>Start and stop\<close>

text \<open>The port from the configuration file: 8080 when it is not there, the old port when it reads as 0.\<close>

definition wtsl_http_port :: "string \<Rightarrow> string \<Rightarrow> int \<Rightarrow> string option \<Rightarrow> int \<Rightarrow> int" where
  "wtsl_http_port jk jv lmax file old =
     (let (rc, buf) = config_get jk jv ''HTTP_PORT'' (Some ''8080'') 8 file;
          text = (if rc \<noteq> CONFIG_SUCCESS then ''8080'' else (case buf of None \<Rightarrow> ''8080'' | Some t \<Rightarrow> t));
          port = atoi lmax text
      in if port \<noteq> 0 then port else old)"

text \<open>\<open>daemon\<close> is whether the library starts.\<close>

definition wtsl_http_main :: "string \<Rightarrow> string \<Rightarrow> int \<Rightarrow> (int \<Rightarrow> bool) \<Rightarrow> string option \<Rightarrow> int \<Rightarrow> int \<times> int \<times> bool" where
  "wtsl_http_main jk jv lmax daemon file old =
     (let port = wtsl_http_port jk jv lmax file old
      in if daemon port then (0, port, True) else (1, port, False))"

definition wtsl_http_main_stop :: "bool \<Rightarrow> int" where
  "wtsl_http_main_stop running = (if \<not> running then -1 else 0)"

text \<open>The calls for one request, in order.\<close>

fun serve :: "('d, 'w) http_env \<Rightarrow> mhd \<Rightarrow> call list \<Rightarrow> ('d, 'w) server \<Rightarrow> ('d, 'w) server option" where
  "serve e m [] s = Some s"
| "serve e m (c # cs) s = do { (r, n, s1) \<leftarrow> request_handler e m c s; serve e m cs s1 }"

section \<open>Lemmas\<close>

definition rq_ok :: "req_data \<Rightarrow> bool" where
  "rq_ok rd \<longleftrightarrow> length (rq_data rd) < unat (rq_cap rd)"

text \<open>The arithmetic of the capacity check does not wrap for anything that fits in memory.\<close>

lemma unat_small: "a < 2 ^ 64 \<Longrightarrow> unat (word_of_nat a :: 64 word) = a"
  by (simp add: unat_of_nat take_bit_nat_eq_self)

lemma need_unat:
  fixes a b :: nat
  assumes "a + b + 1 < 2 ^ 64"
  shows "unat (word_of_nat a + word_of_nat b + 1 :: 64 word) = a + b + 1"
proof -
  have "word_of_nat a + word_of_nat b + 1 = (word_of_nat (a + b + 1) :: 64 word)" by simp
  also have "unat (word_of_nat (a + b + 1) :: 64 word) = a + b + 1" by (rule unat_small) (use assms in simp)
  finally show ?thesis .
qed

lemma receive_step:
  assumes "rq_ok rd" "length (rq_data rd) + length up + 1 < 2 ^ 64" "mem \<or> length (rq_data rd) + length up < unat (rq_cap rd)"
  shows "receive mem up rd = Some \<lparr>rq_data = rq_data rd @ up,
     rq_cap = (if length (rq_data rd) + length up < unat (rq_cap rd) then rq_cap rd
               else word_of_nat (length (rq_data rd)) + word_of_nat (length up) + 1),
     rq_expected = rq_expected rd,
     rq_complete = (rq_complete rd \<or> (rq_expected rd > 0 \<and>
        word_of_nat (length (rq_data rd) + length up) \<ge> rq_expected rd)), rq_received = True\<rparr>"
  using assms need_unat [OF assms(2)]
  by (cases rd) (auto simp: receive_def append_bytes_def Let_def rq_ok_def word_less_nat_alt)

lemma receive_fault:
  assumes "length (rq_data rd) + length up + 1 < 2 ^ 64" "\<not> length (rq_data rd) + length up < unat (rq_cap rd)"
  shows "receive False up rd = None"
  using assms(2) need_unat [OF assms(1)] by (simp add: receive_def Let_def word_less_nat_alt)

lemma receive_ok:
  "rq_ok rd \<Longrightarrow> length (rq_data rd) + length up + 1 < 2 ^ 64 \<Longrightarrow> receive mem up rd = Some rd' \<Longrightarrow> rq_ok rd' \<and> rq_data rd' = rq_data rd @ up"
  using receive_step [of rd up mem] receive_fault [of rd up] need_unat [of "length (rq_data rd)" "length up"]
  by (cases mem; cases "length (rq_data rd) + length up < unat (rq_cap rd)") (auto simp: rq_ok_def)

lemma init_with_length:
  assumes "0 < n" "n < 2 ^ 31" "2 ^ 31 - 1 \<le> lmax"
  shows "init_request_data lmax True True (Some (show_int n)) =
    Some (Some \<lparr>rq_data = [], rq_cap = word_of_int n + 1, rq_expected = word_of_int n, rq_complete = False, rq_received = False\<rparr>) \<and>
    unat (word_of_int n + 1 :: 64 word) = nat n + 1 \<and> (word_of_int n :: 64 word) > 0"
proof -
  have a: "atoi lmax (show_int n) = n" using assms by (intro atoi_show_int) auto
  have w: "(word_of_int n :: 64 word) = word_of_nat (nat n)" using assms by simp
  have u: "unat (word_of_nat (nat n) + word_of_nat 0 + 1 :: 64 word) = nat n + 0 + 1"
    by (rule need_unat) (use assms in simp)
  have p: "(word_of_int n :: 64 word) > 0"
  proof -
    have "unat (word_of_nat (nat n) :: 64 word) = nat n" by (rule unat_small) (use assms in simp)
    with assms w show ?thesis by (simp add: word_less_nat_alt)
  qed
  from u w have v: "unat (word_of_int n + 1 :: 64 word) = nat n + 1" by simp
  then have "(word_of_int n + 1 :: 64 word) \<noteq> 0" by (metis One_nat_def add_Suc_right nat.distinct(1) unat_0)
  with a p v show ?thesis by (simp add: init_request_data_def Let_def)
qed

text \<open>The calls for the pieces of a body, with memory.\<close>

definition post_call :: "string \<Rightarrow> string option \<Rightarrow> string option \<Rightarrow> string \<Rightarrow> call" where
  "post_call url auth cl up = \<lparr>ca_url = url, ca_method = ''POST'', ca_auth = auth, ca_length = cl, ca_upload = up,
     ca_mem1 = True, ca_mem2 = True\<rparr>"

lemma serve_pieces:
  assumes "sv_con s = Some rd" "rq_cap rd = word_of_nat n + 1" "rq_expected rd = word_of_nat n" "0 < n" "n + 1 < 2 ^ 64"
    and "length (rq_data rd) + length (concat ups) = n" "\<forall>u \<in> set ups. u \<noteq> []" "rq_complete rd \<longleftrightarrow> ups = []"
  shows "serve e m (map (post_call url auth cl) ups @ cs) s = serve e m cs
    (s\<lparr>sv_con := Some (rd\<lparr>rq_data := rq_data rd @ concat ups, rq_complete := True, rq_received := (rq_received rd \<or> ups \<noteq> [])\<rparr>)\<rparr>)"
  using assms
proof (induction ups arbitrary: s rd)
  case Nil
  then show ?case by (cases s; cases rd) simp
next
  case (Cons u ups)
  let ?rd = "rd\<lparr>rq_data := rq_data rd @ u, rq_complete := (ups = []), rq_received := True\<rparr>"
  have cap: "unat (rq_cap rd) = n + 1" using need_unat [of n 0] Cons.prems by simp
  have ex: "unat (rq_expected rd) = n" using unat_small [of n] Cons.prems by simp
  have len: "length (rq_data rd) + length u \<le> n" "length (rq_data rd) + length u = n \<longleftrightarrow> ups = []"
    using Cons.prems by (cases ups; auto)+
  have fin: "word_of_nat (length (rq_data rd) + length u) \<ge> rq_expected rd \<longleftrightarrow> ups = []"
    using unat_small [of "length (rq_data rd) + length u"] Cons.prems(5) len ex by (auto simp: word_le_nat_alt)
  have step: "receive True u rd = Some ?rd"
    using receive_step [of rd u True] Cons.prems(5,8) cap ex len fin Cons.prems(4)
    by (cases rd) (auto simp: rq_ok_def word_less_nat_alt)
  have "request_handler e m (post_call url auth cl u) s = Some (MHD_YES, 0, s\<lparr>sv_con := Some ?rd\<rparr>)"
    using step Cons.prems(1,7) by (simp add: request_handler_def post_call_def)
  moreover have "serve e m (map (post_call url auth cl) ups @ cs) (s\<lparr>sv_con := Some ?rd\<rparr>) = serve e m cs
    (s\<lparr>sv_con := Some ?rd, sv_con := Some (?rd\<lparr>rq_data := rq_data ?rd @ concat ups, rq_complete := True,
       rq_received := (rq_received ?rd \<or> ups \<noteq> [])\<rparr>)\<rparr>)"
    by (rule Cons.IH) (use Cons.prems in auto)
  ultimately show ?case by simp
qed

lemma serve_last:
  assumes "sv_con s = Some rd" "rq_complete rd" "rq_data rd = body" "7 \<le> length url" "auth \<noteq> None \<or> drop 7 url \<in> set open_paths"
  shows "serve e m [post_call url auth cl []] s = map_option snd (wtsl_core_http_deal_post_data e m url body s)"
proof -
  have ok: "\<not> length url < 7" "auth = None \<longrightarrow> drop 7 url \<in> set open_paths" using assms(4,5) by auto
  show ?thesis
  proof (cases "wtsl_core_http_deal_post_data e m url body s")
    case None
    with assms(1-3) ok show ?thesis by (auto simp: request_handler_def post_call_def Let_def)
  next
    case (Some x)
    with assms(1-3) ok show ?thesis by (cases x) (auto simp: request_handler_def post_call_def Let_def)
  qed
qed

lemma receive_no_length:
  "receive mem up rd = Some rd' \<Longrightarrow> rq_expected rd = 0 \<Longrightarrow> rq_expected rd' = 0 \<and> rq_complete rd' = rq_complete rd"
  by (auto simp: receive_def append_bytes_def Let_def split: if_splits Option.bind_splits)

definition waiting :: "('d, 'w) server \<Rightarrow> bool" where
  "waiting s \<longleftrightarrow> (\<exists>rd. sv_con s = Some rd \<and> rq_expected rd = 0 \<and> \<not> rq_complete rd)"

lemma handler_no_length:
  assumes "request_handler e m c s = Some (r, n, s')" "ca_method c = ''POST''" "waiting s"
  shows "sv_http s' = sv_http s \<and> sv_sent s' = sv_sent s \<and> waiting s'"
proof -
  from assms(3) obtain rd where rd: "sv_con s = Some rd" "rq_expected rd = 0" "\<not> rq_complete rd" by (auto simp: waiting_def)
  show ?thesis
  proof (cases "ca_upload c = []")
    case True
    with assms rd show ?thesis by (simp add: request_handler_def waiting_def)
  next
    case False
    with assms(1,2) rd(1) obtain rd' where "receive (ca_mem1 c) (ca_upload c) rd = Some rd'" "s' = s\<lparr>sv_con := Some rd'\<rparr>"
      by (auto simp: request_handler_def split: Option.bind_splits)
    with receive_no_length [of _ _ rd rd'] rd show ?thesis by (auto simp: waiting_def)
  qed
qed

lemma serve_waiting:
  "serve e m cs s = Some s' \<Longrightarrow> (\<forall>c \<in> set cs. ca_method c = ''POST'') \<Longrightarrow> waiting s \<Longrightarrow>
   sv_http s' = sv_http s \<and> sv_sent s' = sv_sent s"
proof (induction cs arbitrary: s)
  case (Cons c cs)
  from Cons.prems obtain r n s1 where c: "request_handler e m c s = Some (r, n, s1)" "serve e m cs s1 = Some s'"
    by (auto split: Option.bind_splits)
  from handler_no_length [OF c(1)] Cons.prems Cons.IH [OF c(2)] show ?case by auto
qed simp

section \<open>Properties\<close>

text \<open>C26. Pieces of a body, whatever their sizes and whatever length was announced, are stored one after the
  other inside the buffer; the one fault is a needed \<open>realloc\<close> that fails, after which the code
  copies to NULL.\<close>

theorem upload_in_bounds:
  assumes "rq_ok rd" "length (rq_data rd) + length up + 1 < 2 ^ 64"
  shows "(receive mem up rd = None \<longleftrightarrow> \<not> mem \<and> unat (rq_cap rd) \<le> length (rq_data rd) + length up) \<and>
    (\<forall>rd'. receive mem up rd = Some rd' \<longrightarrow> rq_ok rd' \<and> rq_data rd' = rq_data rd @ up)"
proof (cases "length (rq_data rd) + length up < unat (rq_cap rd)")
  case True
  then show ?thesis using receive_ok [OF assms] receive_step [OF assms, of mem] by auto
next
  case False
  then show ?thesis
    using receive_ok [OF assms] receive_step [OF assms, of True] receive_fault [OF assms(2) False] by (cases mem) auto
qed

theorem upload_in_bounds_witness:
  "\<exists>rd'. receive True ''{}'' \<lparr>rq_data = [], rq_cap = 2, rq_expected = 1, rq_complete = False, rq_received = False\<rparr> = Some rd' \<and>
     rq_ok rd' \<and> rq_data rd' = ''{}''"
  using upload_in_bounds [of "\<lparr>rq_data = [], rq_cap = 2, rq_expected = 1, rq_complete = False, rq_received = False\<rparr>" "''{}''" True]
  by (auto simp: rq_ok_def)


text \<open>A POST whose header announces no length is never executed and never answered, however its body
  arrives.\<close>

theorem post_without_length_ignored:
  assumes "sv_con s = None" "cs \<noteq> []" "\<forall>c \<in> set cs. ca_method c = ''POST'' \<and> ca_length c = None \<and> ca_mem1 c \<and> ca_mem2 c"
    and "serve e m cs s = Some s'"
  shows "sv_http s' = sv_http s \<and> sv_sent s' = sv_sent s"
proof -
  obtain c cs' where cs: "cs = c # cs'" using assms(2) by (cases cs) auto
  let ?rd = "\<lparr>rq_data = [], rq_cap = 1024, rq_expected = 0, rq_complete = False, rq_received = False\<rparr>"
  have "request_handler e m c s = Some (MHD_YES, length (ca_upload c), s\<lparr>sv_con := Some ?rd\<rparr>)"
    using assms(1,3) cs by (simp add: request_handler_def init_request_data_def)
  with assms(4) cs have "serve e m cs' (s\<lparr>sv_con := Some ?rd\<rparr>) = Some s'" by simp
  from serve_waiting [OF this] assms(3) cs show ?thesis by (simp add: waiting_def)
qed

text \<open>What the Authorization header holds is never looked at: any two values give the same, on every
  call; only when it is missing are GET and the other POST paths refused, without an effect on
  the program.\<close>

theorem auth_header_presence_only:
  "(\<forall>a b. request_handler e m (c\<lparr>ca_auth := Some a\<rparr>) s = request_handler e m (c\<lparr>ca_auth := Some b\<rparr>) s) \<and>
   (\<forall>r n s'. ca_auth c = None \<and> drop 7 (ca_url c) \<notin> set open_paths \<and> request_handler e m c s = Some (r, n, s') \<longrightarrow>
      sv_http s' = sv_http s)"
proof (intro conjI allI impI)
  fix a b
  show "request_handler e m (c\<lparr>ca_auth := Some a\<rparr>) s = request_handler e m (c\<lparr>ca_auth := Some b\<rparr>) s"
    by (cases "sv_con s"; cases c) (simp_all add: request_handler_def Let_def)
next
  fix r n s'
  assume h: "ca_auth c = None \<and> drop 7 (ca_url c) \<notin> set open_paths \<and> request_handler e m c s = Some (r, n, s')"
  show "sv_http s' = sv_http s"
  proof (cases "sv_con s")
    case None
    with h show ?thesis by (auto simp: request_handler_def Let_def split: Option.bind_splits option.splits)
  next
    case (Some rd)
    with h show ?thesis
      by (cases "ca_method c = ''POST''")
        (auto simp: request_handler_def Let_def split_beta split: if_splits Option.bind_splits)
  qed
qed

text \<open>A server for the instances.\<close>

definition demo_mhd :: mhd where
  "demo_mhd = \<lparr>mh_create = (\<lambda>_. True), mh_queue = (\<lambda>_ _. MHD_YES)\<rparr>"

definition demo_server :: "permission_level \<Rightarrow> (tables, nat) server" where
  "demo_server p = \<lparr>sv_http = demo_http_st p, sv_con = None, sv_sent = []\<rparr>"


theorem post_without_length_ignored_witness:
  "\<exists>s'. serve demo_http_env demo_mhd [post_call ''/api/v1/user/login'' None None [], post_call ''/api/v1/user/login'' None None ''{}'',
      post_call ''/api/v1/user/login'' None None []] (demo_server PERMISSION_READ) = Some s' \<and> sv_sent s' = []"
proof -
  let ?cs = "[post_call ''/api/v1/user/login'' None None [], post_call ''/api/v1/user/login'' None None ''{}'',
      post_call ''/api/v1/user/login'' None None []]"
  have "\<exists>s'. serve demo_http_env demo_mhd ?cs (demo_server PERMISSION_READ) = Some s'"
    by (simp add: post_call_def request_handler_def demo_server_def init_request_data_def receive_def append_bytes_def Let_def)
  then obtain s' where s': "serve demo_http_env demo_mhd ?cs (demo_server PERMISSION_READ) = Some s'" ..
  from post_without_length_ignored [OF _ _ _ s'] s' show ?thesis by (auto simp: post_call_def demo_server_def)
qed

theorem auth_header_presence_only_witness:
  "request_handler demo_http_env demo_mhd ((post_call ''/api/v1/x'' None None ''{}'')\<lparr>ca_auth := Some ''forged''\<rparr>) (demo_server PERMISSION_READ) =
   request_handler demo_http_env demo_mhd ((post_call ''/api/v1/x'' None None ''{}'')\<lparr>ca_auth := Some ''issued''\<rparr>) (demo_server PERMISSION_READ)"
  using auth_header_presence_only [of demo_http_env demo_mhd "post_call ''/api/v1/x'' None None ''{}''" "demo_server PERMISSION_READ"] by blast

end
