(* ===== verification/Scanf.thy ===== *)
theory Scanf
  imports Prelude
begin

text \<open>
  The conversions of \<open>sscanf\<close> the program uses: literal characters, white space, \<open>%d\<close>, \<open>%llu\<close>, \<open>%8x\<close>,
  \<open>%s\<close> and \<open>%[^c]\<close>, the last two also with \<open>*\<close>.  A format text is translated into its items; the
  result of a scan is the list of the values assigned before the first mismatch, so its length is
  what \<open>sscanf\<close> returns.  The lemma \<open>scan_render\<close> says that scanning a text printed with the same
  format gives the values back.
\<close>

section \<open>Formats\<close>

datatype scan_item = Sp | Ch char | Dec | Ull | Hex nat | Word bool | Until bool char

text \<open>The flag of \<open>Word\<close> and \<open>Until\<close> says whether the text is assigned.\<close>

fun scan_fmt :: "string \<Rightarrow> scan_item list" where
  "scan_fmt [] = []"
| "scan_fmt (c # r) =
     (if c = CHR ''%'' \<and> take 1 r = ''d'' then Dec # scan_fmt (drop 1 r)
      else if c = CHR ''%'' \<and> take 3 r = ''llu'' then Ull # scan_fmt (drop 3 r)
      else if c = CHR ''%'' \<and> take 2 r = ''8x'' then Hex 8 # scan_fmt (drop 2 r)
      else if c = CHR ''%'' \<and> take 1 r = ''s'' then Word True # scan_fmt (drop 1 r)
      else if c = CHR ''%'' \<and> take 2 r = ''*s'' then Word False # scan_fmt (drop 2 r)
      else if c = CHR ''%'' \<and> take 2 r = ''[^'' \<and> drop 2 r \<noteq> [] \<and> take 1 (drop 3 r) = '']'' then Until True (r ! 2) # scan_fmt (drop 4 r)
      else if c = CHR ''%'' \<and> take 3 r = ''*[^'' \<and> drop 3 r \<noteq> [] \<and> take 1 (drop 4 r) = '']'' then Until False (r ! 3) # scan_fmt (drop 5 r)
      else (if isspace c then Sp else Ch c) # scan_fmt r)"

section \<open>Hexadecimal numbers\<close>

definition xdigit_val :: "char \<Rightarrow> nat option" where
  "xdigit_val c = (let n = of_char (tolower c) in
     if 48 \<le> n \<and> n \<le> 57 then Some (n - 48) else if 97 \<le> n \<and> n \<le> 102 then Some (n - 87) else None)"

fun read_xdigits :: "nat \<Rightarrow> string \<Rightarrow> nat \<times> string" where
  "read_xdigits n [] = (n, [])"
| "read_xdigits n (c # s) = (case xdigit_val c of None \<Rightarrow> (n, c # s) | Some d \<Rightarrow> read_xdigits (16 * n + d) s)"

definition is_xdigit :: "char \<Rightarrow> bool" where
  "is_xdigit c \<longleftrightarrow> xdigit_val c \<noteq> None"

text \<open>The prefix \<open>0x\<close> counts when a digit follows it.\<close>

definition drop_0x :: "string \<Rightarrow> string" where
  "drop_0x u = (if 3 \<le> length u \<and> hd u = CHR ''0'' \<and> tolower (u ! 1) = CHR ''x'' \<and> is_xdigit (u ! 2) then drop 2 u else u)"

definition strtol16 :: "int \<Rightarrow> string \<Rightarrow> int \<times> string" where
  "strtol16 lmax s =
     (let (neg, u) = sign_split (ltrim s); v = drop_0x u in
      if v = [] \<or> \<not> is_xdigit (hd v) then (0, s)
      else let (n, r) = read_xdigits 0 v in (clamp lmax (if neg then - int n else int n), r))"

section \<open>Scanning\<close>

datatype sval = IV int | SV string

fun ival :: "sval \<Rightarrow> int" where
  "ival (IV i) = i" | "ival (SV s) = 0"

text \<open>An unsigned number of 64 bits.\<close>

definition strtoull :: "string \<Rightarrow> int \<times> string" where
  "strtoull s = (let (neg, u) = sign_split (ltrim s) in
     if u = [] \<or> \<not> isdigit (hd u) then (0, s)
     else let (n, r) = read_digits 0 u in (if n \<ge> 2 ^ 64 then 2 ^ 64 - 1 else if neg then (- int n) mod 2 ^ 64 else int n, r))"

definition assign :: "bool \<Rightarrow> sval \<Rightarrow> sval list \<Rightarrow> sval list" where
  "assign b v vs = (if b then v # vs else vs)"

fun scan :: "int \<Rightarrow> scan_item list \<Rightarrow> string \<Rightarrow> sval list" where
  "scan lmax [] s = []"
| "scan lmax (Sp # f) s = scan lmax f (ltrim s)"
| "scan lmax (Ch c # f) s = (case s of [] \<Rightarrow> [] | x # r \<Rightarrow> if x = c then scan lmax f r else [])"
| "scan lmax (Dec # f) s = (case strtol lmax (ltrim s) of (v, r) \<Rightarrow>
     if r = ltrim s then [] else IV (to_int32 v) # scan lmax f r)"
| "scan lmax (Ull # f) s = (case strtoull (ltrim s) of (v, r) \<Rightarrow>
     if r = ltrim s then [] else IV v # scan lmax f r)"
| "scan lmax (Hex w # f) s = (let t = ltrim s; (v, r) = strtol16 lmax (take w t) in
     if r = take w t then [] else IV (to_int32 v) # scan lmax f (r @ drop w t))"
| "scan lmax (Word b # f) s = (let t = ltrim s; w = takeWhile (\<lambda>c. \<not> isspace c) t in
     if w = [] then [] else assign b (SV w) (scan lmax f (drop (length w) t)))"
| "scan lmax (Until b c # f) s = (let w = takeWhile (\<lambda>x. x \<noteq> c) s in
     if w = [] then [] else assign b (SV w) (scan lmax f (drop (length w) s)))"

definition sscanf_vals :: "int \<Rightarrow> string \<Rightarrow> string \<Rightarrow> sval list" where
  "sscanf_vals lmax fmt s = scan lmax (scan_fmt fmt) s"

text \<open>The form for formats with numbers only.\<close>

definition sscanf :: "int \<Rightarrow> string \<Rightarrow> string \<Rightarrow> int list" where
  "sscanf lmax fmt s = map ival (sscanf_vals lmax fmt s)"

section \<open>Printing with the same format\<close>

fun render :: "scan_item list \<Rightarrow> int list \<Rightarrow> string" where
  "render [] as = []"
| "render (Sp # f) as = CHR '' '' # render f as"
| "render (Ch c # f) as = c # render f as"
| "render (Dec # f) as = (case as of [] \<Rightarrow> [] | a # r \<Rightarrow> show_int a @ render f r)"
| "render (_ # f) as = []"

text \<open>The formats for which this is an inverse: decimals only, each followed by something that is not a digit.\<close>

fun separated :: "scan_item list \<Rightarrow> bool" where
  "separated [] \<longleftrightarrow> True"
| "separated (Sp # f) \<longleftrightarrow> separated f"
| "separated (Ch c # f) \<longleftrightarrow> \<not> isspace c \<and> separated f"
| "separated (Dec # f) \<longleftrightarrow> (case f of [] \<Rightarrow> True | Sp # _ \<Rightarrow> True | Ch c # _ \<Rightarrow> \<not> isdigit c | _ \<Rightarrow> False) \<and> separated f"
| "separated (_ # f) \<longleftrightarrow> False"

fun decimals :: "scan_item list \<Rightarrow> nat" where
  "decimals [] = 0"
| "decimals (Dec # f) = Suc (decimals f)"
| "decimals (i # f) = decimals f"

lemma isspace_blank [simp]: "isspace (CHR '' '')"
  by (simp add: isspace_def)

lemma isdigit_blank [simp]: "\<not> isdigit (CHR '' '')"
  by (simp add: isdigit_def)

lemma ltrim_space [simp]: "isspace c \<Longrightarrow> ltrim (c # s) = ltrim s"
  by (simp add: ltrim_def)

lemma ltrim_nonspace [simp]: "\<not> isspace c \<Longrightarrow> ltrim (c # s) = c # s"
  by (simp add: ltrim_def)

lemma ltrim_ltrim [simp]: "ltrim (ltrim s) = ltrim s"
  unfolding ltrim_def by (induction s) auto

lemma show_int_split: "\<exists>c r. show_int a = c # r \<and> \<not> isspace c"
proof -
  obtain c r where "show_int a = c # r" by (cases "show_int a") auto
  then show ?thesis using show_int_not_space [of c a] by auto
qed

lemma ltrim_show_int_append [simp]: "ltrim (show_int a @ s) = show_int a @ s"
  using show_int_split [of a] by auto

lemma read_digits_stop: "s = [] \<or> \<not> isdigit (hd s) \<Longrightarrow> read_digits n s = (n, s)"
  by (cases s) auto

lemma strtol_prefix:
  assumes "- lmax - 1 \<le> a" "a \<le> lmax" "s = [] \<or> \<not> isdigit (hd s)"
  shows "strtol lmax (show_int a @ s) = (a, s)"
proof (cases "a < 0")
  case True
  have d: "\<forall>c \<in> set (show_nat (nat (- a))). isdigit c" by (rule show_nat_digits)
  from True assms show ?thesis
    using read_digits_append [OF d, of 0 s] read_show_nat [of "nat (- a)"] show_nat_hd_digit [of "nat (- a)"]
    by (simp add: strtol_def show_int_def sign_split_def clamp_def read_digits_stop isspace_def hd_append)
next
  case False
  have d: "\<forall>c \<in> set (show_nat (nat a)). isdigit c" by (rule show_nat_digits)
  obtain c r where cr: "show_nat (nat a) = c # r" "isdigit c"
    using show_nat_hd_digit [of "nat a"] by (cases "show_nat (nat a)") auto
  then have "c \<noteq> CHR ''-''" "c \<noteq> CHR ''+''" by (auto simp: isdigit_def)
  with False assms cr show ?thesis
    using read_digits_append [OF d, of 0 s] read_show_nat [of "nat a"] isdigit_not_space [of c]
    by (simp add: strtol_def show_int_def sign_split_def clamp_def read_digits_stop del: read_digits.simps)
qed

lemma scan_ltrim_render:
  "separated f \<Longrightarrow> \<forall>c r. f = Ch c # r \<longrightarrow> \<not> isspace c \<Longrightarrow> f \<noteq> [] \<Longrightarrow> scan lmax f (ltrim (render f as @ t)) = scan lmax f (render f as @ t)"
  by (cases f rule: separated.cases) (auto split: list.splits)

definition int32 :: "int \<Rightarrow> bool" where
  "int32 a \<longleftrightarrow> - (2 ^ 31) \<le> a \<and> a < 2 ^ 31"

lemma scan_render:
  assumes "separated f" "length as = decimals f" "\<forall>a \<in> set as. int32 a" "2 ^ 31 - 1 \<le> lmax" "t = [] \<or> \<not> isdigit (hd t)"
  shows "scan lmax f (render f as @ t) = map IV as"
  using assms
proof (induction f arbitrary: as)
  case Nil
  then show ?case by simp
next
  case (Cons i f)
  show ?case
  proof (cases i)
    case Sp
    show ?thesis
    proof (cases "f = []")
      case True
      with Cons.prems Sp show ?thesis by simp
    next
      case False
      from Cons.prems Sp have "\<forall>c r. f = Ch c # r \<longrightarrow> \<not> isspace c" by auto
      with False Cons Sp show ?thesis by (simp add: scan_ltrim_render)
    qed
  next
    case (Ch c)
    with Cons show ?thesis by simp
  next
    case Dec
    with Cons.prems obtain a r where as: "as = a # r" "int32 a" by (cases as) auto
    let ?s = "render f r @ t"
    have stop: "?s = [] \<or> \<not> isdigit (hd ?s)"
      using Cons.prems(1,5) Dec by (cases f rule: separated.cases) (auto split: list.splits)
    have "strtol lmax (show_int a @ ?s) = (a, ?s)"
      by (rule strtol_prefix [OF _ _ stop]) (use as Cons.prems(4) in \<open>auto simp: int32_def\<close>)
    moreover have "scan lmax f ?s = map IV r" using Cons as Dec by simp
    ultimately show ?thesis using as Dec by (simp add: int32_def)
  qed (use Cons.prems in simp_all)
qed

lemma sscanf_render:
  assumes "separated (scan_fmt fmt)" "length as = decimals (scan_fmt fmt)" "\<forall>a \<in> set as. int32 a" "2 ^ 31 - 1 \<le> lmax" "t = [] \<or> \<not> isdigit (hd t)"
  shows "sscanf lmax fmt (render (scan_fmt fmt) as @ t) = as"
  by (simp add: sscanf_def sscanf_vals_def scan_render [OF assms] comp_def)

end
