(* ===== verification/SlbInterface.thy ===== *)
theory SlbInterface
  imports Scanf NodeTypes "HOL-Library.State_Monad"
begin

text \<open>
  The radio interface (slal/slb/wtsl_core_slb_interface.c): each setter checks its argument and gives the
  driver a command line through the shell, each getter reads the driver's answer.  The operations
  are programs of the state monad over the command lines run so far; the shell answers.  Command
  lines are cut at the size of the buffer they are printed into.  A device name is a pointer that
  may be NULL.
\<close>

section \<open>Running commands\<close>

type_synonym 'a cmd = "(string list, 'a) state"

abbreviation ret :: "'a \<Rightarrow> 'a cmd" where
  "ret \<equiv> State_Monad.return"

definition sys :: "shell \<Rightarrow> string \<Rightarrow> int cmd" where
  "sys sh c = State (\<lambda>tr. run_cmd sh tr c)"

definition pipe :: "shell \<Rightarrow> string \<Rightarrow> string option cmd" where
  "pipe sh c = State (\<lambda>tr. if sh_popen sh tr c then (Some (sh_out sh tr c), tr @ [c]) else (None, tr))"

text \<open>The common ending of the setters.\<close>

definition run_setting :: "shell \<Rightarrow> string \<Rightarrow> int cmd" where
  "run_setting sh c = do { r \<leftarrow> sys sh c; ret (if r \<noteq> 0 then -1 else 0) }"

definition dev_ok :: "string option \<Rightarrow> bool" where
  "dev_ok dev = (case dev of None \<Rightarrow> False | Some d \<Rightarrow> d \<noteq> [] \<and> length d \<le> 16)"

definition visible :: "string \<Rightarrow> bool" where
  "visible s = list_all (\<lambda>c. 32 \<le> (of_char c :: nat) \<and> (of_char c :: nat) \<le> 126) s"

definition is_valid_device_name :: "string option \<Rightarrow> bool" where
  "is_valid_device_name dev \<longleftrightarrow> dev_ok dev \<and> visible (the dev)"

definition quoted :: "string \<Rightarrow> string" where
  "quoted s = [CHR 0x22] @ s @ [CHR 0x22]"

definition iwpriv :: "string option \<Rightarrow> string \<Rightarrow> string \<Rightarrow> string" where
  "iwpriv dev grp arg = ''iwpriv '' @ the dev @ '' '' @ grp @ '' '' @ arg"

definition net_vap_name :: string where "net_vap_name = ''wt_vap0''"
definition net_bridge_name :: string where "net_bridge_name = ''wt_br0''"
definition gt0_file_path :: string where "gt0_file_path = ''/sys/hisys/hipriv_gt''"

section \<open>Devices\<close>

definition slb_role :: "int \<Rightarrow> string" where
  "slb_role type = (if type = 0 then ''gnode'' else ''tnode'')"

definition slb_create_device :: "shell \<Rightarrow> string option \<Rightarrow> int \<Rightarrow> int cmd" where
  "slb_create_device sh name type = (if \<not> is_valid_device_name name then ret (-1)
     else run_setting sh (cbuf 64 (''echo '' @ quoted (''GT0 create '' @ the name @ '' '' @ slb_role type) @ '' > '' @ gt0_file_path)))"

definition slb_destory_device :: "shell \<Rightarrow> string option \<Rightarrow> int cmd" where
  "slb_destory_device sh name = (if \<not> is_valid_device_name name then ret (-1)
     else run_setting sh (cbuf 64 (''echo '' @ quoted (the name @ '' destroy'') @ '' > '' @ gt0_file_path)))"

definition slb_ifconfig :: "shell \<Rightarrow> string option \<Rightarrow> bool \<Rightarrow> int cmd" where
  "slb_ifconfig sh dev up = (if \<not> dev_ok dev then ret (-1)
     else run_setting sh (cbuf 64 (''ifconfig '' @ the dev @ '' '' @ (if up then ''up'' else ''down''))))"

definition set_mac_address :: "shell \<Rightarrow> string option \<Rightarrow> string option \<Rightarrow> int cmd" where
  "set_mac_address sh dev mac = (if dev = None \<or> mac = None then ret (-1)
     else if length (the mac) \<noteq> 17 then ret (-1)
     else do {
       _ \<leftarrow> slb_ifconfig sh dev False;
       run_setting sh (cbuf 256 (''ifconfig '' @ the dev @ '' hw ether '' @ the mac)) })"

text \<open>The first line of the answer, cut to \<open>n\<close> bytes, without its newline; the output is left alone on failure.\<close>

definition first_line :: "nat \<Rightarrow> string \<Rightarrow> string option" where
  "first_line n out = (case fgets_all n out of [] \<Rightarrow> None | l # _ \<Rightarrow> Some l)"

definition read_address :: "shell \<Rightarrow> nat \<Rightarrow> string \<Rightarrow> (int \<times> string option) cmd" where
  "read_address sh n c = do {
     out \<leftarrow> pipe sh c;
     ret (case Option.bind out (first_line (n - 1)) of None \<Rightarrow> (-1, None)
          | Some l \<Rightarrow> (0, Some (takeWhile (\<lambda>c. c \<noteq> CHR 0x0A) l))) }"

definition get_mac_address :: "shell \<Rightarrow> string option \<Rightarrow> bool \<Rightarrow> (int \<times> string option) cmd" where
  "get_mac_address sh dev buf = (if dev = None \<or> \<not> buf then ret (-1, None)
     else read_address sh 18 (cbuf 256 (''ifconfig '' @ the dev @ '' | grep -o -E '' @ [CHR 0x27] @
       ''([[:xdigit:]]{1,2}:){5}[[:xdigit]]{1,2}'' @ [CHR 0x27])))"

definition set_ip_address :: "shell \<Rightarrow> string option \<Rightarrow> string option \<Rightarrow> int cmd" where
  "set_ip_address sh dev ip = (if dev = None \<or> ip = None then ret (-1)
     else run_setting sh (cbuf 256 (''ifconfig '' @ the dev @ '' '' @ the ip)))"

definition get_ip_address :: "shell \<Rightarrow> string option \<Rightarrow> bool \<Rightarrow> nat \<Rightarrow> (int \<times> string option) cmd" where
  "get_ip_address sh dev buf n = (if dev = None \<or> \<not> buf then ret (-1, None)
     else read_address sh n (cbuf 256 (''ifconfig '' @ the dev @ '' | grep -w '' @ [CHR 0x27] @ ''inet'' @ [CHR 0x27] @
       '' | awk '' @ [CHR 0x27] @ ''{print $2}'' @ [CHR 0x27])))"

section \<open>Setters\<close>

definition channels :: "int list" where
  "channels = [41, 125, 209, 291, 375, 459, 541, 625, 709, 791, 1375, 1459, 1541, 1625, 1709, 1791, 1875, 1959,
     2041, 2125, 2209, 2291, 2479, 2563, 2645, 2729, 2813]"

text \<open>Take the device down, then give the command.\<close>

definition down_then :: "shell \<Rightarrow> string option \<Rightarrow> string \<Rightarrow> int cmd" where
  "down_then sh dev c = do { _ \<leftarrow> slb_ifconfig sh dev False; run_setting sh c }"

definition slb_set_channel :: "shell \<Rightarrow> string option \<Rightarrow> int \<Rightarrow> int cmd" where
  "slb_set_channel sh dev channel = (if \<not> dev_ok dev then ret (-1)
     else if channel \<notin> set channels then ret (-1)
     else down_then sh dev (cbuf 64 (iwpriv dev ''cfg'' (quoted (''channel '' @ show_int channel)))))"

definition slb_set_bw :: "shell \<Rightarrow> string option \<Rightarrow> int \<Rightarrow> int cmd" where
  "slb_set_bw sh dev bw = (if \<not> dev_ok dev then ret (-1)
     else if bw \<noteq> 20 \<and> bw \<noteq> 40 \<and> bw \<noteq> 80 then ret (-1)
     else down_then sh dev (cbuf 64 (iwpriv dev ''cfg'' (quoted (''bw '' @ show_int bw)))))"

definition slb_set_tfc_bw :: "shell \<Rightarrow> string option \<Rightarrow> int \<Rightarrow> int cmd" where
  "slb_set_tfc_bw sh dev tfc_bw = (if \<not> dev_ok dev then ret (-1)
     else if tfc_bw \<noteq> 20 \<and> tfc_bw \<noteq> 40 \<and> tfc_bw \<noteq> 80 then ret (-1)
     else down_then sh dev (cbuf 64 (iwpriv dev ''cfg'' (quoted (''tfc_bw '' @ show_int tfc_bw)))))"

definition slb_set_msc_bound :: "shell \<Rightarrow> string option \<Rightarrow> mcs_bound \<Rightarrow> int cmd" where
  "slb_set_msc_bound sh dev b = (if \<not> dev_ok dev then ret (-1)
     else if length (mb_user_mac b) \<noteq> 17 then ret (-1)
     else if mb_min_mcs b < 0 \<or> mb_min_mcs b > 31 then ret (-1)
     else if mb_max_mcs b < 0 \<or> mb_max_mcs b > 31 then ret (-1)
     else run_setting sh (cbuf 128 (iwpriv dev ''alg''
       (quoted (''set_mcs_bound '' @ mb_user_mac b @ '' '' @ show_int (mb_min_mcs b) @ '' '' @ show_int (mb_max_mcs b))))))"

definition slb_set_cc_start_pos :: "shell \<Rightarrow> string option \<Rightarrow> int \<Rightarrow> int cmd" where
  "slb_set_cc_start_pos sh dev cc_offset = (if \<not> dev_ok dev then ret (-1)
     else if cc_offset < 0 \<or> cc_offset > 3 then ret (-1)
     else down_then sh dev (cbuf 64 (iwpriv dev ''cfg'' (quoted (''cc_start_pos '' @ show_int cc_offset)))))"

definition slb_set_cell_id :: "shell \<Rightarrow> string option \<Rightarrow> int \<Rightarrow> int cmd" where
  "slb_set_cell_id sh dev i = (if \<not> dev_ok dev then ret (-1)
     else if i < 0 \<or> i > 19 then ret (-1)
     else down_then sh dev (cbuf 64 (iwpriv dev ''cfg'' (quoted (''cell_id '' @ show_int i)))))"

definition slb_set_essid :: "shell \<Rightarrow> string option \<Rightarrow> string option \<Rightarrow> int cmd" where
  "slb_set_essid sh dev essid = (if \<not> dev_ok dev then ret (-1)
     else if (case essid of None \<Rightarrow> True | Some e \<Rightarrow> e = [] \<or> length e > 128) then ret (-1)
     else if \<not> visible (the essid) then ret (-1)
     else down_then sh dev (cbuf 64 (iwpriv dev ''cfg'' (quoted (''essid '' @ the essid)))))"

definition slb_set_acs_enable :: "shell \<Rightarrow> string option \<Rightarrow> int \<Rightarrow> int cmd" where
  "slb_set_acs_enable sh dev enable = (if \<not> is_valid_device_name dev then ret (-1)
     else if enable \<noteq> 0 \<and> enable \<noteq> 1 then ret (-1)
     else run_setting sh (cbuf 64 (iwpriv dev ''cfg'' (quoted (''set_acs_enable '' @ show_int enable)))))"

text \<open>The symbol types each prefix type and slot configuration allows, and the ranges checked after it.\<close>

definition symbol_ok :: "mib_params \<Rightarrow> int \<Rightarrow> bool" where
  "symbol_ok p hi =
     (if mp_s_cfg_idx p = 0 \<or> mp_s_cfg_idx p = 1 then \<not> (mp_symbol_type p < 2 \<or> mp_symbol_type p > hi)
      else if mp_s_cfg_idx p = 2 then \<not> (mp_symbol_type p < 1 \<or> mp_symbol_type p > hi)
      else True)"

definition slb_set_mib_params :: "shell \<Rightarrow> string option \<Rightarrow> mib_params \<Rightarrow> int cmd" where
  "slb_set_mib_params sh dev p = (if \<not> dev_ok dev then ret (-1)
     else if mp_cp_type p < 0 \<or> mp_cp_type p > 3 then ret (-1)
     else if (mp_cp_type p = 0 \<or> mp_cp_type p = 1) \<and> \<not> symbol_ok p 5 then ret (-1)
     else if mp_cp_type p = 2 \<and> \<not> symbol_ok p 4 then ret (-1)
     else if mp_cp_type p = 3 \<and> \<not> symbol_ok p 3 then ret (-1)
     else if mp_sysmsg_period p < 0 \<or> mp_sysmsg_period p > 3 then ret (-1)
     else if mp_s_cfg_idx p < 0 \<or> mp_s_cfg_idx p > 2 then ret (-1)
     else do {
       r \<leftarrow> down_then sh dev (cbuf 64 (iwpriv dev ''cfg'' (quoted (''set_mib_params '' @ show_int (mp_cp_type p) @ '' '' @
              show_int (mp_symbol_type p) @ '' '' @ show_int (mp_sysmsg_period p) @ '' '' @ show_int (mp_s_cfg_idx p)))));
       if r \<noteq> 0 then ret (-1)
       else do { _ \<leftarrow> slb_ifconfig sh dev True; ret 0 } })"

definition slb_set_sec_auth_pwd :: "shell \<Rightarrow> string option \<Rightarrow> string option \<Rightarrow> int cmd" where
  "slb_set_sec_auth_pwd sh dev password = (if \<not> dev_ok dev then ret (-1)
     else if (case password of None \<Rightarrow> True | Some p \<Rightarrow> length p > 32 \<or> length p < 8) then ret (-1)
     else if \<not> visible (the password) then ret (-1)
     else run_setting sh (cbuf 128 (iwpriv dev ''cfg'' (quoted (''set_sec_auth_pwd '' @ the password)))))"

definition slb_set_sec_auth_psk :: "shell \<Rightarrow> string option \<Rightarrow> string option \<Rightarrow> int cmd" where
  "slb_set_sec_auth_psk sh dev psk = (if \<not> is_valid_device_name dev then ret (-1)
     else if (case psk of None \<Rightarrow> True | Some p \<Rightarrow> p = [] \<or> length p > 64) then ret (-1)
     else run_setting sh (cbuf 128 (iwpriv dev ''cfg'' (quoted (''set_sec_auth_psk '' @ the psk)))))"

definition slb_set_sec_exch_cap :: "shell \<Rightarrow> string option \<Rightarrow> int \<Rightarrow> int cmd" where
  "slb_set_sec_exch_cap sh dev exch_cap = (if \<not> is_valid_device_name dev then ret (-1)
     else if exch_cap < 1 \<or> exch_cap > 33 then ret (-1)
     else run_setting sh (cbuf 128 (iwpriv dev ''cfg'' (quoted (''set_sec_exch_cap '' @ show_int exch_cap)))))"

definition slb_set_tx_power :: "shell \<Rightarrow> string option \<Rightarrow> int \<Rightarrow> int cmd" where
  "slb_set_tx_power sh dev pow = (if \<not> is_valid_device_name dev then ret (-1)
     else if pow < -310 \<or> pow > 250 then ret (-1)
     else run_setting sh (cbuf 64 (iwpriv dev ''alg'' (quoted (''set_tx_power '' @ show_int pow)))))"

definition slb_set_range_opt :: "shell \<Rightarrow> string option \<Rightarrow> int \<Rightarrow> int cmd" where
  "slb_set_range_opt sh dev enable = (if \<not> is_valid_device_name dev then ret (-1)
     else if enable < 0 \<or> enable > 1 then ret (-1)
     else down_then sh dev (cbuf 64 (iwpriv dev ''cfg'' (quoted (''range_opt '' @ show_int enable)))))"

section \<open>Getters\<close>

text \<open>\<open>strstr\<close>: the text from the first occurrence on.\<close>

definition strstr :: "string \<Rightarrow> string \<Rightarrow> string option" where
  "strstr s pat = map_option (\<lambda>pre. drop (length pre) s) (strstr_pre pat s)"

definition after_char :: "char \<Rightarrow> string \<Rightarrow> string option" where
  "after_char c s = (if c \<in> set s then Some (tl (dropWhile (\<lambda>x. x \<noteq> c) s)) else None)"

text \<open>Every line with an equals sign gives a value; the last one counts.\<close>

fun last_after_eq :: "int \<Rightarrow> string list \<Rightarrow> int \<Rightarrow> int" where
  "last_after_eq lmax [] v = v"
| "last_after_eq lmax (l # ls) v = last_after_eq lmax ls (case after_char (CHR ''='') l of None \<Rightarrow> v | Some t \<Rightarrow> atoi lmax t)"

definition get_eq_int :: "shell \<Rightarrow> int \<Rightarrow> string option \<Rightarrow> string \<Rightarrow> int cmd" where
  "get_eq_int sh lmax dev name = (if \<not> dev_ok dev then ret (-1)
     else do {
       out \<leftarrow> pipe sh (cbuf 64 (iwpriv dev ''cfg'' name));
       ret (case out of None \<Rightarrow> -1 | Some o1 \<Rightarrow> last_after_eq lmax (fgets_all 1023 o1) 0) })"

definition slb_get_channel :: "shell \<Rightarrow> int \<Rightarrow> string option \<Rightarrow> int cmd" where
  "slb_get_channel sh lmax dev = get_eq_int sh lmax dev ''get_channel''"

definition slb_get_bw :: "shell \<Rightarrow> int \<Rightarrow> string option \<Rightarrow> int cmd" where
  "slb_get_bw sh lmax dev = get_eq_int sh lmax dev ''get_bw''"

definition slb_get_tfc_bw :: "shell \<Rightarrow> int \<Rightarrow> string option \<Rightarrow> int cmd" where
  "slb_get_tfc_bw sh lmax dev = get_eq_int sh lmax dev ''get_tfc_bw''"

definition slb_get_cc_start_pos :: "shell \<Rightarrow> int \<Rightarrow> string option \<Rightarrow> int cmd" where
  "slb_get_cc_start_pos sh lmax dev = get_eq_int sh lmax dev ''get_cc_start_pos''"

definition slb_get_cell_id :: "shell \<Rightarrow> int \<Rightarrow> string option \<Rightarrow> int cmd" where
  "slb_get_cell_id sh lmax dev = get_eq_int sh lmax dev ''get_cell_id''"

text \<open>The answer of a command: no pipe, no line, or its first line cut to \<open>n\<close> bytes.\<close>

definition ask :: "shell \<Rightarrow> nat \<Rightarrow> string option \<Rightarrow> string \<Rightarrow> string \<Rightarrow> string option option cmd" where
  "ask sh n dev grp name = do {
     out \<leftarrow> pipe sh (cbuf 64 (iwpriv dev grp name));
     ret (map_option (first_line n) out) }"

text \<open>One integer after a tag in the line: \<open>d0\<close> without a line or tag, \<open>d1\<close> when it cannot be read.\<close>

definition tagged_int :: "int \<Rightarrow> string \<Rightarrow> string \<Rightarrow> int \<Rightarrow> int \<Rightarrow> string option \<Rightarrow> int" where
  "tagged_int lmax tag fmt d0 d1 line = (case Option.bind line (\<lambda>l. strstr l tag) of
     None \<Rightarrow> d0 | Some pos \<Rightarrow> (case sscanf lmax fmt pos of [v] \<Rightarrow> v | _ \<Rightarrow> d1))"

definition get_tagged :: "shell \<Rightarrow> int \<Rightarrow> string option \<Rightarrow> string \<Rightarrow> string \<Rightarrow> string \<Rightarrow> string \<Rightarrow> int \<Rightarrow> int \<Rightarrow> int cmd" where
  "get_tagged sh lmax dev grp name tag fmt d0 d1 = (if \<not> dev_ok dev then ret (-1)
     else do {
       a \<leftarrow> ask sh 127 dev grp name;
       ret (case a of None \<Rightarrow> -1 | Some line \<Rightarrow> tagged_int lmax tag fmt d0 d1 line) })"

definition slb_get_acs_enable :: "shell \<Rightarrow> int \<Rightarrow> string option \<Rightarrow> int cmd" where
  "slb_get_acs_enable sh lmax dev = get_tagged sh lmax dev ''cfg'' ''get_acs_enable'' ''[SUCC]acs_enable'' ''[SUCC]acs_enable = %d'' 0 0"

definition slb_get_sec_sec_cap :: "shell \<Rightarrow> int \<Rightarrow> string option \<Rightarrow> int cmd" where
  "slb_get_sec_sec_cap sh lmax dev =
     get_tagged sh lmax dev ''cfg'' ''get_sec_sec_cap'' ''sec_capabilities[0x'' ''sec_capabilities[0x%8x]'' 0 0"

definition slb_get_lce_mode :: "shell \<Rightarrow> int \<Rightarrow> string option \<Rightarrow> int cmd" where
  "slb_get_lce_mode sh lmax dev =
     get_tagged sh lmax dev ''cfg'' ''get_lce_mode'' ''defaut data lce mode:'' ''defaut data lce mode: %d'' (-1) (-1)"

definition slb_get_pps_switch :: "shell \<Rightarrow> int \<Rightarrow> string option \<Rightarrow> int cmd" where
  "slb_get_pps_switch sh lmax dev = get_tagged sh lmax dev ''cfg'' ''get_pps_switch'' ''pps_switch ='' ''pps_switch = %d'' (-1) (-1)"

definition slb_get_chip_temperature :: "shell \<Rightarrow> int \<Rightarrow> string option \<Rightarrow> int cmd" where
  "slb_get_chip_temperature sh lmax dev = get_tagged sh lmax dev ''alg'' ''read_temperature'' ''[SUCC]0x'' ''[SUCC]0x%8x'' 0 0"

definition slb_get_range_opt :: "shell \<Rightarrow> int \<Rightarrow> string option \<Rightarrow> int cmd" where
  "slb_get_range_opt sh lmax dev = get_tagged sh lmax dev ''cfg'' ''get_range_opt'' ''[SUCC]en'' ''[SUCC]en = %d'' 0 0"

text \<open>Several integers after \<open>[SUCC]\<close>; the outputs are written only when all of them are read.\<close>

definition get_fields :: "shell \<Rightarrow> int \<Rightarrow> string option \<Rightarrow> string \<Rightarrow> string \<Rightarrow> string \<Rightarrow> nat \<Rightarrow> (int \<times> int list) cmd" where
  "get_fields sh lmax dev grp name fmt k = (if \<not> dev_ok dev then ret (-1, [])
     else do {
       a \<leftarrow> ask sh 1023 dev grp name;
       ret (case Option.bind (Option.bind a id) (\<lambda>l. strstr l ''[SUCC]'') of
              None \<Rightarrow> (-1, [])
            | Some pos \<Rightarrow> (let vs = sscanf lmax fmt (drop 6 pos) in if length vs \<noteq> k then (-1, []) else (0, vs))) })"

definition slb_get_mib_params :: "shell \<Rightarrow> int \<Rightarrow> string option \<Rightarrow> mib_params \<Rightarrow> (int \<times> mib_params) cmd" where
  "slb_get_mib_params sh lmax dev p = do {
     (r, vs) \<leftarrow> get_fields sh lmax dev ''cfg'' ''get_mib_params''
                  ''cp_type = %d, symbol_cfg = %d, sysmsg_period = %d, s_cfg_idx = %d'' 4;
     ret (r, if r = 0 then \<lparr>mp_cp_type = vs ! 0, mp_symbol_type = vs ! 1, mp_sysmsg_period = vs ! 2, mp_s_cfg_idx = vs ! 3\<rparr> else p) }"

definition slb_get_real_power :: "shell \<Rightarrow> int \<Rightarrow> string option \<Rightarrow> int \<times> int \<Rightarrow> (int \<times> int \<times> int) cmd" where
  "slb_get_real_power sh lmax dev p = do {
     (r, vs) \<leftarrow> get_fields sh lmax dev ''alg'' ''get_real_pow'' ''real_pow=%dexp_pow=%d'' 2;
     ret (r, if r = 0 then (vs ! 0, vs ! 1) else p) }"

definition slb_get_timestamp_cnt :: "shell \<Rightarrow> int \<Rightarrow> string option \<Rightarrow> int \<times> int \<Rightarrow> (int \<times> int \<times> int) cmd" where
  "slb_get_timestamp_cnt sh lmax dev p = do {
     (r, vs) \<leftarrow> get_fields sh lmax dev ''cfg'' ''get_slb_timestamp'' ''slb_cnt = %d, glb_cnt = %d'' 2;
     ret (r, if r = 0 then (vs ! 0, vs ! 1) else p) }"

definition slb_get_wds_mode :: "shell \<Rightarrow> int \<Rightarrow> string option \<Rightarrow> int \<times> int \<Rightarrow> (int \<times> int \<times> int) cmd" where
  "slb_get_wds_mode sh lmax dev p = do {
     (r, vs) \<leftarrow> get_fields sh lmax dev ''cfg'' ''get_wds_enable'' ''wds_enable=%d, wds_mode=%d'' 2;
     ret (r, if r = 0 then (vs ! 0, vs ! 1) else p) }"

text \<open>The tag is 15 bytes long, the code skips 16.\<close>

definition parse_exch_cap :: "int \<Rightarrow> string \<Rightarrow> int" where
  "parse_exch_cap lmax line = (case strstr line ''key_exch_cap[0x'' of
     None \<Rightarrow> -1
   | Some tag \<Rightarrow> (let pos = drop 16 tag in
       if CHR '']'' \<notin> set pos then -1
       else (let hex = takeWhile (\<lambda>c. c \<noteq> CHR '']'') pos in
         if length hex \<ge> 16 then -1
         else (case strtol16 lmax hex of (v, end) \<Rightarrow> if end \<noteq> [] \<or> v < 0 then -1 else to_int32 v))))"

definition slb_get_sec_exch_cap :: "shell \<Rightarrow> int \<Rightarrow> string option \<Rightarrow> int cmd" where
  "slb_get_sec_exch_cap sh lmax dev = (if \<not> dev_ok dev then ret (-1)
     else do {
       a \<leftarrow> ask sh 127 dev ''cfg'' ''get_sec_exch_cap'';
       ret (case Option.bind a id of None \<Rightarrow> -1 | Some l \<Rightarrow> parse_exch_cap lmax l) })"

definition slb_fem_check :: "shell \<Rightarrow> string option \<Rightarrow> string option cmd" where
  "slb_fem_check sh dev = (if \<not> dev_ok dev then ret None
     else do {
       a \<leftarrow> ask sh 1023 dev ''alg'' ''fem_check'';
       ret (case Option.bind a id of None \<Rightarrow> None
            | Some l \<Rightarrow> if \<not> contains l ''[SUCC]'' then None
                else Some (if contains l ''device process success'' then ''normal'' else ''abnormal'')) })"

section \<open>Tables of users\<close>

text \<open>The lines that fit are appended to a buffer of 1024 bytes.\<close>

fun gather :: "string list \<Rightarrow> string \<Rightarrow> string" where
  "gather [] buf = buf"
| "gather (l # ls) buf = gather ls (if length buf + length l < 1023 then buf @ l else buf)"

definition split_line :: "string \<Rightarrow> (string \<times> string) option" where
  "split_line s = (if CHR 0x0A \<in> set s
     then Some (takeWhile (\<lambda>c. c \<noteq> CHR 0x0A) s, tl (dropWhile (\<lambda>c. c \<noteq> CHR 0x0A) s)) else None)"

lemma split_line_shorter: "split_line s = Some (l, r) \<Longrightarrow> length r < length s"
proof -
  assume "split_line s = Some (l, r)"
  then have m: "CHR 0x0A \<in> set s" and r: "r = tl (dropWhile (\<lambda>c. c \<noteq> CHR 0x0A) s)"
    by (auto simp: split_line_def split: if_splits)
  from m have "dropWhile (\<lambda>c. c \<noteq> CHR 0x0A) s \<noteq> []" by auto
  then have "length r < length (dropWhile (\<lambda>c. c \<noteq> CHR 0x0A) s)" using r by (cases "dropWhile (\<lambda>c. c \<noteq> CHR 0x0A) s") auto
  then show ?thesis using length_dropWhile_le [of "\<lambda>c. c \<noteq> CHR 0x0A" s] by simp
qed

definition mcs_line :: "int \<Rightarrow> string \<Rightarrow> mcs_entry list \<Rightarrow> mcs_entry list" where
  "mcs_line lmax l us = (if strneq 5 l ''user='' then
     (case sscanf lmax ''user=%d:ul_mcs=%d, dl_mcs=%d'' l of
        [i, u, d] \<Rightarrow> if length us < 256 then us @ [\<lparr>me_user_idx = i, me_ul_mcs = u, me_dl_mcs = d\<rparr>] else us
      | _ \<Rightarrow> us) else us)"

function mcs_loop :: "int \<Rightarrow> string \<Rightarrow> mcs_entry list \<Rightarrow> mcs_entry list" where
  "mcs_loop lmax s us = (case split_line s of
     None \<Rightarrow> us
   | Some (l, r) \<Rightarrow>
       (let us1 = mcs_line lmax l us; r1 = dropWhile (\<lambda>c. c = CHR 0x0A \<or> c = CHR 0x0D) r
        in if r1 = [] then us1 else mcs_loop lmax r1 us1))"
  by pat_completeness auto
termination
  by (relation "measure (\<lambda>(m, s, us). length s)")
    (auto dest!: split_line_shorter intro: le_less_trans [OF length_dropWhile_le])

declare mcs_loop.simps [simp del]

text \<open>The result pairs the return code with the table, which is cleared once the command has run.\<close>

definition user_table :: "shell \<Rightarrow> string option \<Rightarrow> string \<Rightarrow> string \<Rightarrow> (string \<Rightarrow> 'u list) \<Rightarrow> 'u list \<Rightarrow> (int \<times> 'u list) cmd" where
  "user_table sh dev grp name rows old = (if \<not> dev_ok dev then ret (-1, old)
     else do {
       out \<leftarrow> pipe sh (cbuf 64 (iwpriv dev grp name));
       ret (case out of None \<Rightarrow> (-1, old)
            | Some o1 \<Rightarrow> (case strstr (gather (fgets_all 255 o1) []) ''[SUCC]'' of
                None \<Rightarrow> (-1, [])
              | Some pos \<Rightarrow> (let us = rows (drop 6 pos) in (if us = [] then -1 else 0, us)))) })"

definition slb_get_view_mcs_info :: "shell \<Rightarrow> int \<Rightarrow> string option \<Rightarrow> mcs_entry list \<Rightarrow> (int \<times> mcs_entry list) cmd" where
  "slb_get_view_mcs_info sh lmax dev old = user_table sh dev ''alg'' ''view_mcs'' (\<lambda>s. mcs_loop lmax s []) old"

definition rssi_line :: "int \<Rightarrow> string \<Rightarrow> rssi_user_info list \<Rightarrow> rssi_user_info list" where
  "rssi_line lmax l us = (if dropWhile (\<lambda>c. c = CHR '' '' \<or> c = CHR 0x09) l = [] then us
     else (case sscanf lmax ''%d %d %d %d'' l of
        [i, a, b, c] \<Rightarrow> if length us < 256 then us @ [\<lparr>ru_user_idx = i, ru_rssi = a, ru_rsrp = b, ru_snr = c\<rparr>] else us
      | _ \<Rightarrow> us))"

function rssi_loop :: "int \<Rightarrow> string \<Rightarrow> rssi_user_info list \<Rightarrow> rssi_user_info list" where
  "rssi_loop lmax s us = (case split_line s of None \<Rightarrow> us | Some (l, r) \<Rightarrow> rssi_loop lmax r (rssi_line lmax l us))"
  by pat_completeness auto
termination
  by (relation "measure (\<lambda>(m, s, us). length s)") (auto dest!: split_line_shorter)

declare rssi_loop.simps [simp del]

text \<open>The rest of the line of the tag is the heading.\<close>

definition slb_get_rssi_info :: "shell \<Rightarrow> int \<Rightarrow> string option \<Rightarrow> rssi_user_info list \<Rightarrow> (int \<times> rssi_user_info list) cmd" where
  "slb_get_rssi_info sh lmax dev old = user_table sh dev ''cfg'' ''get_rssi''
     (\<lambda>s. rssi_loop lmax (case split_line s of None \<Rightarrow> s | Some (h, r) \<Rightarrow> r) []) old"

section \<open>Joining and scanning\<close>

definition system_output_to_string :: "shell \<Rightarrow> string \<Rightarrow> string option cmd" where
  "system_output_to_string sh c = do {
     out \<leftarrow> pipe sh c;
     ret (case Option.bind out (\<lambda>o1. if fgets_all 1023 o1 = [] then None else Some (concat (fgets_all 1023 o1))) of
            None \<Rightarrow> None | Some s \<Rightarrow> Some s) }"

definition slb_t_node_scan :: "shell \<Rightarrow> string option \<Rightarrow> int cmd" where
  "slb_t_node_scan sh dev = (if \<not> is_valid_device_name dev then ret (-1)
     else run_setting sh (cbuf 64 (iwpriv dev ''cfg'' (quoted ''scan''))))"

definition slb_t_node_show_bss :: "shell \<Rightarrow> string option \<Rightarrow> string option cmd" where
  "slb_t_node_show_bss sh dev = (if \<not> is_valid_device_name dev then ret None
     else system_output_to_string sh (cbuf 64 (iwpriv dev ''cfg'' (quoted ''show_bss''))))"

definition slb_t_node_join_bssid :: "shell \<Rightarrow> string option \<Rightarrow> string \<Rightarrow> int cmd" where
  "slb_t_node_join_bssid sh dev mac = (if \<not> is_valid_device_name dev then ret (-1)
     else if length mac \<noteq> 17 then ret (-1)
     else run_setting sh (cbuf 64 (iwpriv dev ''cfg'' (quoted (''join_bssid '' @ mac)))))"

definition slb_t_node_start_join :: "shell \<Rightarrow> string option \<Rightarrow> int \<Rightarrow> int cmd" where
  "slb_t_node_start_join sh dev bss_idx = (if \<not> is_valid_device_name dev then ret (-1)
     else do {
       _ \<leftarrow> slb_ifconfig sh dev True;
       run_setting sh (cbuf 64 (iwpriv dev ''cfg'' (quoted (''start_join '' @ show_int bss_idx)))) })"

definition slb_view_user :: "shell \<Rightarrow> string option \<Rightarrow> int cmd" where
  "slb_view_user sh dev = (if \<not> is_valid_device_name dev then ret (-1)
     else run_setting sh (cbuf 64 (iwpriv dev ''cfg'' (quoted ''view_users''))))"

definition slb_node_view_users :: "shell \<Rightarrow> string option \<Rightarrow> string option cmd" where
  "slb_node_view_users sh dev = (if \<not> is_valid_device_name dev then ret None
     else system_output_to_string sh (cbuf 64 (iwpriv dev ''cfg'' (quoted ''view_users''))))"

text \<open>The checked name is not the one used; a traffic bandwidth that is too large is only logged.\<close>

definition slb_set_fisa_enable :: "shell \<Rightarrow> int \<Rightarrow> string option \<Rightarrow> int \<Rightarrow> int cmd" where
  "slb_set_fisa_enable sh lmax dev enable = (if \<not> is_valid_device_name dev then ret (-1)
     else if enable \<noteq> 0 then do {
       t \<leftarrow> slb_get_tfc_bw sh lmax dev;
       b \<leftarrow> slb_get_bw sh lmax dev;
       run_setting sh (cbuf 64 (iwpriv (Some net_vap_name) ''alg'' (quoted ''fisa enable''))) }
     else run_setting sh (cbuf 64 (iwpriv (Some net_vap_name) ''alg'' (quoted ''fisa disable''))))"

end
