(* ===== verification/SlbSettings.thy ===== *)
theory SlbSettings
  imports SlbInterface
begin

text \<open>
  What the setters and getters of SlbInterface do to the radio: the contract of a setting
  (\<open>accepted\<close>, \<open>setting_cmd\<close>) and the proof that every setter implements it, the name of the network,
  and that the getters read back what the driver prints.
\<close>

section \<open>Running programs\<close>

lemma run_sys [simp]: "run_state (sys sh c) tr = (sh_rc sh tr c, tr @ [c])"
  by (simp add: sys_def run_cmd_def)

lemma run_pipe [simp]:
  "run_state (pipe sh c) tr = (if sh_popen sh tr c then (Some (sh_out sh tr c), tr @ [c]) else (None, tr))"
  by (simp add: pipe_def)

lemma run_bind [simp]: "run_state (m \<bind> f) tr = (case run_state m tr of (a, tr1) \<Rightarrow> run_state (f a) tr1)"
  by (simp add: State_Monad.bind_def)

lemma run_run_setting [simp]:
  "run_state (run_setting sh c) tr = (if sh_rc sh tr c \<noteq> 0 then -1 else 0, tr @ [c])"
  by (simp add: run_setting_def)

section \<open>The contract of a setting\<close>

datatype setting = Channel int | Bw int | Tfc_bw int | Cc_start_pos int | Cell_id int | Range_opt int
  | Acs int | Exch_cap int | Tx_power int | Auth_pwd string | Mcs_bound mcs_bound | Mib mib_params

fun apply_setting :: "shell \<Rightarrow> string option \<Rightarrow> setting \<Rightarrow> int cmd" where
  "apply_setting sh dev (Channel i) = slb_set_channel sh dev i"
| "apply_setting sh dev (Bw i) = slb_set_bw sh dev i"
| "apply_setting sh dev (Tfc_bw i) = slb_set_tfc_bw sh dev i"
| "apply_setting sh dev (Cc_start_pos i) = slb_set_cc_start_pos sh dev i"
| "apply_setting sh dev (Cell_id i) = slb_set_cell_id sh dev i"
| "apply_setting sh dev (Range_opt i) = slb_set_range_opt sh dev i"
| "apply_setting sh dev (Acs i) = slb_set_acs_enable sh dev i"
| "apply_setting sh dev (Exch_cap i) = slb_set_sec_exch_cap sh dev i"
| "apply_setting sh dev (Tx_power i) = slb_set_tx_power sh dev i"
| "apply_setting sh dev (Auth_pwd p) = slb_set_sec_auth_pwd sh dev (Some p)"
| "apply_setting sh dev (Mcs_bound b) = slb_set_msc_bound sh dev b"
| "apply_setting sh dev (Mib p) = slb_set_mib_params sh dev p"

definition mib_accepted :: "mib_params \<Rightarrow> bool" where
  "mib_accepted p \<longleftrightarrow> 0 \<le> mp_cp_type p \<and> mp_cp_type p \<le> 3 \<and> 0 \<le> mp_sysmsg_period p \<and> mp_sysmsg_period p \<le> 3 \<and>
     0 \<le> mp_s_cfg_idx p \<and> mp_s_cfg_idx p \<le> 2 \<and> (if mp_s_cfg_idx p = 2 then 1 else 2) \<le> mp_symbol_type p \<and>
     mp_symbol_type p \<le> 6 - max 1 (mp_cp_type p)"

fun accepted :: "setting \<Rightarrow> bool" where
  "accepted (Channel i) \<longleftrightarrow> i \<in> set channels"
| "accepted (Bw i) \<longleftrightarrow> i \<in> {20, 40, 80}"
| "accepted (Tfc_bw i) \<longleftrightarrow> i \<in> {20, 40, 80}"
| "accepted (Cc_start_pos i) \<longleftrightarrow> 0 \<le> i \<and> i \<le> 3"
| "accepted (Cell_id i) \<longleftrightarrow> 0 \<le> i \<and> i \<le> 19"
| "accepted (Range_opt i) \<longleftrightarrow> i \<in> {0, 1}"
| "accepted (Acs i) \<longleftrightarrow> i \<in> {0, 1}"
| "accepted (Exch_cap i) \<longleftrightarrow> 1 \<le> i \<and> i \<le> 33"
| "accepted (Tx_power i) \<longleftrightarrow> -310 \<le> i \<and> i \<le> 250"
| "accepted (Auth_pwd p) \<longleftrightarrow> 8 \<le> length p \<and> length p \<le> 32 \<and> visible p"
| "accepted (Mcs_bound b) \<longleftrightarrow> length (mb_user_mac b) = 17 \<and> mb_min_mcs b \<in> {0..31} \<and> mb_max_mcs b \<in> {0..31}"
| "accepted (Mib p) \<longleftrightarrow> mib_accepted p"

fun setting_text :: "setting \<Rightarrow> string" where
  "setting_text (Channel i) = ''channel '' @ show_int i"
| "setting_text (Bw i) = ''bw '' @ show_int i"
| "setting_text (Tfc_bw i) = ''tfc_bw '' @ show_int i"
| "setting_text (Cc_start_pos i) = ''cc_start_pos '' @ show_int i"
| "setting_text (Cell_id i) = ''cell_id '' @ show_int i"
| "setting_text (Range_opt i) = ''range_opt '' @ show_int i"
| "setting_text (Acs i) = ''set_acs_enable '' @ show_int i"
| "setting_text (Exch_cap i) = ''set_sec_exch_cap '' @ show_int i"
| "setting_text (Tx_power i) = ''set_tx_power '' @ show_int i"
| "setting_text (Auth_pwd p) = ''set_sec_auth_pwd '' @ p"
| "setting_text (Mcs_bound b) = ''set_mcs_bound '' @ mb_user_mac b @ '' '' @ show_int (mb_min_mcs b) @ '' '' @ show_int (mb_max_mcs b)"
| "setting_text (Mib p) = ''set_mib_params '' @ show_int (mp_cp_type p) @ '' '' @ show_int (mp_symbol_type p) @ '' '' @
     show_int (mp_sysmsg_period p) @ '' '' @ show_int (mp_s_cfg_idx p)"

definition setting_group :: "setting \<Rightarrow> string" where
  "setting_group s = (case s of Tx_power _ \<Rightarrow> ''alg'' | Mcs_bound _ \<Rightarrow> ''alg'' | _ \<Rightarrow> ''cfg'')"

text \<open>The full command, and the command lines around it.\<close>

definition setting_cmd :: "setting \<Rightarrow> string" where
  "setting_cmd s = iwpriv (Some net_vap_name) (setting_group s) (quoted (setting_text s))"

definition needs_down :: "setting \<Rightarrow> bool" where
  "needs_down s = (case s of Channel _ \<Rightarrow> True | Bw _ \<Rightarrow> True | Tfc_bw _ \<Rightarrow> True | Cc_start_pos _ \<Rightarrow> True
     | Cell_id _ \<Rightarrow> True | Range_opt _ \<Rightarrow> True | Mib _ \<Rightarrow> True | _ \<Rightarrow> False)"

definition down_cmds :: "setting \<Rightarrow> string list" where
  "down_cmds s = (if needs_down s then [''ifconfig wt_vap0 down''] else [])"

definition up_cmds :: "setting \<Rightarrow> string list" where
  "up_cmds s = (case s of Mib _ \<Rightarrow> [''ifconfig wt_vap0 up''] | _ \<Rightarrow> [])"

section \<open>Lemmas\<close>

lemma length_show_int32: "int32 i \<Longrightarrow> length (show_int i) \<le> 11"
  using length_show_int [of i] by (simp add: int32_def)

lemma length_show_digit: "0 \<le> i \<Longrightarrow> i \<le> 9 \<Longrightarrow> length (show_int i) = Suc 0"
  by (simp add: show_int_def show_nat.simps)

lemma vap_ok [simp]: "dev_ok (Some net_vap_name)" "is_valid_device_name (Some net_vap_name)"
  by (simp_all add: dev_ok_def net_vap_name_def is_valid_device_name_def visible_def)

lemma run_ifconfig [simp]:
  "run_state (slb_ifconfig sh (Some net_vap_name) up) tr =
    (if sh_rc sh tr (if up then ''ifconfig wt_vap0 up'' else ''ifconfig wt_vap0 down'') \<noteq> 0 then -1 else 0,
     tr @ [if up then ''ifconfig wt_vap0 up'' else ''ifconfig wt_vap0 down''])"
  by (simp add: slb_ifconfig_def) (simp add: net_vap_name_def)

lemma channel_range: "i \<in> set channels \<Longrightarrow> int32 i"
  by (auto simp: channels_def int32_def)

lemma setting_cmd_fits: "accepted s \<Longrightarrow> length (setting_cmd s) < (case s of Auth_pwd _ \<Rightarrow> 128 | Mcs_bound _ \<Rightarrow> 128 | Exch_cap _ \<Rightarrow> 128 | _ \<Rightarrow> 64)"
proof (cases s)
  case (Mib p)
  assume "accepted s"
  with Mib have "length (show_int (mp_cp_type p)) = 1" "length (show_int (mp_symbol_type p)) = 1"
    "length (show_int (mp_sysmsg_period p)) = 1" "length (show_int (mp_s_cfg_idx p)) = 1"
    by (auto simp: mib_accepted_def max_def length_show_digit split: if_splits)
  with Mib show ?thesis by (simp add: setting_cmd_def setting_group_def iwpriv_def quoted_def net_vap_name_def)
next
  case (Mcs_bound b)
  assume "accepted s"
  with Mcs_bound show ?thesis
    using length_show_int32 [of "mb_min_mcs b"] length_show_int32 [of "mb_max_mcs b"]
    by (simp add: setting_cmd_def setting_group_def iwpriv_def quoted_def net_vap_name_def int32_def)
qed (use length_show_int32 channel_range in \<open>auto simp: setting_cmd_def setting_group_def iwpriv_def quoted_def net_vap_name_def int32_def
      intro!: le_less_trans [OF length_show_int32]\<close>)

lemma mib_checks:
  "mib_accepted p \<longleftrightarrow> \<not> (mp_cp_type p < 0 \<or> mp_cp_type p > 3) \<and> \<not> ((mp_cp_type p = 0 \<or> mp_cp_type p = 1) \<and> \<not> symbol_ok p 5) \<and>
     \<not> (mp_cp_type p = 2 \<and> \<not> symbol_ok p 4) \<and> \<not> (mp_cp_type p = 3 \<and> \<not> symbol_ok p 3) \<and>
     \<not> (mp_sysmsg_period p < 0 \<or> mp_sysmsg_period p > 3) \<and> \<not> (mp_s_cfg_idx p < 0 \<or> mp_s_cfg_idx p > 2)"
proof -
  consider "mp_cp_type p < 0 \<or> mp_cp_type p > 3" | "mp_cp_type p = 0" | "mp_cp_type p = 1" | "mp_cp_type p = 2" | "mp_cp_type p = 3"
    by linarith
  then show ?thesis by cases (auto simp: mib_accepted_def symbol_ok_def)
qed

lemma set_mib_eq:
  "slb_set_mib_params sh (Some net_vap_name) p = (if \<not> mib_accepted p then ret (-1) else do {
     r \<leftarrow> down_then sh (Some net_vap_name) (cbuf 64 (setting_cmd (Mib p)));
     if r \<noteq> 0 then ret (-1) else do { _ \<leftarrow> slb_ifconfig sh (Some net_vap_name) True; ret 0 } })"
  unfolding slb_set_mib_params_def mib_checks by (auto simp: setting_cmd_def setting_group_def)

text \<open>What a driver's one-line answer comes to.\<close>

lemma first_line_line: "CHR 0x0A \<notin> set l \<Longrightarrow> length l < n \<Longrightarrow> first_line n (l @ [CHR 0x0A]) = Some (l @ [CHR 0x0A])"
  using fgets_all_line [of l n "[]"] by (simp add: first_line_def)

lemma strstr_prefix: "strstr (pat @ s) pat = Some (pat @ s)"
  by (simp add: strstr_def)

lemma length_render: "length (render f vs) \<le> length f + 11 * length vs" if "\<forall>v \<in> set vs. int32 v"
  using that
proof (induction f vs rule: render.induct)
  case (4 f as)
  show ?case
  proof (cases as)
    case (Cons a r)
    with 4 have "length (render f r) \<le> length f + 11 * length r" by simp
    moreover have "length (show_int a) \<le> 11" using 4(2) Cons by (auto intro: length_show_int32)
    ultimately show ?thesis using Cons by simp
  qed simp
next
  case (2 f as)
  then show ?case by simp
next
  case (3 c f as)
  then show ?case by simp
qed auto

lemma newline_render: "(\<forall>c. Ch c \<in> set f \<longrightarrow> c \<noteq> CHR 0x0A) \<Longrightarrow> CHR 0x0A \<notin> set (render f vs)"
proof (induction f vs rule: render.induct)
  case (4 f as)
  have "CHR 0x0A \<notin> set (show_int a)" for a using show_int_not_space [of "CHR 0x0A" a] by (auto simp: isspace_def)
  with 4 show ?case by (auto split: list.splits)
qed auto

text \<open>An answer printed with the format the getter reads gives the values printed.\<close>

lemma get_fields_printed:
  assumes "separated (scan_fmt fmt)" "decimals (scan_fmt fmt) = k" "length vs = k" "\<forall>v \<in> set vs. int32 v" "2 ^ 31 - 1 \<le> lmax"
    and "length (scan_fmt fmt) + 11 * k < 1000" "\<forall>c. Ch c \<in> set (scan_fmt fmt) \<longrightarrow> c \<noteq> CHR 0x0A"
    and "sh_popen sh tr cmd" "sh_out sh tr cmd = ''[SUCC]'' @ render (scan_fmt fmt) vs @ [CHR 0x0A]" "cmd = cbuf 64 (iwpriv (Some net_vap_name) grp name)"
  shows "run_state (get_fields sh lmax (Some net_vap_name) grp name fmt k) tr = ((0, vs), tr @ [cmd])"
proof -
  let ?l = "''[SUCC]'' @ render (scan_fmt fmt) vs"
  have "CHR 0x0A \<notin> set ?l" using newline_render [OF assms(7)] by simp
  moreover have "length ?l < 1023" using length_render [OF assms(4), of "scan_fmt fmt"] assms(3,6) by simp
  ultimately have f: "first_line 1023 (?l @ [CHR 0x0A]) = Some (?l @ [CHR 0x0A])" by (rule first_line_line)
  have t: "strstr (''[SUCC]'' @ render (scan_fmt fmt) vs @ [CHR 0x0A]) ''[SUCC]'' = Some (''[SUCC]'' @ render (scan_fmt fmt) vs @ [CHR 0x0A])"
    by (rule strstr_prefix)
  have s: "sscanf lmax fmt (render (scan_fmt fmt) vs @ [CHR 0x0A]) = vs"
    by (rule sscanf_render) (use assms in \<open>auto simp: isdigit_def\<close>)
  show ?thesis using f t s assms(3,8,9) by (simp add: get_fields_def ask_def assms(10) [symmetric] Let_def)
qed

definition mib_fmt :: string where
  "mib_fmt = ''cp_type = %d, symbol_cfg = %d, sysmsg_period = %d, s_cfg_idx = %d''"

lemma mib_fmt_ok: "separated (scan_fmt mib_fmt)" "decimals (scan_fmt mib_fmt) = 4" "length (scan_fmt mib_fmt) < 100"
    "list_all (\<lambda>i. i \<noteq> Ch (CHR 0x0A)) (scan_fmt mib_fmt)"
  by (code_simp, code_simp, code_simp, code_simp)

definition mib_values :: "mib_params \<Rightarrow> int list" where
  "mib_values p = [mp_cp_type p, mp_symbol_type p, mp_sysmsg_period p, mp_s_cfg_idx p]"

text \<open>Digits read in base 16.\<close>

lemma read_xdigits_all: "(\<forall>c \<in> set h. is_xdigit c) \<Longrightarrow> snd (read_xdigits n h) = []"
  by (induction h arbitrary: n) (auto simp: is_xdigit_def split: option.splits)

lemma not_xdigit [simp]:
  "\<not> is_xdigit (CHR '']'')" "\<not> is_xdigit (CHR ''-'')" "\<not> is_xdigit (CHR ''+'')" "\<not> is_xdigit (CHR ''x'')" "\<not> is_xdigit (CHR ''X'')"
  by (simp_all add: is_xdigit_def xdigit_val_def tolower_def)

lemma xdigit_not_space: "is_xdigit c \<Longrightarrow> \<not> isspace c"
  by (auto simp: is_xdigit_def xdigit_val_def tolower_def isspace_def Let_def)

lemma xdigit_val_less: "xdigit_val c = Some d \<Longrightarrow> d < 16"
  by (auto simp: xdigit_val_def Let_def split: if_splits)

lemma read_xdigits_bound: "\<forall>c \<in> set h. is_xdigit c \<Longrightarrow> fst (read_xdigits n h) < (n + 1) * 16 ^ length h"
proof (induction h arbitrary: n)
  case (Cons c h)
  then obtain d where d: "xdigit_val c = Some d" by (auto simp: is_xdigit_def)
  have "fst (read_xdigits (16 * n + d) h) < (16 * n + d + 1) * 16 ^ length h" using Cons by simp
  also have "\<dots> \<le> (16 * n + 16) * 16 ^ length h" using xdigit_val_less [OF d] by (intro mult_right_mono) simp_all
  finally show ?case using d by (simp add: algebra_simps)
qed simp

lemma run_apply_setting:
  "run_state (apply_setting sh (Some net_vap_name) s) tr =
    (if \<not> accepted s then (-1, tr)
     else let tr1 = tr @ down_cmds s; good = (sh_rc sh tr1 (setting_cmd s) = 0)
          in (if good then 0 else -1, tr1 @ [setting_cmd s] @ (if good then up_cmds s else [])))"
proof (cases "accepted s")
  case True
  note fits = setting_cmd_fits [OF this]
  with True show ?thesis
  proof (cases s)
    case (Mib p)
    with fits True show ?thesis
      by (simp add: set_mib_eq down_then_def down_cmds_def needs_down_def up_cmds_def Let_def)
  qed (auto simp: down_then_def down_cmds_def needs_down_def up_cmds_def Let_def setting_cmd_def setting_group_def
      slb_set_channel_def slb_set_bw_def slb_set_tfc_bw_def slb_set_cc_start_pos_def slb_set_cell_id_def slb_set_range_opt_def
      slb_set_acs_enable_def slb_set_sec_exch_cap_def slb_set_tx_power_def slb_set_sec_auth_pwd_def slb_set_msc_bound_def)
next
  case False
  then show ?thesis
    by (cases s) (auto simp: set_mib_eq
      slb_set_channel_def slb_set_bw_def slb_set_tfc_bw_def slb_set_cc_start_pos_def slb_set_cell_id_def slb_set_range_opt_def
      slb_set_acs_enable_def slb_set_sec_exch_cap_def slb_set_tx_power_def slb_set_sec_auth_pwd_def slb_set_msc_bound_def)
qed

section \<open>Properties\<close>


text \<open>The network's name goes into the command as it is: up to 36 visible characters appear unchanged
  between the quotes, whatever they mean to the shell; from the 37th on the buffer of 64
  bytes cuts the command and the closing quote is lost.\<close>

theorem essid_command:
  assumes "visible e" "e \<noteq> []" "length e \<le> 128"
  shows "\<exists>r. run_state (slb_set_essid sh (Some net_vap_name) (Some e)) tr =
    (r, tr @ [''ifconfig wt_vap0 down'', ''iwpriv wt_vap0 cfg '' @ [CHR 0x22] @ ''essid '' @ take 37 e @
       (if length e \<le> 36 then [CHR 0x22] else [])])"
  using assms by (auto simp: slb_set_essid_def down_then_def cbuf_def iwpriv_def quoted_def net_vap_name_def [symmetric])
    (auto simp: net_vap_name_def)

text \<open>The parameters of the MIB are read back as they were set: when the driver prints values in the
  form the getter reads, the getter returns exactly these.\<close>

theorem mib_params_roundtrip:
  assumes "mib_accepted p" "2 ^ 31 - 1 \<le> lmax" "sh_popen sh tr ''iwpriv wt_vap0 cfg get_mib_params''"
    and "sh_out sh tr ''iwpriv wt_vap0 cfg get_mib_params'' = ''[SUCC]'' @ render (scan_fmt mib_fmt) (mib_values p) @ [CHR 0x0A]"
  shows "run_state (slb_get_mib_params sh lmax (Some net_vap_name) old) tr = ((0, p), tr @ [''iwpriv wt_vap0 cfg get_mib_params''])"
proof -
  have c: "''iwpriv wt_vap0 cfg get_mib_params'' = cbuf 64 (iwpriv (Some net_vap_name) ''cfg'' ''get_mib_params'')"
    by (simp add: iwpriv_def net_vap_name_def)
  have v: "\<forall>v \<in> set (mib_values p). int32 v"
    using assms(1) by (auto simp: mib_values_def mib_accepted_def int32_def split: if_splits)
  have "\<forall>c. Ch c \<in> set (scan_fmt mib_fmt) \<longrightarrow> c \<noteq> CHR 0x0A" using mib_fmt_ok(4) by (auto simp: list_all_iff)
  with mib_fmt_ok v assms(2-4) have "run_state (get_fields sh lmax (Some net_vap_name) ''cfg'' ''get_mib_params'' mib_fmt 4) tr =
      ((0, mib_values p), tr @ [''iwpriv wt_vap0 cfg get_mib_params''])"
    by (intro get_fields_printed [OF _ _ _ _ _ _ _ _ _ c]) (auto simp: mib_values_def)
  then show ?thesis
    by (simp add: slb_get_mib_params_def mib_fmt_def [symmetric] mib_values_def)
qed

text \<open>The exchange capability loses its first hexadecimal digit: the tag is 15 bytes long and the code
  skips 16, so what is returned is the number of the remaining digits.\<close>

theorem exch_cap_drops_digit:
  assumes "is_xdigit d" "\<forall>c \<in> set h. is_xdigit c" "h \<noteq> []" "length h < 8" "2 ^ 31 - 1 \<le> lmax"
  shows "parse_exch_cap lmax (''key_exch_cap[0x'' @ d # h @ '']'' @ rest) = int (fst (read_xdigits 0 h))"
proof -
  let ?n = "fst (read_xdigits 0 h)"
  have r: "snd (read_xdigits 0 h) = []" by (rule read_xdigits_all [OF assms(2)])
  have "?n < 16 ^ length h" using read_xdigits_bound [OF assms(2), of 0] by simp
  also have "\<dots> \<le> (16 :: nat) ^ 7" using assms(4) by (intro power_increasing) auto
  finally have n: "int ?n < 2 ^ 28" by simp
  obtain c t where h: "h = c # t" "is_xdigit c" using assms(2,3) by (cases h) auto
  have ne: "c \<noteq> CHR ''-''" "c \<noteq> CHR ''+''" "\<forall>x \<in> set h. x \<noteq> CHR '']''" using assms(2) h by auto
  have "drop_0x h = h"
  proof (cases t)
    case (Cons x u)
    then have "is_xdigit x" using assms(2) h by simp
    then have "tolower x \<noteq> CHR ''x''" by (auto simp: is_xdigit_def xdigit_val_def)
    then show ?thesis using h Cons by (simp add: drop_0x_def)
  qed (simp add: drop_0x_def h)
  moreover have "ltrim h = h" "sign_split h = (False, h)" "is_xdigit (hd h)"
    using h ne xdigit_not_space [OF h(2)] by (simp_all add: sign_split_def)
  moreover have "clamp lmax (int ?n) = int ?n" using n assms(5) by (simp add: clamp_def)
  ultimately have "strtol16 lmax h = (int ?n, [])" using assms(3) r
    by (simp add: strtol16_def Let_def case_prod_beta)
  moreover have "takeWhile (\<lambda>c. c \<noteq> CHR '']'') (h @ '']'' @ rest) = h" using ne(3) by (simp add: takeWhile_tail)
  moreover have "strstr (''key_exch_cap[0x'' @ d # h @ '']'' @ rest) ''key_exch_cap[0x'' = Some (''key_exch_cap[0x'' @ d # h @ '']'' @ rest)"
    by (rule strstr_prefix)
  ultimately show ?thesis using n assms(4) by (simp add: parse_exch_cap_def)
qed

section \<open>Witnesses\<close>

theorem essid_command_witness:
  "\<exists>sh r. run_state (slb_set_essid sh (Some net_vap_name) (Some ''$(id)'')) [] =
    (r, [''ifconfig wt_vap0 down'', ''iwpriv wt_vap0 cfg '' @ [CHR 0x22] @ ''essid $(id)'' @ [CHR 0x22]])"
proof -
  let ?sh = "\<lparr>sh_popen = (\<lambda>_ _. True), sh_rc = (\<lambda>_ _. 0), sh_out = (\<lambda>_ _. [])\<rparr>"
  show ?thesis by (rule exI [of _ ?sh]) (use essid_command [of "''$(id)''" ?sh "[]"] in \<open>simp add: visible_def\<close>)
qed

theorem mib_params_roundtrip_witness:
  "\<exists>sh. run_state (slb_get_mib_params sh (2 ^ 63 - 1) (Some net_vap_name) \<lparr>mp_cp_type = 9, mp_symbol_type = 9, mp_sysmsg_period = 9, mp_s_cfg_idx = 9\<rparr>) [] = ((0, \<lparr>mp_cp_type = 0, mp_symbol_type = 5, mp_sysmsg_period = 1, mp_s_cfg_idx = 0\<rparr>), [''iwpriv wt_vap0 cfg get_mib_params''])"
proof -
  let ?p = "\<lparr>mp_cp_type = 0, mp_symbol_type = 5, mp_sysmsg_period = 1, mp_s_cfg_idx = 0\<rparr>"
  let ?sh = "\<lparr>sh_popen = (\<lambda>_ _. True), sh_rc = (\<lambda>_ _. 0), sh_out = (\<lambda>_ _. ''[SUCC]'' @ render (scan_fmt mib_fmt) (mib_values ?p) @ [CHR 0x0A])\<rparr>"
  show ?thesis using mib_params_roundtrip [of ?p "2 ^ 63 - 1" ?sh "[]"] by (intro exI [of _ ?sh]) (simp add: mib_accepted_def)
qed

theorem exch_cap_drops_digit_witness: "parse_exch_cap (2 ^ 63 - 1) ''key_exch_cap[0x00000021]'' = 33 \<and> parse_exch_cap (2 ^ 63 - 1) ''key_exch_cap[0x21]'' = 1"
proof
  show "parse_exch_cap (2 ^ 63 - 1) ''key_exch_cap[0x00000021]'' = 33"
    using exch_cap_drops_digit [of "CHR ''0''" "''0000021''" "2 ^ 63 - 1" "[]"] by (simp add: is_xdigit_def xdigit_val_def tolower_def)
  show "parse_exch_cap (2 ^ 63 - 1) ''key_exch_cap[0x21]'' = 1"
    using exch_cap_drops_digit [of "CHR ''2''" "''1''" "2 ^ 63 - 1" "[]"] by (simp add: is_xdigit_def xdigit_val_def tolower_def)
qed

end
