(* ===== verification/SlbNode.thy ===== *)
theory SlbNode
  imports SlbSettings CfgManager CJson "HOL-Library.Sublist"
begin

unbundle bit_operations_syntax

text \<open>
  Bringing the node up (the rest of slal/slb/wtsl_core_slb_interface.c and wtsl_core.c): the
  default parameters with a random MAC address, the start and the reconfiguration of the radio,
  the reading back of the radio's state, the bridge, and the address written for the web page.
\<close>

section \<open>Interfaces of the kernel\<close>

text \<open>The names in \<open>/sys/class/net\<close>: how many are \<open>wt_vap0\<close> to \<open>wt_vap5\<close>.\<close>

definition is_wt_vap :: "string \<Rightarrow> bool" where
  "is_wt_vap d \<longleftrightarrow> strneq 6 d ''wt_vap'' \<and>
     (case drop 6 d of [c] \<Rightarrow> 48 \<le> (of_char c :: nat) \<and> (of_char c :: nat) \<le> 53 | _ \<Rightarrow> False)"

definition get_wt_vap_interface_count :: "string list option \<Rightarrow> int" where
  "get_wt_vap_interface_count dir = (case dir of None \<Rightarrow> -1
   | Some ds \<Rightarrow> (let count = int (length (filter is_wt_vap ds)) in
       if count = 0 then -1 else if count = 1 then 0 else count))"

definition load_kernel_module :: "shell \<Rightarrow> string \<Rightarrow> int cmd" where
  "load_kernel_module sh path = sys sh (cbuf 256 (''insmod '' @ path))"

definition modules :: "string list" where
  "modules = [''ksecurec.ko'', ''plat_gf61.ko'', ''gt_gf61.ko'', ''hi_cipherserver.ko'']"

fun load_modules :: "shell \<Rightarrow> string list \<Rightarrow> unit cmd" where
  "load_modules sh [] = ret ()"
| "load_modules sh (m # ms) = do { _ \<leftarrow> load_kernel_module sh m; load_modules sh ms }"

section \<open>A random MAC address\<close>

text \<open>\<open>sprintf\<close> at an offset of a block of memory: the text and its terminator must lie inside.\<close>

definition put_str :: "nat \<Rightarrow> string \<Rightarrow> string \<Rightarrow> string option" where
  "put_str off s buf = (if off + length s < length buf
     then Some (take off buf @ s @ [CHR 0x00] @ drop (off + length s + 1) buf) else None)"

definition hex_digit :: "nat \<Rightarrow> char" where
  "hex_digit n = char_of (if n < 10 then 48 + n else 55 + n)"

text \<open>\<open>%02X\<close> of a byte.\<close>

definition hex2 :: "8 word \<Rightarrow> string" where
  "hex2 b = [hex_digit (unat b div 16), hex_digit (unat b mod 16)]"

definition mac_byte :: "nat \<Rightarrow> int \<Rightarrow> 8 word" where
  "mac_byte i r = (let b = word_of_int r in if i = 0 then (b AND 0xFE) OR 0x02 else b)"

fun mac_loop :: "nat \<Rightarrow> int list \<Rightarrow> string \<Rightarrow> string option" where
  "mac_loop i [] buf = Some buf"
| "mac_loop i (r # rs) buf = do { b \<leftarrow> put_str (i * 3) (hex2 (mac_byte i r) @ '':'') buf; mac_loop (Suc i) rs b }"

text \<open>\<open>rs\<close> are the six numbers of \<open>rand\<close>.\<close>

definition generate_random_mac :: "int list \<Rightarrow> string \<Rightarrow> string option" where
  "generate_random_mac rs buf = do {
     b \<leftarrow> mac_loop 0 rs buf;
     if 17 < length b then Some (b[17 := CHR 0x00]) else None }"

definition cstring :: "string \<Rightarrow> string" where
  "cstring b = takeWhile (\<lambda>c. c \<noteq> CHR 0x00) b"

section \<open>Default parameters\<close>

text \<open>\<open>buf\<close> is the memory \<open>malloc(18)\<close> gave, with the bytes usable after it; the advanced parameters are
  what \<open>malloc\<close> left in them.\<close>

definition default_basic :: "string \<Rightarrow> basic_info \<Rightarrow> basic_info" where
  "default_basic mac n = n\<lparr>
     bi_bw := 20, bi_tfc_bw := 20, bi_channel := 2479, bi_mac := mac, bi_type := node_type_code Node_Slb_T,
     bi_ip := ''192.168.99.1'', bi_name := ''tnode_000'', bi_log_port := 6025, bi_net_manage_ip := ''192.168.1.1'',
     bi_auto_join_net_flag := 0,
     bi_bridge_interfaces := (bi_bridge_interfaces n)[0 := net_vap_name, 1 := ''usb0'', 2 := ''eth0''],
     bi_bridge_interface_num := 3, bi_dhcp_enable := 1, bi_aifh_enable := 0,
     bi_sle_type := node_type_code Node_Sle_T, bi_sle_name := ''sle_t001'',
     bi_sle_enable := 1, bi_trans_tcp_port := 9981, bi_trans_udp_port := 9982\<rparr>"

definition default_adv :: "adv_info \<Rightarrow> adv_info" where
  "default_adv a = a\<lparr>
     ai_mcs_bound_table := (ai_mcs_bound_table a)[0 := \<lparr>mb_user_mac = ''00:00:00:00:00:00'', mb_min_mcs = 6, mb_max_mcs = 30\<rparr>],
     ai_password := ''12345678'', ai_power := 250, ai_devid := 0, ai_cell_id := 9, ai_cc_offset := 0,
     ai_mib_params := \<lparr>mp_cp_type = 0, mp_symbol_type = 2, mp_sysmsg_period = 1, mp_s_cfg_idx = 2\<rparr>,
     ai_sec_exch_cap := 0x21, ai_fisa_enable := 0\<rparr>"

definition param_default :: "int list \<Rightarrow> string option \<Rightarrow> splink_info \<times> adv_info \<Rightarrow> (splink_info \<times> adv_info) option" where
  "param_default rs buf g = (case g of (sp, adv) \<Rightarrow> do {
     b \<leftarrow> buf;
     m \<leftarrow> generate_random_mac rs b;
     let n = default_basic (cstring m) (basic_info (node_info sp));
     Some (sp\<lparr>node_info := (node_info sp)\<lparr>basic_info := n\<rparr>, sp_node_type := sp_code SP_TNODE\<rparr>, default_adv adv) })"

section \<open>The bridge\<close>

text \<open>The result is False when the loop runs past the array of names.\<close>

fun bridge_loop :: "shell \<Rightarrow> string \<Rightarrow> nat \<Rightarrow> string list \<Rightarrow> bool cmd" where
  "bridge_loop sh br 0 ifs = ret True"
| "bridge_loop sh br (Suc n) ifs = (case ifs of [] \<Rightarrow> ret False
   | i # r \<Rightarrow> do {
       _ \<leftarrow> sys sh (cbuf 128 (''ifconfig '' @ i @ '' 0.0.0.0''));
       _ \<leftarrow> sys sh (cbuf 128 (''brctl addif '' @ br @ '' '' @ i));
       bridge_loop sh br n r })"

definition init_net_bridge :: "shell \<Rightarrow> basic_info \<Rightarrow> string \<Rightarrow> string \<Rightarrow> int option cmd" where
  "init_net_bridge sh node br ip = do {
     _ \<leftarrow> sys sh (cbuf 128 (''brctl addbr '' @ br));
     ok \<leftarrow> bridge_loop sh br (nat (bi_bridge_interface_num node)) (bi_bridge_interfaces node);
     if \<not> ok then ret None else do {
       _ \<leftarrow> sys sh (cbuf 128 (''ip link set dev '' @ br @ '' address $(cat /sys/class/net/'' @ net_vap_name @ ''/address)''));
       _ \<leftarrow> sys sh (cbuf 128 (''ifconfig '' @ br @ '' '' @ ip));
       ret (Some 0) } }"

section \<open>Starting the radio\<close>

text \<open>The loop over the MCS table goes on while the address has not 17 characters; False when it runs past the table.\<close>

fun mcs_bounds :: "shell \<Rightarrow> mcs_bound list \<Rightarrow> bool cmd" where
  "mcs_bounds sh [] = ret False"
| "mcs_bounds sh (b # bs) = (if length (mb_user_mac b) = 17 then ret True
     else do { _ \<leftarrow> slb_set_msc_bound sh (Some net_vap_name) b; mcs_bounds sh bs })"

datatype glob_result = Glob_Found string | Glob_NoMatch | Glob_Error

text \<open>What the start finds in the file system: the old firmware directory, whether \<open>chdir\<close> works, the scripts,
  the names of the network interfaces after the commands run so far.\<close>

record boot_env =
  be_old_dir :: bool
  be_chdir :: bool
  be_glob :: glob_result
  be_net :: "string list \<Rightarrow> string list option"

definition vap_count :: "boot_env \<Rightarrow> int cmd" where
  "vap_count e = do { tr \<leftarrow> State_Monad.get; ret (get_wt_vap_interface_count (be_net e tr)) }"

definition copy_firmware :: "shell \<Rightarrow> boot_env \<Rightarrow> int cmd" where
  "copy_firmware sh e = sys sh (cbuf 128 (''cp -rf '' @ (if be_old_dir e then ''/home/firmware'' else ''/home/wt/firmware'') @ ''/* /tmp/''))"

definition platform_script :: "shell \<Rightarrow> boot_env \<Rightarrow> int cmd" where
  "platform_script sh e = (case be_glob e of
     Glob_Found f \<Rightarrow>
       if contains f ''AutoScripts_hi.sh'' then sys sh (cbuf 64 ''chmod +x /tmp/AutoScripts_hi.sh && /tmp/AutoScripts_hi.sh hi'')
       else if contains f ''AutoScripts_rk.sh'' then sys sh (cbuf 64 ''chmod +x /tmp/AutoScripts_rk.sh && /tmp/AutoScripts_rk.sh rk'')
       else ret 0
   | Glob_NoMatch \<Rightarrow> sys sh (cbuf 64 ''chmod +x /tmp/AutoScripts*.sh && /tmp/AutoScripts*.sh default'')
   | Glob_Error \<Rightarrow> ret 0)"

text \<open>The settings of the start, after the device exists.  The result is None after a memory fault.\<close>

definition init_radio :: "shell \<Rightarrow> int \<Rightarrow> boot_env \<Rightarrow> basic_info \<Rightarrow> adv_info \<Rightarrow> (int \<times> adv_info) option cmd" where
  "init_radio sh lmax e n a = (let vap = Some net_vap_name in do {
     _ \<leftarrow> slb_ifconfig sh vap False;
     _ \<leftarrow> slb_set_channel sh vap (bi_channel n);
     _ \<leftarrow> slb_set_bw sh vap (bi_bw n);
     _ \<leftarrow> slb_set_tfc_bw sh vap (bi_tfc_bw n);
     ok \<leftarrow> mcs_bounds sh (ai_mcs_bound_table a);
     if \<not> ok then ret None else do {
     _ \<leftarrow> slb_set_cc_start_pos sh vap (ai_cc_offset a);
     _ \<leftarrow> slb_set_cell_id sh vap (ai_cell_id a);
     _ \<leftarrow> slb_set_essid sh vap (Some (bi_name n));
     _ \<leftarrow> slb_set_mib_params sh vap (ai_mib_params a);
     _ \<leftarrow> slb_set_tx_power sh vap (ai_power a);
     _ \<leftarrow> slb_set_fisa_enable sh lmax vap (ai_fisa_enable a);
     _ \<leftarrow> slb_set_sec_auth_pwd sh vap (Some (ai_password a));
     _ \<leftarrow> (if bi_type n = node_type_code Node_Slb_G then slb_set_acs_enable sh vap (bi_aifh_enable n) else ret 0);
     b \<leftarrow> init_net_bridge sh n net_bridge_name (bi_ip n);
     if b = None then ret None else do {
     _ \<leftarrow> slb_ifconfig sh vap True;
     _ \<leftarrow> (if bi_type n = 1 then slb_set_sec_exch_cap sh vap (ai_sec_exch_cap a) else ret 0);
     c \<leftarrow> vap_count e;
     ret (Some (0, a\<lparr>ai_devid := c\<rparr>)) } } })"

definition init_node :: "shell \<Rightarrow> int \<Rightarrow> boot_env \<Rightarrow> basic_info \<Rightarrow> adv_info \<Rightarrow> (int \<times> adv_info) option cmd" where
  "init_node sh lmax e n a = do {
     _ \<leftarrow> copy_firmware sh e;
     if \<not> be_chdir e then ret (Some (-1, a)) else do {
     _ \<leftarrow> sys sh ''cp preResForSLDev.bin /home/cli/'';
     _ \<leftarrow> sys sh ''chmod +x /home/cli/preResForSLDev.bin'';
     _ \<leftarrow> platform_script sh e;
     _ \<leftarrow> load_modules sh modules;
     _ \<leftarrow> slb_create_device sh (Some net_vap_name) (bi_type n);
     _ \<leftarrow> set_mac_address sh (Some net_vap_name) (Some (bi_mac n));
     _ \<leftarrow> sys sh ''chmod +x uspd'';
     _ \<leftarrow> sys sh ''./uspd &'';
     init_radio sh lmax e n a } }"


section \<open>Reconfiguring the radio\<close>

text \<open>The order of the two bandwidths depends on the one in force.\<close>

definition set_bandwidths :: "shell \<Rightarrow> int \<Rightarrow> int \<Rightarrow> int \<Rightarrow> int cmd" where
  "set_bandwidths sh lmax bw tfc_bw = (let vap = Some net_vap_name in do {
     cur \<leftarrow> slb_get_bw sh lmax vap;
     if bw \<ge> cur then do { _ \<leftarrow> slb_set_bw sh vap bw; slb_set_tfc_bw sh vap tfc_bw }
     else do { _ \<leftarrow> slb_set_tfc_bw sh vap tfc_bw; slb_set_bw sh vap bw } })"

text \<open>The web page's configuration: a file that cannot be opened for writing is written through NULL.\<close>

definition create_default_js_config_jsonstr :: "cjson \<Rightarrow> int \<Rightarrow> string \<Rightarrow> string" where
  "create_default_js_config_jsonstr cj port ipstr = cj_print cj (JObj [(''serverip'', JStr ipstr), (''port'', JNum port)])"

definition sync_ip_to_js_cfg :: "cjson \<Rightarrow> int \<Rightarrow> bool \<Rightarrow> string option \<Rightarrow> basic_info option \<Rightarrow> string option \<Rightarrow> (int \<times> string option) option" where
  "sync_ip_to_js_cfg cj port opens path param file = (case (path, param) of
     (Some _, Some n) \<Rightarrow> if opens then Some (0, Some (create_default_js_config_jsonstr cj port (bi_ip n))) else None
   | _ \<Rightarrow> Some (-1, file))"

text \<open>\<open>jt\<close> is what the uninitialised \<open>type\<close> holds, \<open>web\<close> the outcome of writing the page's configuration.\<close>

definition stored_type :: "cfg_env \<Rightarrow> int \<Rightarrow> int" where
  "stored_type c jt = (case config_get_int (ce_lmax c) (ce_jk c) (ce_jv c) (ce_js c) ''TYPE'' True (ce_file c) of
     (CONFIG_SUCCESS, Some v) \<Rightarrow> v
   | (r, _) \<Rightarrow> if r = CONFIG_ERROR_NOT_FOUND then node_type_code Node_Slb_T else jt)"

definition set_node :: "shell \<Rightarrow> cfg_env \<Rightarrow> int \<Rightarrow> boot_env \<Rightarrow> (int \<times> string option) option \<Rightarrow> basic_info \<Rightarrow> adv_info
    \<Rightarrow> (int \<times> adv_info \<times> string option) option cmd" where
  "set_node sh c jt e web n a = (let vap = Some net_vap_name in do {
     _ \<leftarrow> slb_ifconfig sh vap False;
     _ \<leftarrow> slb_set_channel sh vap (bi_channel n);
     _ \<leftarrow> set_bandwidths sh (ce_lmax c) (bi_bw n) (bi_tfc_bw n);
     ok \<leftarrow> mcs_bounds sh (ai_mcs_bound_table a);
     if \<not> ok then ret None else do {
     _ \<leftarrow> slb_set_cc_start_pos sh vap (ai_cc_offset a);
     _ \<leftarrow> slb_set_cell_id sh vap (ai_cell_id a);
     _ \<leftarrow> slb_set_essid sh vap (Some (bi_name n));
     _ \<leftarrow> slb_set_mib_params sh vap (ai_mib_params a);
     _ \<leftarrow> slb_set_sec_auth_pwd sh vap (Some (ai_password a));
     _ \<leftarrow> (if bi_type n = node_type_code Node_Slb_T then slb_set_sec_exch_cap sh vap (ai_sec_exch_cap a) else ret 0);
     _ \<leftarrow> slb_set_sec_exch_cap sh vap (ai_sec_exch_cap a);
     _ \<leftarrow> slb_set_range_opt sh vap (ai_range_opt a);
     _ \<leftarrow> slb_set_fisa_enable sh (ce_lmax c) vap (ai_fisa_enable a);
     _ \<leftarrow> (if bi_type n = node_type_code Node_Slb_G then slb_set_acs_enable sh vap (bi_aifh_enable n) else ret 0);
     b \<leftarrow> init_net_bridge sh n net_bridge_name (bi_ip n);
     if b = None then ret None else do {
     _ \<leftarrow> slb_ifconfig sh vap True;
     case web of None \<Rightarrow> ret None | Some (w, file) \<Rightarrow> do {
     d \<leftarrow> vap_count e;
     _ \<leftarrow> slb_set_tx_power sh vap (ai_power a);
     _ \<leftarrow> (if stored_type c jt \<noteq> bi_type n then sys sh ''reboot'' else ret 0);
     ret (Some (0, a\<lparr>ai_devid := d\<rparr>, file)) } } } })"

section \<open>Reading the radio back\<close>

definition sync_advinfo :: "shell \<Rightarrow> int \<Rightarrow> boot_env \<Rightarrow> basic_info \<Rightarrow> adv_info \<Rightarrow> (basic_info \<times> adv_info) cmd" where
  "sync_advinfo sh lmax e n a = (let vap = Some net_vap_name in do {
     cc \<leftarrow> slb_get_cc_start_pos sh lmax vap;
     ce \<leftarrow> slb_get_cell_id sh lmax vap;
     d \<leftarrow> vap_count e;
     ct \<leftarrow> slb_get_chip_temperature sh lmax vap;
     ro \<leftarrow> slb_get_range_opt sh lmax vap;
     acs \<leftarrow> slb_get_acs_enable sh lmax vap;
     (mr, mib) \<leftarrow> slb_get_mib_params sh lmax vap \<lparr>mp_cp_type = 0, mp_symbol_type = 0, mp_sysmsg_period = 0, mp_s_cfg_idx = 0\<rparr>;
     xc \<leftarrow> slb_get_sec_exch_cap sh lmax vap;
     sc \<leftarrow> slb_get_sec_sec_cap sh lmax vap;
     lce \<leftarrow> (if bi_type n = node_type_code Node_Slb_G then slb_get_lce_mode sh lmax vap else ret (ai_lce_mode a));
     pps \<leftarrow> slb_get_pps_switch sh lmax vap;
     (tr, ts) \<leftarrow> slb_get_timestamp_cnt sh lmax vap (0, 0);
     (wr, wds) \<leftarrow> slb_get_wds_mode sh lmax vap (0, 0);
     (ur, mcs) \<leftarrow> slb_get_view_mcs_info sh lmax vap [];
     (pr, pow) \<leftarrow> slb_get_real_power sh lmax vap (0, 0);
     (sr, rssi) \<leftarrow> slb_get_rssi_info sh lmax vap [];
     fem \<leftarrow> slb_fem_check sh vap;
     ret (n\<lparr>bi_aifh_enable := acs\<rparr>, a\<lparr>
       ai_cc_offset := cc, ai_cell_id := ce, ai_devid := d, ai_chip_temperature := ct, ai_range_opt := ro,
       ai_mib_params := (if mr = 0 then mib else ai_mib_params a),
       ai_sec_exch_cap := xc, ai_sec_sec_cap := sc, ai_lce_mode := lce, ai_pps_enable := pps,
       ai_slb_cnt := (if tr = 0 then fst ts else ai_slb_cnt a), ai_glb_cnt := (if tr = 0 then snd ts else ai_glb_cnt a),
       ai_wds_enable := (if wr = 0 then fst wds else ai_wds_enable a), ai_wds_mode := (if wr = 0 then snd wds else ai_wds_mode a),
       ai_user_mcs := (if ur = 0 then mcs else ai_user_mcs a),
       ai_real_pow := (if pr = 0 then fst pow else ai_real_pow a), ai_exp_pow := (if pr = 0 then snd pow else ai_exp_pow a),
       ai_user_rssi := (if sr = 0 then rssi else ai_user_rssi a),
       ai_fem_check := (case fem of None \<Rightarrow> ai_fem_check a | Some f \<Rightarrow> cbuf 16 f)\<rparr>) })"

section \<open>The main program\<close>

text \<open>The start of \<open>wtsl_core_main\<close>: defaults, the configuration file, the lamp of the node's role, the radio.\<close>

definition role_lamp :: "shell \<Rightarrow> int \<Rightarrow> int cmd" where
  "role_lamp sh ty = (if ty = node_type_code Node_Slb_G then sys sh ''echo 1 > /sys/class/gpio/gpio419/value''
     else if ty = node_type_code Node_Slb_T then sys sh ''echo 0 > /sys/class/gpio/gpio419/value'' else ret 0)"

definition wtsl_core_start :: "shell \<Rightarrow> cfg_env \<Rightarrow> boot_env \<Rightarrow> int list \<Rightarrow> string option \<Rightarrow> splink_info \<Rightarrow> adv_info
    \<Rightarrow> (splink_info \<times> adv_info) option cmd" where
  "wtsl_core_start sh c e rs buf sp a = (case Option.bind (param_default rs buf (sp, a)) (config_read c) of
     None \<Rightarrow> ret None
   | Some (sp1, a1) \<Rightarrow> (let n = basic_info (node_info sp1) in do {
       _ \<leftarrow> role_lamp sh (bi_type n);
       r \<leftarrow> init_node sh (ce_lmax c) e n a1;
       ret (map_option (\<lambda>(_, a2). (sp1, a2)) r) }))"

text \<open>The result and the run flag.\<close>

definition wtsl_core_release :: "shell \<Rightarrow> (int \<times> int) cmd" where
  "wtsl_core_release sh = do {
     _ \<leftarrow> sys sh ''killall udhcpc''; _ \<leftarrow> sys sh ''killall udhcpd''; _ \<leftarrow> sys sh ''killall uspd''; ret (0, 0) }"

section \<open>Settings in order\<close>

text \<open>A program issues the commands \<open>cs\<close>, in this order and perhaps among others, and its result satisfies \<open>R\<close>.\<close>

definition issues :: "'a cmd \<Rightarrow> string list \<Rightarrow> ('a \<Rightarrow> bool) \<Rightarrow> bool" where
  "issues m cs R \<longleftrightarrow> (\<forall>tr. \<exists>a ds. run_state m tr = (a, tr @ ds) \<and> subseq cs ds \<and> R a)"

abbreviation quiet :: "'a cmd \<Rightarrow> bool" where
  "quiet m \<equiv> issues m [] (\<lambda>_. True)"

named_theorems quiet_rules

lemma issuesI: "(\<And>tr. \<exists>a ds. run_state m tr = (a, tr @ ds) \<and> subseq cs ds \<and> R a) \<Longrightarrow> issues m cs R"
  by (simp add: issues_def)

lemma issuesE: "issues m cs R \<Longrightarrow> (\<And>a ds. run_state m tr = (a, tr @ ds) \<Longrightarrow> subseq cs ds \<Longrightarrow> R a \<Longrightarrow> thesis) \<Longrightarrow> thesis"
  unfolding issues_def by blast

lemma issues_bind:
  assumes "issues m cs R" "\<And>a. R a \<Longrightarrow> issues (f a) ds S"
  shows "issues (m \<bind> f) (cs @ ds) S"
proof (rule issuesI)
  fix tr
  obtain a es where m: "run_state m tr = (a, tr @ es)" "subseq cs es" "R a" by (rule issuesE [OF assms(1)])
  obtain b fs where f: "run_state (f a) (tr @ es) = (b, (tr @ es) @ fs)" "subseq ds fs" "S b"
    by (rule issuesE [OF assms(2) [OF m(3)]])
  from m f show "\<exists>a es. run_state (m \<bind> f) tr = (a, tr @ es) \<and> subseq (cs @ ds) es \<and> S a"
    by (intro exI [of _ b] exI [of _ "es @ fs"]) (auto intro: list_emb_append_mono)
qed

lemma issues_skip: "quiet m \<Longrightarrow> (\<And>a. issues (f a) ds S) \<Longrightarrow> issues (m \<bind> f) ds S"
  using issues_bind [of m "[]" "\<lambda>_. True" f ds S] by simp

lemma issues_weaken: "issues m cs R \<Longrightarrow> subseq ds cs \<Longrightarrow> (\<And>a. R a \<Longrightarrow> S a) \<Longrightarrow> issues m ds S"
  unfolding issues_def by (meson subseq_order.order_trans)

lemma issues_quiet: "issues m cs R \<Longrightarrow> quiet m"
  by (rule issues_weaken) auto

lemma issues_ret: "R a \<Longrightarrow> issues (ret a) [] R"
  by (simp add: issues_def State_Monad.return_def)

lemma quiet_basic [quiet_rules]: "quiet (ret a)" "quiet (sys sh c)" "quiet (pipe sh c)" "quiet (run_setting sh c)"
  by (auto simp: issues_def State_Monad.return_def)

lemma quiet_bind: "quiet m \<Longrightarrow> (\<And>a. quiet (f a)) \<Longrightarrow> quiet (m \<bind> f)"
  by (rule issues_skip)

lemma quiet_if: "(b \<Longrightarrow> quiet m) \<Longrightarrow> (\<not> b \<Longrightarrow> quiet k) \<Longrightarrow> quiet (if b then m else k)"
  by simp

lemma quiet_ask [quiet_rules]: "quiet (ask sh n dev grp name)"
  unfolding ask_def by (intro quiet_bind quiet_rules)

lemma quiet_down_then [quiet_rules]: "quiet (down_then sh dev c)"
  unfolding down_then_def slb_ifconfig_def by (intro quiet_bind quiet_if quiet_rules)

lemma quiet_ops [quiet_rules]:
  "quiet (slb_ifconfig sh dev up)" "quiet (slb_create_device sh dev ty)" "quiet (set_mac_address sh dev mac)"
  "quiet (slb_set_essid sh dev e)" "quiet (get_eq_int sh lmax dev nm)" "quiet (slb_get_bw sh lmax dev)" "quiet (slb_get_tfc_bw sh lmax dev)"
  unfolding slb_ifconfig_def slb_create_device_def set_mac_address_def slb_set_essid_def slb_get_bw_def slb_get_tfc_bw_def get_eq_int_def
  by (intro quiet_bind quiet_if quiet_rules)+

lemma quiet_fisa [quiet_rules]: "quiet (slb_set_fisa_enable sh lmax dev en)"
  unfolding slb_set_fisa_enable_def by (intro quiet_bind quiet_if quiet_rules)

lemma quiet_vap_count [quiet_rules]: "quiet (vap_count e)"
  by (simp add: vap_count_def issues_def State_Monad.get_def State_Monad.return_def)

definition cmds_of :: "setting \<Rightarrow> string list" where
  "cmds_of s = (if accepted s then [setting_cmd s] else [])"

lemma issues_setting: "issues (apply_setting sh (Some net_vap_name) s) (cmds_of s) (\<lambda>_. True)"
  unfolding issues_def cmds_of_def
  by (auto simp: run_apply_setting Let_def intro!: exI [of _ "down_cmds s @ _"] list_emb_append2)

lemma cmds_of_settings: "concat (map cmds_of ss) = map setting_cmd (filter accepted ss)"
  by (induction ss) (auto simp: cmds_of_def)

lemma run_mcs_bounds [simp]: "run_state (mcs_bounds sh t) tr = (\<exists>b \<in> set t. length (mb_user_mac b) = 17, tr)"
  by (induction t) (auto simp: slb_set_msc_bound_def State_Monad.return_def)

lemma issues_bridge_loop: "n \<le> length ifs \<Longrightarrow> issues (bridge_loop sh br n ifs) [] (\<lambda>r. r)"
  by (induction n arbitrary: ifs) (auto intro!: issues_skip issues_ret quiet_rules split: list.split)

lemma issues_bridge:
  "nat (bi_bridge_interface_num n) \<le> length (bi_bridge_interfaces n) \<Longrightarrow> issues (init_net_bridge sh n br ip) [] (\<lambda>r. r = Some 0)"
  unfolding init_net_bridge_def
  by (intro issues_skip quiet_rules issues_bind [where cs = "[]" and ds = "[]", simplified, OF issues_bridge_loop])
    (auto intro!: issues_skip issues_ret quiet_rules)

text \<open>What the reconfiguration is to set, apart from the bandwidths.\<close>

definition later_settings :: "basic_info \<Rightarrow> adv_info \<Rightarrow> setting list" where
  "later_settings n a = [Cc_start_pos (ai_cc_offset a), Cell_id (ai_cell_id a), Mib (ai_mib_params a), Auth_pwd (ai_password a),
     Exch_cap (ai_sec_exch_cap a), Range_opt (ai_range_opt a)] @
     (if bi_type n = node_type_code Node_Slb_G then [Acs (bi_aifh_enable n)] else []) @ [Tx_power (ai_power a)]"

lemma setter_issues:
  "issues (slb_set_channel sh (Some net_vap_name) i) (cmds_of (Channel i)) (\<lambda>_. True)"
  "issues (slb_set_bw sh (Some net_vap_name) i) (cmds_of (Bw i)) (\<lambda>_. True)"
  "issues (slb_set_tfc_bw sh (Some net_vap_name) i) (cmds_of (Tfc_bw i)) (\<lambda>_. True)"
  "issues (slb_set_cc_start_pos sh (Some net_vap_name) i) (cmds_of (Cc_start_pos i)) (\<lambda>_. True)"
  "issues (slb_set_cell_id sh (Some net_vap_name) i) (cmds_of (Cell_id i)) (\<lambda>_. True)"
  "issues (slb_set_range_opt sh (Some net_vap_name) i) (cmds_of (Range_opt i)) (\<lambda>_. True)"
  "issues (slb_set_acs_enable sh (Some net_vap_name) i) (cmds_of (Acs i)) (\<lambda>_. True)"
  "issues (slb_set_sec_exch_cap sh (Some net_vap_name) i) (cmds_of (Exch_cap i)) (\<lambda>_. True)"
  "issues (slb_set_tx_power sh (Some net_vap_name) i) (cmds_of (Tx_power i)) (\<lambda>_. True)"
  "issues (slb_set_sec_auth_pwd sh (Some net_vap_name) (Some p)) (cmds_of (Auth_pwd p)) (\<lambda>_. True)"
  "issues (slb_set_mib_params sh (Some net_vap_name) m) (cmds_of (Mib m)) (\<lambda>_. True)"
  unfolding apply_setting.simps [symmetric] by (rule issues_setting)+

lemma issues_bandwidths: "s \<in> {Bw b, Tfc_bw t} \<Longrightarrow> issues (set_bandwidths sh lmax b t) (cmds_of s) (\<lambda>_. True)"
proof -
  have 1: "issues (do { _ \<leftarrow> slb_set_bw sh (Some net_vap_name) b; slb_set_tfc_bw sh (Some net_vap_name) t }) (cmds_of (Bw b) @ cmds_of (Tfc_bw t)) (\<lambda>_. True)"
    by (rule issues_bind [OF setter_issues(2) setter_issues(3)])
  have 2: "issues (do { _ \<leftarrow> slb_set_tfc_bw sh (Some net_vap_name) t; slb_set_bw sh (Some net_vap_name) b }) (cmds_of (Tfc_bw t) @ cmds_of (Bw b)) (\<lambda>_. True)"
    by (rule issues_bind [OF setter_issues(3) setter_issues(2)])
  assume "s \<in> {Bw b, Tfc_bw t}"
  then show ?thesis unfolding set_bandwidths_def Let_def
    by (intro issues_skip quiet_rules) (auto intro: issues_weaken [OF 1] issues_weaken [OF 2])
qed

lemma issues_acs:
  "issues (if bi_type n = node_type_code Node_Slb_G then slb_set_acs_enable sh (Some net_vap_name) (bi_aifh_enable n) else ret 0)
     (if bi_type n = node_type_code Node_Slb_G then cmds_of (Acs (bi_aifh_enable n)) else []) (\<lambda>_. True)"
  by (auto intro: setter_issues issues_ret)

lemma issues_mcs: "\<exists>b \<in> set t. length (mb_user_mac b) = 17 \<Longrightarrow> issues (mcs_bounds sh t) [] (\<lambda>ok. ok)"
  by (auto simp: issues_def)

lemma quiet_setters: "quiet (slb_set_sec_exch_cap sh (Some net_vap_name) i)" "quiet (slb_set_tx_power sh (Some net_vap_name) i)"
  by (rule issues_quiet [OF setter_issues(8)], rule issues_quiet [OF setter_issues(9)])

section \<open>Properties\<close>

text \<open>The MCS bounds never reach the driver: the loops that should set the entries of the table go on
  while an entry's address is not complete, and the setter refuses exactly those; the loop runs no
  command, and a table without a complete address is read past its end.\<close>

theorem mcs_bounds_never_set: "run_state (mcs_bounds sh t) tr = (list_ex (\<lambda>b. length (mb_user_mac b) = 17) t, tr)"
  by (simp add: list_ex_iff)

lemma set_node_issues:
  assumes t: "\<exists>b \<in> set (ai_mcs_bound_table a). length (mb_user_mac b) = 17"
    and i: "nat (bi_bridge_interface_num n) \<le> length (bi_bridge_interfaces n)" and b: "b \<in> {Bw (bi_bw n), Tfc_bw (bi_tfc_bw n)}"
  shows "issues (set_node sh c jt e (Some w) n a) (map setting_cmd (filter accepted (Channel (bi_channel n) # b # later_settings n a)))
     (\<lambda>r. \<exists>d. r = Some (0, a\<lparr>ai_devid := d\<rparr>, snd w))"
proof -
  let ?acs = "if bi_type n = node_type_code Node_Slb_G then cmds_of (Acs (bi_aifh_enable n)) else []"
  have split: "map setting_cmd (filter accepted (Channel (bi_channel n) # b # later_settings n a)) =
      cmds_of (Channel (bi_channel n)) @ cmds_of b @ [] @ cmds_of (Cc_start_pos (ai_cc_offset a)) @ cmds_of (Cell_id (ai_cell_id a)) @
      cmds_of (Mib (ai_mib_params a)) @ cmds_of (Auth_pwd (ai_password a)) @ cmds_of (Exch_cap (ai_sec_exch_cap a)) @
      cmds_of (Range_opt (ai_range_opt a)) @ ?acs @ [] @ cmds_of (Tx_power (ai_power a)) @ []"
    unfolding cmds_of_settings [symmetric] later_settings_def by simp
  obtain w1 w2 where w: "w = (w1, w2)" by (cases w)
  show ?thesis
    unfolding split set_node_def Let_def w option.case prod.case
    by ((rule issues_bind, rule setter_issues issues_acs issues_bandwidths [OF b] issues_mcs [OF t] issues_bridge [OF i])
      | (rule issues_skip, (rule quiet_rules | (rule quiet_if, rule quiet_setters quiet_rules, rule quiet_rules)))
      | simp only: if_False not_True_eq_False option.distinct | (rule issues_ret, fastforce))+
qed

text \<open>A reconfiguration sets everything that is acceptable: whatever the commands answer, every accepted
  parameter is given to the driver, in the order of the list, and refused ones do not stop the
  others; the call succeeds and only the device number of the advanced parameters changes.\<close>

theorem set_node_applies:
  assumes "\<exists>b \<in> set (ai_mcs_bound_table a). length (mb_user_mac b) = 17"
    and "nat (bi_bridge_interface_num n) \<le> length (bi_bridge_interfaces n)" "b \<in> {Bw (bi_bw n), Tfc_bw (bi_tfc_bw n)}"
  shows "\<exists>d ds. run_state (set_node sh c jt e (Some w) n a) tr = (Some (0, a\<lparr>ai_devid := d\<rparr>, snd w), tr @ ds) \<and>
    subseq (map setting_cmd (filter accepted (Channel (bi_channel n) # b # later_settings n a))) ds"
  using issuesE [OF set_node_issues [OF assms, of sh c jt e w], of tr] by metis

text \<open>What the driver's two bandwidths are after a list of commands.\<close>

definition radio_step :: "string \<Rightarrow> int \<times> int \<Rightarrow> int \<times> int" where
  "radio_step cmd s = (case s of (b, t) \<Rightarrow>
     (case find (\<lambda>v. cmd = setting_cmd (Bw v)) [20, 40, 80] of Some v \<Rightarrow> (v, t)
      | None \<Rightarrow> (case find (\<lambda>v. cmd = setting_cmd (Tfc_bw v)) [20, 40, 80] of Some v \<Rightarrow> (b, v) | None \<Rightarrow> s)))"

fun radio_states :: "string list \<Rightarrow> int \<times> int \<Rightarrow> (int \<times> int) list" where
  "radio_states [] s = [s]"
| "radio_states (c # cs) s = s # radio_states cs (radio_step c s)"

lemma show_bw: "show_int 20 = ''20''" "show_int 40 = ''40''" "show_int 80 = ''80''"
  by code_simp+

lemma radio_step_bw: "i \<in> {20, 40, 80} \<Longrightarrow> radio_step (setting_cmd (Bw i)) (b, t) = (i, t)"
  "i \<in> {20, 40, 80} \<Longrightarrow> radio_step (setting_cmd (Tfc_bw i)) (b, t) = (b, i)"
  "radio_step ''ifconfig wt_vap0 down'' (b, t) = (b, t)" "radio_step ''iwpriv wt_vap0 cfg get_bw'' (b, t) = (b, t)"
  by (auto simp: radio_step_def setting_cmd_def setting_group_def iwpriv_def quoted_def net_vap_name_def show_bw)

lemma run_get_bw: "run_state (slb_get_bw sh lmax (Some net_vap_name)) tr =
    (let c = ''iwpriv wt_vap0 cfg get_bw'' in
     if sh_popen sh tr c then (last_after_eq lmax (fgets_all 1023 (sh_out sh tr c)) 0, tr @ [c]) else (-1, tr))"
  by (simp add: slb_get_bw_def get_eq_int_def Let_def iwpriv_def, simp add: net_vap_name_def State_Monad.return_def)

text \<open>While the bandwidths change, the traffic bandwidth never exceeds the bandwidth: when it does not
  before and is not to after, and the driver reports the bandwidth in force, it does not in any
  state between.\<close>

theorem bandwidth_order:
  assumes "bw \<in> {20, 40, 80}" "tfc \<in> {20, 40, 80}" "tfc \<le> bw" "t0 \<le> b0"
    and "fst (run_state (slb_get_bw sh lmax (Some net_vap_name)) tr) = b0"
  shows "\<exists>r ds. run_state (set_bandwidths sh lmax bw tfc) tr = (r, tr @ ds) \<and>
    last (radio_states ds (b0, t0)) = (bw, tfc) \<and> list_all (\<lambda>(b, t). t \<le> b) (radio_states ds (b0, t0))"
proof -
  define c where "c = (if sh_popen sh tr ''iwpriv wt_vap0 cfg get_bw'' then [''iwpriv wt_vap0 cfg get_bw''] else [])"
  have get: "run_state (slb_get_bw sh lmax (Some net_vap_name)) tr = (b0, tr @ c)"
    using assms(5) by (auto simp: run_get_bw Let_def c_def)
  have "bw \<ge> b0 \<Longrightarrow> ?thesis"
    using run_apply_setting [of sh "Bw bw" "tr @ c"] assms(1-4)
      run_apply_setting [of sh "Tfc_bw tfc" "tr @ c @ [''ifconfig wt_vap0 down'', setting_cmd (Bw bw)]"]
    by (auto simp: set_bandwidths_def Let_def get down_cmds_def needs_down_def up_cmds_def radio_step_bw c_def)
  moreover have "bw < b0 \<Longrightarrow> ?thesis"
    using run_apply_setting [of sh "Tfc_bw tfc" "tr @ c"] assms(1-4)
      run_apply_setting [of sh "Bw bw" "tr @ c @ [''ifconfig wt_vap0 down'', setting_cmd (Tfc_bw tfc)]"]
    by (auto simp: set_bandwidths_def Let_def get down_cmds_def needs_down_def up_cmds_def radio_step_bw c_def)
  ultimately show ?thesis by (meson not_le)
qed

text \<open>The bytes of the random address and their text.\<close>

definition mac_texts :: "nat \<Rightarrow> int list \<Rightarrow> string" where
  "mac_texts i rs = concat (map (\<lambda>(j, r). hex2 (mac_byte j r) @ '':'') (enumerate i rs))"

lemma mac_texts_simps [simp]: "mac_texts i [] = []"
  "mac_texts i (r # rs) = hex2 (mac_byte i r) @ '':'' @ mac_texts (Suc i) rs"
  by (simp_all add: mac_texts_def)

lemma length_hex2 [simp]: "length (hex2 b) = 2"
  by (simp add: hex2_def)

lemma length_mac_texts [simp]: "length (mac_texts i rs) = 3 * length rs"
  by (induction rs arbitrary: i) auto

lemma mac_loop_eq:
  "mac_loop i rs buf = (if rs = [] then Some buf else if length buf < 3 * i + 3 * length rs + 1 then None
     else Some (take (3 * i) buf @ mac_texts i rs @ [CHR 0x00] @ drop (3 * i + 3 * length rs + 1) buf))"
proof (induction i rs buf rule: mac_loop.induct)
  case (2 i r rs buf)
  show ?case
  proof (cases "3 * i + 3 < length buf")
    case True
    let ?b = "take (i * 3) buf @ (hex2 (mac_byte i r) @ '':'') @ [CHR 0x00] @ drop (i * 3 + 4) buf"
    have p: "put_str (i * 3) (hex2 (mac_byte i r) @ '':'') buf = Some ?b"
      using True by (simp add: put_str_def eval_nat_numeral)
    have "mac_loop i (r # rs) buf = mac_loop (Suc i) rs ?b" using p by simp
    with 2 [OF p] True show ?thesis by (auto simp: algebra_simps)
  qed (simp add: put_str_def)
qed simp

lemma hex_digit_nonzero: "n < 16 \<Longrightarrow> hex_digit n \<noteq> CHR 0x00"
proof
  assume n: "n < 16" and "hex_digit n = CHR 0x00"
  then have "(of_char (hex_digit n) :: nat) = 0" by simp
  with n show False by (auto simp: hex_digit_def split: if_splits)
qed

lemma hex2_nonzero: "CHR 0x00 \<notin> set (hex2 b)"
proof -
  have "unat b < 2 ^ LENGTH(8)" by (rule unsigned_less)
  then show ?thesis
    using hex_digit_nonzero [of "unat b div 16"] hex_digit_nonzero [of "unat b mod 16"]
    by (auto simp: hex2_def less_mult_imp_div_less)
qed

lemma mac_texts_nonzero: "CHR 0x00 \<notin> set (mac_texts i rs)"
  by (induction rs arbitrary: i) (auto simp: hex2_nonzero)

lemma list_update_last: "xs \<noteq> [] \<Longrightarrow> (xs @ ys)[length xs - 1 := z] = butlast xs @ z # ys"
  by (cases xs rule: rev_cases) (auto simp: list_update_append)

lemma generate_random_mac_eq:
  assumes "length rs = 6"
  shows "generate_random_mac rs buf = (if length buf < 19 then None
    else Some (butlast (mac_texts 0 rs) @ [CHR 0x00, CHR 0x00] @ drop 19 buf))"
proof -
  have ne: "rs \<noteq> []" "mac_texts 0 rs \<noteq> []" using assms by (auto dest: arg_cong [where f = length])
  have "(mac_texts 0 rs @ [CHR 0x00] @ drop 19 buf)[17 := CHR 0x00] = butlast (mac_texts 0 rs) @ CHR 0x00 # [CHR 0x00] @ drop 19 buf"
    using list_update_last [OF ne(2), of "[CHR 0x00] @ drop 19 buf" "CHR 0x00"] assms by simp
  with ne assms show ?thesis by (auto simp: generate_random_mac_def mac_loop_eq)
qed

lemma cstring_stop: "CHR 0x00 \<notin> set s \<Longrightarrow> cstring (s @ CHR 0x00 # r) = s"
  by (auto simp: cstring_def takeWhile_append takeWhile_eq_all_conv)

lemma random_mac_string: "CHR 0x00 \<notin> set (butlast (mac_texts i rs))"
  using mac_texts_nonzero [of i rs] by (meson in_set_butlastD)

text \<open>The random address needs 19 bytes: the sixth \<open>sprintf\<close> writes its terminator behind the 18 bytes of
  an address.  With the room, the text is six two-digit numbers with colons between them, and
  the first byte is that of a locally administered unicast address.\<close>

theorem random_mac_needs_19:
  assumes "length rs = 6"
  shows "map_option cstring (generate_random_mac rs buf) =
      (if length buf < 19 then None else Some (butlast (mac_texts 0 rs))) \<and> mac_byte 0 r AND 3 = 2"
proof
  show "map_option cstring (generate_random_mac rs buf) = (if length buf < 19 then None else Some (butlast (mac_texts 0 rs)))"
    by (simp add: generate_random_mac_eq [OF assms] cstring_stop [OF random_mac_string])
  have "((b AND 0xFE) OR 2) AND 3 = (2 :: 8 word)" for b :: "8 word"
    by (rule bit_word_eqI) (auto simp: bit_simps bit_numeral_rec less_Suc_eq numeral_eq_Suc)
  then show "mac_byte 0 r AND 3 = 2" by (simp add: mac_byte_def Let_def)
qed


section \<open>Witnesses\<close>

definition demo_basic :: basic_info where
  "demo_basic = zero_basic\<lparr>bi_channel := 41, bi_bw := 20\<rparr>"

definition demo_mcs :: adv_info where
  "demo_mcs = demo_adv\<lparr>ai_mcs_bound_table := [\<lparr>mb_user_mac = ''00:00:00:00:00:00'', mb_min_mcs = 6, mb_max_mcs = 30\<rparr>]\<rparr>"

definition demo_boot :: boot_env where
  "demo_boot = \<lparr>be_old_dir = True, be_chdir = True, be_glob = Glob_NoMatch, be_net = (\<lambda>_. None)\<rparr>"

theorem set_node_applies_witness:
  "\<exists>d ds. run_state (set_node quiet_shell (demo_env None) 0 demo_boot (Some (0, None)) demo_basic demo_mcs) [] =
     (Some (0, demo_mcs\<lparr>ai_devid := d\<rparr>, None), ds) \<and>
    subseq [setting_cmd (Channel 41), setting_cmd (Bw 20), setting_cmd (Cc_start_pos 0), setting_cmd (Cell_id 0)] ds"
proof -
  have m: "\<exists>b \<in> set (ai_mcs_bound_table demo_mcs). length (mb_user_mac b) = 17" by (simp add: demo_mcs_def)
  have i: "nat (bi_bridge_interface_num demo_basic) \<le> length (bi_bridge_interfaces demo_basic)" by (simp add: demo_basic_def zero_basic_def)
  have b: "Bw 20 \<in> {Bw (bi_bw demo_basic), Tfc_bw (bi_tfc_bw demo_basic)}" by (simp add: demo_basic_def)
  from set_node_applies [OF m i b, of quiet_shell "demo_env None" 0 demo_boot "(0, None)" "[]"] obtain d ds where
    r: "run_state (set_node quiet_shell (demo_env None) 0 demo_boot (Some (0, None)) demo_basic demo_mcs) [] =
      (Some (0, demo_mcs\<lparr>ai_devid := d\<rparr>, None), ds)"
    and s: "subseq (map setting_cmd (filter accepted (Channel (bi_channel demo_basic) # Bw 20 # later_settings demo_basic demo_mcs))) ds"
    by auto
  let ?four = "[setting_cmd (Channel 41), setting_cmd (Bw 20), setting_cmd (Cc_start_pos 0), setting_cmd (Cell_id 0)]"
  have "map setting_cmd (filter accepted (Channel (bi_channel demo_basic) # Bw 20 # later_settings demo_basic demo_mcs)) =
      ?four @ map setting_cmd (filter accepted (drop 2 (later_settings demo_basic demo_mcs)))"
    by (simp add: later_settings_def channels_def demo_basic_def demo_mcs_def demo_adv_def)
  with s have "subseq (?four @ map setting_cmd (filter accepted (drop 2 (later_settings demo_basic demo_mcs)))) ds" by simp
  then have "subseq ?four ds" by (rule subseq_order.order_trans [rotated]) simp
  with r show ?thesis by blast
qed

theorem bandwidth_order_witness:
  "\<exists>r ds. run_state (set_bandwidths (quiet_shell\<lparr>sh_out := (\<lambda>_ _. ''bw=80'')\<rparr>) (2 ^ 31 - 1) 20 20) [] = (r, ds) \<and>
    last (radio_states ds (80, 40)) = (20, 20) \<and> list_all (\<lambda>(b, t). t \<le> b) (radio_states ds (80, 40))"
proof -
  have "fst (run_state (slb_get_bw (quiet_shell\<lparr>sh_out := (\<lambda>_ _. ''bw=80'')\<rparr>) (2 ^ 31 - 1) (Some net_vap_name)) []) = 80"
    by (simp add: run_get_bw quiet_shell_def Let_def) code_simp
  from bandwidth_order [OF _ _ _ _ this, of 20 20 40] show ?thesis by simp
qed

theorem random_mac_needs_19_witness:
  "map_option cstring (generate_random_mac [255, 16, 1, 2, 3, 171] (replicate 18 (CHR 0x00))) = None \<and>
   map_option cstring (generate_random_mac [255, 16, 1, 2, 3, 171] (replicate 24 (CHR 0x00))) = Some ''FE:10:01:02:03:AB''"
proof
  show "map_option cstring (generate_random_mac [255, 16, 1, 2, 3, 171] (replicate 18 (CHR 0x00))) = None"
    using random_mac_needs_19 [of "[255, 16, 1, 2, 3, 171]" "replicate 18 (CHR 0x00)"] by simp
  have "butlast (mac_texts 0 [255, 16, 1, 2, 3, 171]) = ''FE:10:01:02:03:AB''" by code_simp
  then show "map_option cstring (generate_random_mac [255, 16, 1, 2, 3, 171] (replicate 24 (CHR 0x00))) = Some ''FE:10:01:02:03:AB''"
    using random_mac_needs_19 [of "[255, 16, 1, 2, 3, 171]" "replicate 24 (CHR 0x00)"] by simp
qed


end
