(* ===== verification/CoreState.thy ===== *)
theory CoreState
  imports SlbNode NodeManager Qos Acl
begin

text \<open>
  The global state the node operations work on, with the small steps they share: running a program
  of the radio interface, storing parameters in the configuration file, and taking members of a
  request.  A step that can fault returns an option.
\<close>

section \<open>State\<close>

text \<open>\<open>global_node_info\<close>, its advanced parameters, the configuration file, the web page's configuration,
  the command lines run so far, the node list and the states of the rule engines.\<close>

record core =
  c_sp :: splink_info
  c_adv :: adv_info
  c_cfg :: "string option"
  c_web :: "string option"
  c_cmds :: "string list"
  c_nodes :: "nlist option \<times> nheap"
  c_qos :: qos_state
  c_acl :: acl_state

text \<open>The outside: shell, JSON library, file system, the reading and writing of the configuration file (its
  field \<open>ce_file\<close> is replaced by the state's file), the port of the web server, whether the web
  page's file opens, and what an uninitialised \<open>int\<close> holds.\<close>

record core_env =
  e_sh :: shell
  e_cj :: cjson
  e_boot :: boot_env
  e_cfg :: cfg_env
  e_io :: "string \<Rightarrow> string option \<Rightarrow> cfg_io"
  e_port :: int
  e_web :: bool
  e_jt :: int

definition c_basic :: "core \<Rightarrow> basic_info" where
  "c_basic s = basic_info (node_info (c_sp s))"

definition upd_basic :: "(basic_info \<Rightarrow> basic_info) \<Rightarrow> core \<Rightarrow> core" where
  "upd_basic f s = s\<lparr>c_sp := (c_sp s)\<lparr>node_info := (node_info (c_sp s))\<lparr>basic_info := f (c_basic s)\<rparr>\<rparr>\<rparr>"

definition upd_adv :: "(adv_info \<Rightarrow> adv_info) \<Rightarrow> core \<Rightarrow> core" where
  "upd_adv f s = s\<lparr>c_adv := f (c_adv s)\<rparr>"

definition upd_mib :: "(mib_params \<Rightarrow> mib_params) \<Rightarrow> core \<Rightarrow> core" where
  "upd_mib f = upd_adv (\<lambda>a. a\<lparr>ai_mib_params := f (ai_mib_params a)\<rparr>)"

definition cfg_of :: "core_env \<Rightarrow> core \<Rightarrow> cfg_env" where
  "cfg_of e s = (e_cfg e)\<lparr>ce_file := c_cfg s\<rparr>"

section \<open>Steps\<close>

definition radio :: "'a cmd \<Rightarrow> core \<Rightarrow> 'a \<times> core" where
  "radio m s = (case run_state m (c_cmds s) of (a, tr) \<Rightarrow> (a, s\<lparr>c_cmds := tr\<rparr>))"

definition save_str :: "core_env \<Rightarrow> string \<Rightarrow> string \<Rightarrow> core \<Rightarrow> core" where
  "save_str e key v s = s\<lparr>c_cfg := snd (config_set (ce_jk (e_cfg e)) (ce_jv (e_cfg e)) (e_io e key (c_cfg s)) key (Some v) (c_cfg s))\<rparr>"

definition save_int :: "core_env \<Rightarrow> string \<Rightarrow> int \<Rightarrow> core \<Rightarrow> core" where
  "save_int e key v s = s\<lparr>c_cfg := snd (config_set_int (ce_jk (e_cfg e)) (ce_jv (e_cfg e)) (e_io e key (c_cfg s)) key v (c_cfg s))\<rparr>"

definition save_ints :: "core_env \<Rightarrow> (string \<times> int) list \<Rightarrow> core \<Rightarrow> core" where
  "save_ints e kvs s = fold (\<lambda>(k, v). save_int e k v) kvs s"

text \<open>\<open>if (item != NULL) field = item->valueint\<close>.\<close>

definition take_int :: "core_env \<Rightarrow> json \<Rightarrow> string \<Rightarrow> (int \<Rightarrow> core \<Rightarrow> core) \<Rightarrow> core \<Rightarrow> core" where
  "take_int e root key f s = (case cj_get (e_cj e) root key of None \<Rightarrow> s | Some j \<Rightarrow> f (valueint j) s)"

definition take_ints :: "core_env \<Rightarrow> json \<Rightarrow> (string \<times> (int \<Rightarrow> core \<Rightarrow> core)) list \<Rightarrow> core \<Rightarrow> core" where
  "take_ints e root fs s = fold (\<lambda>(k, f). take_int e root k f) fs s"

text \<open>\<open>strcpy\<close> of a member's text into an array of \<open>n\<close> bytes: no text or too long a text is a fault.\<close>

definition copy_text :: "nat \<Rightarrow> json \<Rightarrow> string option" where
  "copy_text n j = (case valuestring j of None \<Rightarrow> None | Some t \<Rightarrow> if length t < n then Some t else None)"

definition take_str :: "core_env \<Rightarrow> json \<Rightarrow> string \<Rightarrow> nat \<Rightarrow> (string \<Rightarrow> core \<Rightarrow> core) \<Rightarrow> core \<Rightarrow> core option" where
  "take_str e root key n f s = (case cj_get (e_cj e) root key of
     None \<Rightarrow> Some s | Some j \<Rightarrow> map_option (\<lambda>t. f t s) (copy_text n j))"

text \<open>The same into a local array that starts empty.\<close>

definition text_field :: "cjson \<Rightarrow> json \<Rightarrow> string \<Rightarrow> nat \<Rightarrow> string option" where
  "text_field cj root key n = (case cj_get cj root key of None \<Rightarrow> Some [] | Some j \<Rightarrow> copy_text n j)"

definition int_field :: "cjson \<Rightarrow> json \<Rightarrow> string \<Rightarrow> int \<Rightarrow> int" where
  "int_field cj root key d = (case cj_get cj root key of None \<Rightarrow> d | Some j \<Rightarrow> valueint j)"

definition js_cfg_path :: string where
  "js_cfg_path = ''/home/wt/www/config.json''"

text \<open>\<open>set_node\<close> on the global state.\<close>

definition apply_node :: "core_env \<Rightarrow> core \<Rightarrow> core option" where
  "apply_node e s = (let web = sync_ip_to_js_cfg (e_cj e) (e_port e) (e_web e) (Some js_cfg_path) (Some (c_basic s)) (c_web s) in
     case radio (set_node (e_sh e) (cfg_of e s) (e_jt e) (e_boot e) web (c_basic s) (c_adv s)) s of
       (None, _) \<Rightarrow> None
     | (Some (r, a, w), s1) \<Rightarrow> Some (s1\<lparr>c_adv := a, c_web := w\<rparr>))"

section \<open>Lemmas\<close>

lemma c_basic_upd [simp]: "c_basic (upd_basic f s) = f (c_basic s)"
  by (simp add: upd_basic_def c_basic_def)

lemma upd_frames [simp]:
  "c_adv (upd_basic f s) = c_adv s" "c_cfg (upd_basic f s) = c_cfg s" "c_cmds (upd_basic f s) = c_cmds s"
  "c_nodes (upd_basic f s) = c_nodes s" "c_web (upd_basic f s) = c_web s"
  "c_adv (upd_adv g s) = g (c_adv s)" "c_basic (upd_adv g s) = c_basic s" "c_cfg (upd_adv g s) = c_cfg s"
  "c_cmds (upd_adv g s) = c_cmds s" "c_nodes (upd_adv g s) = c_nodes s" "c_web (upd_adv g s) = c_web s"
  "c_adv (upd_mib h s) = (c_adv s)\<lparr>ai_mib_params := h (ai_mib_params (c_adv s))\<rparr>" "c_basic (upd_mib h s) = c_basic s"
  "c_cfg (upd_mib h s) = c_cfg s" "c_cmds (upd_mib h s) = c_cmds s" "c_nodes (upd_mib h s) = c_nodes s" "c_web (upd_mib h s) = c_web s"
  by (simp_all add: upd_basic_def upd_adv_def upd_mib_def c_basic_def)

lemma save_frames [simp]:
  "c_sp (save_int e k v s) = c_sp s" "c_adv (save_int e k v s) = c_adv s" "c_cmds (save_int e k v s) = c_cmds s"
  "c_nodes (save_int e k v s) = c_nodes s" "c_web (save_int e k v s) = c_web s" "c_basic (save_int e k v s) = c_basic s"
  "c_sp (save_str e k t s) = c_sp s" "c_adv (save_str e k t s) = c_adv s" "c_cmds (save_str e k t s) = c_cmds s"
  "c_nodes (save_str e k t s) = c_nodes s" "c_web (save_str e k t s) = c_web s" "c_basic (save_str e k t s) = c_basic s"
  by (simp_all add: save_int_def save_str_def c_basic_def)

end
