(* ===== verification/DataParser.thy ===== *)
theory DataParser
  imports CoreState
begin

text \<open>
  The data parser (dataparser/wtsl_core_dataparser.c): the requests that change the radio's
  parameters, the joining of a network, the lists of networks and of users, and the range tests.
  A function gets the request's text and the global state; None is a memory fault.  Output
  arguments are the returned text, checked against the size of the buffer behind them.
\<close>

section \<open>Arrays of a request\<close>

text \<open>The numbers of an array in turn, into an array of integers; another item is skipped.\<close>

fun put_ints :: "json list \<Rightarrow> nat \<Rightarrow> int list \<Rightarrow> int list option" where
  "put_ints [] p as = Some as"
| "put_ints (j # js) p as = (if \<not> is_number j then put_ints js p as
     else if p < length as then put_ints js (Suc p) (as[p := valueint j]) else None)"

definition parse_int_array :: "json option \<Rightarrow> int list \<Rightarrow> int list option" where
  "parse_int_array arr as = (case arr of
     None \<Rightarrow> Some as | Some a \<Rightarrow> if is_array a then put_ints (array_items a) 0 as else Some as)"

text \<open>The texts of an array, each at its own index, into arrays of 128 bytes.\<close>

fun put_texts :: "json list \<Rightarrow> nat \<Rightarrow> string list \<Rightarrow> string list option" where
  "put_texts [] i as = Some as"
| "put_texts (j # js) i as = (if \<not> is_string j then put_texts js (Suc i) as
     else if i < length as then do { t \<leftarrow> copy_text 128 j; put_texts js (Suc i) (as[i := t]) } else None)"

definition parse_string_array :: "json option \<Rightarrow> string list \<Rightarrow> string list option" where
  "parse_string_array arr as = (case arr of
     None \<Rightarrow> Some as | Some a \<Rightarrow> if is_array a then put_texts (array_items a) 0 as else Some as)"

section \<open>Setting the parameters\<close>

definition set_cell_id :: "int \<Rightarrow> core \<Rightarrow> core" where
  "set_cell_id i = upd_adv (\<lambda>a. a\<lparr>ai_cell_id := i\<rparr>)"

text \<open>The members of a request on the advanced parameters, and the entries saved for them.\<close>

definition adv_members :: "(string \<times> (int \<Rightarrow> core \<Rightarrow> core)) list" where
  "adv_members = [(''cell_id'', set_cell_id),
     (''cc_spos'', \<lambda>i. upd_adv (\<lambda>a. a\<lparr>ai_cc_offset := i\<rparr>)),
     (''cp_type'', \<lambda>i. upd_mib (\<lambda>m. m\<lparr>mp_cp_type := i\<rparr>)),
     (''symbol_type'', \<lambda>i. upd_mib (\<lambda>m. m\<lparr>mp_symbol_type := i\<rparr>)),
     (''sysmsg_period'', \<lambda>i. upd_mib (\<lambda>m. m\<lparr>mp_sysmsg_period := i\<rparr>)),
     (''s_cfg_idx'', \<lambda>i. upd_mib (\<lambda>m. m\<lparr>mp_s_cfg_idx := i\<rparr>)),
     (''sec_exch_cap'', \<lambda>i. upd_adv (\<lambda>a. a\<lparr>ai_sec_exch_cap := i\<rparr>)),
     (''range_opt'', \<lambda>i. upd_adv (\<lambda>a. a\<lparr>ai_range_opt := i\<rparr>)),
     (''acs_enable'', \<lambda>i. upd_basic (\<lambda>n. n\<lparr>bi_aifh_enable := i\<rparr>)),
     (''tx_power'', \<lambda>i. upd_adv (\<lambda>a. a\<lparr>ai_power := i\<rparr>)),
     (''fisa_enable'', \<lambda>i. upd_adv (\<lambda>a. a\<lparr>ai_fisa_enable := i\<rparr>))]"

definition adv_entries :: "core \<Rightarrow> (string \<times> int) list" where
  "adv_entries s = [(''CELL_ID'', ai_cell_id (c_adv s)), (''CC_SPOS'', ai_cc_offset (c_adv s)),
     (''CP_TYPE'', mp_cp_type (ai_mib_params (c_adv s))), (''SYMBOL_CFG'', mp_symbol_type (ai_mib_params (c_adv s))),
     (''SYSMSG_PERIOD'', mp_sysmsg_period (ai_mib_params (c_adv s))), (''S_CFG_IDX'', mp_s_cfg_idx (ai_mib_params (c_adv s))),
     (''SEC_EXCH_CAP'', ai_sec_exch_cap (c_adv s)), (''RANGE_OPT'', ai_range_opt (c_adv s)), (''TX_POWER'', ai_power (c_adv s)),
     (''ACS_ENABLE'', bi_aifh_enable (c_basic s)), (''FISA_ENABLE'', ai_fisa_enable (c_adv s))]"

definition wtsl_core_parse_json_set_node_advinfo :: "core_env \<Rightarrow> string \<Rightarrow> core \<Rightarrow> (int \<times> core) option" where
  "wtsl_core_parse_json_set_node_advinfo e args s = (case cj_parse (e_cj e) args of
     None \<Rightarrow> Some (-1, s)
   | Some root \<Rightarrow> do {
       s1 \<leftarrow> apply_node e (take_ints e root adv_members s);
       Some (0, save_ints e (adv_entries s1) s1) })"

text \<open>\<open>set_mib_params\<close> and \<open>set_mcs_bound\<close> are read into local arrays and not used.\<close>

definition wtsl_core_parse_json_setnode :: "core_env \<Rightarrow> string \<Rightarrow> core \<Rightarrow> (int \<times> core) option" where
  "wtsl_core_parse_json_setnode e args s = (case cj_parse (e_cj e) args of
     None \<Rightarrow> Some (-1, s)
   | Some root \<Rightarrow> do {
       let s1 = take_ints e root [(''type'', \<lambda>i. upd_basic (\<lambda>n. n\<lparr>bi_type := i\<rparr>)),
                  (''channel'', \<lambda>i. upd_basic (\<lambda>n. n\<lparr>bi_channel := i\<rparr>)), (''bw'', \<lambda>i. upd_basic (\<lambda>n. n\<lparr>bi_bw := i\<rparr>)),
                  (''tfc_bw'', \<lambda>i. upd_basic (\<lambda>n. n\<lparr>bi_tfc_bw := i\<rparr>)), (''cell_id'', set_cell_id)] s;
       s2 \<leftarrow> take_str e root ''name'' 128 (\<lambda>t. upd_basic (\<lambda>n. n\<lparr>bi_name := t\<rparr>)) s1;
       s3 \<leftarrow> take_str e root ''ip'' 16 (\<lambda>t. upd_basic (\<lambda>n. n\<lparr>bi_ip := t\<rparr>)) s2;
       s4 \<leftarrow> take_str e root ''set_sec_auth_pwd'' 32 (\<lambda>t. upd_adv (\<lambda>a. a\<lparr>ai_password := t\<rparr>)) s3;
       mib \<leftarrow> parse_int_array (cj_get_cs (e_cj e) root ''set_mib_params'') [0, 0, 0, 0];
       mcs \<leftarrow> parse_string_array (cj_get_cs (e_cj e) root ''set_mcs_bound'') [[], [], []];
       let s5 = take_int e root ''log_port'' (\<lambda>i. upd_basic (\<lambda>n. n\<lparr>bi_log_port := i\<rparr>)) s4;
       s6 \<leftarrow> take_str e root ''net_manage_ip'' 16 (\<lambda>t. upd_basic (\<lambda>n. n\<lparr>bi_net_manage_ip := t\<rparr>)) s5;
       s7 \<leftarrow> apply_node e s6;
       let n = c_basic s7;
       let s8 = save_ints e [(''BW'', bi_bw n), (''TFC_BW'', bi_tfc_bw n), (''CHANNEL'', bi_channel n), (''TYPE'', bi_type n),
                  (''CELL_ID'', ai_cell_id (c_adv s7)), (''TYPE'', bi_type n), (''LOG_PORT'', bi_log_port n)] s7;
       let s9 = save_str e ''NET_MANAGE_IP'' (bi_net_manage_ip n) (save_str e ''NAME'' (bi_name n) (save_str e ''IP'' (bi_ip n) s8));
       Some (0, s9) })"

section \<open>Joining a network\<close>

text \<open>\<open>index\<close> must be there and a text.\<close>

definition wtsl_core_parse_json_tnode_join_net :: "core_env \<Rightarrow> string \<Rightarrow> core \<Rightarrow> (int \<times> core) option" where
  "wtsl_core_parse_json_tnode_join_net e args s = (case cj_parse (e_cj e) args of
     None \<Rightarrow> Some (-1, s)
   | Some root \<Rightarrow> do {
       j \<leftarrow> cj_get (e_cj e) root ''index'';
       idx \<leftarrow> valuestring j;
       let lmax = ce_lmax (e_cfg e);
       let vap = Some net_vap_name;
       let (r, s1) = radio (slb_t_node_start_join (e_sh e) vap (atoi lmax idx)) s;
       let (ch, s2) = radio (slb_get_channel (e_sh e) lmax vap) s1;
       let s3 = (if ch \<noteq> 0 then upd_basic (\<lambda>n. n\<lparr>bi_channel := ch\<rparr>) s2 else s2);
       let (bw, s4) = radio (slb_get_bw (e_sh e) lmax vap) s3;
       let s5 = upd_basic (\<lambda>n. n\<lparr>bi_bw := bw\<rparr>) s4;
       let (tfc, s6) = radio (slb_get_tfc_bw (e_sh e) lmax vap) s5;
       let s7 = upd_basic (\<lambda>n. n\<lparr>bi_tfc_bw := tfc\<rparr>) s6;
       Some (r, save_ints e [(''CHANNEL'', bi_channel (c_basic s7)), (''BW'', bw), (''TFC_BW'', tfc)] s7) })"

section \<open>The list of networks\<close>

definition bss_item :: "int \<Rightarrow> sval list \<Rightarrow> json option" where
  "bss_item i vs = (case vs of
     [SV name, IV cell_id, IV channel, IV rssi, IV domain_cnt] \<Rightarrow>
       if domain_cnt = 0 then None
       else Some (JObj [(''index'', JNum (i - 3)), (''name'', JStr name), (''cell_id'', JNum cell_id),
         (''mac'', JStr ''xx:xx:xx:xx:xx:xx''), (''channel'', JNum channel), (''rssi'', JNum rssi), (''ip'', JStr ''xx:xx:xx:xx'')])
   | _ \<Rightarrow> None)"

fun bss_items :: "int \<Rightarrow> int \<Rightarrow> string list \<Rightarrow> json list" where
  "bss_items lmax i [] = []"
| "bss_items lmax i (l # ls) =
     (case bss_item (i + 1) (sscanf_vals lmax ''%s %d %d %d %d'' l) of None \<Rightarrow> [] | Some j \<Rightarrow> [j]) @ bss_items lmax (i + 1) ls"

text \<open>A pipe that cannot be opened is read through NULL.\<close>

definition parse_show_bss_output :: "core_env \<Rightarrow> core \<Rightarrow> (string \<times> core) option" where
  "parse_show_bss_output e s = (case radio (pipe (e_sh e) (cbuf 64 (''iwpriv '' @ net_vap_name @ '' cfg show_bss''))) s of
     (None, s1) \<Rightarrow> None
   | (Some out, s1) \<Rightarrow> Some (cj_print (e_cj e) (JArr (bss_items (ce_lmax (e_cfg e)) 0 (fgets_all 127 out))), s1))"

definition fits :: "nat \<Rightarrow> string \<Rightarrow> string option" where
  "fits n t = (if length t < n then Some t else None)"

definition wtsl_core_parse_json_tnode_show_bss :: "core_env \<Rightarrow> nat \<Rightarrow> core \<Rightarrow> (int \<times> string \<times> core) option" where
  "wtsl_core_parse_json_tnode_show_bss e n s = do { (t, s1) \<leftarrow> parse_show_bss_output e s; b \<leftarrow> fits n t; Some (0, b, s1) }"

definition wtsl_core_parse_json_scan :: "core_env \<Rightarrow> core \<Rightarrow> int \<times> core" where
  "wtsl_core_parse_json_scan e s = radio (slb_t_node_scan (e_sh e) (Some net_vap_name)) s"

text \<open>The self test is an unfinished function that returns NULL, whose text is then copied.\<close>

definition wtsl_core_parse_json_self_test :: "core \<Rightarrow> (int \<times> string \<times> core) option" where
  "wtsl_core_parse_json_self_test s = (let result = (None :: string option) in map_option (\<lambda>r. (0, r, s)) result)"


section \<open>The list of users\<close>

text \<open>One user: the line if there is one (else the old values stay), the node with that address, the item.
  The node of the same position is looked up as well, for the log only.\<close>

definition user_item :: "core \<Rightarrow> int \<Rightarrow> int \<Rightarrow> string \<Rightarrow> wnode option \<Rightarrow> string \<Rightarrow> json" where
  "user_item s role u mac p name = JObj ([(''uid'', JNum u), (''mac'', JStr mac)] @
     (case p of None \<Rightarrow> [] | Some n \<Rightarrow> (let b = basic_info (nd_info n); g = c_basic s in
        if role = 2 then [(''ip'', JStr (bi_ip b)), (''version'', JStr (bi_version b)), (''rssi'', JNum (bi_rssi b)), (''bw'', JNum (bi_bw b)),
          (''tfc_bw'', JNum (bi_tfc_bw b)), (''type'', JNum (node_type_code Node_Slb_T))]
        else if role = 1 then [(''ip'', JStr (bi_ip b)), (''version'', JStr (bi_version b)), (''type'', JNum (node_type_code Node_Slb_G)),
          (''rssi'', JNum (bi_rssi g)), (''bw'', JNum (bi_bw g)), (''tfc_bw'', JNum (bi_tfc_bw g))]
        else [])) @ [(''name'', JStr name)])"

definition user_line :: "int \<Rightarrow> string \<Rightarrow> int \<times> string \<Rightarrow> (int \<times> string) option" where
  "user_line lmax l um = (case sscanf_vals lmax ''%d %s'' l of
     [IV u, SV m] \<Rightarrow> if length m < 24 then Some (u, m) else None
   | [IV u] \<Rightarrow> Some (u, snd um)
   | _ \<Rightarrow> Some um)"

fun view_loop :: "core \<Rightarrow> int \<Rightarrow> int \<Rightarrow> nat \<Rightarrow> int \<Rightarrow> string list \<Rightarrow> int \<times> string \<Rightarrow> string \<Rightarrow> json list option" where
  "view_loop s lmax role 0 i ls um name = Some []"
| "view_loop s lmax role (Suc k) i ls um name = (let (l, h) = c_nodes s in do {
     um1 \<leftarrow> (case ls of [] \<Rightarrow> Some um | x # _ \<Rightarrow> user_line lmax x um);
     p \<leftarrow> find_wtsl_node_by_mac l (Some (snd um1)) h;
     gw \<leftarrow> find_wtsl_node_by_id l i h;
     n \<leftarrow> (case p of None \<Rightarrow> Some None | Some a \<Rightarrow> map_option (\<lambda>c. Some (val c)) (ncells h a));
     let name1 = (case n of Some w \<Rightarrow> if role = 2 \<or> role = 1 then bi_name (basic_info (nd_info w)) else name | None \<Rightarrow> name);
     r \<leftarrow> view_loop s lmax role k (i + 1) (drop 1 ls) um1 name1;
     Some (user_item s role (fst um1) (snd um1) n name1 # r) })"

text \<open>The lines up to the heading of the table; \<open>role\<close> and \<open>num\<close> start uninitialised.\<close>

fun view_lines :: "core \<Rightarrow> int \<Rightarrow> int \<Rightarrow> int \<Rightarrow> int \<Rightarrow> string list \<Rightarrow> json list option" where
  "view_lines s lmax u role num [] = Some []"
| "view_lines s lmax u role num (l # ls) =
     (let vs = (if contains l ''vap_role'' then sscanf_vals lmax ''vap_role[%d], vap_state[%d], user_num[%d], scanning[%d], roamming[%d]'' l else []);
          role1 = (if vs \<noteq> [] then ival (vs ! 0) else role);
          num1 = (if 3 \<le> length vs then ival (vs ! 2) else num)
      in if contains l ''uid mac_addr'' then view_loop s lmax role1 (nat num1) 0 ls (u, []) []
         else view_lines s lmax u role1 num1 ls)"

definition wtsl_core_parse_json_view_users :: "core_env \<Rightarrow> int \<times> int \<times> int \<Rightarrow> nat \<Rightarrow> core \<Rightarrow> (int \<times> string \<times> core) option" where
  "wtsl_core_parse_json_view_users e junk n s =
     (case radio (pipe (e_sh e) (cbuf 64 (''iwpriv '' @ net_vap_name @ '' cfg view_users''))) s of
        (None, s1) \<Rightarrow> None
      | (Some out, s1) \<Rightarrow> do {
          items \<leftarrow> view_lines s1 (ce_lmax (e_cfg e)) (fst junk) (fst (snd junk)) (snd (snd junk)) (fgets_all 127 out);
          b \<leftarrow> fits n (cj_print (e_cj e) (JArr items));
          Some (0, b, s1) })"

section \<open>Range tests\<close>

text \<open>The code without \<open>CONFIG_APP_DEBUG\<close>: channel 1875 with full bandwidth, remembered only when it was set.\<close>

definition wide_band :: "core_env \<Rightarrow> mib_params \<Rightarrow> core \<Rightarrow> core" where
  "wide_band e mib s = (let vap = Some net_vap_name;
     (r1, s1) = radio (slb_ifconfig (e_sh e) vap False) s;
     (r2, s2) = radio (slb_set_channel (e_sh e) vap 1875) s1;
     (rb, s3) = radio (slb_set_bw (e_sh e) vap 80) s2;
     s4 = (if rb = 0 then upd_basic (\<lambda>n. n\<lparr>bi_bw := 80\<rparr>) s3 else s3);
     (rt, s5) = radio (slb_set_tfc_bw (e_sh e) vap 80) s4;
     s6 = (if rt = 0 then upd_basic (\<lambda>n. n\<lparr>bi_tfc_bw := 80\<rparr>) s5 else s5)
   in snd (radio (slb_set_mib_params (e_sh e) vap mib) s6))"

definition wtsl_core_parse_json_do_shortrange :: "core_env \<Rightarrow> core \<Rightarrow> int \<times> core" where
  "wtsl_core_parse_json_do_shortrange e s =
     (let s1 = wide_band e \<lparr>mp_cp_type = 0, mp_symbol_type = 3, mp_sysmsg_period = 1, mp_s_cfg_idx = 2\<rparr> s
      in (0, snd (radio (slb_ifconfig (e_sh e) (Some net_vap_name) True) s1)))"

definition wtsl_core_parse_json_do_remoterange :: "core_env \<Rightarrow> core \<Rightarrow> int \<times> core" where
  "wtsl_core_parse_json_do_remoterange e s =
     (let s1 = wide_band e \<lparr>mp_cp_type = 3, mp_symbol_type = 2, mp_sysmsg_period = 1, mp_s_cfg_idx = 2\<rparr> s;
          (r, s2) = radio (slb_set_range_opt (e_sh e) (Some net_vap_name) 1) s1
      in (0, snd (radio (slb_ifconfig (e_sh e) (Some net_vap_name) True) s2)))"

definition run_all :: "core_env \<Rightarrow> string list \<Rightarrow> core \<Rightarrow> core" where
  "run_all e cs s = s\<lparr>c_cmds := run_cmds (e_sh e) (c_cmds s) cs\<rparr>"

definition vap_cmd :: "string \<Rightarrow> string \<Rightarrow> string" where
  "vap_cmd grp arg = iwpriv (Some net_vap_name) grp (quoted arg)"

definition wtsl_core_parse_json_do_lowlatency :: "core_env \<Rightarrow> core \<Rightarrow> int \<times> core" where
  "wtsl_core_parse_json_do_lowlatency e s = (0, run_all e (map (cbuf 128) [vap_cmd ''cfg'' ''set_rtd_params 1 0 5001 5004'',
     vap_cmd ''cfg'' ''max_sf_res_req_en enable'', vap_cmd ''alg'' ''set_mcs_bound 00:00:00:00:00:00 0 12'']) s)"

definition wtsl_core_parse_json_do_lowpow :: "core \<Rightarrow> int \<times> core" where
  "wtsl_core_parse_json_do_lowpow s = (0, s)"

section \<open>Versions\<close>

text \<open>Four characters after the colon; the output of the command may be missing (NULL).\<close>

definition parse_host_version :: "core_env \<Rightarrow> string \<Rightarrow> core \<Rightarrow> (string \<times> core) option" where
  "parse_host_version e old s = (case radio (system_output_to_string (e_sh e) (cbuf 64 (''iwpriv '' @ net_vap_name @ '' cfg get_version''))) s of
     (None, s1) \<Rightarrow> None
   | (Some out, s1) \<Rightarrow> (case Option.bind (strstr out ''device version:'') (after_char (CHR '':'')) of
       None \<Rightarrow> Some (old, s1) | Some t \<Rightarrow> Some (take 4 t, s1)))"

end
