(* ===== verification/ParserProps.thy ===== *)
theory ParserProps
  imports DataParser
begin

text \<open>
  What the data parser's requests come to: the parameters that survive a restart, the bounds of the
  arrays of a request, and the fields of a request that reach the radio.
\<close>

section \<open>Saved entries\<close>

lemma radio_frames [simp]: "c_cfg (snd (radio m s)) = c_cfg s" "c_adv (snd (radio m s)) = c_adv s" "c_sp (snd (radio m s)) = c_sp s"
  "c_nodes (snd (radio m s)) = c_nodes s" "c_basic (snd (radio m s)) = c_basic s"
  by (simp_all add: radio_def c_basic_def split: prod.splits)

lemma apply_node_frames:
  assumes "apply_node e s = Some s'"
  shows "c_cfg s' = c_cfg s \<and> c_sp s' = c_sp s \<and> c_nodes s' = c_nodes s"
  using assms by (auto simp: apply_node_def Let_def radio_def split: prod.splits option.splits)

text \<open>Keys the entries of the program use.\<close>

definition key_ok :: "string \<Rightarrow> bool" where
  "key_ok k \<longleftrightarrow> is_valid_key k \<and> length k < 63 \<and> trimmed k"

lemma entry_good: "key_ok k \<Longrightarrow> int32 v \<Longrightarrow> good_entry k (show_int v)"
  by (rule show_int_good) (auto simp: key_ok_def int32_def)

lemma save_int_put:
  assumes "e_io e k (c_cfg s) = io_ok" "key_ok k" "int32 v"
  shows "c_cfg (save_int e k v s) = cfg_put (ce_jk (e_cfg e)) (ce_jv (e_cfg e)) k (show_int v) (c_cfg s)"
proof -
  have "cbuf 32 (show_int v) = show_int v" using length_show_int32 [OF assms(3)] by simp
  with assms show ?thesis by (simp add: save_int_def config_set_int_def cfg_put_def)
qed

lemma save_ints_put:
  assumes "\<And>k f. e_io e k f = io_ok" "\<forall>(k, v) \<in> set kvs. key_ok k \<and> int32 v"
  shows "c_cfg (save_ints e kvs s) =
    put_all (cfg_put (ce_jk (e_cfg e)) (ce_jv (e_cfg e))) (map (\<lambda>(k, v). (k, show_int v)) kvs) (c_cfg s)"
  unfolding save_ints_def using assms(2)
  by (induction kvs arbitrary: s) (auto simp: save_int_put assms(1))

lemma save_ints_frames [simp]:
  "c_adv (save_ints e kvs s) = c_adv s" "c_sp (save_ints e kvs s) = c_sp s" "c_cmds (save_ints e kvs s) = c_cmds s"
  "c_nodes (save_ints e kvs s) = c_nodes s" "c_basic (save_ints e kvs s) = c_basic s" "c_web (save_ints e kvs s) = c_web s"
  unfolding save_ints_def by (induction kvs arbitrary: s) auto

lemma rd_int_read:
  assumes "is_valid_value (Some (ce_js c))"
  shows "rd_int c k cur = (case cfg_read (ce_jk c) (ce_jv c) k (ce_file c) of None \<Rightarrow> cur
    | Some t \<Rightarrow> (case strtol (ce_lmax c) t of (n, r) \<Rightarrow> if r = t \<or> r \<noteq> [] then cur else to_int32 n))"
  using assms
  by (cases "ce_file c") (auto simp: rd_int_def config_get_int_def config_get_def cfg_read_def is_valid_value_def
      split: option.splits prod.splits)

lemma rd_int_saved:
  assumes "is_valid_value (Some (ce_js c))" "2 ^ 31 - 1 \<le> ce_lmax c" "wf_file f" "\<forall>(k, v) \<in> set kvs. key_ok k \<and> int32 v"
    and "ce_file c' = put_all (cfg_put (ce_jk c) (ce_jv c)) (map (\<lambda>(k, v). (k, show_int v)) kvs) f" "c' = c\<lparr>ce_file := ce_file c'\<rparr>" "ce_file c = f"
  shows "rd_int c' k cur = (case map_of (rev kvs) k of Some v \<Rightarrow> v | None \<Rightarrow> rd_int c k cur)"
proof -
  have fields: "ce_js c' = ce_js c" "ce_lmax c' = ce_lmax c" "ce_jk c' = ce_jk c" "ce_jv c' = ce_jv c"
    by (subst assms(6), simp)+
  have good: "\<forall>(k, v) \<in> set (map (\<lambda>(k, v). (k, show_int v)) kvs). good_entry k v"
    using assms(4) by (auto intro: entry_good)
  have m: "map_of (rev (map (\<lambda>(k, v). (k, show_int v)) kvs)) k = map_option show_int (map_of (rev kvs) k)"
    by (simp add: rev_map map_of_map)
  have r: "cfg_read (ce_jk c) (ce_jv c) k (ce_file c') = (case map_of (rev kvs) k of Some v \<Rightarrow> Some (show_int v)
      | None \<Rightarrow> cfg_read (ce_jk c) (ce_jv c) k f)"
    using cfg.read_put_all [OF assms(3) good, of "ce_jk c" "ce_jv c" k] m assms(5) by (simp split: option.splits)
  show ?thesis
  proof (cases "map_of (rev kvs) k")
    case None
    with r show ?thesis by (auto simp: rd_int_read assms(1,7) fields split: option.splits)
  next
    case (Some v)
    then have "int32 v" using assms(4) map_of_SomeD [OF Some] by auto
    moreover from this have "strtol (ce_lmax c) (show_int v) = (v, [])"
      by (intro strtol_show_int) (use assms(2) in \<open>auto simp: int32_def\<close>)
    ultimately show ?thesis using Some r by (auto simp: rd_int_read assms(1) fields int32_def not_sym [OF show_int_nonempty])
  qed
qed

section \<open>Fields a request keeps\<close>

lemma take_ints_keeps:
  assumes "\<And>k f i t. (k, f) \<in> set fs \<Longrightarrow> p (f i t) = p t"
  shows "p (take_ints e root fs s) = p s"
  unfolding take_ints_def using assms
proof (induction fs arbitrary: s)
  case (Cons kf fs)
  obtain k f where kf: "kf = (k, f)" by force
  have "p (take_int e root k f s) = p s" using Cons.prems [of k f] by (auto simp: take_int_def kf split: option.splits)
  moreover have "p (fold (\<lambda>(k, f). take_int e root k f) fs s') = p s'" for s' using Cons.prems by (intro Cons.IH) auto
  ultimately show ?case by (simp add: kf)
qed simp

lemma take_adv_frames: "c_cmds (take_ints e root adv_members s) = c_cmds s"
    "ai_mcs_bound_table (c_adv (take_ints e root adv_members s)) = ai_mcs_bound_table (c_adv s)"
    "bi_bridge_interface_num (c_basic (take_ints e root adv_members s)) = bi_bridge_interface_num (c_basic s)"
    "bi_bridge_interfaces (c_basic (take_ints e root adv_members s)) = bi_bridge_interfaces (c_basic s)"
    "c_cfg (take_ints e root adv_members s) = c_cfg s"
  by (rule take_ints_keeps, auto simp: adv_members_def set_cell_id_def)+

section \<open>Properties\<close>

text \<open>C32. What a restart restores of the advanced parameters set by a request: reading the file back gives
  the cell id, the start position, the prefix type, the period, the slot configuration and the
  switch of the interference avoidance as they are now; the symbol type is written under another
  name than it is read, so it is what it was before the request, like everything else.\<close>

theorem advinfo_after_restart:
  assumes "wtsl_core_parse_json_set_node_advinfo e args s = Some (0, s')"
    and "e_io e = (\<lambda>_ _. io_ok)" "is_valid_value (Some (ce_js (e_cfg e)))" "2 ^ 31 - 1 \<le> ce_lmax (e_cfg e)"
    and "wf_file (c_cfg s)" "list_all (\<lambda>(k, v). int32 v) (adv_entries s')"
  shows "read_adv (cfg_of e s') a = (let old = read_adv (cfg_of e s) a; cur = c_adv s' in old\<lparr>
    ai_cell_id := ai_cell_id cur, ai_cc_offset := ai_cc_offset cur,
    ai_mib_params := (ai_mib_params cur)\<lparr>mp_symbol_type := mp_symbol_type (ai_mib_params old)\<rparr>,
    ai_fisa_enable := ai_fisa_enable cur\<rparr>)"
proof -
  from assms(1) obtain root s1 where root: "cj_parse (e_cj e) args = Some root"
    and s1: "apply_node e (take_ints e root adv_members s) = Some s1" and s': "s' = save_ints e (adv_entries s1) s1"
    by (auto simp: wtsl_core_parse_json_set_node_advinfo_def split: option.splits Option.bind_splits)
  have take: "c_cfg (take_ints e root adv_members s) = c_cfg s" by (rule take_adv_frames)
  have ent: "adv_entries s' = adv_entries s1" by (simp add: s' adv_entries_def)
  have keys: "\<forall>(k, v) \<in> set (adv_entries s1). key_ok k \<and> int32 v"
    using assms(6) ent by (auto simp: adv_entries_def key_ok_def is_valid_key_def trimmed_def isspace_def list_all_iff)
  have cf: "ce_file (cfg_of e s') = put_all (cfg_put (ce_jk (cfg_of e s)) (ce_jv (cfg_of e s)))
      (map (\<lambda>(k, v). (k, show_int v)) (adv_entries s1)) (c_cfg s)"
    using save_ints_put [of e "adv_entries s1" s1] assms(2) keys apply_node_frames [OF s1] take
    by (simp add: cfg_of_def s')
  have rd: "rd_int (cfg_of e s') k cur = (case map_of (rev (adv_entries s1)) k of Some v \<Rightarrow> v | None \<Rightarrow> rd_int (cfg_of e s) k cur)" for k cur
    by (rule rd_int_saved [OF _ _ assms(5) keys cf]) (use assms(3,4) in \<open>simp_all add: cfg_of_def\<close>)
  have "c_adv s' = c_adv s1" by (simp add: s')
  then show ?thesis by (simp add: read_adv_def rd Let_def adv_entries_def)
qed


text \<open>A request that sets the parameters of the node faults on every text that is not one or does not fit
  its array: the name (128 bytes), the address (16), the password (32), the management address (16).\<close>

theorem setnode_unbounded_copy:
  assumes "cj_parse (e_cj e) args = Some root" "(k, n) \<in> {(''name'', 128), (''ip'', 16), (''set_sec_auth_pwd'', 32), (''net_manage_ip'', 16)}"
    and "cj_get (e_cj e) root k = Some j" "copy_text n j = None"
  shows "wtsl_core_parse_json_setnode e args s = None"
proof -
  have stop: "take_str e root k n f s = None" for f and s :: core
    using assms(3,4) by (simp add: take_str_def)
  from assms(2) consider "k = ''name''" "n = 128" | "k = ''ip''" "n = 16" | "k = ''set_sec_auth_pwd''" "n = 32" | "k = ''net_manage_ip''" "n = 16"
    by auto
  then show ?thesis
    by cases (use stop in \<open>simp_all add: wtsl_core_parse_json_setnode_def assms(1) Let_def\<close>)
qed

text \<open>From the web request to the radio: a request on the advanced parameters that succeeds has given the driver
  every parameter of the new state that the driver may get, in order, and the new state is the one
  the request describes.\<close>

lemma later_settings_devid [simp]: "later_settings n (a\<lparr>ai_devid := d\<rparr>) = later_settings n a"
  by (simp add: later_settings_def)

lemma apply_node_issues:
  assumes "\<exists>b \<in> set (ai_mcs_bound_table (c_adv s)). length (mb_user_mac b) = 17"
    and "nat (bi_bridge_interface_num (c_basic s)) \<le> length (bi_bridge_interfaces (c_basic s))" "e_web e"
  shows "\<exists>d w ds. apply_node e s = Some (s\<lparr>c_adv := (c_adv s)\<lparr>ai_devid := d\<rparr>, c_web := w, c_cmds := c_cmds s @ ds\<rparr>) \<and>
    subseq (map setting_cmd (filter accepted (later_settings (c_basic s) (c_adv s)))) ds"
proof -
  let ?w = "(0 :: int, Some (create_default_js_config_jsonstr (e_cj e) (e_port e) (bi_ip (c_basic s))))"
  have w: "sync_ip_to_js_cfg (e_cj e) (e_port e) (e_web e) (Some js_cfg_path) (Some (c_basic s)) (c_web s) = Some ?w"
    using assms(3) by (simp add: sync_ip_to_js_cfg_def)
  have iss: "issues (set_node (e_sh e) (cfg_of e s) (e_jt e) (e_boot e) (Some ?w) (c_basic s) (c_adv s))
      (map setting_cmd (filter accepted (Channel (bi_channel (c_basic s)) # Bw (bi_bw (c_basic s)) # later_settings (c_basic s) (c_adv s))))
      (\<lambda>r. \<exists>d. r = Some (0, (c_adv s)\<lparr>ai_devid := d\<rparr>, snd ?w))"
    by (rule set_node_issues [OF assms(1,2)]) simp
  obtain r ds where run: "run_state (set_node (e_sh e) (cfg_of e s) (e_jt e) (e_boot e) (Some ?w) (c_basic s) (c_adv s)) (c_cmds s) = (r, c_cmds s @ ds)"
    and sub: "subseq (map setting_cmd (filter accepted (Channel (bi_channel (c_basic s)) # Bw (bi_bw (c_basic s)) # later_settings (c_basic s) (c_adv s)))) ds"
    and r: "\<exists>d. r = Some (0, (c_adv s)\<lparr>ai_devid := d\<rparr>, snd ?w)"
    by (rule issuesE [OF iss])
  from r obtain d where d: "r = Some (0, (c_adv s)\<lparr>ai_devid := d\<rparr>, snd ?w)" ..
  have "subseq (map setting_cmd (filter accepted (later_settings (c_basic s) (c_adv s)))) ds"
    by (rule subseq_order.order_trans [OF _ sub]) (auto intro: list_emb_Cons)
  with run d w show ?thesis
    by (intro exI [of _ d] exI [of _ "snd ?w"] exI [of _ ds]) (simp add: apply_node_def radio_def)
qed

lemma advinfo_runs:
  assumes "cj_parse (e_cj e) args = Some root" "e_web e"
    and "\<exists>b \<in> set (ai_mcs_bound_table (c_adv s)). length (mb_user_mac b) = 17"
    and "nat (bi_bridge_interface_num (c_basic s)) \<le> length (bi_bridge_interfaces (c_basic s))"
  shows "\<exists>s' ds d. wtsl_core_parse_json_set_node_advinfo e args s = Some (0, s') \<and> c_cmds s' = c_cmds s @ ds \<and>
    c_basic s' = c_basic (take_ints e root adv_members s) \<and> c_adv s' = (c_adv (take_ints e root adv_members s))\<lparr>ai_devid := d\<rparr> \<and>
    subseq (map setting_cmd (filter accepted (later_settings (c_basic s') (c_adv s')))) ds"
proof -
  let ?t = "take_ints e root adv_members s"
  obtain d w ds where a: "apply_node e ?t = Some (?t\<lparr>c_adv := (c_adv ?t)\<lparr>ai_devid := d\<rparr>, c_web := w, c_cmds := c_cmds ?t @ ds\<rparr>)"
    and sub: "subseq (map setting_cmd (filter accepted (later_settings (c_basic ?t) (c_adv ?t)))) ds"
    using apply_node_issues [of ?t e] assms(2-4) by (auto simp: take_adv_frames)
  let ?s1 = "?t\<lparr>c_adv := (c_adv ?t)\<lparr>ai_devid := d\<rparr>, c_web := w, c_cmds := c_cmds ?t @ ds\<rparr>"
  let ?s' = "save_ints e (adv_entries ?s1) ?s1"
  have "wtsl_core_parse_json_set_node_advinfo e args s = Some (0, ?s')"
    using assms(1) a by (simp add: wtsl_core_parse_json_set_node_advinfo_def)
  moreover have "c_basic ?s1 = c_basic ?t" by (simp add: c_basic_def)
  ultimately show ?thesis using sub
    by (intro exI [of _ ?s'] exI [of _ ds] exI [of _ d]) (simp add: take_adv_frames)
qed


section \<open>Witnesses\<close>

definition demo_core :: core where
  "demo_core = \<lparr>c_sp = demo_sp, c_adv = demo_mcs, c_cfg = None, c_web = None, c_cmds = [], c_nodes = (None, demo_nheap),
     c_qos = demo_qos, c_acl = demo_acl\<rparr>"

definition demo_core_env :: "(string \<Rightarrow> json option) \<Rightarrow> core_env" where
  "demo_core_env p = \<lparr>e_sh = quiet_shell, e_cj = demo_cjson p, e_boot = demo_boot, e_cfg = (demo_env None)\<lparr>ce_js := ''-''\<rparr>, e_io = (\<lambda>_ _. io_ok),
     e_port = 8080, e_web = True, e_jt = 0\<rparr>"

lemma demo_core_ok:
  "\<exists>b \<in> set (ai_mcs_bound_table (c_adv demo_core)). length (mb_user_mac b) = 17"
  "nat (bi_bridge_interface_num (c_basic demo_core)) \<le> length (bi_bridge_interfaces (c_basic demo_core))"
  by (simp_all add: demo_core_def demo_mcs_def c_basic_def demo_sp_bridges)

definition demo_adv_request :: "string \<Rightarrow> json option" where
  "demo_adv_request _ = Some (JObj [(''cell_id'', JNum 5), (''symbol_type'', JNum 3)])"

lemma demo_take: "take_ints (demo_core_env demo_adv_request) (JObj [(''cell_id'', JNum 5), (''symbol_type'', JNum 3)]) adv_members demo_core =
    upd_mib (\<lambda>m. m\<lparr>mp_symbol_type := 3\<rparr>) (set_cell_id 5 demo_core)"
  by (simp add: take_ints_def adv_members_def take_int_def demo_core_env_def demo_cjson_def strcaseeq_def tolower_def)


theorem setnode_unbounded_copy_witness:
  "wtsl_core_parse_json_setnode (demo_core_env (\<lambda>_. Some (JObj [(''ip'', JStr ''192.168.100.1000'')]))) [] demo_core = None"
  by (rule setnode_unbounded_copy [where root = "JObj [(''ip'', JStr ''192.168.100.1000'')]" and k = "''ip''" and n = 16 and j = "JStr ''192.168.100.1000''"])
    (simp_all add: demo_core_env_def demo_cjson_def copy_text_def strcaseeq_def)

theorem advinfo_after_restart_witness:
  "\<exists>s'. wtsl_core_parse_json_set_node_advinfo (demo_core_env demo_adv_request) [] demo_core = Some (0, s') \<and>
    ai_cell_id (read_adv (cfg_of (demo_core_env demo_adv_request) s') demo_adv) = 5 \<and>
    mp_symbol_type (ai_mib_params (read_adv (cfg_of (demo_core_env demo_adv_request) s') demo_adv)) = mp_symbol_type (ai_mib_params demo_adv) \<and>
    mp_symbol_type (ai_mib_params (c_adv s')) = 3"
proof -
  let ?e = "demo_core_env demo_adv_request"
  let ?root = "JObj [(''cell_id'', JNum 5), (''symbol_type'', JNum 3)]"
  have "cj_parse (e_cj ?e) [] = Some ?root" "e_web ?e" by (simp_all add: demo_core_env_def demo_cjson_def demo_adv_request_def)
  from advinfo_runs [OF this demo_core_ok] obtain s' d where s': "wtsl_core_parse_json_set_node_advinfo ?e [] demo_core = Some (0, s')"
    and a: "c_basic s' = c_basic (take_ints ?e ?root adv_members demo_core)" "c_adv s' = (c_adv (take_ints ?e ?root adv_members demo_core))\<lparr>ai_devid := d\<rparr>"
    by auto
  have b: "bi_aifh_enable (c_basic s') = 0" "c_adv s' = (c_adv demo_core)\<lparr>ai_cell_id := 5, ai_mib_params := (ai_mib_params (c_adv demo_core))\<lparr>mp_symbol_type := 3\<rparr>, ai_devid := d\<rparr>"
    using a by (simp_all add: demo_take set_cell_id_def) (simp add: demo_core_def c_basic_def demo_sp_def zero_info_def zero_basic_def)
  have "list_all (\<lambda>(k, v). int32 v) (adv_entries s')"
    by (simp add: adv_entries_def b demo_core_def demo_mcs_def demo_adv_def int32_def)
  with s' have "read_adv (cfg_of ?e s') demo_adv = (let old = read_adv (cfg_of ?e demo_core) demo_adv; cur = c_adv s' in old\<lparr>
    ai_cell_id := ai_cell_id cur, ai_cc_offset := ai_cc_offset cur,
    ai_mib_params := (ai_mib_params cur)\<lparr>mp_symbol_type := mp_symbol_type (ai_mib_params old)\<rparr>, ai_fisa_enable := ai_fisa_enable cur\<rparr>)"
    by (intro advinfo_after_restart) (simp_all add: demo_core_env_def demo_env_def demo_core_def wf_file_def is_valid_value_def)
  moreover have "read_adv (cfg_of ?e demo_core) demo_adv = demo_adv"
    by (simp add: read_adv_def rd_int_def config_get_int_def config_get_def cfg_of_def demo_core_def demo_core_env_def demo_env_def)
  moreover have "ai_cell_id (c_adv s') = 5" "mp_symbol_type (ai_mib_params (c_adv s')) = 3"
    by (simp_all add: b)
  ultimately show ?thesis using s' by (simp add: Let_def)
qed

end
