(* ===== verification/Firmware.thy ===== *)
theory Firmware
  imports SlbInterface CJson
begin

text \<open>
  The firmware update (dataparser/wtsl_core_dataparser_ota.c and the two requests at the end of
  dataparser/wtsl_core_dataparser.c): the header of an uploaded package, its checks, the
  installation, with the orphan process that replaces the running program.

  The effects on the machine are a list of events: command lines, stored files, permissions.  What a
  command returns or prints, which paths exist and what a file holds depends on the events so far and is
  a parameter.  None is a memory fault; a NULL given to \<open>%s\<close> counts as one.
\<close>

section \<open>The machine\<close>

datatype fw_event = Run string | Store string string | Chmod string nat

text \<open>\<open>fw_file\<close>: the bytes of a file and whether it can be opened; \<open>fw_rest\<close>: what uninitialised memory
  holds as a string; \<open>fw_fork\<close>: the result of \<open>fork\<close>.\<close>

record fw_env =
  fw_cj :: cjson
  fw_lmax :: int
  fw_rc :: "fw_event list \<Rightarrow> string \<Rightarrow> int"
  fw_popen :: "fw_event list \<Rightarrow> string \<Rightarrow> string option"
  fw_exists :: "fw_event list \<Rightarrow> string \<Rightarrow> bool"
  fw_file :: "fw_event list \<Rightarrow> string \<Rightarrow> (string \<times> bool) option"
  fw_machine :: "string option"
  fw_pid :: int
  fw_fork :: int
  fw_rest :: string
  fw_writable :: bool

definition run :: "fw_env \<Rightarrow> string \<Rightarrow> fw_event list \<Rightarrow> int \<times> fw_event list" where
  "run e c tr = (fw_rc e tr c, tr @ [Run c])"

definition runs :: "string list \<Rightarrow> fw_event list \<Rightarrow> fw_event list" where
  "runs cs tr = tr @ map Run cs"

section \<open>The header\<close>

record ko_md5 =
  ko_name :: string
  ko_sum :: string

record firmware_header =
  fh_filename :: string
  fh_md5sum :: string
  fh_filesize :: string
  fh_version :: string
  fh_filetype :: string
  fh_firmwaretype :: string
  fh_up_method :: string
  fh_process :: string
  fh_targetarch :: string
  fh_hostinfo :: string
  fh_ko_files :: "ko_md5 list"

definition text_of :: "fw_env \<Rightarrow> json \<Rightarrow> string \<Rightarrow> nat \<Rightarrow> string option" where
  "text_of e root key n = (case cj_get (fw_cj e) root key of
     Some j \<Rightarrow> if is_string j then map_option (cbuf n) (valuestring j) else None | None \<Rightarrow> None)"

definition text_or :: "string option \<Rightarrow> string" where
  "text_or t = (case t of None \<Rightarrow> [] | Some s \<Rightarrow> s)"

text \<open>The sums of the kernel modules: the first four texts of the object.\<close>

fun read_ko :: "nat \<Rightarrow> (string \<times> json) list \<Rightarrow> ko_md5 list \<Rightarrow> ko_md5 list" where
  "read_ko i [] ks = ks"
| "read_ko i ((k, j) # ms) ks = (if i \<ge> 4 then ks else (case valuestring j of
     Some t \<Rightarrow> read_ko (Suc i) ms (ks[i := \<lparr>ko_name = cbuf 32 k, ko_sum = cbuf 33 t\<rparr>])
   | None \<Rightarrow> read_ko i ms ks))"

definition no_ko :: "ko_md5 list" where
  "no_ko = replicate 4 \<lparr>ko_name = [], ko_sum = []\<rparr>"

text \<open>File name, sum and size are required; a text that is not JSON leaves the header as it was.\<close>

definition parse_firmware_header :: "fw_env \<Rightarrow> string \<Rightarrow> firmware_header \<Rightarrow> int \<times> firmware_header" where
  "parse_firmware_header e data h = (case cj_parse (fw_cj e) data of
     None \<Rightarrow> (-1, h)
   | Some root \<Rightarrow>
       let opt = (\<lambda>key n. text_or (text_of e root key n));
           ko = (case cj_get (fw_cj e) root ''ko_md5sum'' of
             Some j \<Rightarrow> if is_object j then read_ko 0 (members j) no_ko else no_ko | None \<Rightarrow> no_ko);
           missing = length (filter (\<lambda>t. t = None)
             [text_of e root ''filename'' 64, text_of e root ''md5sum'' 33, text_of e root ''filesize'' 16])
       in (if missing > 0 then -1 else 0,
           \<lparr>fh_filename = opt ''filename'' 64, fh_md5sum = opt ''md5sum'' 33, fh_filesize = opt ''filesize'' 16,
            fh_version = opt ''version'' 32, fh_filetype = opt ''filetype'' 16, fh_firmwaretype = opt ''firmwaretype'' 16,
            fh_up_method = opt ''up_method'' 16, fh_process = opt ''process'' 32, fh_targetarch = opt ''targetarch'' 16,
            fh_hostinfo = opt ''hostinfo'' 16, fh_ko_files = ko\<rparr>))"

definition get_md5_by_ko_name :: "firmware_header \<Rightarrow> string \<Rightarrow> string option" where
  "get_md5_by_ko_name h name = map_option ko_sum (find (\<lambda>k. ko_name k \<noteq> [] \<and> ko_name k = name) (fh_ko_files h))"

text \<open>After the first \<open>B\<close> of the version.\<close>

definition get_build_version :: "firmware_header \<Rightarrow> string option" where
  "get_build_version h = after_char (CHR ''B'') (fh_version h)"

text \<open>The number between the first underscore and the next dot, through an array of 10 bytes.\<close>

definition extract_upgrade_version :: "int \<Rightarrow> string \<Rightarrow> int option" where
  "extract_upgrade_version lmax version = (case after_char (CHR ''_'') version of
     None \<Rightarrow> Some (-1)
   | Some t \<Rightarrow> (if CHR ''.'' \<notin> set t then Some (-1)
       else let num = takeWhile (\<lambda>c. c \<noteq> CHR ''.'') t
            in if num = [] then Some (-1) else if length num < 10 then Some (atoi lmax num) else None))"

definition Platform_verify :: "fw_env \<Rightarrow> firmware_header \<Rightarrow> int option" where
  "Platform_verify e h = do {
     value \<leftarrow> extract_upgrade_version (fw_lmax e) (fh_version h);
     Some (if fh_targetarch h = [] then (if value \<ge> 123 then 0 else -1)
       else if fh_targetarch h \<noteq> ''arm'' \<and> fh_targetarch h \<noteq> ''arm64'' then -1
       else (case fw_machine e of None \<Rightarrow> -1
         | Some m \<Rightarrow> if fh_targetarch h = ''arm'' \<and> strneq 4 m ''armv'' then 0
             else if fh_targetarch h = ''arm64'' \<and> m = ''aarch64'' then 0 else -1)) }"

section \<open>Sums\<close>

definition md5_command :: "string \<Rightarrow> string" where
  "md5_command f = cbuf 512 (''md5sum '' @ [CHR 0x27] @ f @ [CHR 0x27] @ '' | cut -d '' @ [CHR 0x27] @ '' '' @ [CHR 0x27] @ '' -f1'')"

definition calculate_file_md5 :: "fw_env \<Rightarrow> string \<Rightarrow> fw_event list \<Rightarrow> string option \<times> fw_event list" where
  "calculate_file_md5 e f tr = (case fw_popen e tr (md5_command f) of
     None \<Rightarrow> (None, tr)
   | Some out \<Rightarrow> (case first_line 63 out of
       None \<Rightarrow> (None, tr @ [Run (md5_command f)])
     | Some l \<Rightarrow> let r = takeWhile (\<lambda>c. c \<noteq> CHR 0x0A) l
                 in (if length r \<noteq> 32 then None else Some r, tr @ [Run (md5_command f)])))"

text \<open>A sum that the header does not list is a NULL that is compared.\<close>

definition verify_single_ko_file :: "fw_env \<Rightarrow> string \<Rightarrow> string option \<Rightarrow> fw_event list \<Rightarrow> (int \<times> fw_event list) option" where
  "verify_single_ko_file e path expected tr = (if \<not> fw_exists e tr path then Some (-1, tr)
     else (case calculate_file_md5 e path tr of
         (None, tr1) \<Rightarrow> Some (-1, tr1)
       | (Some actual, tr1) \<Rightarrow> map_option (\<lambda>x. (if strcaseeq actual x then 0 else -1, tr1)) expected))"

section \<open>Unpacking\<close>

definition execute_command :: "fw_env \<Rightarrow> string \<Rightarrow> fw_event list \<Rightarrow> int \<times> fw_event list" where
  "execute_command e c tr = (let (status, tr1) = run e c tr in
     (if status = -1 then -1 else if status mod 128 = 0 then status div 256 mod 256 else -1, tr1))"

definition extract_dir :: string where
  "extract_dir = ''/tmp/upload_file''"

definition mkdir_command :: "string \<Rightarrow> string" where
  "mkdir_command dir = cbuf 512 (''mkdir -p '' @ dir)"

definition untar_command :: "string \<Rightarrow> string \<Rightarrow> string" where
  "untar_command f dir = cbuf 512 (''tar -xzf '' @ f @ '' --strip-components 2 -C '' @ dir)"

definition extract_tar_gz :: "fw_env \<Rightarrow> string \<Rightarrow> string \<Rightarrow> fw_event list \<Rightarrow> int \<times> fw_event list" where
  "extract_tar_gz e f dir tr = (let (r1, tr1) = execute_command e (mkdir_command dir) tr in
     if r1 \<noteq> 0 then (-1, tr1)
     else let (r2, tr2) = execute_command e (untar_command f dir) tr1
       in (if r2 \<noteq> 0 then -1 else 0, tr2))"

definition ko_names :: "string list" where
  "ko_names = [''gt_gf61.ko'', ''hi_cipherserver.ko'', ''ksecurec.ko'', ''plat_gf61.ko'']"

definition firmware_dir :: "string \<Rightarrow> string" where
  "firmware_dir version = cbuf 256 (extract_dir @ ''/firmware_t'' @ version)"

definition ko_path :: "string \<Rightarrow> string \<Rightarrow> string" where
  "ko_path version k = cbuf 256 (firmware_dir version @ ''/'' @ k)"

text \<open>Every module is verified, whatever the others gave.\<close>

fun verify_kos :: "fw_env \<Rightarrow> firmware_header \<Rightarrow> string \<Rightarrow> string list \<Rightarrow> bool \<Rightarrow> fw_event list \<Rightarrow> (bool \<times> fw_event list) option" where
  "verify_kos e h version [] ok tr = Some (ok, tr)"
| "verify_kos e h version (k # ks) ok tr = do {
     (r, tr1) \<leftarrow> verify_single_ko_file e (ko_path version k) (get_md5_by_ko_name h k) tr;
     verify_kos e h version ks (ok \<and> r = 0) tr1 }"

definition extract_and_verify_firmware :: "fw_env \<Rightarrow> string \<Rightarrow> firmware_header \<Rightarrow> fw_event list \<Rightarrow> (int \<times> fw_event list) option" where
  "extract_and_verify_firmware e f h tr = (case calculate_file_md5 e f tr of
     (None, tr1) \<Rightarrow> Some (-1, tr1)
   | (Some got, tr1) \<Rightarrow>
       if \<not> strcaseeq (fh_md5sum h) got then Some (-1, tr1)
       else (let (r, tr2) = extract_tar_gz e f extract_dir tr1 in
         if r \<noteq> 0 then Some (-1, tr2)
         else do {
           version \<leftarrow> get_build_version h;
           if list_all (\<lambda>k. fw_exists e tr2 (ko_path version k)) ko_names then do {
             (ok, tr3) \<leftarrow> verify_kos e h version ko_names True tr2;
             Some (if ok then 0 else -1, tr3) }
           else Some (-1, tr2) }))"

section \<open>Installation\<close>

text \<open>The results of the commands are only logged.\<close>

definition upgrade_hi_firmware :: "fw_env \<Rightarrow> firmware_header \<Rightarrow> string \<Rightarrow> string \<Rightarrow> fw_event list \<Rightarrow> (int \<times> fw_event list) option" where
  "upgrade_hi_firmware e h dir version tr =
     (if \<not> fw_exists e tr (cbuf 256 (dir @ ''/firmware_t'' @ version)) then Some (-1, tr)
      else do {
        let tr1 = runs [cbuf 256 (''rm -rf /home/firmware_t'' @ version),
          cbuf 256 (''cp -rf '' @ dir @ ''/firmware_t'' @ version @ '' /home/wt''),
          cbuf 256 (''rm -rf /home/firmware && ln -s /home/wt/firmware_t'' @ version @ '' /home/wt/firmware'')] tr;
        value \<leftarrow> extract_upgrade_version (fw_lmax e) (fh_version h);
        Some (0, if value = 123 then runs [cbuf 256 (''cp -rf '' @ dir @ ''/firmware_t'' @ version @ '' /home/ && ln -s /home/firmware_t'' @
          version @ '' /home/firmware'')] tr1 else tr1) })"

definition upgrade_web_files_in_background :: "fw_env \<Rightarrow> fw_event list \<Rightarrow> int \<times> fw_event list" where
  "upgrade_web_files_in_background e tr =
     (let tr1 = (if fw_exists e tr ''/home/wt/upload_file'' then runs [''rm -rf /home/wt/upload_file''] tr else tr) in
      if \<not> fw_exists e tr1 ''/tmp/upload_file/www'' then (-1, tr1)
      else let tr2 = runs [''rm -rf /home/wt/www && cp -rf /tmp/upload_file/www /home/wt/''] tr1 in
        if \<not> fw_exists e tr2 ''/home/wt/www'' then (-1, tr2)
        else (0, runs [''killall httpd && httpd -h /home/wt/www''] tr2))"

definition current_binary :: string where "current_binary = ''/home/wt/app/wtsl_app''"
definition backup_binary :: string where "backup_binary = ''/home/wt/app/wtsl_app.backup''"
definition lib_dir :: string where "lib_dir = ''/home/wt/app''"
definition backup_lib_dir :: string where "backup_lib_dir = ''/home/wt/app/lib.backup''"

definition app_dir :: "string \<Rightarrow> string" where
  "app_dir dir = cbuf 256 (dir @ ''/app'')"

definition www_dir :: "string \<Rightarrow> string" where
  "www_dir dir = cbuf 256 (dir @ ''/www'')"

definition app_file :: "string \<Rightarrow> string \<Rightarrow> string" where
  "app_file dir name = cbuf 256 (app_dir dir @ ''/'' @ name)"

definition copy_command :: "string \<Rightarrow> string \<Rightarrow> string" where
  "copy_command from to = cbuf 256 (''cp '' @ from @ '' '' @ to)"

definition backup_commands :: "string list" where
  "backup_commands = [copy_command current_binary backup_binary,
     cbuf 256 (''mkdir -p '' @ backup_lib_dir @ '' && cp -r '' @ lib_dir @ ''/*.so '' @ backup_lib_dir)]"

definition stop_command :: "fw_env \<Rightarrow> string \<Rightarrow> string" where
  "stop_command e sig = cbuf 256 (''ps | grep wtsl_app | grep -v '' @ show_int (fw_pid e) @ '' | grep -v grep | awk '' @ [CHR 0x27] @
     ''{print $1}'' @ [CHR 0x27] @ '' | xargs kill -'' @ sig @ '' 2>/dev/null'')"

definition start_command :: string where
  "start_command = cbuf 256 (''LD_LIBRARY_PATH='' @ lib_dir @ '' '' @ current_binary @ '' &'')"

definition restore_commands :: "string list" where
  "restore_commands = [copy_command backup_binary current_binary, cbuf 256 (''cp -r '' @ backup_lib_dir @ ''/* '' @ lib_dir @ ''/'')]"

text \<open>The rollback restarts with \<open>start_cmd\<close>, whose initialisation the jump may have skipped.\<close>

definition rollback :: "string \<Rightarrow> fw_event list \<Rightarrow> int \<times> fw_event list" where
  "rollback start_cmd tr = (-1, runs (restore_commands @ [start_cmd]) tr)"

text \<open>The replacing of the libraries up to the first that fails.\<close>

fun replace_libs :: "fw_env \<Rightarrow> (string \<times> string) list \<Rightarrow> fw_event list \<Rightarrow> bool \<times> fw_event list" where
  "replace_libs e [] tr = (True, tr)"
| "replace_libs e ((from, name) # ls) tr = (let (r, tr1) = run e (copy_command from (lib_dir @ ''/'' @ name)) tr in
     if r \<noteq> 0 then (False, tr1) else replace_libs e ls tr1)"

definition lib_files :: "string list" where
  "lib_files = [''libcjson.so'', ''libwtsl_core.so'', ''libmicrohttpd.so'']"

text \<open>The three flags all come from \<open>libwtsl_core.so\<close>.\<close>

definition perform_app_upgrade :: "fw_env \<Rightarrow> string \<Rightarrow> fw_event list \<Rightarrow> int \<times> fw_event list" where
  "perform_app_upgrade e dir tr =
     (let new_binary = app_file dir ''wtsl_app'' in
      if \<not> fw_exists e tr new_binary then (-1, tr)
      else let has_libs = fw_exists e tr (app_file dir ''libwtsl_core.so'');
           tr1 = runs (backup_commands @ [stop_command e ''TERM'', stop_command e ''KILL'']) (tr @ [Chmod new_binary 493]);
           (r2, tr2) = run e (copy_command new_binary current_binary) tr1 in
         if r2 \<noteq> 0 then rollback (fw_rest e) tr2
         else let (ok, tr3) = replace_libs e (if has_libs then map (\<lambda>n. (app_file dir n, n)) lib_files else []) (tr2 @ [Chmod current_binary 493]) in
           if \<not> ok then rollback (fw_rest e) tr3
           else let (r4, tr4) = run e start_command (runs [''sync''] tr3) in
             if r4 \<noteq> 0 then rollback start_command tr4
             else (0, runs [cbuf 256 (''rm -rf '' @ dir)] tr4))"

text \<open>The parent returns, the child ends with an exit status.\<close>

datatype proc_end = Returned int | Exited int

definition orphan_process_upgrade :: "fw_env \<Rightarrow> string \<Rightarrow> fw_event list \<Rightarrow> proc_end \<times> fw_event list" where
  "orphan_process_upgrade e dir tr =
     (if fw_fork e = -1 then (Returned (-1), tr)
      else if fw_fork e > 0 then
        (Returned 0, if fw_exists e tr (www_dir dir) then snd (upgrade_web_files_in_background e tr) else tr)
      else let (r, tr1) = perform_app_upgrade e dir tr in
        (Exited r, if r = 0 then tr1 @ [Store ''/tmp/app_upgrade_result.txt'' (show_int r), Run ''sync && reboot''] else tr1))"

definition list_command :: "string \<Rightarrow> string" where
  "list_command dir = cbuf 256 (''ls -la '' @ dir)"

text \<open>A package is for the program, the web pages, the radio's firmware, or several of them.\<close>

definition handle_firmware_upgrade :: "fw_env \<Rightarrow> firmware_header \<Rightarrow> fw_event list \<Rightarrow> (proc_end \<times> fw_event list) option" where
  "handle_firmware_upgrade e h tr = do {
     version \<leftarrow> get_build_version h;
     let app = app_dir extract_dir;
     let www = www_dir extract_dir;
     let fw = firmware_dir version;
     let has_app = fw_exists e tr app;
     let tr1 = (if has_app then runs [list_command app] tr else tr);
     let has_www = fw_exists e tr1 www;
     let tr2 = (if has_www then runs [list_command www] tr1 else tr1);
     let has_firmware = fw_exists e tr2 fw;
     let tr3 = (if has_firmware then runs [list_command fw] tr2 else tr2);
     if \<not> has_app \<and> \<not> has_www \<and> \<not> has_firmware then Some (Returned (-1), tr3)
     else do {
       tr4 \<leftarrow> (if has_firmware then map_option snd (upgrade_hi_firmware e h extract_dir version tr3) else Some tr3);
       Some (if has_app then orphan_process_upgrade e extract_dir tr4
             else let (r, tr5) = upgrade_web_files_in_background e tr4 in (Returned r, tr5)) } }"

section \<open>The requests\<close>

text \<open>The bytes read into an array of \<open>n\<close> bytes, as a string; nothing ends it when they fill the array.\<close>

definition read_string :: "nat \<Rightarrow> nat \<Rightarrow> string \<Rightarrow> string option" where
  "read_string n k bytes = (let b = take k bytes in
     if CHR 0x00 \<in> set b \<or> length b < n then Some (takeWhile (\<lambda>c. c \<noteq> CHR 0x00) b) else None)"

definition fw_error :: "string \<Rightarrow> string" where
  \<open>fw_error msg = ''{"status":"error","message":"'' @ msg @ ''"}''\<close>

definition find_header :: "fw_env \<Rightarrow> firmware_header \<Rightarrow> string \<Rightarrow> string + firmware_header" where
  "find_header e junk data = (case parse_firmware_header e data junk of
     (r, h) \<Rightarrow> if r = 0 then Inr h
       else if CHR ''{'' \<notin> set data then Inl (fw_error ''No JSON data found in header'')
       else (case parse_firmware_header e (dropWhile (\<lambda>c. c \<noteq> CHR ''{'') data) h of
           (r2, h2) \<Rightarrow> if r2 = 0 then Inr h2 else Inl (fw_error ''Invalid firmware header format'')))"

definition upgrade_archive :: string where
  "upgrade_archive = ''/tmp/upgrade.tar.gz''"

text \<open>The answer after an update, from what is found in the package's directory afterwards.\<close>

definition upgrade_reply :: "firmware_header \<Rightarrow> string \<Rightarrow> string \<Rightarrow> string \<Rightarrow> string" where
  \<open>upgrade_reply h msg comps note = cbuf 1024 (''{"status":success","message":"'' @ msg @ ''","version":"'' @ fh_version h @
     ''","type":"'' @ fh_firmwaretype h @ ''","process":"'' @ fh_process h @ ''","upgrade_components":"'' @ comps @
     ''","note":"'' @ note @ ''"}'')\<close>

text \<open>The radio's files are looked for under the version of the running program.\<close>

definition own_version :: string where
  "own_version = ''67eff75a''"

definition success_response :: "fw_env \<Rightarrow> firmware_header \<Rightarrow> fw_event list \<Rightarrow> string" where
  "success_response e h tr =
     (let has_app = fw_exists e tr (app_dir extract_dir);
          has_www = fw_exists e tr (www_dir extract_dir);
          has_firmware = fw_exists e tr (firmware_dir own_version);
          has_libs = (has_app \<and> list_ex (\<lambda>n. fw_exists e tr (app_file extract_dir n)) lib_files)
      in if has_firmware then upgrade_reply h ''hi firmware files upgrade submitted'' ''hi firmware ko files''
             ''hi firmware ko files have been updated, no service restart required''
         else if has_app \<and> has_www then
           (if has_libs then upgrade_reply h ''Application and libraries and web files upgrade submitted'' ''wtsl_app, shared libraries, web files''
              ''Application upgrade running in background with libraries update''
            else upgrade_reply h ''Application and web files upgrade submitted'' ''wtsl_app,web files'' ''Application upgrade running in background'')
         else if has_app then
           (if has_libs then upgrade_reply h ''Application and libraries upgrade submitted'' ''wtsl_app, shared libraries''
              ''Application upgrade running in background with libraries update''
            else upgrade_reply h ''Application upgrade submitted'' ''wtsl_app'' ''Application upgrade running in background as orphan process'')
         else if has_www then upgrade_reply h ''web files upgrade submitted'' ''web files'' ''web files have been updated, no service restart required''
         else [])"

text \<open>The update: the answer, or the exit status of the child that ran it.\<close>

definition wtsl_core_firmware_upgrade :: "fw_env \<Rightarrow> firmware_header \<Rightarrow> string \<Rightarrow> fw_event list \<Rightarrow> ((int + string) \<times> fw_event list) option" where
  "wtsl_core_firmware_upgrade e junk f tr = (case fw_file e tr f of
     Some (bytes, True) \<Rightarrow> do {
       data \<leftarrow> read_string 1024 1024 bytes;
       case find_header e junk data of
         Inl msg \<Rightarrow> Some (Inr msg, tr)
       | Inr h \<Rightarrow> do {
           p \<leftarrow> Platform_verify e h;
           if p \<noteq> 0 then Some (Inr (fw_error ''Platform Architecture verify failed''), tr)
           else do {
             (v, tr1) \<leftarrow> extract_and_verify_firmware e upgrade_archive h tr;
             if v \<noteq> 0 then Some (Inr (fw_error ''MD5 verification failed''), tr1)
             else if fh_hostinfo h = ''rk3568'' then
               (let (r, tr2) = run e ''/tmp/AutoScripts_rk.sh rk upgrade'' tr1 in
                Some (Inr (if r \<noteq> 0 then fw_error ''Upgrade process for rk3568 failed'' else success_response e h tr2), tr2))
             else do {
               (pe, tr2) \<leftarrow> handle_firmware_upgrade e h tr1;
               Some (case pe of Exited c \<Rightarrow> Inl c
                 | Returned r \<Rightarrow> Inr (if r \<noteq> 0 then fw_error ''Upgrade process failed'' else success_response e h tr2), tr2) } } } }
   | _ \<Rightarrow> None)"

text \<open>The part of the archive that follows the header's first brace by 1024 bytes, as long as the header says.\<close>

definition archive_part :: "int \<Rightarrow> firmware_header \<Rightarrow> string \<Rightarrow> string option" where
  "archive_part lmax h bytes = do {
     pre \<leftarrow> strstr_pre ''{'' (takeWhile (\<lambda>c. c \<noteq> CHR 0x00) bytes);
     let start = length pre + 1024;
     let n = atoi lmax (fh_filesize h);
     if 0 \<le> n \<and> start + nat n \<le> length bytes then Some (take (nat n) (drop start bytes)) else None }"

definition upload_reply :: "firmware_header \<Rightarrow> string" where
  \<open>upload_reply h = cbuf 512 (''{"status":"success","message":"Firmware uploaded and verified successfully","version":"'' @ fh_version h @
     ''","type":"'' @ fh_firmwaretype h @ ''","filename":"'' @ fh_filename h @ ''","md5":"'' @ fh_md5sum h @ ''","size":"'' @ fh_filesize h @ ''"}'')\<close>

text \<open>The upload: the archive is taken out of the uploaded file.  The target is emptied before the header is read.\<close>

definition wtsl_core_parse_json_extract_file_header :: "fw_env \<Rightarrow> firmware_header \<Rightarrow> string \<Rightarrow> fw_event list \<Rightarrow> (string \<times> fw_event list) option" where
  "wtsl_core_parse_json_extract_file_header e junk f tr =
     (if \<not> fw_exists e tr f then Some (fw_error ''Uploaded file not found'', tr)
      else (case fw_file e tr f of
        None \<Rightarrow> Some (fw_error ''Cannot access file information'', tr)
      | Some (bytes, _) \<Rightarrow>
          if length bytes \<le> 512 then Some (fw_error ''File too small'', tr)
          else let tr1 = (if fw_writable e then tr @ [Store upgrade_archive []] else tr) in
            (case fw_file e tr1 f of
              Some (now, True) \<Rightarrow> do {
                data \<leftarrow> read_string 2048 1024 now;
                case find_header e junk data of
                  Inl msg \<Rightarrow> Some (msg, tr1)
                | Inr h \<Rightarrow> do {
                    part \<leftarrow> archive_part (fw_lmax e) h now;
                    if fw_writable e then Some (upload_reply h, tr1 @ [Store upgrade_archive part]) else None } }
            | _ \<Rightarrow> Some (fw_error ''Cannot open uploaded file'', tr1))))"

end
