(* ===== verification/FirmwareProps.thy ===== *)
theory FirmwareProps
  imports Firmware "HOL-Library.Sublist"
begin

text \<open>
  The firmware update: nothing is installed unverified, what an upload stores, what a failed update leaves
  behind, and the packages that are reported wrongly.
\<close>

section \<open>Events only grow\<close>

lemma run_simp [simp]: "run e c tr = (fw_rc e tr c, tr @ [Run c])"
  by (simp add: run_def)

lemma calculate_file_md5_events:
  "snd (calculate_file_md5 e f tr) = tr \<or> snd (calculate_file_md5 e f tr) = tr @ [Run (md5_command f)]"
  by (auto simp: calculate_file_md5_def Let_def split: option.splits)

text \<open>\<open>adds E tr tr'\<close>: the events between are all in \<open>E\<close>.\<close>

definition adds :: "fw_event set \<Rightarrow> fw_event list \<Rightarrow> fw_event list \<Rightarrow> bool" where
  "adds E tr tr' \<longleftrightarrow> (\<exists>es. tr' = tr @ es \<and> set es \<subseteq> E)"

lemma adds_refl [simp]: "adds E tr tr"
  by (simp add: adds_def)

lemma adds_trans: "adds E a b \<Longrightarrow> adds E b c \<Longrightarrow> adds E a c"
  unfolding adds_def by (metis append.assoc le_sup_iff set_append)

lemma adds_mono: "adds E a b \<Longrightarrow> E \<subseteq> F \<Longrightarrow> adds F a b"
  unfolding adds_def by blast

lemma adds_prefix: "adds E a b \<Longrightarrow> prefix a b"
  unfolding adds_def by auto

lemma calculate_adds:
  assumes "calculate_file_md5 e f tr = (r, tr')"
  shows "adds {Run (md5_command f)} tr tr'"
  using calculate_file_md5_events [of e f tr] assms by (auto simp: adds_def)

definition module_checked :: "fw_env \<Rightarrow> firmware_header \<Rightarrow> string \<Rightarrow> fw_event list \<Rightarrow> string \<Rightarrow> bool" where
  "module_checked e h v tr k \<longleftrightarrow> (\<exists>t got x. prefix t tr \<and> fst (calculate_file_md5 e (ko_path v k) t) = Some got \<and>
     get_md5_by_ko_name h k = Some x \<and> strcaseeq got x)"

lemma module_checked_mono: "module_checked e h v t k \<Longrightarrow> prefix t tr \<Longrightarrow> module_checked e h v tr k"
  unfolding module_checked_def by (meson prefix_order.trans)

lemma verify_single_adds:
  assumes "verify_single_ko_file e p x tr = Some (r, tr')"
  shows "adds {Run (md5_command p)} tr tr'"
  using assms calculate_adds [of e p tr]
  by (auto simp: verify_single_ko_file_def split: if_splits prod.splits option.splits)

lemma verify_kos_result:
  assumes "verify_kos e h v ks ok tr = Some (b, tr')"
  shows "adds (Run ` md5_command ` ko_path v ` set ks) tr tr' \<and> (b \<longrightarrow> ok \<and> (\<forall>k \<in> set ks. module_checked e h v tr' k))"
  using assms
proof (induction ks arbitrary: ok tr)
  case (Cons k ks)
  from Cons.prems obtain r tr1 where
    v: "verify_single_ko_file e (ko_path v k) (get_md5_by_ko_name h k) tr = Some (r, tr1)"
    and rest: "verify_kos e h v ks (ok \<and> r = 0) tr1 = Some (b, tr')"
    by (auto split: Option.bind_splits)
  note IH = Cons.IH [OF rest]
  have a: "adds {Run (md5_command (ko_path v k))} tr tr1" by (rule verify_single_adds [OF v])
  have "module_checked e h v tr1 k" if r0: "r = 0"
  proof -
    obtain got x where "calculate_file_md5 e (ko_path v k) tr = (Some got, tr1)" "get_md5_by_ko_name h k = Some x" "strcaseeq got x"
      using v [unfolded r0] by (auto simp: verify_single_ko_file_def split: if_splits prod.splits option.splits)
    with adds_prefix [OF a] show ?thesis unfolding module_checked_def by force
  qed
  moreover have "prefix tr1 tr'" using IH adds_prefix by blast
  moreover have "adds (Run ` md5_command ` ko_path v ` set (k # ks)) tr tr'"
    by (rule adds_trans [OF adds_mono [OF a] adds_mono [OF IH [THEN conjunct1]]]) auto
  ultimately show ?case using IH module_checked_mono by auto
qed simp

text \<open>The commands that check and unpack a package.\<close>

definition check_steps :: "string \<Rightarrow> fw_event set" where
  "check_steps v = Run ` ({md5_command upgrade_archive, mkdir_command extract_dir, untar_command upgrade_archive extract_dir} \<union> md5_command ` ko_path v ` set ko_names)"

definition package_checked :: "fw_env \<Rightarrow> firmware_header \<Rightarrow> fw_event list \<Rightarrow> fw_event list \<Rightarrow> bool" where
  "package_checked e h tr tr' \<longleftrightarrow> (\<exists>got v. fst (calculate_file_md5 e upgrade_archive tr) = Some got \<and> strcaseeq (fh_md5sum h) got \<and>
     get_build_version h = Some v \<and> (\<forall>k \<in> set ko_names. module_checked e h v tr' k))"

lemma extract_adds: "extract_tar_gz e f d tr = (r, tr') \<Longrightarrow>
  adds {Run (mkdir_command d), Run (untar_command f d)} tr tr'"
  by (auto simp: extract_tar_gz_def execute_command_def adds_def Let_def split: if_splits)

lemma extract_and_verify_result:
  assumes "extract_and_verify_firmware e upgrade_archive h tr = Some (r, tr')"
  shows "adds (check_steps (text_or (get_build_version h))) tr tr' \<and> (r = 0 \<longrightarrow> package_checked e h tr tr')"
proof -
  let ?C = "check_steps (text_or (get_build_version h))"
  obtain s tr1 where md5: "calculate_file_md5 e upgrade_archive tr = (s, tr1)" by force
  have a1: "adds ?C tr tr1" by (rule adds_mono [OF calculate_adds [OF md5]]) (simp add: check_steps_def)
  show ?thesis
  proof (cases "\<exists>got. s = Some got \<and> strcaseeq (fh_md5sum h) got")
    case False
    then show ?thesis using assms a1 md5 by (auto simp: extract_and_verify_firmware_def split: option.splits if_splits)
  next
    case True
    then obtain got where got: "s = Some got" "strcaseeq (fh_md5sum h) got" by blast
    obtain r2 tr2 where tar: "extract_tar_gz e upgrade_archive extract_dir tr1 = (r2, tr2)" by force
    have a2: "adds ?C tr tr2"
      by (rule adds_trans [OF a1 adds_mono [OF extract_adds [OF tar]]]) (simp add: check_steps_def)
    show ?thesis
    proof (cases "r2 = 0 \<and> (\<exists>v. get_build_version h = Some v \<and> list_all (\<lambda>k. fw_exists e tr2 (ko_path v k)) ko_names)")
      case False
      then show ?thesis using assms a2 md5 got tar
        by (auto simp: extract_and_verify_firmware_def split: option.splits if_splits Option.bind_splits)
    next
      case True
      then obtain v where v: "get_build_version h = Some v" "list_all (\<lambda>k. fw_exists e tr2 (ko_path v k)) ko_names" by blast
      with True assms md5 got tar obtain ok where
        kos: "verify_kos e h v ko_names True tr2 = Some (ok, tr')" and r: "r = (if ok then 0 else -1)"
        by (auto simp: extract_and_verify_firmware_def split: Option.bind_splits)
      have k: "adds (Run ` md5_command ` ko_path v ` set ko_names) tr2 tr'" "ok \<Longrightarrow> \<forall>k \<in> set ko_names. module_checked e h v tr' k"
        using verify_kos_result [OF kos] by auto
      have "adds ?C tr tr'" by (rule adds_trans [OF a2 adds_mono [OF k(1)]]) (auto simp: check_steps_def v(1) text_or_def)
      then show ?thesis using k(2) r md5 got v(1) by (auto simp: package_checked_def)
    qed
  qed
qed

section \<open>The request\<close>

definition archive_present :: "fw_env \<Rightarrow> firmware_header \<Rightarrow> string \<Rightarrow> fw_event list \<Rightarrow> firmware_header \<Rightarrow> bool" where
  "archive_present e junk f tr h \<longleftrightarrow> (\<exists>bytes data. fw_file e tr f = Some (bytes, True) \<and> read_string 1024 1024 bytes = Some data \<and>
     find_header e junk data = Inr h)"

lemma runs_prefix: "prefix tr (runs cs tr)"
  by (simp add: runs_def)

lemma prefix_runs [intro]: "prefix a b \<Longrightarrow> prefix a (runs cs b)"
  by (simp add: runs_def)

lemma web_prefix: "prefix a tr \<Longrightarrow> prefix a (snd (upgrade_web_files_in_background e tr))"
  by (auto simp: upgrade_web_files_in_background_def Let_def)

lemma replace_libs_prefix: "prefix a tr \<Longrightarrow> replace_libs e ls tr = (ok, tr') \<Longrightarrow> prefix a tr'"
  by (induction e ls tr rule: replace_libs.induct) (auto simp: Let_def split: if_splits)

text \<open>The program backed up and stopped, with the new one made executable.\<close>

definition backed_up :: "fw_env \<Rightarrow> string \<Rightarrow> fw_event list \<Rightarrow> fw_event list" where
  "backed_up e dir tr = runs (backup_commands @ [stop_command e ''TERM'', stop_command e ''KILL'']) (tr @ [Chmod (app_file dir ''wtsl_app'') 493])"

lemma app_upgrade_outcomes:
  assumes "perform_app_upgrade e dir tr = (r, tr')"
  obtains "r = -1" "tr' = tr"
  | mid c where "r = -1" "tr' = runs (restore_commands @ [c]) mid" "c \<in> {fw_rest e, start_command}" "prefix (backed_up e dir tr) mid"
  | "r = 0" "prefix (backed_up e dir tr) tr'"
proof (cases "fw_exists e tr (app_file dir ''wtsl_app'')")
  case False
  with assms that(1) show thesis by (simp add: perform_app_upgrade_def)
next
  case ex: True
  let ?t1 = "backed_up e dir tr"
  let ?c = "copy_command (app_file dir ''wtsl_app'') current_binary"
  note assms' = assms [unfolded perform_app_upgrade_def Let_def, folded backed_up_def]
  show thesis
  proof (cases "fw_rc e ?t1 ?c = 0")
    case False
    with assms' ex that(2) [of "fw_rest e" "?t1 @ [Run ?c]"] show thesis by (simp add: rollback_def)
  next
    case rc: True
    obtain ok t3 where lib: "replace_libs e (if fw_exists e tr (app_file dir ''libwtsl_core.so'') then map (\<lambda>n. (app_file dir n, n)) lib_files else [])
        (?t1 @ [Run ?c, Chmod current_binary 493]) = (ok, t3)" by force
    have p: "prefix ?t1 t3" by (rule replace_libs_prefix [OF _ lib]) simp
    show thesis
    proof (cases ok)
      case False
      with assms' ex rc lib p that(2) [of "fw_rest e" t3] show thesis by (simp add: rollback_def)
    next
      case ok: True
      let ?t4 = "runs [''sync''] t3 @ [Run start_command]"
      have p4: "prefix ?t1 ?t4" by (rule prefix_order.trans [OF prefix_runs [OF p, of "[''sync'']"]]) simp
      show thesis
      proof (cases "fw_rc e (runs [''sync''] t3) start_command = 0")
        case False
        with assms' ex rc lib ok p4 that(2) [of start_command ?t4] show thesis by (simp add: rollback_def)
      next
        case True
        with assms' ex rc lib ok that(3) prefix_runs [OF p4, of "[cbuf 256 (''rm -rf '' @ dir)]"] show thesis by simp
      qed
    qed
  qed
qed

lemma app_prefix:
  assumes "prefix a tr"
  shows "prefix a (snd (perform_app_upgrade e d tr))"
proof -
  obtain r tr' where eq: "perform_app_upgrade e d tr = (r, tr')" by force
  have b: "prefix a (backed_up e d tr)" using assms by (auto simp: backed_up_def)
  have "prefix a tr'"
    by (rule app_upgrade_outcomes [OF eq]) (use assms b prefix_order.trans [OF b] in auto)
  with eq show ?thesis by simp
qed

lemma hi_prefix: "upgrade_hi_firmware e h d v tr = Some (r, tr') \<Longrightarrow> prefix a tr \<Longrightarrow> prefix a tr'"
  by (auto simp: upgrade_hi_firmware_def Let_def split: if_splits Option.bind_splits)

lemma orphan_prefix: "prefix a tr \<Longrightarrow> prefix a (snd (orphan_process_upgrade e d tr))"
  using web_prefix [of a tr e] app_prefix [of a tr e d] by (auto simp: orphan_process_upgrade_def Let_def split: prod.splits)

lemma handle_prefix:
  assumes "handle_firmware_upgrade e h tr = Some (r, tr')"
  shows "prefix tr tr'"
proof -
  have p: "prefix tr (if c then runs cs b else b)" if "prefix tr b" for c cs b using that by auto
  obtain v where v: "get_build_version h = Some v" using assms by (auto simp: handle_firmware_upgrade_def split: Option.bind_splits)
  define tr1 where "tr1 = (if fw_exists e tr (app_dir extract_dir) then runs [list_command (app_dir extract_dir)] tr else tr)"
  define tr2 where "tr2 = (if fw_exists e tr1 (www_dir extract_dir) then runs [list_command (www_dir extract_dir)] tr1 else tr1)"
  define tr3 where "tr3 = (if fw_exists e tr2 (firmware_dir v) then runs [list_command (firmware_dir v)] tr2 else tr2)"
  have tr3: "prefix tr tr3" unfolding tr1_def tr2_def tr3_def by (intro p) simp
  note assms' = assms [unfolded handle_firmware_upgrade_def v Option.bind.simps Let_def, folded tr1_def, folded tr2_def, folded tr3_def]
  show ?thesis
  proof (cases "\<not> fw_exists e tr (app_dir extract_dir) \<and> \<not> fw_exists e tr1 (www_dir extract_dir) \<and> \<not> fw_exists e tr2 (firmware_dir v)")
    case True
    with assms' tr3 show ?thesis by simp
  next
    case False
    with assms' obtain tr4 where
      h: "(if fw_exists e tr2 (firmware_dir v) then map_option snd (upgrade_hi_firmware e h extract_dir v tr3) else Some tr3) = Some tr4"
      and f: "tr' = snd (orphan_process_upgrade e extract_dir tr4) \<or> tr' = snd (upgrade_web_files_in_background e tr4)"
      by (auto split: Option.bind_splits if_splits prod.splits)
    have "prefix tr tr4" using h tr3 hi_prefix [of e h extract_dir v tr3 _ _ tr] by (auto split: if_splits)
    with f show ?thesis using orphan_prefix [of tr tr4] web_prefix [of tr tr4] by auto
  qed
qed

lemma upgrade_steps:
  assumes "wtsl_core_firmware_upgrade e junk f tr = Some (r, tr')"
  obtains msg where "r = Inr (fw_error msg)" "tr' = tr"
  | h v tr1 where "archive_present e junk f tr h" "Platform_verify e h = Some 0"
      "extract_and_verify_firmware e upgrade_archive h tr = Some (v, tr1)" "v \<noteq> 0" "r = Inr (fw_error ''MD5 verification failed'')" "tr' = tr1"
  | h tr1 where "archive_present e junk f tr h" "Platform_verify e h = Some 0"
      "extract_and_verify_firmware e upgrade_archive h tr = Some (0, tr1)" "prefix tr1 tr'"
proof -
  obtain bytes data where b: "fw_file e tr f = Some (bytes, True)" "read_string 1024 1024 bytes = Some data"
    using assms by (auto simp: wtsl_core_firmware_upgrade_def split: option.splits Option.bind_splits bool.splits)
  show thesis
  proof (cases "find_header e junk data")
    case (Inl msg)
    then obtain m where "msg = fw_error m" by (auto simp: find_header_def split: prod.splits if_splits)
    with assms b Inl show thesis by (intro that(1) [of m]) (simp_all add: wtsl_core_firmware_upgrade_def)
  next
    case (Inr h)
    with b have present: "archive_present e junk f tr h" by (auto simp: archive_present_def)
    obtain p where p: "Platform_verify e h = Some p"
      using assms b Inr by (auto simp: wtsl_core_firmware_upgrade_def split: Option.bind_splits)
    show thesis
    proof (cases "p = 0")
      case False
      with assms b Inr p show thesis by (intro that(1) [of "''Platform Architecture verify failed''"]) (simp_all add: wtsl_core_firmware_upgrade_def)
    next
      case True
      with assms b Inr p obtain v tr1 where v: "extract_and_verify_firmware e upgrade_archive h tr = Some (v, tr1)"
        by (auto simp: wtsl_core_firmware_upgrade_def split: Option.bind_splits)
      show thesis
      proof (cases "v = 0")
        case False
        with assms b Inr p True v that(2) [OF present] show thesis by (simp add: wtsl_core_firmware_upgrade_def)
      next
        case v0: True
        have "prefix tr1 tr'"
          using assms b Inr p True v v0 handle_prefix by (auto simp: wtsl_core_firmware_upgrade_def split: Option.bind_splits if_splits)
        with that(3) [OF present] p True v v0 show thesis by simp
      qed
    qed
  qed
qed

text \<open>C18. Nothing is installed unverified.  If an update runs any command besides those that check and
  unpack, or answers anything but an error, then the package had a readable header for this
  platform, the archive's sum was the one in the header when the update began, and each of the four
  kernel modules was found, after unpacking, to have the sum the header lists for it.\<close>

theorem installs_only_verified:
  assumes "wtsl_core_firmware_upgrade e junk f tr = Some (r, tr')"
    and "(\<nexists>msg. r = Inr (fw_error msg)) \<or> (\<exists>ev \<in> set (drop (length tr) tr'). \<forall>v. ev \<notin> check_steps v)"
  shows "\<exists>h. archive_present e junk f tr h \<and> Platform_verify e h = Some 0 \<and> package_checked e h tr tr'"
  using assms(1)
proof (rule upgrade_steps)
  fix h tr1
  assume "archive_present e junk f tr h" "Platform_verify e h = Some 0"
    and v: "extract_and_verify_firmware e upgrade_archive h tr = Some (0, tr1)" "prefix tr1 tr'"
  moreover from extract_and_verify_result [OF v(1)] v(2) have "package_checked e h tr tr'"
    unfolding package_checked_def by (meson module_checked_mono)
  ultimately show ?thesis by blast
next
  fix h v tr1
  assume v: "extract_and_verify_firmware e upgrade_archive h tr = Some (v, tr1)" and r: "r = Inr (fw_error ''MD5 verification failed'')" and t: "tr' = tr1"
  from extract_and_verify_result [OF v] have "adds (check_steps (text_or (get_build_version h))) tr tr'" by (simp add: t)
  then have "set (drop (length tr) tr') \<subseteq> check_steps (text_or (get_build_version h))" by (auto simp: adds_def)
  with assms(2) r have False by blast
  then show ?thesis ..
next
  fix msg
  assume "r = Inr (fw_error msg)" "tr' = tr"
  with assms(2) show ?thesis by auto
qed


text \<open>That last command is not the start of the service but whatever the uninitialised array holds when the
  program itself or a library could not be replaced: the jump to the rollback skips the initialisation.\<close>

theorem rollback_runs_uninitialised:
  assumes "fw_exists e tr (app_file dir ''wtsl_app'')"
    and "fw_rc e (backed_up e dir tr) (copy_command (app_file dir ''wtsl_app'') current_binary) \<noteq> 0"
  shows "last (snd (perform_app_upgrade e dir tr)) = Run (fw_rest e)"
  using assms by (simp add: perform_app_upgrade_def Let_def backed_up_def rollback_def) (simp add: runs_def)

text \<open>A package with nothing but the radio's firmware is reported as failed although its files have replaced
  the old ones, because the update then goes on to the web pages, which are not there.\<close>

theorem firmware_only_reported_failed:
  assumes "get_build_version h = Some v" "\<And>t. \<not> fw_exists e t (app_dir extract_dir)" "\<And>t. \<not> fw_exists e t (www_dir extract_dir)"
    and "\<And>t. \<not> fw_exists e t ''/home/wt/upload_file''" "\<And>t. fw_exists e t (firmware_dir v)"
    and "extract_upgrade_version (fw_lmax e) (fh_version h) = Some n" "n \<noteq> 123"
  shows "handle_firmware_upgrade e h tr = Some (Returned (-1), runs [list_command (firmware_dir v),
    cbuf 256 (''rm -rf /home/firmware_t'' @ v), cbuf 256 (''cp -rf '' @ extract_dir @ ''/firmware_t'' @ v @ '' /home/wt''),
    cbuf 256 (''rm -rf /home/firmware && ln -s /home/wt/firmware_t'' @ v @ '' /home/wt/firmware'')] tr)"
proof -
  have www: "\<not> fw_exists e t ''/tmp/upload_file/www''" for t
    using assms(3) [of t] by (simp add: www_dir_def extract_dir_def)
  have "fw_exists e t (cbuf 256 (extract_dir @ ''/firmware_t'' @ v))" for t
    using assms(5) [of t] by (simp add: firmware_dir_def)
  then show ?thesis
    using assms(1-4,6,7) www
    by (simp add: handle_firmware_upgrade_def upgrade_hi_firmware_def upgrade_web_files_in_background_def assms(5) Let_def runs_def)
qed

text \<open>A package whose kernel modules are there but whose header does not list the sum of the first one makes
  the check compare with NULL.\<close>

theorem unlisted_module_faults:
  assumes "calculate_file_md5 e upgrade_archive tr = (Some got, tr1)" "strcaseeq (fh_md5sum h) got"
    and "extract_tar_gz e upgrade_archive extract_dir tr1 = (0, tr2)" "get_build_version h = Some v"
    and "\<forall>k \<in> set ko_names. fw_exists e tr2 (ko_path v k)" "get_md5_by_ko_name h ''gt_gf61.ko'' = None"
    and "calculate_file_md5 e (ko_path v ''gt_gf61.ko'') tr2 = (Some x, tr3)"
  shows "extract_and_verify_firmware e upgrade_archive h tr = None"
  using assms by (simp add: extract_and_verify_firmware_def verify_single_ko_file_def list_all_iff ko_names_def)

section \<open>The upload\<close>

text \<open>A package: the header's text from an opening brace on, filled up to 1024 bytes, then the archive.\<close>

definition firmware_package :: "string \<Rightarrow> string \<Rightarrow> string \<Rightarrow> string" where
  "firmware_package head archive rest = head @ replicate (1024 - length head) (CHR 0x00) @ archive @ rest"

definition head_ok :: "string \<Rightarrow> bool" where
  "head_ok head \<longleftrightarrow> length head < 1024 \<and> CHR 0x00 \<notin> set head \<and> take 1 head = ''{''"

lemma takeWhile_head: "CHR 0x00 \<notin> set head \<Longrightarrow> takeWhile (\<lambda>c. c \<noteq> CHR 0x00) (head @ CHR 0x00 # s) = head"
  by (induction head) auto

lemma package_head:
  assumes "head_ok head"
  obtains n where "firmware_package head archive rest = head @ CHR 0x00 # replicate n (CHR 0x00) @ archive @ rest" "1024 - length head = Suc n"
proof -
  have "1024 - length head = Suc (1023 - length head)" using assms unfolding head_ok_def by linarith
  then have "firmware_package head archive rest = head @ CHR 0x00 # replicate (1023 - length head) (CHR 0x00) @ archive @ rest"
    by (simp add: firmware_package_def)
  then show thesis using that \<open>1024 - length head = Suc (1023 - length head)\<close> by blast
qed

lemma read_firmware_package:
  assumes "head_ok head"
  shows "read_string n 1024 (firmware_package head archive rest) = Some head"
proof -
  obtain m where m: "firmware_package head archive rest = head @ CHR 0x00 # replicate m (CHR 0x00) @ archive @ rest" "1024 - length head = Suc m"
    by (rule package_head [OF assms])
  have "take 1024 (firmware_package head archive rest) = head @ CHR 0x00 # replicate m (CHR 0x00)"
    using assms by (simp add: m head_ok_def)
  with assms takeWhile_head show ?thesis by (simp add: read_string_def head_ok_def)
qed

lemma archive_of_package:
  assumes "head_ok head" "fh_filesize h = show_int n" "0 \<le> n" "n < 2 ^ 31" "2 ^ 31 - 1 \<le> lmax"
  shows "archive_part lmax h (firmware_package head archive rest) =
    (if nat n \<le> length (archive @ rest) then Some (take (nat n) (archive @ rest)) else None)"
proof -
  obtain m where m: "firmware_package head archive rest = head @ CHR 0x00 # replicate m (CHR 0x00) @ archive @ rest" "1024 - length head = Suc m"
    by (rule package_head [OF assms(1)])
  from assms(1) obtain head' where "head = CHR ''{'' # head'" by (cases head) (auto simp: head_ok_def)
  then have pre: "strstr_pre ''{'' (takeWhile (\<lambda>c. c \<noteq> CHR 0x00) (firmware_package head archive rest)) = Some []"
    using assms(1) m(1) takeWhile_head [of head] by (simp add: head_ok_def)
  have "length head + Suc m = 1024" using m(2) by linarith
  then have len: "length (firmware_package head archive rest) = 1024 + length (archive @ rest)" by (simp add: m(1))
  have "drop 1024 (firmware_package head archive rest) = archive @ rest" using assms(1) by (simp add: m head_ok_def)
  moreover have "atoi lmax (fh_filesize h) = n" using assms(2-5) by (simp add: atoi_show_int)
  ultimately show ?thesis using pre len assms(3) by (simp add: archive_part_def)
qed

text \<open>C36. An upload stores exactly the archive that was packed: header text, filled up to 1024 bytes, and the
  archive, whose length the header states, whatever follows.  If the header states more than there is, the code reads beyond
  the buffer.\<close>

theorem upload_roundtrip:
  assumes "fw_exists e tr f" "fw_file e tr f = Some (firmware_package head archive rest, b)" "fw_writable e"
    and "fw_file e (tr @ [Store upgrade_archive []]) f = Some (firmware_package head archive rest, True)"
    and "head_ok head" "find_header e junk head = Inr h" "2 ^ 31 - 1 \<le> fw_lmax e"
    and "fh_filesize h = show_int n" "0 \<le> n" "n < 2 ^ 31"
  shows "wtsl_core_parse_json_extract_file_header e junk f tr =
    (if n = int (length archive) then Some (upload_reply h, tr @ [Store upgrade_archive [], Store upgrade_archive archive])
     else if n > int (length (archive @ rest)) then None
     else Some (upload_reply h, tr @ [Store upgrade_archive [], Store upgrade_archive (take (nat n) (archive @ rest))]))"
proof -
  have "512 < length (firmware_package head archive rest)" using assms(5) by (simp add: firmware_package_def head_ok_def)
  then show ?thesis
    using assms archive_of_package [OF assms(5,8-10,7), of archive rest]
    by (auto simp: wtsl_core_parse_json_extract_file_header_def read_firmware_package)
qed

section \<open>Witnesses\<close>

definition demo_sum :: string where
  "demo_sum = ''0123456789abcdef0123456789abcdef''"

definition demo_package :: json where
  "demo_package = JObj [(''filename'', JStr ''a.tar.gz''), (''md5sum'', JStr demo_sum), (''filesize'', JStr ''3''), (''version'', JStr ''v_124.B7''),
     (''ko_md5sum'', JObj (map (\<lambda>k. (k, JStr demo_sum)) ko_names))]"

definition demo_header :: firmware_header where
  "demo_header = \<lparr>fh_filename = ''a.tar.gz'', fh_md5sum = demo_sum, fh_filesize = ''3'', fh_version = ''v_124.B7'', fh_filetype = [],
     fh_firmwaretype = [], fh_up_method = [], fh_process = [], fh_targetarch = [], fh_hostinfo = [],
     fh_ko_files = map (\<lambda>k. \<lparr>ko_name = k, ko_sum = demo_sum\<rparr>) ko_names\<rparr>"

definition demo_fw :: "(string \<Rightarrow> bool) \<Rightarrow> int \<Rightarrow> fw_env" where
  "demo_fw ex r = \<lparr>fw_cj = demo_cjson (\<lambda>_. Some demo_package), fw_lmax = 2 ^ 31 - 1, fw_rc = (\<lambda>_ _. r),
     fw_popen = (\<lambda>_ _. Some demo_sum), fw_exists = (\<lambda>_. ex), fw_file = (\<lambda>_ _. Some (firmware_package ''{}'' ''abc'' ''x'', True)), fw_machine = None,
     fw_pid = 7, fw_fork = 8, fw_rest = ''?'', fw_writable = True\<rparr>"

lemmas demo_fw_simps [simp] = demo_fw_def demo_cjson_def demo_header_def

lemma demo_parse_closed: "parse_firmware_header (demo_fw (\<lambda>_. True) 0) [] demo_header = (0, demo_header)"
  by code_simp

lemma demo_parse: "parse_firmware_header (demo_fw ex r) data junk = (0, demo_header)"
proof -
  have "parse_firmware_header (demo_fw ex r) data junk = parse_firmware_header (demo_fw (\<lambda>_. True) 0) [] demo_header"
    by (simp add: parse_firmware_header_def text_of_def)
  then show ?thesis by (simp only: demo_parse_closed)
qed

lemma demo_module_find: "find_header (demo_fw ex r) junk data = Inr demo_header"
  by (simp add: find_header_def demo_parse del: demo_fw_simps)

lemma demo_version: "extract_upgrade_version (2 ^ 31 - 1) ''v_124.B7'' = Some 124"
  by code_simp

lemma demo_md5: "calculate_file_md5 (demo_fw ex r) f tr = (Some demo_sum, tr @ [Run (md5_command f)])"
proof -
  have "first_line 63 demo_sum = Some demo_sum" "takeWhile (\<lambda>c. c \<noteq> CHR 0x0A) demo_sum = demo_sum" "length demo_sum = 32" by code_simp+
  then show ?thesis by (simp add: calculate_file_md5_def Let_def del: takeWhile_eq_all_conv)
qed

lemma demo_kos: "k \<in> set ko_names \<Longrightarrow> get_md5_by_ko_name demo_header k = Some demo_sum"
  by (auto simp: ko_names_def get_md5_by_ko_name_def)

lemma demo_build: "get_build_version demo_header = Some ''7''"
  by (simp add: get_build_version_def after_char_def)

lemma demo_kos_ok: "verify_kos (demo_fw (\<lambda>_. True) 0) demo_header v ks ok tr =
    Some (ok, tr @ map (\<lambda>k. Run (md5_command (ko_path v k))) ks)" if "set ks \<subseteq> set ko_names"
  using that
proof (induction ks arbitrary: ok tr)
  case (Cons k ks)
  have "verify_single_ko_file (demo_fw (\<lambda>_. True) 0) (ko_path v k) (get_md5_by_ko_name demo_header k) tr =
      Some (0, tr @ [Run (md5_command (ko_path v k))])"
    unfolding verify_single_ko_file_def demo_md5 using Cons.prems demo_kos [of k] by (simp add: strcaseeq_def del: demo_header_def)
  then show ?case using Cons.IH Cons.prems by (simp del: demo_fw_simps)
qed simp

lemma demo_tar: "extract_tar_gz (demo_fw (\<lambda>_. True) 0) upgrade_archive extract_dir t =
    (0, t @ [Run (mkdir_command extract_dir), Run (untar_command upgrade_archive extract_dir)])"
  by (simp add: extract_tar_gz_def execute_command_def Let_def)

lemma demo_extract: "\<exists>tr'. extract_and_verify_firmware (demo_fw (\<lambda>_. True) 0) upgrade_archive demo_header tr = Some (0, tr')"
proof -
  have "strcaseeq (fh_md5sum demo_header) demo_sum" by (simp add: strcaseeq_def)
  moreover have "fw_exists (demo_fw (\<lambda>_. True) 0) t p" for t p by simp
  ultimately show ?thesis
    by (simp add: extract_and_verify_firmware_def demo_md5 demo_tar demo_build demo_kos_ok list_all_iff del: demo_fw_simps)
qed

theorem unlisted_module_faults_witness:
  "extract_and_verify_firmware (demo_fw (\<lambda>_. True) 0) upgrade_archive (demo_header\<lparr>fh_ko_files := []\<rparr>) [] = None"
proof (rule unlisted_module_faults [OF demo_md5 _ demo_tar _ _ _ demo_md5])
  show "get_build_version (demo_header\<lparr>fh_ko_files := []\<rparr>) = Some ''7''" using demo_build by (simp add: get_build_version_def)
qed (simp_all add: strcaseeq_def get_md5_by_ko_name_def)

theorem upload_roundtrip_witness:
  "wtsl_core_parse_json_extract_file_header (demo_fw (\<lambda>_. True) 0) demo_header ''/tmp/u'' [] =
    Some (upload_reply demo_header, [Store upgrade_archive [], Store upgrade_archive ''abc''])"
proof -
  let ?e = "demo_fw (\<lambda>_. True) 0"
  have "wtsl_core_parse_json_extract_file_header ?e demo_header ''/tmp/u'' [] =
    (if 3 = int (length ''abc'') then Some (upload_reply demo_header, [] @ [Store upgrade_archive [], Store upgrade_archive ''abc''])
     else if 3 > int (length (''abc'' @ ''x'')) then None
     else Some (upload_reply demo_header, [] @ [Store upgrade_archive [], Store upgrade_archive (take (nat 3) (''abc'' @ ''x''))]))"
  proof (rule upload_roundtrip [where head = "''{}''" and b = True])
    show "find_header ?e demo_header ''{}'' = Inr demo_header" by (rule demo_module_find)
    show "fh_filesize demo_header = show_int 3" by code_simp
  qed (simp_all add: head_ok_def)
  then show ?thesis by simp
qed

theorem firmware_only_reported_failed_witness:
  "handle_firmware_upgrade (demo_fw (\<lambda>p. p = firmware_dir ''7'') 0) demo_header [] = Some (Returned (-1), runs [list_command (firmware_dir ''7''),
    cbuf 256 (''rm -rf /home/firmware_t'' @ ''7''), cbuf 256 (''cp -rf '' @ extract_dir @ ''/firmware_t'' @ ''7'' @ '' /home/wt''),
    cbuf 256 (''rm -rf /home/firmware && ln -s /home/wt/firmware_t'' @ ''7'' @ '' /home/wt/firmware'')] [])"
  by (rule firmware_only_reported_failed [where n = 124, OF demo_build])
    (simp_all add: demo_version [simplified] app_dir_def www_dir_def firmware_dir_def extract_dir_def)

theorem rollback_runs_uninitialised_witness:
  "last (snd (perform_app_upgrade (demo_fw (\<lambda>_. True) 1) extract_dir [])) = Run ''?''"
  using rollback_runs_uninitialised [of "demo_fw (\<lambda>_. True) 1" "[]" extract_dir] by simp


lemma reply_not_error: "upgrade_reply h m c n \<noteq> fw_error msg"
proof
  assume "upgrade_reply h m c n = fw_error msg"
  then have "take 11 (upgrade_reply h m c n) = take 11 (fw_error msg)" by simp
  then show False by (simp add: upgrade_reply_def fw_error_def cbuf_def)
qed

theorem installs_only_verified_witness:
  "\<exists>r tr'. wtsl_core_firmware_upgrade (demo_fw (\<lambda>_. True) 0) demo_header ''/tmp/u'' [] = Some (r, tr') \<and>
     package_checked (demo_fw (\<lambda>_. True) 0) demo_header [] tr'"
proof -
  let ?e = "demo_fw (\<lambda>_. True) 0"
  obtain tr1 where x: "extract_and_verify_firmware ?e upgrade_archive demo_header [] = Some (0, tr1)" using demo_extract by blast
  have hi: "\<exists>t'. upgrade_hi_firmware ?e demo_header extract_dir ''7'' t = Some (0, t')" for t
    by (simp add: upgrade_hi_firmware_def demo_version [simplified])
  then obtain hi_next where hi_next: "\<And>t. upgrade_hi_firmware ?e demo_header extract_dir ''7'' t = Some (0, hi_next t)" by metis
  have demo_fields: "fw_exists ?e t q" "fw_fork ?e = 8" for t q by simp_all
  obtain tr2 where y: "handle_firmware_upgrade ?e demo_header tr1 = Some (Returned 0, tr2)"
    using hi_next by (simp add: handle_firmware_upgrade_def demo_build orphan_process_upgrade_def Let_def demo_fields del: demo_fw_simps)
  have p: "Platform_verify ?e demo_header = Some 0" by (simp add: Platform_verify_def demo_version [simplified])
  have d: "read_string 1024 1024 (firmware_package ''{}'' ''abc'' ''x'') = Some ''{}''" by (rule read_firmware_package) (simp add: head_ok_def)
  have "fw_file ?e [] ''/tmp/u'' = Some (firmware_package ''{}'' ''abc'' ''x'', True)" "fh_hostinfo demo_header \<noteq> ''rk3568''" by simp_all
  then have u: "wtsl_core_firmware_upgrade ?e demo_header ''/tmp/u'' [] = Some (Inr (success_response ?e demo_header tr2), tr2)"
    unfolding wtsl_core_firmware_upgrade_def by (simp add: d demo_module_find p x y del: demo_fw_simps)
  have "\<nexists>msg. (Inr (success_response ?e demo_header tr2) :: int + string) = Inr (fw_error msg)"
    using reply_not_error by (auto simp: success_response_def Let_def)
  with installs_only_verified [OF u] obtain h where "archive_present ?e demo_header ''/tmp/u'' [] h" "package_checked ?e h [] tr2" by blast
  moreover from this have "h = demo_header" unfolding archive_present_def demo_module_find by simp
  ultimately show ?thesis using u by blast
qed

end
