(* ===== verification/LogManager.thy ===== *)
theory LogManager
  imports NodeTypes CfgManager
begin

text \<open>
  The log manager (utils/wtsl_log_manager.c, include/wtsl_log_manager.h): the name of the log file, the mode read from
  its configuration file, which levels are logged, the line built for a message, start and stop.
  Files are a map from paths to their text.  The clock's texts are parameters.
\<close>

section \<open>State\<close>

datatype log_level = LOG_LEVEL_DEBUG | LOG_LEVEL_INFO | LOG_LEVEL_WARNING | LOG_LEVEL_ERROR | LOG_LEVEL_FATAL

datatype config_mode = CONFIG_MODE_UNKNOWN | CONFIG_MODE_ALL | CONFIG_MODE_PRODUCT

text \<open>The bit fields of an address are words of their widths.\<close>

record address_32bit =
  ad_reserved :: "2 word"
  ad_subnet_id :: "14 word"
  ad_t_node_id :: "8 word"
  ad_device_id :: "8 word"

record upload_config =
  up_server_ip :: string
  up_server_port :: int
  up_source :: address_32bit
  up_dest :: address_32bit
  up_timeout :: int
  up_reconnect :: int

text \<open>\<open>ls_open\<close>: the path of the file behind \<open>log_file\<close>, which was opened
  under the path of that time.\<close>

record log_system =
  ls_app_name :: string
  ls_config_file :: string
  ls_path :: string
  ls_mode :: config_mode
  ls_max_size :: nat
  ls_upload :: upload_config
  ls_running :: bool
  ls_trigger :: bool
  ls_last_check :: int
  ls_interval :: int
  ls_open :: "string option"

type_synonym files = "string \<rightharpoonup> string"

section \<open>Names\<close>

text \<open>No date when the clock cannot be read.\<close>

definition generate_file_name :: "string option \<Rightarrow> string \<Rightarrow> string option" where
  "generate_file_name date name = map_option (\<lambda>d. ''/home/wt/log/'' @ name @ ''__'' @ d @ ''.log'') date"

definition default_log_file :: string where
  "default_log_file = ''/home/wt/log/wtsl_app.log''"

fun get_level_string :: "log_level \<Rightarrow> string" where
  "get_level_string LOG_LEVEL_DEBUG = ''DEBUG''"
| "get_level_string LOG_LEVEL_INFO = ''INFO''"
| "get_level_string LOG_LEVEL_WARNING = ''WARN''"
| "get_level_string LOG_LEVEL_ERROR = ''ERROR''"
| "get_level_string LOG_LEVEL_FATAL = ''FATAL''"

section \<open>Mode\<close>

definition parse_config_mode :: "string option \<Rightarrow> config_mode" where
  "parse_config_mode m = (case m of None \<Rightarrow> CONFIG_MODE_UNKNOWN
     | Some s \<Rightarrow> (let u = map toupper (take 31 s) in
         if u = ''ALL'' then CONFIG_MODE_ALL else if u = ''PRODUCT'' then CONFIG_MODE_PRODUCT else CONFIG_MODE_UNKNOWN))"

definition wtsl_logger_should_log :: "config_mode \<Rightarrow> log_level \<Rightarrow> bool" where
  "wtsl_logger_should_log mode level = (case mode of
     CONFIG_MODE_ALL \<Rightarrow> True
   | CONFIG_MODE_PRODUCT \<Rightarrow> level = LOG_LEVEL_WARNING \<or> level = LOG_LEVEL_ERROR \<or> level = LOG_LEVEL_FATAL
   | CONFIG_MODE_UNKNOWN \<Rightarrow> False)"

text \<open>Inside the section \<open>[chip log_system]\<close> the first line that is a mode counts.\<close>

fun mode_lines :: "bool \<Rightarrow> string list \<Rightarrow> config_mode option" where
  "mode_lines inside [] = None"
| "mode_lines inside (l # ls) = (let t = trim_whitespace l in
     if t = [] then mode_lines inside ls
     else if hd t = CHR ''['' then
       mode_lines (if CHR '']'' \<in> set t then strcaseeq (trim_whitespace (takeWhile (\<lambda>c. c \<noteq> CHR '']'') (tl t))) ''chip log_system'' else inside) ls
     else if \<not> inside \<or> hd t = CHR ''#'' \<or> hd t = CHR '';'' then mode_lines inside ls
     else (let m = parse_config_mode (Some t) in if m \<noteq> CONFIG_MODE_UNKNOWN then Some m else mode_lines inside ls))"

definition parse_config_file :: "files \<Rightarrow> log_system \<Rightarrow> int \<times> log_system" where
  "parse_config_file fs s = (case fs (ls_config_file s) of
     None \<Rightarrow> (-1, s)
   | Some text \<Rightarrow> (0, s\<lparr>ls_mode := (case mode_lines False (fgets_all 255 text) of Some m \<Rightarrow> m | None \<Rightarrow> CONFIG_MODE_ALL)\<rparr>))"

section \<open>Writing\<close>

text \<open>A line of at most 4095 bytes: prefix and message, both cut, and a newline.\<close>

definition log_line :: "string \<Rightarrow> string \<Rightarrow> string" where
  "log_line prefix content = (let total = length prefix + length content;
     buf = prefix @ take (4096 - length prefix - 1 - 1) content
   in if total < 4096 - 2 then take total buf @ [CHR 0x0A] else take (4096 - 2) buf @ [CHR 0x0A])"

definition log_prefix :: "string \<Rightarrow> log_system \<Rightarrow> log_level \<Rightarrow> string \<Rightarrow> string" where
  "log_prefix time s level module = cbuf 4095 (''['' @ time @ '']['' @ ls_app_name s @ '']['' @ get_level_string level @ '']['' @ module @ '']: '')"

definition append_log :: "string \<Rightarrow> log_system \<Rightarrow> files \<Rightarrow> files" where
  "append_log t s fs = (case ls_open s of None \<Rightarrow> fs
     | Some p \<Rightarrow> fs(p \<mapsto> (case fs p of None \<Rightarrow> t | Some old \<Rightarrow> old @ t)))"

text \<open>Whether the configuration is to be read again: at most every interval, when the file (\<open>mtime\<close>) is newer than the
  last one seen.\<close>

definition need_config_reload :: "int option \<Rightarrow> int \<Rightarrow> int \<Rightarrow> log_system \<Rightarrow> bool \<times> int \<times> log_system" where
  "need_config_reload mtime now seen s = (case mtime of None \<Rightarrow> (False, seen, s)
   | Some m \<Rightarrow> if now - ls_last_check s \<ge> ls_interval s then
       (if m > seen then (True, m, s\<lparr>ls_last_check := now\<rparr>) else (False, seen, s\<lparr>ls_last_check := now\<rparr>))
     else (False, seen, s))"

definition mode_text :: "config_mode \<Rightarrow> string" where
  "mode_text m = (if m = CONFIG_MODE_ALL then ''ALL'' else ''PRODUCT'')"

definition wtsl_logger_reload_config :: "string \<Rightarrow> log_system \<Rightarrow> files \<Rightarrow> int \<times> log_system \<times> files" where
  "wtsl_logger_reload_config time s fs = (let (r, s1) = parse_config_file fs s in
     (r, s1, append_log (''['' @ time @ ''] ['' @ ls_app_name s1 @ ''] [SYSTEM] [CONFIG] : Configuration reloaded, mode: '' @
       mode_text (ls_mode s1) @ [CHR 0x0A]) s1 fs))"

definition wtsl_logger_log ::
    "int option \<Rightarrow> int \<Rightarrow> string \<Rightarrow> log_level \<Rightarrow> string \<Rightarrow> string \<Rightarrow> int \<times> log_system \<times> files \<Rightarrow> int \<times> log_system \<times> files" where
  "wtsl_logger_log mtime now time level module content st = (let (seen, s, fs) = st;
     (need, seen1, s1) = need_config_reload mtime now seen s;
     (s2, fs1) = (if need then snd (wtsl_logger_reload_config time s1 fs) else (s1, fs))
   in if wtsl_logger_should_log (ls_mode s2) level then (seen1, s2, append_log (log_line (log_prefix time s2 level module) content) s2 fs1)
      else (seen1, s2, fs1))"

section \<open>Start and stop\<close>

definition address :: "14 word \<Rightarrow> 8 word \<Rightarrow> 8 word \<Rightarrow> address_32bit" where
  "address subnet t d = \<lparr>ad_reserved = 0, ad_subnet_id = subnet, ad_t_node_id = t, ad_device_id = d\<rparr>"

text \<open>\<open>opens\<close>: whether the directory is there and the file opens for appending.\<close>

definition open_log_file :: "bool \<Rightarrow> log_system \<Rightarrow> files \<Rightarrow> int \<times> log_system \<times> files" where
  "open_log_file opens s fs = (if \<not> opens then (-1, s\<lparr>ls_open := None\<rparr>, fs)
     else (0, s\<lparr>ls_open := Some (ls_path s)\<rparr>, fs(ls_path s \<mapsto> (case fs (ls_path s) of None \<Rightarrow> [] | Some t \<Rightarrow> t))))"

definition start_state :: "string option \<Rightarrow> string option \<Rightarrow> int \<Rightarrow> splink_info \<Rightarrow> log_system" where
  "start_state app date now g = (let b = basic_info (node_info g) in
     \<lparr>ls_app_name = (case app of Some a \<Rightarrow> cbuf 64 a | None \<Rightarrow> ''wtsl_app''), ls_config_file = ''/home/system.conf'',
      ls_path = (case generate_file_name date (bi_name b) of Some f \<Rightarrow> f | None \<Rightarrow> default_log_file),
      ls_mode = CONFIG_MODE_UNKNOWN, ls_max_size = 100 * 1024,
      ls_upload = \<lparr>up_server_ip = bi_net_manage_ip b, up_server_port = bi_log_port b, up_source = address 101 16 16,
        up_dest = address 102 16 16, up_timeout = 10, up_reconnect = 3\<rparr>,
      ls_running = False, ls_trigger = False, ls_last_check = now, ls_interval = 5, ls_open = None\<rparr>)"

definition wtsl_logger_init ::
    "string option \<Rightarrow> string option \<Rightarrow> int \<Rightarrow> string \<Rightarrow> bool \<Rightarrow> bool \<Rightarrow> splink_info \<Rightarrow> files \<Rightarrow> int \<times> log_system \<times> files" where
  "wtsl_logger_init app date now time opens thread g fs =
     (let (r, s1, fs1) = open_log_file opens (start_state app date now g) fs in
      if r \<noteq> 0 then (-1, s1, fs1)
      else let (r2, s2) = parse_config_file fs1 s1;
               s3 = (if r2 \<noteq> 0 then s2\<lparr>ls_mode := CONFIG_MODE_ALL\<rparr> else s2)\<lparr>ls_running := True, ls_trigger := False\<rparr>
        in if \<not> thread then (-1, s3, fs1)
           else (0, s3, append_log (''['' @ time @ ''] ['' @ ls_app_name s3 @ ''] [SYSTEM] [UPLOAD] : TCP upload configured to '' @
                  up_server_ip (ls_upload s3) @ '':'' @ show_int (up_server_port (ls_upload s3)) @ [CHR 0x0A]) s3
             (append_log (''['' @ time @ ''] ['' @ ls_app_name s3 @ ''] [SYSTEM] [STARTUP] : Logger system initialized with mode: '' @
                mode_text (ls_mode s3) @ [CHR 0x0A]) s3 fs1)))"

definition wtsl_logger_destroy :: "string \<Rightarrow> log_system \<Rightarrow> files \<Rightarrow> log_system \<times> files" where
  "wtsl_logger_destroy time s fs = (s\<lparr>ls_running := False, ls_open := None\<rparr>,
     append_log (''['' @ time @ ''] ['' @ ls_app_name s @ ''] [SYSTEM] [SHUTDOWN] : Logger system shutdown'' @ [CHR 0x0A]) s fs)"

section \<open>Lemmas\<close>

lemma log_line_shape: "length prefix \<le> 4094 \<Longrightarrow> log_line prefix content = take 4094 (prefix @ content) @ [CHR 0x0A]"
  by (auto simp: log_line_def Let_def min_def)

text \<open>Reading the mode: comments, empty lines and other sections do not matter, and the letters' case neither.\<close>

lemma mode_found:
  assumes "trim_whitespace l = t" "t \<noteq> []" "hd t \<notin> {CHR ''['', CHR ''#'', CHR '';''}" "parse_config_mode (Some t) = m" "m \<noteq> CONFIG_MODE_UNKNOWN"
  shows "mode_lines True (l # ls) = Some m"
  using assms by simp

text \<open>A message of the levels that are always logged reaches the file in both modes; in product mode nothing else
  changes it, and the state is only that of the configuration.\<close>

lemma logged_or_silent:
  assumes "need_config_reload mtime now seen s = (False, seen1, s1)" "ls_open s = Some p"
  shows "wtsl_logger_log mtime now time level module content (seen, s, fs) =
    (if wtsl_logger_should_log (ls_mode s) level
     then (seen1, s1, fs(p \<mapsto> (case fs p of None \<Rightarrow> [] | Some old \<Rightarrow> old) @ log_line (log_prefix time s level module) content))
     else (seen1, s1, fs))"
proof -
  have "ls_mode s1 = ls_mode s" "ls_open s1 = ls_open s" "ls_app_name s1 = ls_app_name s"
    using assms(1) by (auto simp: need_config_reload_def split: option.splits if_splits)
  then show ?thesis using assms by (simp add: wtsl_logger_log_def append_log_def log_prefix_def split: option.splits)
qed

end
