(* ===== verification/LogUpload.thy ===== *)
theory LogUpload
  imports LogManager
begin

text \<open>
  The upload of the log (utils/wtsl_client_upload.c): the frame around a block of bytes, sending it in pieces, the
  acknowledgements, one upload, the emptying of the log afterwards and a round of the
  upload thread.  Bytes are words of 8 bits; integers are copied as a little-endian machine has
  them in memory, with \<open>size_t\<close> of \<open>sz\<close> bytes.
\<close>

unbundle bit_operations_syntax

section \<open>Frames\<close>

text \<open>The first \<open>n\<close> bytes of a number.\<close>

fun le_bytes :: "nat \<Rightarrow> nat \<Rightarrow> 8 word list" where
  "le_bytes 0 x = []"
| "le_bytes (Suc n) x = of_nat x # le_bytes n (x div 256)"

text \<open>The number that bytes in this order mean.\<close>

fun from_le :: "8 word list \<Rightarrow> nat" where
  "from_le [] = 0"
| "from_le (b # bs) = unat b + 256 * from_le bs"

definition calculate_checksum :: "8 word list \<Rightarrow> 16 word" where
  "calculate_checksum data = ucast (foldl (XOR) (0 :: 8 word) data)"

definition address_to_little_endian :: "address_32bit \<Rightarrow> 32 word" where
  "address_to_little_endian a = (ucast (ad_device_id a) AND 0xFF) OR push_bit 8 (ucast (ad_t_node_id a) AND 0xFF) OR
     push_bit 16 (ucast (ad_subnet_id a) AND 0x3FFF) OR push_bit 30 (ucast (ad_reserved a) AND 0x03)"

text \<open>Everything before the checksum.\<close>

definition frame_body :: "16 word \<Rightarrow> upload_config \<Rightarrow> 8 word list \<Rightarrow> 32 word \<Rightarrow> 8 word \<Rightarrow> 8 word list" where
  "frame_body seq c data data_type data_identifier = le_bytes 2 0x5A5A @ le_bytes 2 (unat seq) @
     le_bytes 4 (unat (address_to_little_endian (up_source c))) @ le_bytes 4 (unat (address_to_little_endian (up_dest c))) @
     le_bytes 4 (unat data_type) @ le_bytes 3 (length data) @ [data_identifier] @ data @ le_bytes 2 0"

text \<open>None when there is no data or no memory.  The sequence number is a static variable.\<close>

definition build_log_upload_frame ::
    "bool \<Rightarrow> upload_config \<Rightarrow> 8 word list \<Rightarrow> 32 word \<Rightarrow> 8 word \<Rightarrow> 16 word \<Rightarrow> 8 word list option \<times> 16 word" where
  "build_log_upload_frame mem c data data_type data_identifier seq =
     (if data = [] \<or> \<not> mem then (None, seq)
      else let body = frame_body seq c data data_type data_identifier
        in (Some (body @ le_bytes 2 (unat (calculate_checksum body)) @ le_bytes 2 0x0D0A), seq + 1))"

record file_info =
  fi_filename :: string
  fi_file_size :: nat
  fi_is_dir :: bool

text \<open>The struct in memory, after it was zeroed: name, size, flag, padding.\<close>

definition file_info_bytes :: "nat \<Rightarrow> file_info \<Rightarrow> 8 word list" where
  "file_info_bytes sz f = map of_char (fi_filename f) @ replicate (256 - length (fi_filename f)) 0 @ le_bytes sz (fi_file_size f) @
     [of_bool (fi_is_dir f)] @ replicate (sz - 1) 0"

definition build_file_info_frame :: "bool \<Rightarrow> nat \<Rightarrow> upload_config \<Rightarrow> file_info \<Rightarrow> 16 word \<Rightarrow> 8 word list option \<times> 16 word" where
  "build_file_info_frame mem sz c f seq = build_log_upload_frame mem c (file_info_bytes sz f) 0x82000000 0x03 seq"

definition build_log_data_frame :: "bool \<Rightarrow> upload_config \<Rightarrow> 8 word list \<Rightarrow> 16 word \<Rightarrow> 8 word list option \<times> 16 word" where
  "build_log_data_frame mem c data seq = build_log_upload_frame mem c data 0x87000000 0x02 seq"

text \<open>The name after the last slash.\<close>

definition base_name :: "string \<Rightarrow> string" where
  "base_name p = rev (takeWhile (\<lambda>c. c \<noteq> CHR ''/'') (rev p))"

definition prepare_file_info :: "string \<Rightarrow> nat \<Rightarrow> file_info" where
  "prepare_file_info path n = \<lparr>fi_filename = cbuf 256 (base_name path), fi_file_size = n, fi_is_dir = False\<rparr>"

definition read_log_file_content :: "bool \<Rightarrow> files \<Rightarrow> log_system \<Rightarrow> 8 word list option" where
  "read_log_file_content mem fs s = (case fs (ls_path s) of None \<Rightarrow> None | Some t \<Rightarrow> if t = [] \<or> \<not> mem then None else Some (map of_char t))"

section \<open>The connection\<close>

text \<open>One attempt, as the network answers it: whether the connection is made, what each \<open>send\<close> of the two frames
  returns, and for each acknowledgement the result of \<open>select\<close> and the bytes received.\<close>

record attempt =
  at_socket :: bool
  at_connect :: bool
  at_sends1 :: "int list"
  at_sends2 :: "int list"
  at_ack1 :: "int \<times> string option"
  at_ack2 :: "int \<times> string option"

text \<open>Sockets open, and the bytes given to the network.\<close>

record wire =
  wi_open :: nat
  wi_sent :: "8 word list"

definition create_tcp_connection :: "upload_config \<Rightarrow> attempt \<Rightarrow> wire \<Rightarrow> bool \<times> wire" where
  "create_tcp_connection c a w = (if \<not> at_socket a then (False, w)
     else if inet_pton (up_server_ip c) = None \<or> \<not> at_connect a then (False, w)
     else (True, w\<lparr>wi_open := Suc (wi_open w)\<rparr>))"

definition close_socket :: "wire \<Rightarrow> wire" where
  "close_socket w = w\<lparr>wi_open := wi_open w - 1\<rparr>"

text \<open>\<open>send\<close> takes a part of what is left; no further answer means that the call does not return.\<close>

fun send_frame_data :: "int list \<Rightarrow> 8 word list \<Rightarrow> wire \<Rightarrow> (int \<times> wire) option" where
  "send_frame_data rs [] w = Some (0, w)"
| "send_frame_data [] (b # bs) w = None"
| "send_frame_data (r # rs) (b # bs) w = (if r \<le> 0 then Some (-1, w)
     else send_frame_data rs (drop (nat r) (b # bs)) (w\<lparr>wi_sent := wi_sent w @ take (nat r) (b # bs)\<rparr>))"

definition wait_for_ack :: "int \<times> string option \<Rightarrow> string \<Rightarrow> int" where
  "wait_for_ack a verify = (if fst a = -1 \<or> fst a = 0 then -1
     else (case snd a of None \<Rightarrow> -1
       | Some bytes \<Rightarrow> if bytes = [] then -1
           else if contains (takeWhile (\<lambda>c. c \<noteq> CHR 0x00) (take 1023 bytes)) verify then 0 else -1))"

text \<open>One turn of the loop: its success, the sequence number and the wire.  A missing acknowledgement does not close the
  socket.\<close>

definition upload_attempt ::
    "bool \<Rightarrow> nat \<Rightarrow> upload_config \<Rightarrow> file_info \<Rightarrow> 8 word list \<Rightarrow> attempt \<Rightarrow> 16 word \<times> wire \<Rightarrow> (int \<times> 16 word \<times> wire) option" where
  "upload_attempt mem sz c info data a st = (let (seq, w) = st; (ok, w1) = create_tcp_connection c a w in
     if \<not> ok then Some (-1, seq, w1)
     else (case build_file_info_frame mem sz c info seq of
       (None, seq1) \<Rightarrow> Some (-1, seq1, close_socket w1)
     | (Some f1, seq1) \<Rightarrow> do {
         (r1, w2) \<leftarrow> send_frame_data (at_sends1 a) f1 w1;
         if r1 \<noteq> 0 then Some (-1, seq1, close_socket w2)
         else if wait_for_ack (at_ack1 a) ''wt_info_ACK'' \<noteq> 0 then Some (-1, seq1, w2)
         else (case build_log_data_frame mem c data seq1 of
           (None, seq2) \<Rightarrow> Some (-1, seq2, close_socket w2)
         | (Some f2, seq2) \<Rightarrow> do {
             (r2, w3) \<leftarrow> send_frame_data (at_sends2 a) f2 w2;
             if r2 \<noteq> 0 then Some (-1, seq2, close_socket w3)
             else if wait_for_ack (at_ack2 a) ''wt_filedata_ACK'' \<noteq> 0 then Some (-1, seq2, w3)
             else Some (0, seq2, close_socket w3) }) }))"

text \<open>\<open>UPLOAD_RETRY_COUNT\<close> is 1: at most one attempt.\<close>

fun upload_loop ::
    "bool \<Rightarrow> nat \<Rightarrow> upload_config \<Rightarrow> file_info \<Rightarrow> 8 word list \<Rightarrow> nat \<Rightarrow> attempt list \<Rightarrow> 16 word \<times> wire \<Rightarrow> (int \<times> 16 word \<times> wire) option" where
  "upload_loop mem sz c info data 0 as st = Some (-1, st)"
| "upload_loop mem sz c info data (Suc k) [] st = None"
| "upload_loop mem sz c info data (Suc k) (a # as) st = do {
     (r, st1) \<leftarrow> upload_attempt mem sz c info data a st;
     if r = 0 then Some (0, st1) else upload_loop mem sz c info data k as st1 }"

definition tcp_upload_logs ::
    "bool \<Rightarrow> nat \<Rightarrow> attempt list \<Rightarrow> log_system \<Rightarrow> files \<Rightarrow> 16 word \<times> wire \<Rightarrow> (int \<times> 16 word \<times> wire) option" where
  "tcp_upload_logs mem sz as s fs st = (case read_log_file_content mem fs s of
     None \<Rightarrow> Some (-1, st)
   | Some data \<Rightarrow> upload_loop mem sz (ls_upload s) (prepare_file_info (ls_path s) (length data)) data 1 as st)"

section \<open>The log afterwards\<close>

definition result_text :: "int \<Rightarrow> string" where
  "result_text r = (if r = 0 then ''SUCCESS'' else ''FAILED'')"

text \<open>\<open>opens\<close>: whether the file opens for writing, which empties it, whatever the upload gave.\<close>

definition upload_and_clear_logs ::
    "bool \<Rightarrow> nat \<Rightarrow> attempt list \<Rightarrow> string option \<Rightarrow> string \<Rightarrow> string \<Rightarrow> bool \<Rightarrow> log_system \<times> files \<times> 16 word \<times> wire \<Rightarrow> (int \<times> log_system \<times> files \<times> 16 word \<times> wire) option" where
  "upload_and_clear_logs mem sz as date name time opens st = (let (s, fs, n) = st in
     if ls_open s = None then Some (-1, st)
     else do {
       let s1 = s\<lparr>ls_open := None\<rparr>;
       (r, n1) \<leftarrow> tcp_upload_logs mem sz as s1 fs n;
       let s2 = s1\<lparr>ls_path := (case generate_file_name date name of Some f \<Rightarrow> f | None \<Rightarrow> default_log_file)\<rparr>;
       if \<not> opens then Some (-1, s2, fs, n1)
       else Some (r, s2\<lparr>ls_open := Some (ls_path s2)\<rparr>,
         fs(ls_path s2 \<mapsto> ''['' @ time @ '']['' @ ls_app_name s2 @ ''][SYSTEM][UPLOAD] : log file uploaded via TCP. Upload result: '' @
           result_text r @ [CHR 0x0A]), n1) })"

definition need_upload_and_clear :: "log_system \<Rightarrow> files \<Rightarrow> bool" where
  "need_upload_and_clear s fs \<longleftrightarrow> ls_open s \<noteq> None \<and> (case fs (ls_path s) of None \<Rightarrow> 0 | Some t \<Rightarrow> length t) \<ge> ls_max_size s"

text \<open>A round of the thread: the trigger is taken and reset under the lock.\<close>

definition upload_round ::
    "bool \<Rightarrow> nat \<Rightarrow> attempt list \<Rightarrow> string option \<Rightarrow> string \<Rightarrow> string \<Rightarrow> bool \<Rightarrow> log_system \<times> files \<times> 16 word \<times> wire \<Rightarrow> (log_system \<times> files \<times> 16 word \<times> wire) option" where
  "upload_round mem sz as date name time opens st = (let (s, fs, n) = st; s1 = s\<lparr>ls_trigger := False\<rparr> in
     if ls_trigger s \<or> need_upload_and_clear s1 fs
     then map_option snd (upload_and_clear_logs mem sz as date name time opens (s1, fs, n)) else Some (s1, fs, n))"

definition wtsl_logger_upload_logs :: "log_system \<Rightarrow> int \<times> log_system" where
  "wtsl_logger_upload_logs s = (0, s\<lparr>ls_trigger := True\<rparr>)"

definition wtsl_logger_set_max_file_size :: "nat \<Rightarrow> log_system \<Rightarrow> log_system" where
  "wtsl_logger_set_max_file_size n s = s\<lparr>ls_max_size := n\<rparr>"

text \<open>The subnet's 16 bits are cut to the 14 of the field; a longer address keeps the old last byte, which is the
  terminator.\<close>

definition wtsl_logger_set_upload_config_ex ::
    "string option \<Rightarrow> int \<Rightarrow> 16 word \<Rightarrow> 8 word \<Rightarrow> 8 word \<Rightarrow> 16 word \<Rightarrow> 8 word \<Rightarrow> 8 word \<Rightarrow> int \<Rightarrow> int \<Rightarrow> log_system \<Rightarrow> log_system" where
  "wtsl_logger_set_upload_config_ex ip port ss st sd ds dt dd timeout reconnect s = s\<lparr>ls_upload :=
     \<lparr>up_server_ip = (case ip of None \<Rightarrow> up_server_ip (ls_upload s) | Some i \<Rightarrow> cbuf 16 i), up_server_port = port,
      up_source = address (ucast ss) st sd, up_dest = address (ucast ds) dt dd, up_timeout = timeout, up_reconnect = reconnect\<rparr>\<rparr>"

definition wtsl_logger_set_upload_config :: "string option \<Rightarrow> int \<Rightarrow> int \<Rightarrow> int \<Rightarrow> log_system \<Rightarrow> log_system" where
  "wtsl_logger_set_upload_config ip port timeout reconnect = wtsl_logger_set_upload_config_ex ip port 101 16 16 102 16 16 timeout reconnect"

definition wtsl_logger_test_connection :: "upload_config \<Rightarrow> attempt \<Rightarrow> wire \<Rightarrow> int \<times> wire" where
  "wtsl_logger_test_connection c a w = (let (ok, w1) = create_tcp_connection c a w in if ok then (0, close_socket w1) else (-1, w1))"

end
