(* ===== verification/LogProps.thy ===== *)
theory LogProps
  imports LogUpload "HOL-Library.Sublist"
begin

text \<open>
  The upload of the log: what a receiver reads from a frame, which damage its checksum shows, what a
  successful upload has delivered and what a failed one leaves behind.
\<close>

unbundle bit_operations_syntax

section \<open>Bytes\<close>

lemma length_le_bytes [simp]: "length (le_bytes n x) = n"
  by (induction n arbitrary: x) auto

lemma from_le_bytes: "from_le (le_bytes n x) = x mod 256 ^ n"
proof (induction n arbitrary: x)
  case (Suc n)
  have "unat (of_nat x :: 8 word) = x mod 256" by (simp add: unat_of_nat)
  then show ?case by (simp add: Suc mod_mult2_eq [of x 256 "256 ^ n"])
qed simp

lemma from_le_16 [simp]: "from_le (le_bytes 2 (unat (w :: 16 word))) = unat w"
proof -
  have "unat w < 2 ^ LENGTH(16)" by (rule unsigned_less)
  then show ?thesis by (simp add: from_le_bytes)
qed

lemma from_le_32 [simp]: "from_le (le_bytes 4 (unat (w :: 32 word))) = unat w"
proof -
  have "unat w < 2 ^ LENGTH(32)" by (rule unsigned_less)
  then show ?thesis by (simp add: from_le_bytes)
qed

section \<open>The receiver\<close>

record frame =
  fr_seq :: nat
  fr_source :: nat
  fr_dest :: nat
  fr_type :: nat
  fr_identifier :: "8 word"
  fr_data :: "8 word list"

text \<open>What a frame is by its layout: header, the fields, as many bytes as the length says, checksum and footer.\<close>

definition decode_frame :: "8 word list \<Rightarrow> frame option" where
  "decode_frame bs = (let n = from_le (take 3 (drop 16 bs)) in
     if length bs = 26 + n \<and> take 2 bs = le_bytes 2 0x5A5A \<and> drop (24 + n) bs = le_bytes 2 0x0D0A \<and>
        take 2 (drop (22 + n) bs) = le_bytes 2 (unat (calculate_checksum (take (22 + n) bs)))
     then Some \<lparr>fr_seq = from_le (take 2 (drop 2 bs)), fr_source = from_le (take 4 (drop 4 bs)), fr_dest = from_le (take 4 (drop 8 bs)),
       fr_type = from_le (take 4 (drop 12 bs)), fr_identifier = bs ! 19, fr_data = take n (drop 20 bs)\<rparr>
     else None)"

lemma length_frame_body [simp]: "length (frame_body seq c data t i) = 22 + length data"
  by (simp add: frame_body_def)

definition sent_frame :: "16 word \<Rightarrow> upload_config \<Rightarrow> 32 word \<Rightarrow> 8 word \<Rightarrow> 8 word list \<Rightarrow> frame" where
  "sent_frame seq c t i data = \<lparr>fr_seq = unat seq, fr_source = unat (address_to_little_endian (up_source c)),
     fr_dest = unat (address_to_little_endian (up_dest c)), fr_type = unat t, fr_identifier = i, fr_data = data\<rparr>"

lemma body_fields:
  fixes data :: "8 word list" and seq c t i
  defines "b \<equiv> frame_body seq c data t i"
  shows "take 2 (b @ r) = le_bytes 2 0x5A5A" "from_le (take 2 (drop 2 (b @ r))) = unat seq"
    "from_le (take 4 (drop 4 (b @ r))) = unat (address_to_little_endian (up_source c))"
    "from_le (take 4 (drop 8 (b @ r))) = unat (address_to_little_endian (up_dest c))"
    "from_le (take 4 (drop 12 (b @ r))) = unat t" "from_le (take 3 (drop 16 (b @ r))) = length data mod 2 ^ 24"
    "(b @ r) ! 19 = i" "take (length data) (drop 20 (b @ r)) = data"
  by (simp_all add: b_def frame_body_def from_le_bytes [of 3] nth_append)

lemma decode_built:
  assumes "build_log_upload_frame mem c data t i seq = (Some f, seq')"
  shows "decode_frame f = (if length data < 2 ^ 24 then Some (sent_frame seq c t i data) else None)"
proof -
  let ?b = "frame_body seq c data t i"
  let ?r = "le_bytes 2 (unat (calculate_checksum ?b)) @ le_bytes 2 0x0D0A"
  have f: "f = ?b @ ?r" using assms by (simp add: build_log_upload_frame_def Let_def split: if_splits)
  have len: "length (?b @ ?r) = 26 + length data" by simp
  show ?thesis
  proof (cases "length data < 2 ^ 24")
    case True
    then have "length data mod 2 ^ 24 = length data" by simp
    with True show ?thesis unfolding f decode_frame_def Let_def body_fields len sent_frame_def
      by (simp add: body_fields(8) [where r = "[]", simplified])
  next
    case False
    then have "length data mod 2 ^ 24 \<noteq> length data" using mod_less_divisor [of "2 ^ 24" "length data"] by simp
    with False show ?thesis unfolding f decode_frame_def Let_def body_fields len by simp
  qed
qed

section \<open>Damage\<close>

abbreviation xor_all :: "8 word list \<Rightarrow> 8 word" where
  "xor_all \<equiv> foldl (XOR) 0"

lemma xor_all_from: "foldl (XOR) a xs = a XOR xor_all xs" for a :: "8 word"
proof (induction xs arbitrary: a)
  case (Cons x xs)
  have "foldl (XOR) a (x # xs) = (a XOR x) XOR xor_all xs" using Cons [of "a XOR x"] by simp
  also have "\<dots> = a XOR (x XOR xor_all xs)" by (simp add: xor.assoc)
  also have "x XOR xor_all xs = xor_all (x # xs)" using Cons [of x] by simp
  finally show ?case .
qed simp

lemma xor_all_append [simp]: "xor_all (xs @ ys) = xor_all xs XOR xor_all ys"
  by (simp add: xor_all_from [of "xor_all xs"])

lemma xor_cancel_left: "(a XOR b = a XOR c) = (b = c)" for a :: "8 word"
  by (metis xor.assoc xor.left_neutral xor_self_eq)

lemma xor_all_update:
  assumes "k < length xs" "xs ! k \<noteq> b"
  shows "xor_all (xs[k := b]) \<noteq> xor_all xs"
proof -
  have x: "xs = take k xs @ xs ! k # drop (Suc k) xs" by (rule id_take_nth_drop [OF assms(1)])
  have c: "xor_all (y # ys) = y XOR xor_all ys" for y ys using xor_all_from [of y ys] by simp
  have "xor_all (xs[k := b]) = xor_all (take k xs) XOR (b XOR xor_all (drop (Suc k) xs))"
    by (simp only: upd_conv_take_nth_drop [OF assms(1)] xor_all_append c)
  moreover have "xor_all xs = xor_all (take k xs) XOR (xs ! k XOR xor_all (drop (Suc k) xs))"
    by (subst x) (simp only: xor_all_append c)
  ultimately show ?thesis using assms(2) by (metis xor.commute xor_cancel_left)
qed

lemma from_le_inj: "length xs = length ys \<Longrightarrow> from_le xs = from_le ys \<Longrightarrow> xs = ys"
proof (induction xs ys rule: list_induct2)
  case (Cons x xs y ys)
  have b: "unat x < 256" "unat y < 256" using unsigned_less [of x, where 'a = nat] unsigned_less [of y, where 'a = nat] by simp_all
  from Cons.prems have e: "unat x + 256 * from_le xs = unat y + 256 * from_le ys" by simp
  then have "(unat x + 256 * from_le xs) mod 256 = (unat y + 256 * from_le ys) mod 256" by (rule arg_cong)
  with b have "unat x = unat y" by simp
  with e have "unat x = unat y \<and> from_le xs = from_le ys" by simp
  with Cons.IH show ?case by (simp add: unsigned_word_eqI)
qed simp

lemma from_le_less: "from_le xs < 256 ^ length xs"
proof (induction xs)
  case (Cons x xs)
  have "unat x < 256" using unsigned_less [of x, where 'a = nat] by simp
  with Cons show ?case by simp
qed simp

lemma checksum_inj: "le_bytes 2 (unat (calculate_checksum xs)) = le_bytes 2 (unat (calculate_checksum ys)) \<longleftrightarrow> xor_all xs = xor_all ys"
proof
  assume "le_bytes 2 (unat (calculate_checksum xs)) = le_bytes 2 (unat (calculate_checksum ys))"
  then have "from_le (le_bytes 2 (unat (calculate_checksum xs))) = from_le (le_bytes 2 (unat (calculate_checksum ys)))" by simp
  then have "calculate_checksum xs = calculate_checksum ys" by (simp add: unsigned_word_eqI)
  then have "(ucast (calculate_checksum xs) :: 8 word) = ucast (calculate_checksum ys)" by simp
  then show "xor_all xs = xor_all ys"
    by (simp add: calculate_checksum_def ucast_up_ucast_id is_up)
qed (simp add: calculate_checksum_def)

lemma built_shape:
  assumes "build_log_upload_frame mem c data t i seq = (Some f, seq')"
  shows "f = frame_body seq c data t i @ le_bytes 2 (unat (calculate_checksum (frame_body seq c data t i))) @ le_bytes 2 0x0D0A"
    "data \<noteq> []" "seq' = seq + 1"
  using assms by (auto simp: build_log_upload_frame_def Let_def split: if_splits)

lemma if_Some: "(if P then Some a else None) = Some x \<Longrightarrow> P"
  by (simp split: if_splits)

lemma decode_length:
  assumes "decode_frame bs = Some x"
  shows "length bs = 26 + from_le (take 3 (drop 16 bs))" "drop (24 + from_le (take 3 (drop 16 bs))) bs = le_bytes 2 0x0D0A"
    "take 2 (drop (22 + from_le (take 3 (drop 16 bs))) bs) = le_bytes 2 (unat (calculate_checksum (take (22 + from_le (take 3 (drop 16 bs))) bs)))"
  using if_Some [OF assms [unfolded decode_frame_def Let_def]] by blast+

text \<open>C35. A frame with one damaged byte, wherever it is, is not taken for a frame: the checksum, the length, or the
  frame's end shows it.\<close>

theorem frame_shows_damage:
  assumes "build_log_upload_frame mem c data t i seq = (Some f, seq')" "k < length f" "f ! k \<noteq> b"
  shows "decode_frame (f[k := b]) = None"
proof (rule ccontr)
  let ?body = "frame_body seq c data t i"
  let ?sum = "le_bytes 2 (unat (calculate_checksum ?body))"
  let ?n = "length data"
  assume "decode_frame (f[k := b]) \<noteq> None"
  then obtain x where x: "decode_frame (f[k := b]) = Some x" by blast
  have f: "f = ?body @ ?sum @ le_bytes 2 0x0D0A" by (rule built_shape [OF assms(1)])
  have len: "length f = 26 + ?n" by (simp add: f)
  have n: "from_le (take 3 (drop 16 (f[k := b]))) = ?n"
    using decode_length(1) [OF x] unfolding length_list_update len by (simp only: add_left_cancel)
  have lf: "length (take 3 (drop 16 f)) = 3" "length (take 3 (drop 16 (f[k := b]))) = 3" using len by simp_all
  have "?n < 2 ^ 24" using n from_le_less [of "take 3 (drop 16 (f[k := b]))"] lf by simp
  then have "from_le (take 3 (drop 16 f)) = ?n" unfolding f body_fields by simp
  then have same: "take 3 (drop 16 (f[k := b])) = take 3 (drop 16 f)" using from_le_inj [of "take 3 (drop 16 (f[k := b]))" "take 3 (drop 16 f)"] n lf by simp
  note parts = decode_length(2,3) [OF x, unfolded n]
  consider "k < 22 + ?n" | "22 + ?n \<le> k" "k < 24 + ?n" | "24 + ?n \<le> k" by linarith
  then show False
  proof cases
    case 1
    then have "take (22 + ?n) (f[k := b]) = ?body[k := b]" "drop (22 + ?n) (f[k := b]) = ?sum @ le_bytes 2 0x0D0A"
      by (simp_all add: f list_update_append1 list_update_append)
    with parts have "?sum = le_bytes 2 (unat (calculate_checksum (?body[k := b])))" by simp
    then have "xor_all ?body = xor_all (?body[k := b])" by (simp only: checksum_inj)
    moreover have "?body ! k \<noteq> b" using 1 assms(3) by (simp add: f nth_append)
    ultimately show False using xor_all_update [of k ?body b] 1 by simp
  next
    case 2
    then have "take (22 + ?n) (f[k := b]) = ?body" "take 2 (drop (22 + ?n) (f[k := b])) = ?sum[k - (22 + ?n) := b]"
      by (auto simp: f list_update_append)
    with parts have "?sum[k - (22 + ?n) := b] = ?sum" by simp
    moreover have lt: "k - (22 + ?n) < length ?sum" using 2 by simp
    moreover have "?sum ! (k - (22 + ?n)) \<noteq> b" using 2 lt assms(3) by (simp add: f nth_append)
    ultimately show False by (metis nth_list_update_eq)
  next
    case 3
    then have "drop (24 + ?n) (f[k := b]) = (le_bytes 2 0x0D0A)[k - (24 + ?n) := b]"
      by (auto simp: f list_update_append)
    with parts have "(le_bytes 2 0x0D0A)[k - (24 + ?n) := b] = le_bytes 2 0x0D0A" by simp
    moreover have "f ! k = le_bytes 2 0x0D0A ! (k - (24 + ?n))"
    proof -
      have "f = (?body @ ?sum) @ le_bytes 2 0x0D0A" "length (?body @ ?sum) = 24 + ?n" by (simp_all add: f)
      with 3 show ?thesis by (metis nth_append not_less)
    qed
    then have "le_bytes 2 0x0D0A ! (k - (24 + ?n)) \<noteq> b" using assms(3) by simp
    moreover have "k - (24 + ?n) < length (le_bytes 2 0x0D0A)" using 3 assms(2) len by simp
    ultimately show False by (metis nth_list_update_eq)
  qed
qed

section \<open>Sending\<close>

lemma send_all:
  "send_frame_data rs f w = Some (r, w') \<Longrightarrow> wi_open w' = wi_open w \<and>
    (if r = 0 then wi_sent w' = wi_sent w @ f else \<exists>p. prefix p f \<and> wi_sent w' = wi_sent w @ p)"
proof (induction rs f w rule: send_frame_data.induct)
  case (3 rb rs b bs w)
  show ?case
  proof (cases "rb \<le> 0")
    case True
    with 3 show ?thesis by auto
  next
    case False
    let ?x = "take (nat rb) (b # bs)" and ?y = "drop (nat rb) (b # bs)"
    let ?w = "w\<lparr>wi_sent := wi_sent w @ ?x\<rparr>"
    from 3(2) False have s: "send_frame_data rs ?y ?w = Some (r, w')" by simp
    note IH = 3(1) [OF False s]
    have xy: "?x @ ?y = b # bs" by (rule append_take_drop_id)
    show ?thesis
    proof (cases "r = 0")
      case True
      with IH have "wi_sent w' = wi_sent w @ (?x @ ?y)" by simp
      with IH True show ?thesis unfolding xy by simp
    next
      case f: False
      with IH obtain p where "prefix p ?y" "wi_sent w' = wi_sent w @ ?x @ p" by auto
      then have "prefix (?x @ p) (?x @ ?y)" "wi_sent w' = wi_sent w @ (?x @ p)" by (simp_all only: same_prefix_prefix)
      with IH f show ?thesis unfolding xy by auto
    qed
  qed
qed auto

section \<open>An upload\<close>

lemma upload_attempt_result:
  assumes "upload_attempt mem sz c info data a (seq, w) = Some (r, seq', w')"
  shows "r = 0 \<Longrightarrow> wi_open w' = wi_open w \<and> (\<exists>f1 f2 s1. build_file_info_frame mem sz c info seq = (Some f1, s1) \<and>
      build_log_data_frame mem c data s1 = (Some f2, seq') \<and> wi_sent w' = wi_sent w @ f1 @ f2)"
    and "r \<noteq> 0 \<Longrightarrow> r = -1 \<and> (wi_open w' = wi_open w \<or> wi_open w' = Suc (wi_open w))"
proof -
  obtain ok w1 where con: "create_tcp_connection c a w = (ok, w1)" by force
  obtain b1 s1 where f1: "build_file_info_frame mem sz c info seq = (b1, s1)" by force
  obtain b2 s2 where f2: "build_log_data_frame mem c data s1 = (b2, s2)" by force
  have o: "ok \<Longrightarrow> wi_open w1 = Suc (wi_open w) \<and> wi_sent w1 = wi_sent w" "\<not> ok \<Longrightarrow> w1 = w"
    using con by (auto simp: create_tcp_connection_def split: if_splits)
  note A = assms [unfolded upload_attempt_def Let_def prod.case con f1]
  {
    assume "r = 0"
    with A obtain x1 x2 w2 w3 where b: "ok" "b1 = Some x1" "b2 = Some x2" "seq' = s2" "w' = close_socket w3"
      and s: "send_frame_data (at_sends1 a) x1 w1 = Some (0, w2)" "send_frame_data (at_sends2 a) x2 w2 = Some (0, w3)"
      by (auto simp: f2 split: if_splits option.splits Option.bind_splits)
    with send_all [OF s(1)] send_all [OF s(2)] o f1 f2
    show "wi_open w' = wi_open w \<and> (\<exists>f1 f2 s1. build_file_info_frame mem sz c info seq = (Some f1, s1) \<and>
      build_log_data_frame mem c data s1 = (Some f2, seq') \<and> wi_sent w' = wi_sent w @ f1 @ f2)"
      by (auto simp: close_socket_def)
  next
    assume r: "r \<noteq> 0"
    show "r = -1 \<and> (wi_open w' = wi_open w \<or> wi_open w' = Suc (wi_open w))"
    proof (cases ok)
      case False
      with A o show ?thesis by simp
    next
      case True
      note o1 = o(1) [OF True]
      show ?thesis
      proof (cases b1)
        case None
        with A True o1 show ?thesis by (auto simp: close_socket_def)
      next
        case (Some x1)
        with A True obtain r1 w2 where s: "send_frame_data (at_sends1 a) x1 w1 = Some (r1, w2)" by (auto split: Option.bind_splits)
        have o2: "wi_open w2 = Suc (wi_open w)" using send_all [OF s] o1 by simp
        show ?thesis using A True Some s o2 r send_all [of "at_sends2 a" _ w2]
          by (auto simp: f2 close_socket_def split: if_splits option.splits Option.bind_splits)
      qed
    qed
  }
qed

text \<open>A frame is read back as it was built: sequence number, addresses, type, identifier and data, as long as the
  data is shorter than 16 MiB; the length field has three bytes, and a longer block gives a frame that no receiver accepts.\<close>

theorem log_frame_roundtrip:
  assumes "build_log_upload_frame mem c data t i seq = (Some f, seq')"
  shows "seq' = seq + 1 \<and> decode_frame f = (if length data < 2 ^ 24 then Some (sent_frame seq c t i data) else None)"
  using decode_built [OF assms] built_shape(3) [OF assms] by simp

lemma length_file_info: "length (file_info_bytes sz (prepare_file_info path n)) = 256 + sz + Suc (sz - 1)"
proof -
  have "length (cbuf 256 (base_name path)) \<le> 256" by (simp add: cbuf_def)
  then show ?thesis by (simp add: file_info_bytes_def prepare_file_info_def)
qed

text \<open>C34. An upload that reports success has given the network exactly two frames: the first is read as the file's
  name and length, the second as the whole log, unless the log has 16 MiB or more, when the upload
  succeeds although nothing can read the frame.  Its socket is closed.\<close>

theorem successful_upload_delivers:
  assumes "tcp_upload_logs mem sz as s fs (seq, w) = Some (0, seq', w')" "fs (ls_path s) = Some log" "sz \<le> 8"
  shows "\<exists>f1 f2. wi_sent w' = wi_sent w @ f1 @ f2 \<and> wi_open w' = wi_open w \<and> seq' = seq + 2 \<and>
    decode_frame f1 = Some (sent_frame seq (ls_upload s) 0x82000000 0x03 (file_info_bytes sz (prepare_file_info (ls_path s) (length log)))) \<and>
    decode_frame f2 = (if length log < 2 ^ 24 then Some (sent_frame (seq + 1) (ls_upload s) 0x87000000 0x02 (map of_char log)) else None)"
proof -
  obtain a as' where as: "as = a # as'" using assms(1,2) by (cases as) (auto simp: tcp_upload_logs_def read_log_file_content_def split: if_splits)
  obtain r st where a: "upload_attempt mem sz (ls_upload s) (prepare_file_info (ls_path s) (length log)) (map of_char log) a (seq, w) = Some (r, st)"
    and r: "r = 0" "st = (seq', w')"
    using assms(1,2) by (auto simp: tcp_upload_logs_def read_log_file_content_def as split: if_splits Option.bind_splits)
  from upload_attempt_result(1) [OF a [unfolded r], OF refl] obtain f1 f2 s1 where w: "wi_open w' = wi_open w" "wi_sent w' = wi_sent w @ f1 @ f2"
    and f1: "build_log_upload_frame mem (ls_upload s) (file_info_bytes sz (prepare_file_info (ls_path s) (length log))) 0x82000000 0x03 seq = (Some f1, s1)"
    and f2: "build_log_upload_frame mem (ls_upload s) (map of_char log) 0x87000000 0x02 s1 = (Some f2, seq')"
    by (auto simp: build_file_info_frame_def build_log_data_frame_def)
  have "length (file_info_bytes sz (prepare_file_info (ls_path s) (length log))) < 2 ^ 24" using assms(3) by (simp add: length_file_info)
  with w decode_built [OF f1] decode_built [OF f2] built_shape(3) [OF f1] built_shape(3) [OF f2] show ?thesis
    by (intro exI [of _ f1] exI [of _ f2]) auto
qed

text \<open>An upload whose acknowledgement does not come leaves its socket open: every such attempt costs a
  descriptor.\<close>

theorem missing_ack_leaks_socket:
  assumes "create_tcp_connection c a w = (True, w1)" "build_file_info_frame mem sz c info seq = (Some f1, seq1)"
    and "send_frame_data (at_sends1 a) f1 w1 = Some (0, w2)" "wait_for_ack (at_ack1 a) ''wt_info_ACK'' \<noteq> 0"
  shows "\<exists>w'. upload_attempt mem sz c info data a (seq, w) = Some (-1, seq1, w') \<and> wi_open w' = Suc (wi_open w)"
proof -
  have "wi_open w1 = Suc (wi_open w)" using assms(1) by (auto simp: create_tcp_connection_def split: if_splits)
  with send_all [OF assms(3)] assms show ?thesis by (simp add: upload_attempt_def)
qed

section \<open>Witnesses\<close>

definition demo_upload :: upload_config where
  "demo_upload = \<lparr>up_server_ip = ''10.0.0.1'', up_server_port = 6150, up_source = address 101 16 16, up_dest = address 102 16 16,
     up_timeout = 10, up_reconnect = 3\<rparr>"

definition demo_log :: log_system where
  "demo_log = (start_state None None 0 demo_sp)\<lparr>ls_upload := demo_upload\<rparr>"

definition demo_attempt :: "string \<Rightarrow> attempt" where
  "demo_attempt ack = \<lparr>at_socket = True, at_connect = True, at_sends1 = [300, 1000], at_sends2 = [1000], at_ack1 = (1, Some ack), at_ack2 = (1, Some ''wt_filedata_ACK'')\<rparr>"

lemma demo_connection: "create_tcp_connection demo_upload (demo_attempt k) w = (True, w\<lparr>wi_open := Suc (wi_open w)\<rparr>)"
proof -
  have "inet_pton ''10.0.0.1'' \<noteq> None" by code_simp
  then show ?thesis by (simp add: create_tcp_connection_def demo_upload_def demo_attempt_def)
qed

theorem log_frame_roundtrip_witness:
  "\<exists>f. build_log_upload_frame True demo_upload [1, 2] 0x87000000 2 65535 = (Some f, 0) \<and>
    decode_frame f = Some (sent_frame 65535 demo_upload 0x87000000 2 [1, 2])"
proof -
  obtain f seq' where f: "build_log_upload_frame True demo_upload [1, 2] 0x87000000 2 65535 = (Some f, seq')"
    by (simp add: build_log_upload_frame_def Let_def)
  with log_frame_roundtrip [OF f] show ?thesis by simp
qed

theorem frame_shows_damage_witness:
  "\<exists>f. build_log_upload_frame True demo_upload [1, 2] 0x87000000 2 7 = (Some f, 8) \<and> decode_frame (f[20 := 5]) = None"
proof -
  obtain f where f: "build_log_upload_frame True demo_upload [1, 2] 0x87000000 2 7 = (Some f, 8)"
    by (simp add: build_log_upload_frame_def Let_def)
  have "f = frame_body 7 demo_upload [1, 2] 0x87000000 2 @ le_bytes 2 (unat (calculate_checksum (frame_body 7 demo_upload [1, 2] 0x87000000 2))) @ le_bytes 2 0x0D0A"
    by (rule built_shape [OF f])
  then have "20 < length f" "f ! 20 = 1" by (simp_all add: nth_append frame_body_def)
  then have "decode_frame (f[20 := 5]) = None" by (intro frame_shows_damage [OF f]) simp_all
  with f show ?thesis by blast
qed

lemma send_at_once:
  assumes "f \<noteq> []" "0 < r" "length f \<le> nat r"
  shows "send_frame_data (r # rs) f w = Some (0, w\<lparr>wi_sent := wi_sent w @ f\<rparr>)"
  using assms by (cases f) simp_all

lemma built_exists:
  assumes "data \<noteq> []"
  obtains f where "build_log_upload_frame True c data t i seq = (Some f, seq + 1)" "length f = 26 + length data"
proof -
  from assms obtain f where f: "build_log_upload_frame True c data t i seq = (Some f, seq + 1)"
    by (simp add: build_log_upload_frame_def Let_def)
  moreover have "length f = 26 + length data" by (subst built_shape(1) [OF f]) simp
  ultimately show thesis by (rule that)
qed

lemma demo_send: "f \<noteq> [] \<Longrightarrow> length f \<le> 300 \<Longrightarrow> send_frame_data (at_sends1 (demo_attempt k)) f w = Some (0, w\<lparr>wi_sent := wi_sent w @ f\<rparr>)"
  "f \<noteq> [] \<Longrightarrow> length f \<le> 300 \<Longrightarrow> send_frame_data (at_sends2 (demo_attempt k)) f w = Some (0, w\<lparr>wi_sent := wi_sent w @ f\<rparr>)"
  using send_at_once [of f 300] send_at_once [of f 1000] by (simp_all add: demo_attempt_def)

lemma demo_info:
  obtains f where "build_file_info_frame True 4 c (prepare_file_info p n) seq = (Some f, seq + 1)" "length f = 290"
proof -
  have l: "length (file_info_bytes 4 (prepare_file_info p n)) = 264" by (simp add: length_file_info)
  then have "file_info_bytes 4 (prepare_file_info p n) \<noteq> []" by (metis list.size(3) zero_neq_numeral)
  then obtain f where "build_log_upload_frame True c (file_info_bytes 4 (prepare_file_info p n)) 0x82000000 0x03 seq = (Some f, seq + 1)"
      "length f = 26 + length (file_info_bytes 4 (prepare_file_info p n))"
    by (rule built_exists)
  with l that show thesis by (simp add: build_file_info_frame_def)
qed

theorem missing_ack_leaks_socket_witness:
  "\<exists>seq1 w'. upload_attempt True 4 demo_upload (prepare_file_info ''/home/wt/log/a.log'' 3) [1, 2, 3] (demo_attempt ''no'') (1, \<lparr>wi_open = 0, wi_sent = []\<rparr>) =
    Some (-1, seq1, w') \<and> wi_open w' = 1"
proof -
  obtain f where f: "build_file_info_frame True 4 demo_upload (prepare_file_info ''/home/wt/log/a.log'' 3) 1 = (Some f, 1 + 1)" "length f = 290"
    by (rule demo_info)
  then have ne: "f \<noteq> []" "length f \<le> 300" by auto
  have ack: "wait_for_ack (at_ack1 (demo_attempt ''no'')) ''wt_info_ACK'' \<noteq> 0" by (simp add: wait_for_ack_def demo_attempt_def contains_def)
  show ?thesis
    using missing_ack_leaks_socket [OF demo_connection f(1) demo_send(1) [OF ne] ack, of "[1, 2, 3]"] by force
qed

theorem successful_upload_delivers_witness:
  "\<exists>seq' w' f1 f2. tcp_upload_logs True 4 [demo_attempt ''wt_info_ACK''] demo_log [ls_path demo_log \<mapsto> ''abc''] (1, \<lparr>wi_open = 0, wi_sent = []\<rparr>) = Some (0, seq', w') \<and>
    wi_sent w' = f1 @ f2 \<and> decode_frame f2 = Some (sent_frame 2 demo_upload 0x87000000 0x02 (map of_char ''abc''))"
proof -
  let ?fs = "[ls_path demo_log \<mapsto> ''abc'']" and ?w = "\<lparr>wi_open = 0, wi_sent = []\<rparr>"
  let ?d = "map of_char ''abc'' :: 8 word list"
  have up: "ls_upload demo_log = demo_upload" by (simp add: demo_log_def)
  obtain f1 where f1: "build_file_info_frame True 4 demo_upload (prepare_file_info (ls_path demo_log) 3) 1 = (Some f1, 1 + 1)" "length f1 = 290"
    by (rule demo_info)
  obtain f2 where f2: "build_log_upload_frame True demo_upload ?d 0x87000000 0x02 2 = (Some f2, 2 + 1)" "length f2 = 26 + length ?d"
    by (rule built_exists [of ?d demo_upload "0x87000000" 2 2]) auto
  have ne: "f1 \<noteq> []" "length f1 \<le> 300" "f2 \<noteq> []" "length f2 \<le> 300" using f1(2) f2(2) by auto
  have ack: "wait_for_ack (at_ack1 (demo_attempt ''wt_info_ACK'')) ''wt_info_ACK'' = 0" "wait_for_ack (at_ack2 (demo_attempt k)) ''wt_filedata_ACK'' = 0" for k
    by (simp_all add: wait_for_ack_def demo_attempt_def contains_def)
  have "\<exists>w'. upload_attempt True 4 demo_upload (prepare_file_info (ls_path demo_log) 3) ?d (demo_attempt ''wt_info_ACK'') (1, ?w) = Some (0, 3, w')"
    using f1(1) f2(1) ne ack by (simp add: upload_attempt_def demo_connection demo_send build_log_data_frame_def)
  then obtain w' where "upload_attempt True 4 demo_upload (prepare_file_info (ls_path demo_log) 3) ?d (demo_attempt ''wt_info_ACK'') (1, ?w) = Some (0, 3, w')" ..
  then have t: "tcp_upload_logs True 4 [demo_attempt ''wt_info_ACK''] demo_log ?fs (1, ?w) = Some (0, 3, w')"
    by (simp add: tcp_upload_logs_def read_log_file_content_def up flip: numeral_3_eq_3)
  have "?fs (ls_path demo_log) = Some ''abc''" by simp
  from successful_upload_delivers [OF t this] t show ?thesis unfolding up by force
qed

end
