(* ===== verification/SleClient.thy ===== *)
theory SleClient
  imports CoreState LogUpload
begin

text \<open>
  The SLE side of the node (slal/sle/sle_conn_client.c, sle_client.c, sle_tcp_server.c, sle_udp_server.c): the
  table of the devices a scan finds, the table of connections, the forwarding between the SLE links and the
  TCP and UDP clients, start and stop.  What is handed to the SLE stack and to the sockets is the
  trace of the state; the stack's callbacks are the operations on it.  None is a memory fault.
\<close>

section \<open>State\<close>

type_synonym bytes = "8 word list"

datatype sle_acb_state = SLE_ACB_STATE_NONE | SLE_ACB_STATE_CONNECTED | SLE_ACB_STATE_DISCONNECTED

record seek_result =
  sr_addr :: bytes
  sr_rssi :: int

record connect_manage =
  cm_conn_id :: "16 word"
  cm_state :: sle_acb_state
  cm_mac :: string

datatype sle_event = Enable | Disable | Seek_param | Start_seek | Stop_seek | Register | Connect_param | Connect bytes
  | Set_name string | Set_addr bytes | Fast_send "16 word" bytes | Tcp_send bytes | Udp_send sockaddr_in bytes
  | Tcp_stop | Udp_stop | Tcp_start int | Udp_start int

text \<open>\<open>seek_result_info\<close> up to \<open>scan_num\<close>, \<open>connect_manage\<close>, \<open>announce_id\<close> with its number, the flags of the two servers
  and the UDP client remembered.\<close>

record sle_st =
  sl_seek :: "seek_result list"
  sl_conn :: "connect_manage list"
  sl_ids :: "int list"
  sl_num :: int
  sl_tcp_running :: bool
  sl_udp_running :: bool
  sl_udp_open :: bool
  sl_client :: "sockaddr_in option"
  sl_run :: bool
  sl_out :: "sle_event list"

definition emit :: "sle_event list \<Rightarrow> sle_st \<Rightarrow> sle_st" where
  "emit es s = s\<lparr>sl_out := sl_out s @ es\<rparr>"

definition sle_max_conn :: nat where
  "sle_max_conn = 20"

section \<open>Addresses\<close>

text \<open>\<open>sscanf\<close> with \<open>%x\<close> stores an \<open>int\<close> at the address of each byte: four bytes, the last three of them beyond the
  one meant.  \<open>b\<close> is the array and what lies behind it that may be written.\<close>

definition poke_int :: "nat \<Rightarrow> int \<Rightarrow> bytes \<Rightarrow> bytes option" where
  "poke_int p v b = (if p + 4 \<le> length b then Some (take p b @ le_bytes 4 (nat (v mod 2 ^ 32)) @ drop (p + 4) b) else None)"

fun poke_ints :: "nat \<Rightarrow> int list \<Rightarrow> bytes \<Rightarrow> bytes option" where
  "poke_ints p [] b = Some b"
| "poke_ints p (v # vs) b = Option.bind (poke_int p v b) (poke_ints (Suc p) vs)"

definition addr_fmt :: "nat \<Rightarrow> scan_item list" where
  "addr_fmt w = [Hex w, Ch (CHR '':''), Hex w, Ch (CHR '':''), Hex w, Ch (CHR '':''), Hex w, Ch (CHR '':''), Hex w, Ch (CHR '':''), Hex w]"

text \<open>\<open>junk\<close>: the uninitialised array and the bytes behind it; the address is its first six bytes.\<close>

definition scan_addr :: "int \<Rightarrow> nat \<Rightarrow> string \<Rightarrow> bytes \<Rightarrow> bytes option" where
  "scan_addr lmax w mac junk = map_option (take 6) (poke_ints 0 (map ival (scan lmax (addr_fmt w) mac)) junk)"

definition hex_lower :: "8 word \<Rightarrow> string" where
  "hex_lower b = map tolower (hex2 b)"

definition addr_text :: "bytes \<Rightarrow> string" where
  "addr_text a = hex_lower (a ! 0) @ concat (map (\<lambda>b. '':'' @ hex_lower b) (take 5 (drop 1 a)))"

section \<open>Scanning\<close>

definition sle_start_scan :: "sle_st \<Rightarrow> sle_st" where
  "sle_start_scan s = emit [Seek_param, Start_seek] s"

text \<open>\<open>strncmp\<close> of two addresses ends at a zero byte.\<close>

definition addr_key :: "bytes \<Rightarrow> bytes" where
  "addr_key a = takeWhile (\<lambda>b. b \<noteq> 0) (take 6 a)"

definition sle_sample_seek_result_info_cbk :: "seek_result option \<Rightarrow> sle_st \<Rightarrow> sle_st option" where
  "sle_sample_seek_result_info_cbk r s = (case r of
     None \<Rightarrow> Some s
   | Some d \<Rightarrow>
       if sl_seek s \<noteq> [] \<and> addr_key (sr_addr d) \<in> (addr_key \<circ> sr_addr) ` set (sl_seek s) then Some s
       else if length (sl_seek s) < sle_max_conn then Some (s\<lparr>sl_seek := sl_seek s @ [d]\<rparr>)
       else None)"

section \<open>Connections\<close>

definition sle_create_connection :: "bytes \<Rightarrow> sle_st \<Rightarrow> sle_st" where
  "sle_create_connection addr s = emit [Connect_param, Connect addr] s"

definition sle_sample_connect_state_changed_cbk :: "16 word \<Rightarrow> bytes \<Rightarrow> sle_acb_state \<Rightarrow> sle_st \<Rightarrow> sle_st option" where
  "sle_sample_connect_state_changed_cbk conn_id addr state s = (if unat conn_id < length (sl_conn s)
     then Some (s\<lparr>sl_conn := (sl_conn s)[unat conn_id := \<lparr>cm_conn_id = conn_id, cm_state = state, cm_mac = addr_text addr\<rparr>]\<rparr>)
     else None)"

text \<open>\<open>sle_get_server_by_addr\<close>: the index of the server's slot.\<close>

definition sle_get_server_by_addr :: "bytes \<Rightarrow> nat option" where
  "sle_get_server_by_addr a = (if a ! 0 \<noteq> 0xD then None
     else if unat (a ! 5) < 1 \<or> unat (a ! 5) > sle_max_conn then None else Some (unat (a ! 5) - 1))"

section \<open>Sending\<close>

definition connected_ids :: "sle_st \<Rightarrow> 16 word list" where
  "connected_ids s = map cm_conn_id (filter (\<lambda>c. cm_state c = SLE_ACB_STATE_CONNECTED) (sl_conn s))"

text \<open>To the chosen links, once, or to all connected ones; more chosen ids than the array has are read beyond it.\<close>

definition sle_client_senddata :: "bytes \<Rightarrow> sle_st \<Rightarrow> sle_st option" where
  "sle_client_senddata d s =
     (if sl_num s = 0 then Some (emit (map (\<lambda>i. Fast_send i d) (connected_ids s)) s\<lparr>sl_num := 0\<rparr>)
      else if nat (sl_num s) > length (sl_ids s) then None
      else Some (emit (map (\<lambda>i. Fast_send (word_of_int i) d) (take (nat (sl_num s)) (sl_ids s))) s\<lparr>sl_num := 0\<rparr>))"

section \<open>TCP and UDP\<close>

definition sle_tcp_server_send :: "bytes \<Rightarrow> sle_st \<Rightarrow> int \<times> sle_st" where
  "sle_tcp_server_send d s = (0, emit [Tcp_send d] s)"

definition sle_udp_server_send :: "bytes \<Rightarrow> sle_st \<Rightarrow> int \<times> sle_st" where
  "sle_udp_server_send d s = (case sl_client s of
     None \<Rightarrow> (-1, s)
   | Some a \<Rightarrow> if \<not> sl_udp_open s \<or> d = [] then (-1, s) else (0, emit [Udp_send a d] s))"

definition fast_data_recv_cb :: "bytes \<Rightarrow> sle_st \<Rightarrow> sle_st" where
  "fast_data_recv_cb d s = snd (sle_udp_server_send d (snd (sle_tcp_server_send d s)))"

text \<open>The receiving loops: the pieces read until the other side closes or the flag is cleared.  A piece has at most 199 bytes; the TCP loop
  passes on what \<open>strlen\<close> counts, the UDP loop what was read.\<close>

fun recv_msg :: "bytes list \<Rightarrow> sle_st \<Rightarrow> sle_st option" where
  "recv_msg [] s = Some s"
| "recv_msg (d # ds) s = (if \<not> sl_tcp_running s \<or> d = [] then Some s
     else do { s1 \<leftarrow> sle_client_senddata (takeWhile (\<lambda>b. b \<noteq> 0) d) s; recv_msg ds s1 })"

fun udp_recv_msg :: "(sockaddr_in \<times> bytes) list \<Rightarrow> sle_st \<Rightarrow> sle_st option" where
  "udp_recv_msg [] s = Some s"
| "udp_recv_msg ((a, d) # ds) s = (if \<not> sl_udp_running s \<or> d = [] then Some s
     else do { s1 \<leftarrow> sle_client_senddata d (s\<lparr>sl_client := Some a\<rparr>); udp_recv_msg ds s1 })"

definition tcp_init :: "int \<Rightarrow> sle_st \<Rightarrow> sle_st" where
  "tcp_init port s = emit [Tcp_start port] (s\<lparr>sl_tcp_running := True\<rparr>)"

text \<open>The UDP server forgets the client when it starts; its socket stays open while it runs.\<close>

definition udp_init :: "int \<Rightarrow> sle_st \<Rightarrow> sle_st" where
  "udp_init port s = emit [Udp_start port] (s\<lparr>sl_udp_running := True, sl_udp_open := True, sl_client := None\<rparr>)"

definition sle_stop_tcp_server :: "sle_st \<Rightarrow> sle_st" where
  "sle_stop_tcp_server s = emit [Tcp_stop] (s\<lparr>sl_tcp_running := False\<rparr>)"

definition sle_stop_udp_server :: "sle_st \<Rightarrow> sle_st" where
  "sle_stop_udp_server s = emit [Udp_stop] (s\<lparr>sl_udp_running := False, sl_client := None\<rparr>)"

section \<open>Start and stop\<close>

definition sle_client_init :: "int \<Rightarrow> basic_info \<Rightarrow> bytes \<Rightarrow> sle_st \<Rightarrow> sle_st option" where
  "sle_client_init lmax b junk s = do {
     a \<leftarrow> scan_addr lmax (length (bi_mac b)) (bi_mac b) junk;
     Some (emit [Register, Register, Register, Enable, Register, Set_name (bi_sle_name b), Set_addr a] s) }"

definition sle_client_deinit :: "sle_st \<Rightarrow> sle_st" where
  "sle_client_deinit s = emit [Stop_seek, Disable] s"

definition signal_handler :: "sle_st \<Rightarrow> sle_st" where
  "signal_handler s = sle_stop_udp_server (sle_stop_tcp_server (s\<lparr>sl_run := False\<rparr>))"

text \<open>What runs once \<open>sle_enable\<close> is set; \<open>server_init\<close> is the start of the T side.\<close>

definition wtsl_core_sle_start :: "int \<Rightarrow> (sle_st \<Rightarrow> sle_st option) \<Rightarrow> basic_info \<Rightarrow> bytes \<Rightarrow> sle_st \<Rightarrow> sle_st option" where
  "wtsl_core_sle_start lmax server_init b junk s = do {
     s1 \<leftarrow> (if bi_sle_type b = node_type_code Node_Sle_G then sle_client_init lmax b junk s
            else if bi_sle_type b = node_type_code Node_Sle_T then server_init s
            else Some s);
     Some (udp_init (bi_trans_udp_port b) (tcp_init (bi_trans_tcp_port b) s1)) }"

end
