(* ===== verification/SleOta.thy ===== *)
theory SleOta
  imports SleClient
begin

text \<open>
  The T side of SLE (slal/sle/sle_simple_ota_*.c): the firmware file sent in packages over the link, each
  answered by a request for the next one; the service offered to the stack; the advertising data.
  The stack is a parameter: its answers to the calls, and the trace of the calls and reports.
\<close>

section \<open>State\<close>

definition SLE_SUCCESS :: "32 word" where "SLE_SUCCESS = 0"
definition SLE_PARAM_ERR :: "32 word" where "SLE_PARAM_ERR = 0x80006003"
definition SLE_FAIL :: "32 word" where "SLE_FAIL = 0x80006004"
definition SLE_UNSUPPORTED :: "32 word" where "SLE_UNSUPPORTED = 0x80006006"

datatype ota_opcode = SIMPLE_OTA_START | SIMPLE_OTA_GOING | SIMPLE_OTA_ACK | SIMPLE_OTA_END

fun opcode :: "ota_opcode \<Rightarrow> nat" where
  "opcode SIMPLE_OTA_START = 0" | "opcode SIMPLE_OTA_GOING = 1" | "opcode SIMPLE_OTA_ACK = 2" | "opcode SIMPLE_OTA_END = 3"

text \<open>\<open>g_ota_send_data\<close> as its three fields, \<open>g_fp\<close> as whether it is open, the number of connections and packages, the reports sent.\<close>

record ota_st =
  ot_total :: "32 word"
  ot_record :: "32 word"
  ot_num :: "32 word"
  ot_len :: "32 word"
  ot_buf :: bytes
  ot_open :: bool
  ot_pkts :: "16 word"
  ot_sent :: "bytes list"

text \<open>The file \<open>fota.fwpkg\<close>, whether memory is there, and the stack's answer to a report.\<close>

record ota_env =
  oe_file :: "bytes option"
  oe_mem :: bool
  oe_notify :: "bytes list \<Rightarrow> bytes \<Rightarrow> 32 word"

definition ota_max :: nat where
  "ota_max = 200"

section \<open>The file\<close>

definition get_ota_file_size :: "ota_env \<Rightarrow> 32 word" where
  "get_ota_file_size e = (case oe_file e of None \<Rightarrow> 0 | Some f \<Rightarrow> of_nat (length f))"

definition get_ota_fp :: "ota_env \<Rightarrow> bytes option" where
  "get_ota_fp e = oe_file e"

text \<open>\<open>fread\<close> of \<open>n\<close> bytes at an offset into the 200 bytes of \<open>data\<close>.\<close>

definition read_at :: "bytes \<Rightarrow> nat \<Rightarrow> nat \<Rightarrow> bytes \<Rightarrow> (nat \<times> bytes) option" where
  "read_at f off n buf = (let c = take n (drop off f) in
     if length c > length buf then None else Some (length c, c @ drop (length c) buf))"

section \<open>Reports\<close>

text \<open>The copy is checked against the length of the report, not against the 600 bytes of the buffer.  The code waits until the link is
  idle before it sends.\<close>

definition sle_uart_server_send_report_by_handle :: "ota_env \<Rightarrow> bytes \<Rightarrow> ota_st \<Rightarrow> (32 word \<times> ota_st) option" where
  "sle_uart_server_send_report_by_handle e d s =
     (if d = [] then Some (SLE_FAIL, s)
      else if length d > 600 then None
      else Some (oe_notify e (ot_sent s) d, s\<lparr>ot_pkts := ot_pkts s + 1, ot_sent := ot_sent s @ [d]\<rparr>))"

definition package :: "ota_st \<Rightarrow> bytes" where
  "package s = le_bytes 4 (opcode SIMPLE_OTA_GOING) @ le_bytes 4 (unat (ot_num s)) @ le_bytes 4 (unat (ot_len s)) @ ot_buf s"

text \<open>The same report addressed by its UUID.\<close>

definition sle_uart_server_send_report_by_uuid :: "(bytes \<Rightarrow> 32 word) \<Rightarrow> bool \<Rightarrow> bytes \<Rightarrow> 32 word" where
  "sle_uart_server_send_report_by_uuid answer mem d = (if \<not> mem \<or> d = [] then SLE_FAIL
     else let r = answer d in if r \<noteq> SLE_SUCCESS then r else SLE_SUCCESS)"

text \<open>\<open>r\<close> is what the function returns when there is no memory for the message.\<close>

definition send_msg :: "ota_env \<Rightarrow> bytes \<Rightarrow> 32 word \<Rightarrow> ota_st \<Rightarrow> (32 word \<times> ota_st) option" where
  "send_msg e d r s = (if oe_mem e then sle_uart_server_send_report_by_handle e d s else Some (r, s))"

definition send_ota_prepare_cmd :: "ota_env \<Rightarrow> ota_st \<Rightarrow> (32 word \<times> ota_st) option" where
  "send_ota_prepare_cmd e s =
     (let size = get_ota_file_size e;
          s1 = s\<lparr>ot_total := size div 200 + (if size mod 200 \<noteq> 0 then 1 else 0)\<rparr>
      in send_msg e (le_bytes 4 (opcode SIMPLE_OTA_START) @ le_bytes 4 (unat size)) SLE_SUCCESS s1)"

text \<open>The first package: the beginning of the file under the number recorded.\<close>

definition send_ota_package :: "ota_env \<Rightarrow> ota_st \<Rightarrow> (32 word \<times> ota_st) option" where
  "send_ota_package e s = (case get_ota_fp e of
     None \<Rightarrow> Some (SLE_FAIL, s\<lparr>ot_open := False\<rparr>)
   | Some f \<Rightarrow> do {
       (n, buf) \<leftarrow> read_at f 0 ota_max (ot_buf s);
       let s1 = s\<lparr>ot_open := True, ot_buf := buf\<rparr>;
       if n = 0 then Some (SLE_FAIL, s1)
       else (let s2 = s1\<lparr>ot_num := ot_record s, ot_len := of_nat ota_max\<rparr>
             in send_msg e (package s2) (of_nat n) s2) })"

definition send_ota_start_cmd :: "ota_env \<Rightarrow> ota_st \<Rightarrow> (32 word \<times> ota_st) option" where
  "send_ota_start_cmd e s = (if \<not> ot_open s then None
     else send_msg e (le_bytes 4 (opcode SIMPLE_OTA_END)) 0 (s\<lparr>ot_open := False\<rparr>))"

text \<open>Table of the commands: name, least number of arguments.\<close>

definition g_cmd_table :: "(string \<times> (ota_env \<Rightarrow> ota_st \<Rightarrow> (32 word \<times> ota_st) option) \<times> nat) list" where
  "g_cmd_table = [(''ota_prepare'', send_ota_prepare_cmd, 0), (''send_ota'', send_ota_package, 0), (''start_ota'', send_ota_start_cmd, 0)]"

definition process_cli_cmd :: "ota_env \<Rightarrow> string \<Rightarrow> nat \<Rightarrow> ota_st \<Rightarrow> (32 word \<times> ota_st) option" where
  "process_cli_cmd e c arg_num s = (case find (\<lambda>(n, h, k). c = n) g_cmd_table of
     None \<Rightarrow> Some (SLE_UNSUPPORTED, s)
   | Some (n, h, k) \<Rightarrow> if arg_num < k then Some (SLE_PARAM_ERR, s) else h e s)"

text \<open>A line of at most 99 bytes: the words between blanks, the first the command, ten more as arguments.\<close>

definition parse_cli_line :: "int \<Rightarrow> string \<Rightarrow> (string \<times> int list) option" where
  "parse_cli_line lmax input = (let t = (if input \<noteq> [] \<and> last input = CHR 0x0A then butlast input else input) in
     case strtok_all (CHR '' '') t of
       [] \<Rightarrow> None
     | c # ws \<Rightarrow> if hd c = CHR 0x0A then None else Some (c, map (atoi lmax) (take 10 ws)))"

section \<open>Requests\<close>

definition word_at :: "nat \<Rightarrow> bytes \<Rightarrow> 32 word" where
  "word_at p d = of_nat (from_le (take 4 (drop p d)))"

text \<open>Neither the opcode nor the length of the request is checked.\<close>

definition recv_ota_ack :: "ota_env \<Rightarrow> bytes \<Rightarrow> ota_st \<Rightarrow> (32 word \<times> ota_st) option" where
  "recv_ota_ack e d s = (if length d < 12 then None
     else let num = word_at 4 d; len = word_at 8 d; s1 = s\<lparr>ot_record := num\<rparr> in
       if num = ot_total s then Some (SLE_SUCCESS, s1)
       else if \<not> ot_open s then None
       else do {
         f \<leftarrow> oe_file e;
         (n, buf) \<leftarrow> read_at f (unat (num * 200)) (unat len) (ot_buf s);
         let s2 = s1\<lparr>ot_buf := buf\<rparr>;
         if n = 0 then Some (SLE_FAIL, s2)
         else (let s3 = s2\<lparr>ot_num := num, ot_len := len\<rparr> in send_msg e (package s3) SLE_SUCCESS s3) })"

section \<open>The service\<close>

definition sle_uuid_setu2 :: "16 word \<Rightarrow> bytes" where
  "sle_uuid_setu2 u = [0x37, 0xBE, 0xA8, 0x80, 0xFC, 0x70, 0x11, 0xEA, 0xB7, 0x20, 0x00, 0x00, 0x00, 0x00] @ le_bytes 2 (unat u)"

datatype announce_mode = Nonconn_Nonscan | Connectable_Nonscan | Nonconn_Scanable | Connectable_Scanable | Connectable_Directed

datatype announce_level = Level_None | Level_Normal | Level_Priority | Level_Paired | Level_Special

datatype announce_role = T_Can_Nego | G_Can_Nego | T_No_Nego | G_No_Nego

text \<open>The parameters of the advertising; intervals in units of 125 us, the timeout in units of 10 ms.\<close>

record announce_param =
  an_handle :: "8 word"
  an_mode :: announce_mode
  an_role :: announce_role
  an_level :: announce_level
  an_interval_min :: "32 word"
  an_interval_max :: "32 word"
  an_channel_map :: "8 word"
  an_tx_power :: int
  an_own :: "8 word \<times> bytes"
  an_peer :: "8 word \<times> bytes"
  an_conn_min :: "16 word"
  an_conn_max :: "16 word"
  an_max_latency :: "16 word"
  an_timeout :: "16 word"

datatype ssap_call = Register_server bytes | Unregister_server | Add_service bytes | Add_property bytes bytes
  | Add_descriptor bytes | Start_service | Reg_transmission | Reg_connection | Reg_ssaps | Reg_announce | Reg_device
  | Announce_param announce_param | Announce_data bytes bytes | Start_announce | Notify_uuid bytes bytes | Set_mcs "16 word" "8 word"

text \<open>The stack's answers, as a function of the calls so far, and the outcomes of the three allocations.\<close>

record ssap_env =
  sp_answer :: "ssap_call list \<Rightarrow> ssap_call \<Rightarrow> 32 word"
  sp_mem1 :: bool
  sp_mem2 :: bool

definition call_stack :: "ssap_env \<Rightarrow> ssap_call \<Rightarrow> ssap_call list \<Rightarrow> 32 word \<times> ssap_call list" where
  "call_stack e c cs = (sp_answer e cs c, cs @ [c])"

definition sle_uuid_server_service_add :: "ssap_env \<Rightarrow> ssap_call list \<Rightarrow> 32 word \<times> ssap_call list" where
  "sle_uuid_server_service_add e cs = (case call_stack e (Add_service (sle_uuid_setu2 0x2222)) cs of
     (r, cs1) \<Rightarrow> (if r \<noteq> SLE_SUCCESS then SLE_FAIL else SLE_SUCCESS, cs1))"

definition sle_uuid_server_property_add :: "ssap_env \<Rightarrow> ssap_call list \<Rightarrow> 32 word \<times> ssap_call list" where
  "sle_uuid_server_property_add e cs = (if \<not> sp_mem1 e then (SLE_FAIL, cs)
     else case call_stack e (Add_property (sle_uuid_setu2 0x2323) (replicate 8 0)) cs of (r, cs1) \<Rightarrow>
       if r \<noteq> SLE_SUCCESS then (SLE_FAIL, cs1)
       else if \<not> sp_mem2 e then (SLE_FAIL, cs1)
       else case call_stack e (Add_descriptor [1, 0]) cs1 of (r2, cs2) \<Rightarrow>
         (if r2 \<noteq> SLE_SUCCESS then SLE_FAIL else SLE_SUCCESS, cs2))"

definition sle_uart_server_add :: "ssap_env \<Rightarrow> ssap_call list \<Rightarrow> 32 word \<times> ssap_call list" where
  "sle_uart_server_add e cs = (let cs1 = snd (call_stack e (Register_server [0x12, 0x34]) cs) in
     case sle_uuid_server_service_add e cs1 of (r, cs2) \<Rightarrow>
       if r \<noteq> SLE_SUCCESS then (SLE_FAIL, snd (call_stack e Unregister_server cs2))
       else case sle_uuid_server_property_add e cs2 of (r2, cs3) \<Rightarrow>
         if r2 \<noteq> SLE_SUCCESS then (SLE_FAIL, snd (call_stack e Unregister_server cs3))
         else case call_stack e Start_service cs3 of (r3, cs4) \<Rightarrow>
           (if r3 \<noteq> SLE_SUCCESS then SLE_FAIL else SLE_SUCCESS, cs4))"

text \<open>Calls in turn until one is refused.\<close>

fun register_all :: "ssap_env \<Rightarrow> ssap_call list \<Rightarrow> ssap_call list \<Rightarrow> 32 word \<times> ssap_call list" where
  "register_all e [] cs = (SLE_SUCCESS, cs)"
| "register_all e (c # rest) cs = (case call_stack e c cs of (r, cs1) \<Rightarrow>
     if r \<noteq> SLE_SUCCESS then (r, cs1) else register_all e rest cs1)"

text \<open>The second registration is the one of the G side, whose function returns nothing: \<open>junk\<close> is what the caller takes for its result.\<close>

definition sle_uart_server_init :: "ssap_env \<Rightarrow> 32 word \<Rightarrow> ssap_call list \<Rightarrow> 32 word \<times> ssap_call list" where
  "sle_uart_server_init e junk cs = (case register_all e [Reg_transmission] cs of (r, cs1) \<Rightarrow>
     if r \<noteq> SLE_SUCCESS then (r, cs1)
     else let cs2 = snd (call_stack e Reg_connection cs1) in
       if junk \<noteq> SLE_SUCCESS then (junk, cs2) else register_all e [Reg_ssaps, Reg_announce] cs2)"

section \<open>The connection\<close>

record t_link =
  tl_conn_id :: "16 word"
  tl_pair_hdl :: "16 word"
  tl_qos_id :: "16 word"
  tl_qos_idle :: bool

definition sle_connect_state_changed_cbk :: "16 word \<Rightarrow> sle_acb_state \<Rightarrow> t_link \<Rightarrow> t_link \<times> bool" where
  "sle_connect_state_changed_cbk conn_id state l =
     (if state = SLE_ACB_STATE_CONNECTED then (l\<lparr>tl_conn_id := conn_id, tl_qos_idle := True\<rparr>, False)
      else if state = SLE_ACB_STATE_DISCONNECTED then (l\<lparr>tl_conn_id := 0, tl_pair_hdl := 0\<rparr>, True)
      else (l, False))"

definition sle_pair_complete_cbk :: "16 word \<Rightarrow> t_link \<Rightarrow> t_link" where
  "sle_pair_complete_cbk conn_id l = l\<lparr>tl_pair_hdl := conn_id + 1\<rparr>"

definition sle_tm_send_data_busy_cbk :: "16 word \<Rightarrow> bool \<Rightarrow> t_link \<Rightarrow> t_link" where
  "sle_tm_send_data_busy_cbk conn_id idle l = l\<lparr>tl_qos_id := conn_id, tl_qos_idle := idle\<rparr>"

text \<open>The callbacks of the T side for its connection and the registration of them; nothing calls the latter.\<close>

definition sle_uart_server_sample_set_mcs :: "ssap_env \<Rightarrow> 16 word \<Rightarrow> ssap_call list \<Rightarrow> ssap_call list" where
  "sle_uart_server_sample_set_mcs e conn_id cs = snd (call_stack e (Set_mcs conn_id 6) cs)"

definition sle_phy_update_complete_cbk :: "ssap_env \<Rightarrow> 16 word \<Rightarrow> ssap_call list \<Rightarrow> ssap_call list" where
  "sle_phy_update_complete_cbk e conn_id cs = sle_uart_server_sample_set_mcs e conn_id cs"

definition sle_conn_register_cbks :: "ssap_env \<Rightarrow> ssap_call list \<Rightarrow> 32 word \<times> ssap_call list" where
  "sle_conn_register_cbks e cs = register_all e [Reg_connection] cs"

definition sle_simple_ota_init :: "ssap_env \<Rightarrow> ssap_call list \<Rightarrow> 32 word \<times> ssap_call list" where
  "sle_simple_ota_init e cs = register_all e [Reg_device] cs"

section \<open>Advertising\<close>

text \<open>The struct in memory: type, length, value.\<close>

definition common_value :: "8 word \<Rightarrow> 8 word \<Rightarrow> bytes" where
  "common_value t v = [t, 2, v]"

definition sle_set_adv_data :: bytes where
  "sle_set_adv_data = common_value 0x01 1 @ common_value 0x02 0"

text \<open>The name's element has its length first, then its type; the array of 16 bytes is sent but for its last byte.\<close>

definition sle_local_name :: bytes where
  "sle_local_name = map of_char ''sle_simple_ota'' @ [0, 0]"

definition sle_set_adv_local_name :: bytes where
  "sle_set_adv_local_name = [16, 0x0B] @ take 15 sle_local_name"

definition sle_set_scan_response_data :: bytes where
  "sle_set_scan_response_data = common_value 0x0C 6 @ sle_set_adv_local_name"

definition default_announce_param :: "bytes \<Rightarrow> announce_param" where
  "default_announce_param a = \<lparr>an_handle = 1, an_mode = Connectable_Scanable, an_role = T_Can_Nego, an_level = Level_Normal,
     an_interval_min = 0xC8, an_interval_max = 0xC8, an_channel_map = 0x07, an_tx_power = 0, an_own = (0, a), an_peer = (0, replicate 6 0),
     an_conn_min = 0x64, an_conn_max = 0x64, an_max_latency = 0x1F3, an_timeout = 0x1F4\<rparr>"

definition sle_set_default_announce_param ::
    "int \<Rightarrow> ssap_env \<Rightarrow> string \<Rightarrow> bytes \<Rightarrow> ssap_call list \<Rightarrow> (32 word \<times> ssap_call list) option" where
  "sle_set_default_announce_param lmax e mac behind cs = do {
     a \<leftarrow> scan_addr lmax (length mac) mac (replicate 6 0 @ behind);
     Some (call_stack e (Announce_param (default_announce_param a)) cs) }"

definition sle_set_default_announce_data :: "ssap_env \<Rightarrow> ssap_call list \<Rightarrow> 32 word \<times> ssap_call list" where
  "sle_set_default_announce_data e cs = (SLE_SUCCESS, snd (call_stack e (Announce_data sle_set_adv_data sle_set_scan_response_data) cs))"

text \<open>The results of both are not looked at.\<close>

definition sle_uart_server_adv_init :: "int \<Rightarrow> ssap_env \<Rightarrow> string \<Rightarrow> bytes \<Rightarrow> ssap_call list \<Rightarrow> (32 word \<times> ssap_call list) option" where
  "sle_uart_server_adv_init lmax e mac behind cs = do {
     (r, cs1) \<leftarrow> sle_set_default_announce_param lmax e mac behind cs;
     let cs2 = snd (sle_set_default_announce_data e cs1);
     Some (call_stack e Start_announce cs2) }"

text \<open>What the stack's enabling starts: service, callbacks, advertising.\<close>

definition sle_enable_cbk :: "int \<Rightarrow> ssap_env \<Rightarrow> 32 word \<Rightarrow> string \<Rightarrow> bytes \<Rightarrow> ssap_call list \<Rightarrow> ssap_call list option" where
  "sle_enable_cbk lmax e junk mac behind cs = (let cs1 = snd (sle_uart_server_add e cs); cs2 = snd (sle_uart_server_init e junk cs1)
     in map_option snd (sle_uart_server_adv_init lmax e mac behind cs2))"

definition sle_server_init :: "int \<Rightarrow> basic_info \<Rightarrow> bytes \<Rightarrow> sle_st \<Rightarrow> sle_st option" where
  "sle_server_init lmax b junk s = do {
     a \<leftarrow> scan_addr lmax (length (bi_mac b)) (bi_mac b) junk;
     Some (emit [Register, Enable, Register, Set_name (bi_sle_name b), Set_addr a] s) }"

end
