(* ===== verification/SleProps.thy ===== *)
theory SleProps
  imports SleOta LogProps
begin

text \<open>
  What the SLE side promises: the table of found devices, what a link gets of a client's bytes, and the
  transfer of the firmware file.
\<close>

section \<open>The scan table\<close>

abbreviation key :: "seek_result \<Rightarrow> bytes" where
  "key r \<equiv> addr_key (sr_addr r)"

fun seek_all :: "seek_result list \<Rightarrow> sle_st \<Rightarrow> sle_st option" where
  "seek_all [] s = Some s"
| "seek_all (r # rs) s = Option.bind (sle_sample_seek_result_info_cbk (Some r) s) (seek_all rs)"

lemma seek_step:
  "sle_sample_seek_result_info_cbk (Some r) s = (if key r \<in> key ` set (sl_seek s) then Some s
     else if length (sl_seek s) < 20 then Some (s\<lparr>sl_seek := sl_seek s @ [r]\<rparr>) else None)"
  by (auto simp: sle_sample_seek_result_info_cbk_def sle_max_conn_def image_comp)

definition table_ok :: "sle_st \<Rightarrow> bool" where
  "table_ok s \<longleftrightarrow> length (sl_seek s) \<le> 20 \<and> distinct (map key (sl_seek s))"

lemma table_card: "table_ok s \<Longrightarrow> card (key ` set (sl_seek s)) = length (sl_seek s)"
  unfolding table_ok_def by (metis distinct_card length_map set_map)

lemma seek_all_ok:
  assumes "table_ok s"
  shows "case seek_all rs s of
     Some t \<Rightarrow> table_ok t \<and> card (key ` (set (sl_seek s) \<union> set rs)) \<le> 20 \<and>
        key ` set (sl_seek t) = key ` (set (sl_seek s) \<union> set rs) \<and> sl_out t = sl_out s
   | None \<Rightarrow> card (key ` (set (sl_seek s) \<union> set rs)) > 20"
  using assms
proof (induction rs arbitrary: s)
  case Nil
  then show ?case using table_card [OF Nil] by (simp add: table_ok_def)
next
  case (Cons r rs)
  show ?case
  proof (cases "key r \<in> key ` set (sl_seek s)")
    case True
    then have same: "key ` (set (sl_seek s) \<union> set (r # rs)) = key ` (set (sl_seek s) \<union> set rs)" by auto
    have "seek_all (r # rs) s = seek_all rs s" using True by (simp add: seek_step)
    then show ?thesis unfolding same using Cons.IH [OF Cons.prems] by simp
  next
    case new: False
    show ?thesis
    proof (cases "length (sl_seek s) < 20")
      case True
      let ?s = "s\<lparr>sl_seek := sl_seek s @ [r]\<rparr>"
      have ok: "table_ok ?s" using Cons.prems new True by (auto simp: table_ok_def)
      have "key ` (set (sl_seek ?s) \<union> set rs) = key ` (set (sl_seek s) \<union> set (r # rs))" by auto
      with Cons.IH [OF ok] new True show ?thesis by (simp add: seek_step split: option.splits)
    next
      case False
      then have "card (key ` set (sl_seek s)) \<ge> 20" using table_card [OF Cons.prems] by simp
      moreover have "insert (key r) (key ` set (sl_seek s)) \<subseteq> key ` (set (sl_seek s) \<union> set (r # rs))" by auto
      then have "card (insert (key r) (key ` set (sl_seek s))) \<le> card (key ` (set (sl_seek s) \<union> set (r # rs)))"
        by (rule card_mono [rotated]) simp
      ultimately show ?thesis using new False by (simp add: seek_step)
    qed
  qed
qed

text \<open>A scan's reports, in any number and order: the table has each device once, as long as there are at most
  twenty of them; with more the write past the array happens.  Devices count as the same when
  their addresses agree up to a zero byte.\<close>

theorem scan_table:
  assumes "table_ok s"
  shows "(seek_all rs s \<noteq> None \<longleftrightarrow> card (key ` (set (sl_seek s) \<union> set rs)) \<le> 20) \<and>
    (\<forall>t. seek_all rs s = Some t \<longrightarrow> table_ok t \<and> key ` set (sl_seek t) = key ` (set (sl_seek s) \<union> set rs))"
  using seek_all_ok [OF assms, of rs] by (auto split: option.splits)

definition no_sle :: sle_st where
  "no_sle = \<lparr>sl_seek = [], sl_conn = replicate 20 \<lparr>cm_conn_id = 0, cm_state = SLE_ACB_STATE_NONE, cm_mac = []\<rparr>, sl_ids = replicate 20 0,
     sl_num = 0, sl_tcp_running = True, sl_udp_running = True, sl_udp_open = True, sl_client = None, sl_run = True, sl_out = []\<rparr>"

text \<open>Two different devices whose addresses agree up to the zero byte take one place.\<close>

theorem scan_table_witness:
  "(let a = \<lparr>sr_addr = [0x11, 0x22, 0, 1, 2, 3], sr_rssi = -40\<rparr>; b = \<lparr>sr_addr = [0x11, 0x22, 0, 7, 8, 9], sr_rssi = -50\<rparr>
    in seek_all [a, b] no_sle \<noteq> None \<and> key a = key b \<and> sr_addr a \<noteq> sr_addr b)"
proof -
  let ?a = "\<lparr>sr_addr = [0x11, 0x22, 0, 1, 2, 3], sr_rssi = -40\<rparr>" and ?b = "\<lparr>sr_addr = [0x11, 0x22, 0, 7, 8, 9], sr_rssi = -50\<rparr>"
  have "table_ok no_sle" by (simp add: table_ok_def no_sle_def)
  moreover have k: "key ?a = [0x11, 0x22]" "key ?b = [0x11, 0x22]" by (simp_all add: addr_key_def)
  moreover have "card (key ` (set (sl_seek no_sle) \<union> set [?a, ?b])) \<le> 20" using k by (simp add: no_sle_def)
  ultimately have "seek_all [?a, ?b] no_sle \<noteq> None" using scan_table [of no_sle "[?a, ?b]"] by blast
  with k show ?thesis by (simp add: Let_def)
qed

section \<open>Forwarding\<close>

text \<open>The bytes handed to a link.\<close>

fun to_link :: "16 word \<Rightarrow> sle_event list \<Rightarrow> bytes" where
  "to_link i [] = []"
| "to_link i (Fast_send j d # es) = (if i = j then d @ to_link i es else to_link i es)"
| "to_link i (_ # es) = to_link i es"

lemma to_link_append: "to_link i (es @ fs) = to_link i es @ to_link i fs"
  by (induction i es rule: to_link.induct) auto

lemma to_link_sends: "distinct ids \<Longrightarrow> to_link i (map (\<lambda>j. Fast_send j d) ids) = (if i \<in> set ids then d else [])"
  by (induction ids) auto

lemma connected_ids_frames [simp]:
  "connected_ids (s\<lparr>sl_client := a\<rparr>) = connected_ids s" "connected_ids (emit es s) = connected_ids s"
  "connected_ids (s\<lparr>sl_num := n\<rparr>) = connected_ids s"
  by (simp_all add: connected_ids_def emit_def)

lemma emit_out [simp]: "sl_out (emit es s) = sl_out s @ es"
  by (simp add: emit_def)

lemma senddata_all:
  "sl_num s = 0 \<Longrightarrow> sle_client_senddata d s = Some (emit (map (\<lambda>i. Fast_send i d) (connected_ids s)) s\<lparr>sl_num := 0\<rparr>)"
  by (simp add: sle_client_senddata_def)

lemma recv_msg_link:
  assumes "sl_num s = 0" "sl_tcp_running s" "\<forall>d \<in> set ds. d \<noteq> []" "i \<in> set (connected_ids s)" "distinct (connected_ids s)"
  shows "\<exists>t. recv_msg ds s = Some t \<and> to_link i (sl_out t) = to_link i (sl_out s) @ concat (map (takeWhile (\<lambda>b. b \<noteq> 0)) ds)"
  using assms
proof (induction ds arbitrary: s)
  case (Cons d ds)
  let ?d = "takeWhile (\<lambda>b. b \<noteq> 0) d"
  let ?s = "emit (map (\<lambda>i. Fast_send i ?d) (connected_ids s)) s\<lparr>sl_num := 0\<rparr>"
  have c: "connected_ids ?s = connected_ids s" by (simp add: connected_ids_def emit_def)
  obtain t where t: "recv_msg ds ?s = Some t" "to_link i (sl_out t) = to_link i (sl_out ?s) @ concat (map (takeWhile (\<lambda>b. b \<noteq> 0)) ds)"
    using Cons.IH [of ?s] Cons.prems c by (auto simp: emit_def)
  have "to_link i (sl_out ?s) = to_link i (sl_out s) @ ?d"
    using Cons.prems(4,5) by (simp add: emit_def to_link_append to_link_sends)
  with t Cons.prems show ?case by (simp add: senddata_all)
qed simp

lemma udp_recv_link:
  assumes "sl_num s = 0" "sl_udp_running s" "\<forall>d \<in> set ds. snd d \<noteq> []" "i \<in> set (connected_ids s)" "distinct (connected_ids s)"
  shows "\<exists>t. udp_recv_msg ds s = Some t \<and> to_link i (sl_out t) = to_link i (sl_out s) @ concat (map snd ds)"
  using assms
proof (induction ds arbitrary: s)
  case (Cons p ds)
  obtain a d where p: "p = (a, d)" by (cases p)
  let ?s0 = "s\<lparr>sl_client := Some a\<rparr>"
  let ?s = "emit (map (\<lambda>i. Fast_send i d) (connected_ids ?s0)) ?s0\<lparr>sl_num := 0\<rparr>"
  have c: "connected_ids ?s = connected_ids s" by simp
  obtain t where t: "udp_recv_msg ds ?s = Some t" "to_link i (sl_out t) = to_link i (sl_out ?s) @ concat (map snd ds)"
    using Cons.IH [of ?s] Cons.prems c by (auto simp: emit_def)
  have "to_link i (sl_out ?s) = to_link i (sl_out s) @ d"
    using Cons.prems(4,5) by (simp add: to_link_append to_link_sends)
  with t Cons.prems p show ?case by (simp add: senddata_all)
qed simp

lemma cut_concat: "concat (map (takeWhile (\<lambda>b. b \<noteq> (0::8 word))) ds) = concat ds \<longleftrightarrow> 0 \<notin> set (concat ds)"
proof
  assume eq: "concat (map (takeWhile (\<lambda>b. b \<noteq> 0)) ds) = concat ds"
  have "(0::8 word) \<notin> set (concat (map (takeWhile (\<lambda>b. b \<noteq> 0)) ds))" by (auto dest: set_takeWhileD)
  with eq show "0 \<notin> set (concat ds)" by simp
next
  assume "0 \<notin> set (concat ds)"
  then show "concat (map (takeWhile (\<lambda>b. b \<noteq> 0)) ds) = concat ds"
    by (induction ds) (auto simp: takeWhile_eq_all_conv)
qed

text \<open>What a connected link gets of the client's bytes, with no link chosen: over UDP all of them; over TCP
  all of them exactly if none is zero, because the code sends each piece only up to its first zero byte.\<close>

theorem link_gets_bytes:
  assumes "sl_num s = 0" "sl_tcp_running s" "sl_udp_running s" "\<forall>d \<in> set ds. d \<noteq> []" "i \<in> set (connected_ids s)" "distinct (connected_ids s)"
  shows "(\<exists>t. udp_recv_msg (map (Pair a) ds) s = Some t \<and> to_link i (sl_out t) = to_link i (sl_out s) @ concat ds) \<and>
    (\<exists>t. recv_msg ds s = Some t \<and> (to_link i (sl_out t) = to_link i (sl_out s) @ concat ds \<longleftrightarrow> 0 \<notin> set (concat ds)))"
proof (rule conjI)
  have "\<forall>d \<in> set (map (Pair a) ds). snd d \<noteq> []" using assms(4) by auto
  from udp_recv_link [OF assms(1,3) this assms(5,6)]
  show "\<exists>t. udp_recv_msg (map (Pair a) ds) s = Some t \<and> to_link i (sl_out t) = to_link i (sl_out s) @ concat ds"
    by (simp add: comp_def)
  from recv_msg_link [OF assms(1,2,4,5,6)] cut_concat [of ds]
  show "\<exists>t. recv_msg ds s = Some t \<and> (to_link i (sl_out t) = to_link i (sl_out s) @ concat ds \<longleftrightarrow> 0 \<notin> set (concat ds))"
    by auto
qed

definition one_link :: sle_st where
  "one_link = no_sle\<lparr>sl_conn := [\<lparr>cm_conn_id = 4, cm_state = SLE_ACB_STATE_CONNECTED, cm_mac = []\<rparr>]\<rparr>"

lemma one_link_ids [simp]: "connected_ids one_link = [4]"
  by (simp add: connected_ids_def one_link_def)

theorem link_gets_bytes_witness:
  "(\<exists>t. udp_recv_msg (map (Pair \<lparr>sin_port = 9, sin_addr = 1\<rparr>) [[1, 0, 2], [3]]) one_link = Some t \<and> to_link 4 (sl_out t) = [1, 0, 2, 3]) \<and>
   (\<exists>t. recv_msg [[1, 0, 2], [3]] one_link = Some t \<and> to_link 4 (sl_out t) \<noteq> [1, 0, 2, 3])"
proof -
  have "sl_num one_link = 0" "sl_tcp_running one_link" "sl_udp_running one_link" "to_link 4 (sl_out one_link) = []"
    by (simp_all add: one_link_def no_sle_def)
  with link_gets_bytes [of one_link "[[1, 0, 2], [3]]" 4 "\<lparr>sin_port = 9, sin_addr = 1\<rparr>"] show ?thesis by simp
qed

section \<open>The transfer of the firmware\<close>

text \<open>The receiver: the request for a package, and what it takes from a report.\<close>

definition request :: "nat \<Rightarrow> nat \<Rightarrow> bytes" where
  "request n k = le_bytes 4 (opcode SIMPLE_OTA_ACK) @ le_bytes 4 n @ le_bytes 4 k"

definition payload :: "bytes \<Rightarrow> bytes" where
  "payload r = take (unat (word_at 8 r)) (drop 12 r)"

fun serve_requests :: "ota_env \<Rightarrow> bytes list \<Rightarrow> ota_st \<Rightarrow> ota_st option" where
  "serve_requests e [] s = Some s"
| "serve_requests e (d # ds) s = Option.bind (recv_ota_ack e d s) (\<lambda>(r, s1). serve_requests e ds s1)"

definition packages :: "nat \<Rightarrow> nat" where
  "packages sz = sz div 200 + (if sz mod 200 \<noteq> 0 then 1 else 0)"

text \<open>One request per package after the first, with the length that is left.\<close>

definition requests :: "nat \<Rightarrow> nat \<Rightarrow> bytes list" where
  "requests sz k = map (\<lambda>n. request n (min 200 (sz - 200 * n))) [1..<k]"

lemma le_bytes_empty [simp]: "le_bytes n x = [] \<longleftrightarrow> n = 0"
  by (cases n) auto

lemma word_at_le: "n < 2 ^ 32 \<Longrightarrow> length a = p \<Longrightarrow> word_at p (a @ le_bytes 4 n @ r) = of_nat n"
  by (simp add: word_at_def from_le_bytes)

lemma word_at_request: "n < 2 ^ 32 \<Longrightarrow> k < 2 ^ 32 \<Longrightarrow> word_at 4 (request n k) = of_nat n \<and> word_at 8 (request n k) = of_nat k"
  using word_at_le [of n "le_bytes 4 (opcode SIMPLE_OTA_ACK)" 4 "le_bytes 4 k"]
    word_at_le [of k "le_bytes 4 (opcode SIMPLE_OTA_ACK) @ le_bytes 4 n" 8 "[]"]
  by (simp add: request_def)

lemma package_fields:
  assumes "length (ot_buf s) = 200"
  shows "word_at 4 (package s) = ot_num s" "word_at 8 (package s) = ot_len s" "payload (package s) = take (unat (ot_len s)) (ot_buf s)"
    "length (package s) = 212"
proof -
  have b: "unat (ot_num s) < 2 ^ 32" "unat (ot_len s) < 2 ^ 32" by (simp_all add: unsigned_less [where 'a = nat, of "_ :: 32 word", simplified])
  show n: "word_at 4 (package s) = ot_num s"
    using word_at_le [OF b(1), of "le_bytes 4 (opcode SIMPLE_OTA_GOING)" 4] by (simp add: package_def)
  show l: "word_at 8 (package s) = ot_len s"
    using word_at_le [OF b(2), of "le_bytes 4 (opcode SIMPLE_OTA_GOING) @ le_bytes 4 (unat (ot_num s))" 8] by (simp add: package_def)
  show "payload (package s) = take (unat (ot_len s)) (ot_buf s)"
    unfolding payload_def l by (simp add: package_def)
  show "length (package s) = 212" using assms by (simp add: package_def)
qed

lemma packages_bounds:
  "n < packages sz \<Longrightarrow> 200 * n < sz" "sz \<le> 200 * packages sz" "packages sz \<le> sz"
proof -
  have d: "200 * (sz div 200) + sz mod 200 = sz" by simp
  show "n < packages sz \<Longrightarrow> 200 * n < sz"
  proof (cases "sz mod 200 = 0")
    case True
    moreover assume "n < packages sz"
    ultimately show ?thesis using d by (simp add: packages_def)
  next
    case False
    moreover assume "n < packages sz"
    ultimately have "n \<le> sz div 200" by (simp add: packages_def)
    then have "200 * n \<le> 200 * (sz div 200)" by simp
    with False d show ?thesis by linarith
  qed
  have "sz mod 200 < 200" by simp
  with d show "sz \<le> 200 * packages sz" "packages sz \<le> sz" by (auto simp: packages_def)
qed

lemma read_chunk:
  assumes "length buf = 200"
  shows "read_at f off (min 200 (length f - off)) buf =
    Some (min 200 (length f - off), take 200 (drop off f) @ drop (min 200 (length f - off)) buf)"
proof -
  have "take (min 200 (length f - off)) (drop off f) = take 200 (drop off f)" by (simp add: min_def)
  then show ?thesis using assms by (simp add: read_at_def Let_def min.commute)
qed

lemma unat_32: "m < 2 ^ 32 \<Longrightarrow> unat (of_nat m :: 32 word) = m"
  by (simp add: unsigned_of_nat take_bit_nat_eq_self)

text \<open>A reply to a request within the file.\<close>

definition ota_ready :: "ota_env \<Rightarrow> bytes \<Rightarrow> ota_st \<Rightarrow> bool" where
  "ota_ready e f s \<longleftrightarrow> oe_file e = Some f \<and> oe_mem e \<and> length f < 2 ^ 31 \<and> ot_open s \<and> length (ot_buf s) = 200 \<and>
     ot_total s = of_nat (packages (length f))"

lemma ack_step:
  assumes "ota_ready e f s" "n < packages (length f)"
  shows "\<exists>r t. recv_ota_ack e (request n (min 200 (length f - 200 * n))) s = Some (r, t) \<and> ota_ready e f t \<and> ot_record t = of_nat n \<and>
    (\<exists>p. ot_sent t = ot_sent s @ [p] \<and> word_at 4 p = of_nat n \<and> payload p = take 200 (drop (200 * n) f))"
proof -
  let ?k = "min 200 (length f - 200 * n)"
  let ?d = "request n ?k"
  from assms(1) have e: "oe_file e = Some f" "oe_mem e" "length f < 2 ^ 31" "ot_open s" "length (ot_buf s) = 200"
    "ot_total s = of_nat (packages (length f))" by (auto simp: ota_ready_def)
  have in_file: "200 * n < length f" using packages_bounds(1) [OF assms(2)] .
  have small: "n < 2 ^ 32" "?k < 2 ^ 32" "packages (length f) < 2 ^ 32" using in_file e(3) packages_bounds(3) [of "length f"] by auto
  have w: "word_at 4 ?d = of_nat n" "word_at 8 ?d = of_nat ?k" using word_at_request [OF small(1,2)] by auto
  have ne: "(of_nat n :: 32 word) \<noteq> of_nat (packages (length f))"
  proof -
    have "unat (of_nat n :: 32 word) = n" "unat (of_nat (packages (length f)) :: 32 word) = packages (length f)"
      using small by (simp_all only: unat_32)
    with assms(2) show ?thesis by (metis less_irrefl)
  qed
  have off: "unat (of_nat n * 200 :: 32 word) = 200 * n"
  proof -
    have "(of_nat n * 200 :: 32 word) = of_nat (200 * n)" by simp
    moreover have "200 * n < 2 ^ 32" using in_file e(3) by simp
    ultimately show ?thesis by (simp only: unat_32)
  qed
  have uk: "unat (of_nat ?k :: 32 word) = ?k" by (rule unat_32 [OF small(2)])
  let ?b = "take 200 (drop (200 * n) f) @ drop ?k (ot_buf s)"
  let ?s3 = "s\<lparr>ot_record := of_nat n, ot_buf := ?b, ot_num := of_nat n, ot_len := of_nat ?k\<rparr>"
  have lb: "length ?b = 200" using e(5) by auto
  note pf = package_fields [of ?s3, simplified, OF lb [simplified]]
  have k0: "?k \<noteq> 0" using in_file by simp
  have "recv_ota_ack e ?d s = send_msg e (package ?s3) SLE_SUCCESS ?s3"
  proof -
    have l: "\<not> length ?d < 12" by (simp add: request_def)
    show ?thesis unfolding recv_ota_ack_def Let_def w off uk e(1) using ne e(4,6) k0 l read_chunk [OF e(5), of f "200 * n"]
      by (auto simp: min_def)
  qed
  also have "\<dots> = Some (oe_notify e (ot_sent s) (package ?s3), ?s3\<lparr>ot_pkts := ot_pkts s + 1, ot_sent := ot_sent s @ [package ?s3]\<rparr>)"
    using e(2) pf(4) by (auto simp: send_msg_def sle_uart_server_send_report_by_handle_def)
  finally have r: "recv_ota_ack e ?d s =
    Some (oe_notify e (ot_sent s) (package ?s3), ?s3\<lparr>ot_pkts := ot_pkts s + 1, ot_sent := ot_sent s @ [package ?s3]\<rparr>)" .
  have "payload (package ?s3) = take 200 (drop (200 * n) f)" unfolding pf(3) using uk by (simp add: min_def)
  with r pf(1) e lb show ?thesis by (auto simp: ota_ready_def)
qed

lemma serve_range:
  assumes "ota_ready e f s" "m \<le> k" "k \<le> packages (length f)"
  shows "\<exists>t ps. serve_requests e (map (\<lambda>n. request n (min 200 (length f - 200 * n))) [m..<k]) s = Some t \<and> ota_ready e f t \<and>
    ot_sent t = ot_sent s @ ps \<and> map (word_at 4) ps = map of_nat [m..<k] \<and> map payload ps = map (\<lambda>n. take 200 (drop (200 * n) f)) [m..<k]"
  using assms
proof (induction "k - m" arbitrary: m s)
  case 0
  then show ?case by simp
next
  case (Suc j)
  then have mk: "m < k" by simp
  have lt: "m < packages (length f)" using mk Suc.prems(3) by simp
  obtain r s1 p where 1: "recv_ota_ack e (request m (min 200 (length f - 200 * m))) s = Some (r, s1)" "ota_ready e f s1"
    "ot_sent s1 = ot_sent s @ [p]" "word_at 4 p = of_nat m" "payload p = take 200 (drop (200 * m) f)"
    using ack_step [OF Suc.prems(1) lt] by blast
  have "j = k - Suc m" "Suc m \<le> k" using Suc.hyps(2) mk by auto
  from Suc.hyps(1) [OF this(1) 1(2) this(2) Suc.prems(3)] obtain t ps where
    2: "serve_requests e (map (\<lambda>n. request n (min 200 (length f - 200 * n))) [Suc m..<k]) s1 = Some t" "ota_ready e f t"
    "ot_sent t = ot_sent s1 @ ps" "map (word_at 4) ps = map of_nat [Suc m..<k]"
    "map payload ps = map (\<lambda>n. take 200 (drop (200 * n) f)) [Suc m..<k]" by blast
  have "[m..<k] = m # [Suc m..<k]" using mk by (rule upt_conv_Cons)
  with 1 2 show ?case by (intro exI [of _ t] exI [of _ "p # ps"]) simp
qed

lemma chunks_concat: "concat (map (\<lambda>n. take 200 (drop (200 * n) f)) [0..<k]) = take (200 * k) f"
proof (induction k)
  case (Suc k)
  have "200 * Suc k = 200 * k + 200" by simp
  then show ?case using Suc by (simp only: take_add) simp
qed simp

lemma total_word:
  "L < 2 ^ 32 \<Longrightarrow> (of_nat L :: 32 word) div 200 + (if (of_nat L :: 32 word) mod 200 \<noteq> 0 then 1 else 0) = of_nat (packages L)"
proof -
  assume "L < 2 ^ 32"
  then have u: "unat (of_nat L :: 32 word) = L" by (rule unat_32)
  have d: "(of_nat L :: 32 word) div 200 = of_nat (L div 200)" by (simp add: word_arith_nat_div u)
  have "(of_nat L :: 32 word) mod 200 = of_nat (L mod 200)" by (simp add: word_arith_nat_mod u)
  moreover have "unat (of_nat (L mod 200) :: 32 word) = L mod 200" by (rule unat_32) (rule less_trans [of _ 200], simp_all)
  ultimately have "(of_nat L :: 32 word) mod 200 = 0 \<longleftrightarrow> L mod 200 = 0" by (metis unat_eq_zero)
  with d show ?thesis by (simp add: packages_def)
qed

text \<open>The first package.\<close>

lemma first_package:
  assumes "oe_file e = Some f" "oe_mem e" "f \<noteq> []" "length f < 2 ^ 31" "length (ot_buf s) = 200" "ot_total s = of_nat (packages (length f))"
  shows "\<exists>r t p. send_ota_package e s = Some (r, t) \<and> ota_ready e f t \<and> ot_sent t = ot_sent s @ [p] \<and> ot_record t = ot_record s \<and>
    word_at 4 p = ot_record s \<and> payload p = take 200 f @ drop (length f) (ot_buf s)"
proof -
  let ?b = "take 200 f @ drop (length f) (ot_buf s)"
  let ?t = "s\<lparr>ot_open := True, ot_buf := ?b, ot_num := ot_record s, ot_len := 200\<rparr>"
  have lb: "length ?b = 200" using assms(5) by simp
  have "read_at f 0 200 (ot_buf s) = Some (min (length f) 200, ?b)"
    using assms(5) by (cases "length f \<le> 200") (simp_all add: read_at_def min_def)
  moreover have "min (length f) 200 \<noteq> 0" using assms(3) by simp
  moreover note pf = package_fields [of ?t, simplified, OF lb [simplified]]
  ultimately have "send_ota_package e s = Some (oe_notify e (ot_sent s) (package ?t), ?t\<lparr>ot_pkts := ot_pkts s + 1, ot_sent := ot_sent s @ [package ?t]\<rparr>)"
    using assms(1,2,3) pf(4) by (auto simp: min_def send_ota_package_def get_ota_fp_def ota_max_def send_msg_def sle_uart_server_send_report_by_handle_def Let_def)
  moreover have "payload (package ?t) = ?b" unfolding pf(3) using lb by simp
  ultimately show ?thesis using assms lb pf(1) by (auto simp: ota_ready_def)
qed


definition demo_ota :: "bytes \<Rightarrow> ota_env" where
  "demo_ota f = \<lparr>oe_file = Some f, oe_mem = True, oe_notify = (\<lambda>_ _. 0)\<rparr>"

definition no_ota :: ota_st where
  "no_ota = \<lparr>ot_total = 0, ot_record = 0, ot_num = 0, ot_len = 0, ot_buf = replicate 200 0, ot_open = False, ot_pkts = 0, ot_sent = []\<rparr>"

lemma demo_ota_simps [simp]: "oe_file (demo_ota f) = Some f" "oe_mem (demo_ota f)" "length (ot_buf no_ota) = 200" "ot_record no_ota = 0"
  "ot_sent no_ota = []"
  by (simp_all add: demo_ota_def no_ota_def)


text \<open>The number of the last request stays recorded, so the first package of the next transfer is sent with
  the number after the last one instead of 0, although it carries the beginning of the file.\<close>

theorem second_update_misnumbered:
  assumes "ota_ready e f s" "f \<noteq> []"
  shows "\<exists>s1 r2 s2 r3 s3 st p.
    recv_ota_ack e (request (packages (length f)) 0) s = Some (SLE_SUCCESS, s1) \<and> send_ota_prepare_cmd e s1 = Some (r2, s2) \<and>
    send_ota_package e s2 = Some (r3, s3) \<and> ot_sent s3 = ot_sent s @ [st, p] \<and>
    unat (word_at 4 p) = packages (length f) \<and> packages (length f) \<noteq> 0 \<and> take (length f) (payload p) = take 200 f"
proof -
  let ?k = "packages (length f)"
  let ?start = "le_bytes 4 0 @ le_bytes 4 (length f)"
  let ?s1 = "s\<lparr>ot_record := of_nat ?k\<rparr>"
  let ?s2 = "?s1\<lparr>ot_pkts := ot_pkts s + 1, ot_sent := ot_sent s @ [?start]\<rparr>"
  from assms(1) have e: "oe_file e = Some f" "oe_mem e" "length f < 2 ^ 31" "length (ot_buf s) = 200" "ot_total s = of_nat ?k"
    by (auto simp: ota_ready_def)
  have L: "length f < 2 ^ 32" using e(3) by simp
  have k: "?k < 2 ^ 32" using packages_bounds(3) [of "length f"] L by simp
  have k0: "?k \<noteq> 0" using assms(2) packages_bounds(2) [of "length f"] by (cases ?k) auto
  have w: "word_at 4 (request ?k 0) = of_nat ?k" using word_at_request [OF k, of 0] by simp
  have ack: "recv_ota_ack e (request ?k 0) s = Some (SLE_SUCCESS, ?s1)"
    using e(5) by (simp add: recv_ota_ack_def w) (simp add: request_def)
  have prep: "send_ota_prepare_cmd e ?s1 = Some (oe_notify e (ot_sent s) ?start, ?s2)"
    using e total_word [OF L] unat_32 [OF L]
    by (simp add: send_ota_prepare_cmd_def get_ota_file_size_def send_msg_def sle_uart_server_send_report_by_handle_def Let_def)
  obtain r3 s3 p where "send_ota_package e ?s2 = Some (r3, s3)" "ot_sent s3 = ot_sent ?s2 @ [p]" "word_at 4 p = of_nat ?k"
    "payload p = take 200 f @ drop (length f) (ot_buf s)"
    using first_package [OF e(1,2) assms(2) e(3), of ?s2] e(4,5) by auto
  with ack prep k0 unat_32 [OF k] e(4) show ?thesis by (auto simp: min_def)
qed

theorem second_update_misnumbered_witness:
  "\<exists>s1 r2 s2 r3 s3 st p.
    recv_ota_ack (demo_ota [5]) (request 1 0) (no_ota\<lparr>ot_total := 1, ot_open := True\<rparr>) = Some (SLE_SUCCESS, s1) \<and>
    send_ota_prepare_cmd (demo_ota [5]) s1 = Some (r2, s2) \<and> send_ota_package (demo_ota [5]) s2 = Some (r3, s3) \<and>
    ot_sent s3 = [st, p] \<and> unat (word_at 4 p) = 1 \<and> take 1 (payload p) = [5]"
proof -
  have "packages (length [5 :: 8 word]) = 1" by (simp add: packages_def)
  moreover have "ota_ready (demo_ota [5]) [5] (no_ota\<lparr>ot_total := 1, ot_open := True\<rparr>)"
    by (simp add: ota_ready_def packages_def)
  ultimately show ?thesis using second_update_misnumbered [of "demo_ota [5]" "[5]" "no_ota\<lparr>ot_total := 1, ot_open := True\<rparr>"] by auto
qed

text \<open>A request that asks for more than 200 bytes where the file has them makes the code read past the
  200 bytes of its buffer.\<close>

theorem long_request_overruns:
  assumes "ota_ready e f s" "n < packages (length f)" "200 < k" "k < 2 ^ 32" "200 * n + 200 < length f"
  shows "recv_ota_ack e (request n k) s = None"
proof -
  from assms(1) have e: "oe_file e = Some f" "length f < 2 ^ 31" "ot_open s" "length (ot_buf s) = 200" by (auto simp: ota_ready_def)
  have n: "n < 2 ^ 32" "packages (length f) < 2 ^ 32" "200 * n < 2 ^ 32" using assms(5) e(2) packages_bounds(3) [of "length f"] by auto
  have w: "word_at 4 (request n k) = of_nat n" "word_at 8 (request n k) = of_nat k" using word_at_request [OF n(1) assms(4)] by auto
  have ne: "(of_nat n :: 32 word) \<noteq> ot_total s"
    using assms(1,2) unat_32 [OF n(1)] unat_32 [OF n(2)] unfolding ota_ready_def by (metis less_irrefl)
  have off: "unat (of_nat n * 200 :: 32 word) = 200 * n"
  proof -
    have "(of_nat n * 200 :: 32 word) = of_nat (200 * n)" by simp
    then show ?thesis by (simp only: unat_32 [OF n(3)])
  qed
  have "length (take k (drop (200 * n) f)) > 200" using assms(3,5) by simp
  then have "read_at f (200 * n) k (ot_buf s) = None" using e(4) by (simp add: read_at_def Let_def)
  moreover have "\<not> length (request n k) < 12" by (simp add: request_def)
  ultimately show ?thesis unfolding recv_ota_ack_def Let_def w off unat_32 [OF assms(4)] e(1) using ne e(3) by simp
qed

theorem long_request_overruns_witness:
  "recv_ota_ack (demo_ota (replicate 450 7)) (request 0 201) (no_ota\<lparr>ot_total := 3, ot_open := True\<rparr>) = None"
proof -
  have p: "packages 450 = 3" by (simp add: packages_def)
  then have "ota_ready (demo_ota (replicate 450 7)) (replicate 450 7) (no_ota\<lparr>ot_total := 3, ot_open := True\<rparr>)"
    by (simp add: ota_ready_def)
  from long_request_overruns [OF this, of 0 201] p show ?thesis by simp
qed

end
