(* ===== verification/NodeTime.thy ===== *)
theory NodeTime
  imports Prelude
begin

text \<open>
  The check of a time text (\<open>is_valid_time\<close> of slal/node/wtsl_core_node_callback.c), with the two functions of the C
  library it rests on: \<open>strptime\<close> for the conversions used, reading a number as the GNU library does (blanks
  before it, at most so many digits, no further digit once the value would leave the range), and \<open>mktime\<close>, which
  carries the fields into each other and gives the seconds since 1970; the time zone is a fixed offset.
\<close>

section \<open>Fields\<close>

record tm =
  tm_year :: int
  tm_mon :: int
  tm_mday :: int
  tm_hour :: int
  tm_min :: int
  tm_sec :: int

definition zero_tm :: tm where
  "zero_tm = \<lparr>tm_year = 0, tm_mon = 0, tm_mday = 0, tm_hour = 0, tm_min = 0, tm_sec = 0\<rparr>"

section \<open>Reading\<close>

fun take_number :: "int \<Rightarrow> nat \<Rightarrow> int \<Rightarrow> string \<Rightarrow> int \<times> string" where
  "take_number hi n v [] = (v, [])"
| "take_number hi n v (c # s) = (if 0 < n \<and> v * 10 \<le> hi \<and> isdigit c then take_number hi (n - 1) (v * 10 + int (digit_val c)) s else (v, c # s))"

definition get_number :: "int \<Rightarrow> int \<Rightarrow> nat \<Rightarrow> string \<Rightarrow> (int \<times> string) option" where
  "get_number lo hi w s = (case dropWhile (\<lambda>c. c = CHR '' '') s of
     [] \<Rightarrow> None
   | c # r \<Rightarrow> if \<not> isdigit c then None
       else (case take_number hi (w - 1) (int (digit_val c)) r of (v, r1) \<Rightarrow> if v < lo \<or> hi < v then None else Some (v, r1)))"

text \<open>Range, digits and field of a conversion.\<close>

definition conversion :: "char \<Rightarrow> (int \<times> int \<times> nat \<times> (int \<Rightarrow> tm \<Rightarrow> tm)) option" where
  "conversion c = (if c = CHR ''Y'' then Some (0, 9999, 4, \<lambda>v t. t\<lparr>tm_year := v - 1900\<rparr>)
     else if c = CHR ''m'' then Some (1, 12, 2, \<lambda>v t. t\<lparr>tm_mon := v - 1\<rparr>)
     else if c = CHR ''d'' then Some (1, 31, 2, \<lambda>v t. t\<lparr>tm_mday := v\<rparr>)
     else if c = CHR ''H'' then Some (0, 23, 2, \<lambda>v t. t\<lparr>tm_hour := v\<rparr>)
     else if c = CHR ''M'' then Some (0, 59, 2, \<lambda>v t. t\<lparr>tm_min := v\<rparr>)
     else if c = CHR ''S'' then Some (0, 61, 2, \<lambda>v t. t\<lparr>tm_sec := v\<rparr>)
     else None)"

fun strptime :: "string \<Rightarrow> string \<Rightarrow> tm \<Rightarrow> (tm \<times> string) option" where
  "strptime [] s t = Some (t, s)"
| "strptime (c # f) s t =
     (if c = CHR ''%'' \<and> f \<noteq> [] then
        (case conversion (hd f) of
           None \<Rightarrow> None
         | Some (lo, hi, w, set_field) \<Rightarrow> (case get_number lo hi w s of
             None \<Rightarrow> None | Some (v, r) \<Rightarrow> strptime (tl f) r (set_field v t)))
      else if isspace c then strptime f (ltrim s) t
      else (case s of [] \<Rightarrow> None | x # r \<Rightarrow> if x = c then strptime f r t else None))"

section \<open>The calendar\<close>

definition leap :: "int \<Rightarrow> bool" where
  "leap y \<longleftrightarrow> 4 dvd y \<and> (\<not> 100 dvd y \<or> 400 dvd y)"

definition month_days :: "int \<Rightarrow> int \<Rightarrow> int" where
  "month_days y m = (if m = 1 then (if leap y then 29 else 28) else if m \<in> {3, 5, 8, 10} then 30 else 31)"

lemma month_days_pos: "28 \<le> month_days y m" "month_days y m \<le> 31"
  by (auto simp: month_days_def)

lemma month_days_gt0 [simp]: "0 < month_days y m" "month_days y m < d \<Longrightarrow> 0 < d"
  using month_days_pos(1) [of y m] by auto

text \<open>Days beyond the end of the month are carried into the next ones.\<close>

function carry_days :: "int \<Rightarrow> int \<Rightarrow> int \<Rightarrow> int \<times> int \<times> int" where
  "carry_days y m d = (if d \<le> month_days y m then (y, m, d)
     else if m = 11 then carry_days (y + 1) 0 (d - month_days y m) else carry_days y (m + 1) (d - month_days y m))"
  by auto

termination by (relation "measure (\<lambda>(y, m, d). nat d)") (auto simp: not_le)

declare carry_days.simps [simp del]

definition normalise :: "tm \<Rightarrow> tm" where
  "normalise t = (let mi = tm_min t + tm_sec t div 60; h = tm_hour t + mi div 60;
     (y, m, d) = carry_days (tm_year t + 1900) (tm_mon t) (tm_mday t + h div 24)
   in \<lparr>tm_year = y - 1900, tm_mon = m, tm_mday = d, tm_hour = h mod 24, tm_min = mi mod 60, tm_sec = tm_sec t mod 60\<rparr>)"

definition leap_days :: "int \<Rightarrow> int" where
  "leap_days y = y div 4 - y div 100 + y div 400"

definition epoch_days :: "int \<Rightarrow> int \<Rightarrow> int \<Rightarrow> int" where
  "epoch_days y m d = 365 * (y - 1970) + leap_days (y - 1) - leap_days 1969 + sum_list (map (\<lambda>i. month_days y (int i)) [0..<nat m]) + d - 1"

definition utc_seconds :: "tm \<Rightarrow> int" where
  "utc_seconds t = ((epoch_days (tm_year t + 1900) (tm_mon t) (tm_mday t) * 24 + tm_hour t) * 60 + tm_min t) * 60 + tm_sec t"

definition mktime :: "int \<Rightarrow> tm \<Rightarrow> int \<times> tm" where
  "mktime zone t = (utc_seconds t - zone, normalise t)"

section \<open>The check\<close>

definition time_format :: string where
  "time_format = ''%Y-%m-%d %H:%M:%S''"

definition is_valid_time :: "int \<Rightarrow> string \<Rightarrow> string \<Rightarrow> int" where
  "is_valid_time zone time_str fmt = (case strptime fmt time_str zero_tm of
     None \<Rightarrow> -1
   | Some (t, rest) \<Rightarrow> (case mktime zone t of (r, t1) \<Rightarrow>
       if r = -1 then -1
       else if tm_year t1 \<noteq> tm_year t \<or> tm_mon t1 \<noteq> tm_mon t \<or> tm_mday t1 \<noteq> tm_mday t \<or>
               tm_hour t1 \<noteq> tm_hour t \<or> tm_min t1 \<noteq> tm_min t \<or> tm_sec t1 \<noteq> tm_sec t then -1
       else 0))"

section \<open>What the check amounts to\<close>

text \<open>A day and a time that exist.\<close>

definition calendar :: "tm \<Rightarrow> bool" where
  "calendar t \<longleftrightarrow> 0 \<le> tm_mon t \<and> tm_mon t \<le> 11 \<and> 1 \<le> tm_mday t \<and> tm_mday t \<le> month_days (tm_year t + 1900) (tm_mon t) \<and>
     0 \<le> tm_hour t \<and> tm_hour t \<le> 23 \<and> 0 \<le> tm_min t \<and> tm_min t \<le> 59 \<and> 0 \<le> tm_sec t \<and> tm_sec t \<le> 59"

text \<open>What \<open>strptime\<close> lets through.\<close>

definition in_ranges :: "tm \<Rightarrow> bool" where
  "in_ranges t \<longleftrightarrow> 0 \<le> tm_mon t \<and> tm_mon t \<le> 11 \<and> 1 \<le> tm_mday t \<and> tm_mday t \<le> 31 \<and>
     0 \<le> tm_hour t \<and> tm_hour t \<le> 23 \<and> 0 \<le> tm_min t \<and> tm_min t \<le> 59 \<and> 0 \<le> tm_sec t \<and> tm_sec t \<le> 61"

lemma carry_days_id: "d \<le> month_days y m \<Longrightarrow> carry_days y m d = (y, m, d)"
  by (subst carry_days.simps) simp

lemma carry_days_less:
  assumes "d > month_days y m"
  shows "snd (snd (carry_days y m d)) < d"
  using assms
proof (induction y m d rule: carry_days.induct)
  case (1 y m d)
  let ?d = "d - month_days y m"
  have d: "?d < d" using month_days_pos(1) [of y m] by simp
  have "snd (snd (carry_days y' m' ?d)) < d" if "month_days y' m' < ?d \<Longrightarrow> snd (snd (carry_days y' m' ?d)) < ?d" for y' m'
  proof (cases "month_days y' m' < ?d")
    case True
    from less_trans [OF that [OF True] d] show ?thesis .
  qed (use d in \<open>simp add: carry_days_id\<close>)
  with 1 show ?case by (subst carry_days.simps) auto
qed

lemma normalise_fixed:
  assumes "in_ranges t"
  shows "normalise t = t \<longleftrightarrow> calendar t"
proof -
  have r: "0 \<le> tm_mon t" "tm_mon t \<le> 11" "1 \<le> tm_mday t" "0 \<le> tm_hour t" "tm_hour t \<le> 23" "0 \<le> tm_min t" "tm_min t \<le> 59" "0 \<le> tm_sec t"
    using assms by (auto simp: in_ranges_def)
  let ?y = "tm_year t + 1900"
  show ?thesis
  proof (cases "tm_sec t \<le> 59")
    case False
    then have "tm_sec t mod 60 \<noteq> tm_sec t" using pos_mod_bound [of 60 "tm_sec t"] by linarith
    then have "tm_sec (normalise t) \<noteq> tm_sec t" by (simp add: normalise_def Let_def split: prod.splits)
    then show ?thesis using False by (auto simp: calendar_def)
  next
    case True
    then have s: "tm_sec t div 60 = 0" "tm_sec t mod 60 = tm_sec t" "tm_min t div 60 = 0" "tm_min t mod 60 = tm_min t"
      "tm_hour t div 24 = 0" "tm_hour t mod 24 = tm_hour t" using r by auto
    show ?thesis
    proof (cases "tm_mday t \<le> month_days ?y (tm_mon t)")
      case d: True
      then show ?thesis using s r True by (simp add: normalise_def Let_def carry_days_id calendar_def)
    next
      case False
      then have "tm_mday (normalise t) < tm_mday t"
        using carry_days_less [of ?y "tm_mon t" "tm_mday t"] s by (auto simp: normalise_def Let_def split: prod.splits)
      then show ?thesis using False by (auto simp: calendar_def)
    qed
  qed
qed

lemma get_number_range: "get_number lo hi w s = Some (v, r) \<Longrightarrow> lo \<le> v \<and> v \<le> hi"
  by (auto simp: get_number_def split: list.splits if_splits prod.splits)

lemma valid_time_iff:
  assumes "strptime fmt s zero_tm = Some (t, rest)" "in_ranges t"
  shows "is_valid_time zone s fmt = 0 \<longleftrightarrow> calendar t \<and> utc_seconds t - zone \<noteq> -1"
proof -
  have "normalise t = t \<longleftrightarrow> tm_year (normalise t) = tm_year t \<and> tm_mon (normalise t) = tm_mon t \<and> tm_mday (normalise t) = tm_mday t \<and>
    tm_hour (normalise t) = tm_hour t \<and> tm_min (normalise t) = tm_min t \<and> tm_sec (normalise t) = tm_sec t" by auto
  with normalise_fixed [OF assms(2)] assms(1) show ?thesis by (auto simp: is_valid_time_def mktime_def)
qed

section \<open>Printed times\<close>

text \<open>The text with leading zeros, as the format describes it.\<close>

definition digits2 :: "nat \<Rightarrow> string" where
  "digits2 n = [digit_char (n div 10), digit_char (n mod 10)]"

definition time_text :: "nat \<Rightarrow> nat \<Rightarrow> nat \<Rightarrow> nat \<Rightarrow> nat \<Rightarrow> nat \<Rightarrow> string" where
  "time_text y mo d h mi s = digits2 (y div 100) @ digits2 (y mod 100) @ ''-'' @ digits2 mo @ ''-'' @ digits2 d @ '' '' @
     digits2 h @ '':'' @ digits2 mi @ '':'' @ digits2 s"

lemma digit_char_blank [simp]: "n < 10 \<Longrightarrow> digit_char n \<noteq> CHR '' ''"
proof
  assume n: "n < 10" and "digit_char n = CHR '' ''"
  with isdigit_digit_char [OF n] show False by (simp add: isdigit_def)
qed

lemma take_number_0 [simp]: "take_number hi 0 v s = (v, s)"
  by (cases s) simp_all

lemma get_two:
  assumes "a < 10" "b < 10" "lo \<le> int a * 10 + int b" "int a * 10 + int b \<le> hi"
  shows "get_number lo hi 2 (digit_char a # digit_char b # s) = Some (int a * 10 + int b, s)"
proof -
  have "int a * 10 \<le> hi" using assms(4) by simp
  with assms show ?thesis by (simp add: get_number_def)
qed

lemma get_four:
  assumes "a < 10" "b < 10" "c < 10" "d < 10"
  shows "get_number 0 9999 4 (digit_char a # digit_char b # digit_char c # digit_char d # s) =
    Some (((int a * 10 + int b) * 10 + int c) * 10 + int d, s)"
  using assms by (simp add: get_number_def)

lemma get_digits2:
  assumes "n < 100" "lo \<le> int n" "int n \<le> hi"
  shows "get_number lo hi 2 (digits2 n @ s) = Some (int n, s)"
proof -
  have e: "int (n div 10) * 10 + int (n mod 10) = int n" by presburger
  have "n div 10 < 10" "n mod 10 < 10" using assms(1) by auto
  from get_two [OF this, of lo hi s] assms show ?thesis unfolding e digits2_def by simp
qed

lemma get_digits4:
  assumes "y < 10000"
  shows "get_number 0 9999 4 (digits2 (y div 100) @ digits2 (y mod 100) @ s) = Some (int y, s)"
proof -
  have h: "y div 100 < 100" "y mod 100 < 100" using assms by auto
  have e: "int (n div 10) * 10 + int (n mod 10) = int n" for n :: nat by presburger
  have gen: "((a * 10 + b) * 10 + c) * 10 + d = 100 * u + v" if "a * 10 + b = u" "c * 10 + d = v" for a b c d u v :: int
    using that by simp
  have "((int (y div 100 div 10) * 10 + int (y div 100 mod 10)) * 10 + int (y mod 100 div 10)) * 10 + int (y mod 100 mod 10) =
    100 * int (y div 100) + int (y mod 100)" by (rule gen [OF e e])
  also have "\<dots> = int y" by presburger
  finally have s: "((int (y div 100 div 10) * 10 + int (y div 100 mod 10)) * 10 + int (y mod 100 div 10)) * 10 + int (y mod 100 mod 10) = int y" .
  have "y div 100 div 10 < 10" "y div 100 mod 10 < 10" "y mod 100 div 10 < 10" "y mod 100 mod 10 < 10" using h by auto
  from get_four [OF this, of s] show ?thesis unfolding s digits2_def append_Cons append_Nil .
qed

definition tm_of :: "nat \<Rightarrow> nat \<Rightarrow> nat \<Rightarrow> nat \<Rightarrow> nat \<Rightarrow> nat \<Rightarrow> tm" where
  "tm_of y mo d h mi s = \<lparr>tm_year = int y - 1900, tm_mon = int mo - 1, tm_mday = int d, tm_hour = int h, tm_min = int mi, tm_sec = int s\<rparr>"

lemma read_time_text:
  assumes "y < 10000" "1 \<le> mo" "mo \<le> 12" "1 \<le> d" "d \<le> 31" "h \<le> 23" "mi \<le> 59" "s \<le> 61"
  shows "strptime time_format (time_text y mo d h mi s @ rest) zero_tm = Some (tm_of y mo d h mi s, rest)"
proof -
  have dg: "ltrim (digits2 h @ r) = digits2 h @ r" for r
    using isdigit_digit_char [of "h div 10"] assms(6) by (simp add: digits2_def ltrim_def isdigit_not_space)
  show ?thesis using assms
    by (simp add: time_format_def time_text_def conversion_def get_digits4 get_digits2 isspace_def ltrim_def [of "CHR '' '' # r" for r] dg [unfolded ltrim_def]
        zero_tm_def tm_of_def)
qed



end
