(* ===== verification/NodeOps.thy ===== *)
theory NodeOps
  imports HttpApi DataParser Firmware SleClient LogManager NodeTime
begin

text \<open>
  The operations behind the interface table (slal/node/wtsl_core_node_callback.c): nodes, parameters, time, networks,
  update, restart, automatic joining, disconnection, traffic, channel.  An operation gets the node, the
  text at \<open>data\<close> and the context, works on the reply buffer \<open>recv_bss\<close> and the program's state, and
  returns the text it points to or none (NULL).  None as a whole is a memory fault, or the end of the
  child process that installs an update.  The JSON printer is taken to have memory; so the branches on its failure
  have no counterpart.
\<close>

section \<open>State\<close>

text \<open>The parameters and rules, the log, the files it knows, the SLE side, and what the update did.\<close>

record world =
  w_core :: core
  w_log :: log_system
  w_files :: files
  w_sle :: sle_st
  w_fw :: "fw_event list"

text \<open>The outside besides that of the core: the date of the log's name (none: the clock cannot be read), the outcome of
  a renaming, the zone of the clock, whether the files of the upload and of the test's script open, the firmware's surroundings, the report on
  the machine, what uninitialised memory holds, the reports of SLE devices that come in during a scan.\<close>

record node_env =
  ne_core :: core_env
  ne_date :: "string option"
  ne_rename :: "string \<Rightarrow> string \<Rightarrow> bool"
  ne_zone :: int
  ne_upload :: bool
  ne_script :: bool
  ne_fw :: fw_env
  ne_hw :: string
  ne_jhdr :: firmware_header
  ne_jusers :: "int \<times> int \<times> int"
  ne_jaddr :: bytes
  ne_found :: "seek_result list"

type_synonym op_state = "string \<times> world"
type_synonym op_result = "(string option \<times> op_state) option"

definition bss_size :: nat where
  "bss_size = 8192"

definition e_lmax :: "node_env \<Rightarrow> int" where
  "e_lmax e = ce_lmax (e_cfg (ne_core e))"

definition e_json :: "node_env \<Rightarrow> cjson" where
  "e_json e = e_cj (ne_core e)"

definition e_shell :: "node_env \<Rightarrow> shell" where
  "e_shell e = e_sh (ne_core e)"

definition on_core :: "core \<Rightarrow> op_state \<Rightarrow> op_state" where
  "on_core c st = (fst st, (snd st)\<lparr>w_core := c\<rparr>)"

definition core_of :: "op_state \<Rightarrow> core" where
  "core_of st = w_core (snd st)"

definition command :: "node_env \<Rightarrow> string \<Rightarrow> core \<Rightarrow> int \<times> core" where
  "command e c s = radio (sys (e_shell e) c) s"

definition query :: "node_env \<Rightarrow> string \<Rightarrow> core \<Rightarrow> string option \<times> core" where
  "query e c s = radio (pipe (e_shell e) c) s"

section \<open>Replies and requests\<close>

text \<open>A text copied to the buffer with \<open>strncpy\<close> when it fits, the buffer being returned.\<close>

definition reply_in :: "nat \<Rightarrow> string \<Rightarrow> op_state \<Rightarrow> op_result" where
  "reply_in room t st = Some (if room < length t + 1 then (None, st) else (Some t, (t, snd st)))"

definition reply_json :: "node_env \<Rightarrow> json \<Rightarrow> op_state \<Rightarrow> op_result" where
  "reply_json e j st = Some (Some (cj_print (e_json e) j), st)"

text \<open>\<open>cJSON_Parse(data)\<close>; NULL ends the operation without a result.\<close>

definition with_json :: "node_env \<Rightarrow> string \<Rightarrow> op_state \<Rightarrow> (json \<Rightarrow> op_result) \<Rightarrow> op_result" where
  "with_json e data st f = (case cj_parse (e_json e) (c_text data) of None \<Rightarrow> Some (None, st) | Some root \<Rightarrow> f root)"

definition text_member :: "node_env \<Rightarrow> json \<Rightarrow> string \<Rightarrow> string option" where
  "text_member e root key = Option.bind (cj_get (e_json e) root key) valuestring"

section \<open>Nodes\<close>

definition create_node_info_json :: "wnode \<Rightarrow> json" where
  "create_node_info_json n = (let b = basic_info (nd_info n) in JObj [(''id'', JNum (nd_id n)), (''name'', JStr (bi_name b)), (''mac'', JStr (bi_mac b)),
     (''bw'', JNum (bi_bw b)), (''tfc_bw'', JNum (bi_tfc_bw b)), (''type'', JNum (bi_type b)), (''channel'', JNum (bi_channel b)),
     (''rssi'', JNum (bi_rssi b)), (''ip'', JStr (bi_ip b)), (''version'', JStr (bi_version b)), (''net_manage_ip'', JStr (bi_net_manage_ip b)),
     (''log_port'', JNum (bi_log_port b)), (''aj_flag'', JNum (bi_auto_join_net_flag b))])"

definition node_item :: "wnode \<Rightarrow> json" where
  "node_item n = (let b = basic_info (nd_info n) in
     JObj [(''id'', JNum (nd_id n)), (''type'', JNum (bi_type b)), (''name'', JStr (bi_name b)), (''mac'', JStr (bi_mac b))])"

text \<open>The nodes with the ids 0 up to the count, without those that are not there.\<close>

fun node_items :: "nlist option \<Rightarrow> nheap \<Rightarrow> nat \<Rightarrow> nat \<Rightarrow> json list option" where
  "node_items l h i 0 = Some []"
| "node_items l h i (Suc k) = do {
     p \<leftarrow> find_wtsl_node_by_id l (int i) h;
     js \<leftarrow> (case p of None \<Rightarrow> Some [] | Some a \<Rightarrow> map_option (\<lambda>c. [node_item (val c)]) (ncells h a));
     r \<leftarrow> node_items l h (Suc i) k;
     Some (js @ r) }"

definition wtsl_core_get_all_nodes_info :: "node_env \<Rightarrow> op_state callback" where
  "wtsl_core_get_all_nodes_info e n data ctx st = (let (l, h) = c_nodes (core_of st) in case l of
     None \<Rightarrow> Some (None, st)
   | Some nl \<Rightarrow> do {
       items \<leftarrow> node_items l h 0 (nat (node_count nl));
       reply_in bss_size (cj_print (e_json e) (JObj [(''nodes'', JArr items)])) st })"

definition wtsl_core_get_node_basicinfo :: "node_env \<Rightarrow> op_state callback" where
  "wtsl_core_get_node_basicinfo e n data ctx st = reply_in bss_size (cj_print (e_json e) (create_node_info_json n)) st"

definition adv_json :: "wnode \<Rightarrow> adv_info \<Rightarrow> json" where
  "adv_json n a = (let b = basic_info (nd_info n); m = ai_mib_params a in
     JObj ([(''id'', JNum (nd_id n)), (''devid'', JNum (ai_devid a)), (''cell_id'', JNum (ai_cell_id a)), (''cc_spos'', JNum (ai_cc_offset a)),
       (''cp_type'', JNum (mp_cp_type m)), (''symbol_type'', JNum (mp_symbol_type m)), (''sysmsg_period'', JNum (mp_sysmsg_period m)),
       (''s_cfg_idx'', JNum (mp_s_cfg_idx m)), (''sec_exch_cap'', JNum (ai_sec_exch_cap a)), (''sec_sec_cap'', JNum (ai_sec_sec_cap a)),
       (''fem_check'', JStr (ai_fem_check a)), (''chip_temperature'', JNum (ai_chip_temperature a)), (''DHCP_enable'', JNum (bi_dhcp_enable b)),
       (''range_opt'', JNum (ai_range_opt a))] @
      (if bi_type b = 0 then [(''lce_mode'', JNum (ai_lce_mode a)), (''acs_enable'', JNum (bi_aifh_enable b))] else []) @
      [(''pps_switch'', JNum (ai_pps_enable a)),
       (''slb_timestamp'', JObj [(''slb_cnt'', JNum (ai_slb_cnt a)), (''glb_cnt'', JNum (ai_glb_cnt a))]),
       (''wds'', JObj [(''wds_enable'', JNum (ai_wds_enable a)), (''wds_mode'', JNum (ai_wds_mode a))]),
       (''view_mcs'', JObj [(''data'', JArr (map (\<lambda>u. JObj [(''user_idx'', JNum (me_user_idx u)), (''ul_mcs'', JNum (me_ul_mcs u)),
          (''dl_mcs'', JNum (me_dl_mcs u))]) (ai_user_mcs a)))]),
       (''real_power'', JObj [(''real_pow'', JNum (ai_real_pow a)), (''exp_pow'', JNum (ai_exp_pow a))]),
       (''rssi'', JObj [(''data'', JArr (map (\<lambda>u. JObj [(''user_idx'', JNum (ru_user_idx u)), (''rssi'', JNum (ru_rssi u)),
          (''rsrp'', JNum (ru_rsrp u)), (''snr'', JNum (ru_snr u))]) (ai_user_rssi a)))])]))"

text \<open>\<open>sync_advinfo\<close> asks the radio first; the node shown is the one of the list, the advanced parameters are the global ones.\<close>

definition create_node_advinfo_json :: "node_env \<Rightarrow> wnode \<Rightarrow> core \<Rightarrow> json \<times> core" where
  "create_node_advinfo_json e n s =
     (case radio (sync_advinfo (e_shell e) (e_lmax e) (e_boot (ne_core e)) (c_basic s) (c_adv s)) s of ((b, a), s1) \<Rightarrow>
        (let s2 = upd_adv (\<lambda>_. a) (upd_basic (\<lambda>_. b) s1) in (adv_json n (c_adv s2), s2)))"

definition wtsl_core_get_node_advinfo :: "node_env \<Rightarrow> op_state callback" where
  "wtsl_core_get_node_advinfo e n data ctx st = (case create_node_advinfo_json e n (core_of st) of (j, s1) \<Rightarrow>
     reply_in bss_size (cj_print (e_json e) j) (on_core s1 st))"

section \<open>Parameters\<close>

text \<open>The local node's basic parameters copied to the list; not in the list is an error.\<close>

definition sync_list :: "core \<Rightarrow> (int \<times> core) option" where
  "sync_list s = (let (l, h) = c_nodes s in do {
     (r, h1) \<leftarrow> update_wtsl_node_basicinfo l (c_basic s) h;
     Some (r, s\<lparr>c_nodes := (l, h1)\<rparr>) })"

definition sync_reply :: "string \<Rightarrow> op_state \<Rightarrow> op_result" where
  "sync_reply msg st = do { (r, s) \<leftarrow> sync_list (core_of st); Some (if r \<noteq> 0 then None else Some msg, on_core s st) }"

definition wtsl_core_set_node_advinfo :: "node_env \<Rightarrow> op_state callback" where
  "wtsl_core_set_node_advinfo e n data ctx st = do {
     (r, s) \<leftarrow> wtsl_core_parse_json_set_node_advinfo (ne_core e) (c_text data) (core_of st);
     if r \<noteq> 0 then Some (None, on_core s st) else sync_reply ''set_advinfo_success'' (on_core s st) }"

text \<open>The log gets the name of the node and the date.  The stream that is open stays on the file.\<close>

definition rename_log :: "node_env \<Rightarrow> world \<Rightarrow> world" where
  "rename_log e w = (case generate_file_name (ne_date e) (bi_name (c_basic (w_core w))) of
     None \<Rightarrow> w
   | Some f \<Rightarrow> (let p = ls_path (w_log w) in case w_files w p of
       None \<Rightarrow> w
     | Some t \<Rightarrow> if \<not> ne_rename e p f then w
         else w\<lparr>w_files := (w_files w)(p := None, f \<mapsto> t),
                w_log := (w_log w)\<lparr>ls_path := f, ls_open := (if ls_open (w_log w) = Some p then Some f else ls_open (w_log w))\<rparr>\<rparr>))"

definition wtsl_core_set_node_basicinfo :: "node_env \<Rightarrow> op_state callback" where
  "wtsl_core_set_node_basicinfo e n data ctx st = do {
     (r, s) \<leftarrow> wtsl_core_parse_json_setnode (ne_core e) (c_text data) (core_of st);
     let st1 = on_core s st;
     if r \<noteq> 0 then Some (None, st1) else sync_reply ''setnode_success'' (fst st1, rename_log e (snd st1)) }"

section \<open>QoS\<close>

definition wtsl_core_qos_get_status :: "node_env \<Rightarrow> op_state callback" where
  "wtsl_core_qos_get_status e n data ctx st = (let q = c_qos (core_of st) in
     reply_in bss_size (cj_print (e_json e) (JObj [(''enabled'', JBool (q_enabled q)),
       (''snapshot_count'', JNum (int (length (q_rules q)))), (''device'', JStr (q_device q))])) st)"

definition wtsl_core_qos_switch :: "node_env \<Rightarrow> op_state callback" where
  "wtsl_core_qos_switch e n data ctx st = with_json e data st (\<lambda>root.
     (case cj_get_cs (e_json e) root ''enabled'' of
        Some (JBool b) \<Rightarrow> (let s = core_of st in case qos_toggle_switch (e_shell e) b (c_qos s) (c_cmds s) of (r, q, tr) \<Rightarrow>
          Some (if r \<noteq> 0 then None else Some ''qos_switch_success'', on_core (s\<lparr>c_qos := q, c_cmds := tr\<rparr>) st))
      | _ \<Rightarrow> Some (Some ''qos_switch_success'', st)))"

section \<open>Time and restart\<close>

text \<open>The command line is printed into 32 bytes.\<close>

definition date_command :: "string \<Rightarrow> string" where
  "date_command t = ''date -s '' @ [CHR 0x22] @ t @ [CHR 0x22]"

definition wtsl_core_do_time_sync :: "node_env \<Rightarrow> op_state callback" where
  "wtsl_core_do_time_sync e n data ctx st = with_json e data st (\<lambda>root. do {
     t \<leftarrow> text_member e root ''time'';
     if is_valid_time (ne_zone e) t time_format \<noteq> 0 then Some (None, st)
     else if length (date_command t) \<ge> 32 then None
     else (case command e (date_command t) (core_of st) of (r, s) \<Rightarrow>
       (let st1 = on_core s st in
        Some (Some ''set time success'', if r \<noteq> 0 then st1 else (fst st1, rename_log e (snd st1))))) })"

definition or_empty :: "string option \<Rightarrow> string" where
  "or_empty t = (case t of None \<Rightarrow> [] | Some s \<Rightarrow> s)"

text \<open>The three members must be there; texts that are NULL are only handed on.\<close>

definition wtsl_core_do_reboot :: "node_env \<Rightarrow> op_state callback" where
  "wtsl_core_do_reboot e n data ctx st = with_json e data st (\<lambda>root. do {
     user \<leftarrow> cj_get (e_json e) root ''username'';
     time \<leftarrow> cj_get (e_json e) root ''time'';
     token \<leftarrow> cj_get (e_json e) root ''token'';
     t \<leftarrow> valuestring time;
     if is_valid_time (ne_zone e) t time_format \<noteq> 0 then Some (None, st)
     else if check_user_has_permission (or_empty (valuestring user)) (or_empty (valuestring token)) t = 0
     then Some (None, on_core (snd (command e ''reboot'' (core_of st))) st)
     else Some (None, st) })"

section \<open>Networks\<close>

definition wtsl_core_get_node_conninfo :: "node_env \<Rightarrow> op_state callback" where
  "wtsl_core_get_node_conninfo e n data ctx st = (case fst (c_nodes (core_of st)) of
     None \<Rightarrow> Some (None, st)
   | Some nl \<Rightarrow> do {
       (r, t, s) \<leftarrow> wtsl_core_parse_json_view_users (ne_core e) (ne_jusers e) bss_size (core_of st);
       Some (if r \<noteq> 0 then None else Some t, (t, snd (on_core s st))) })"

definition sample_node :: string where
  "sample_node = (let q = [CHR 0x22] in ''{'' @ q @ ''basic_info'' @ q @ '':{'' @ q @ ''id'' @ q @ '':0,'' @ q @ ''name'' @ q @ '':'' @ q @ ''Node1'' @ q @ '','' @
     q @ ''mac'' @ q @ '':'' @ q @ ''01:10:20:30:40:50'' @ q @ ''}}'')"

definition wtsl_core_show_bss :: "node_env \<Rightarrow> op_state callback" where
  "wtsl_core_show_bss e n data ctx st = (if nd_id n = 0 then do {
       (r, t, s) \<leftarrow> wtsl_core_parse_json_tnode_show_bss (ne_core e) bss_size (core_of st);
       Some (if r \<noteq> 0 then None else Some t, (t, snd (on_core s st))) }
     else reply_in bss_size sample_node st)"

text \<open>A scan first switches the automatic joining off and the interface down and up.\<close>

definition wtsl_core_start_scan :: "node_env \<Rightarrow> op_state callback" where
  "wtsl_core_start_scan e n data ctx st = (if nd_id n = 0 then
       (let s = upd_basic (\<lambda>b. b\<lparr>bi_auto_join_net_flag := 0\<rparr>) (core_of st);
            (r1, s1) = radio (slb_ifconfig (e_shell e) (Some net_vap_name) False) s;
            (r2, s2) = radio (slb_ifconfig (e_shell e) (Some net_vap_name) True) s1;
            (r3, s3) = wtsl_core_parse_json_scan (ne_core e) s2
        in do {
          (r, t, s4) \<leftarrow> wtsl_core_parse_json_tnode_show_bss (ne_core e) bss_size s3;
          Some (if r \<noteq> 0 then None else Some t, (t, snd (on_core s4 st))) })
     else reply_in bss_size sample_node st)"

definition wtsl_core_do_connect :: "node_env \<Rightarrow> op_state callback" where
  "wtsl_core_do_connect e n data ctx st = do {
     (r, s) \<leftarrow> wtsl_core_parse_json_tnode_join_net (ne_core e) (c_text data) (core_of st);
     Some (if r \<noteq> 0 then None else Some (let q = [CHR 0x22] in ''{'' @ q @ ''status'' @ q @ '':'' @ q @ ''connected'' @ q @ ''}''), on_core s st) }"

text \<open>The old flag is gone before it is known whether the request has one: without the member it is a fault.\<close>

definition wtsl_core_auto_join_net :: "node_env \<Rightarrow> op_state callback" where
  "wtsl_core_auto_join_net e n data ctx st = with_json e data st (\<lambda>root. do {
     j \<leftarrow> cj_get (e_json e) root ''aj_flag'';
     let s = upd_basic (\<lambda>b. b\<lparr>bi_auto_join_net_flag := valueint j\<rparr>) (core_of st);
     Some (Some ''success'', on_core (save_int (ne_core e) ''AUTO_JOIN_NET'' (valueint j) s) st) })"

text \<open>The first line with a text in brackets decides; the text goes to 8 bytes.\<close>

definition bracket_text :: "int \<Rightarrow> string \<Rightarrow> string option" where
  "bracket_text lmax l = (case sscanf_vals lmax ''%*[^[][%[^]]'' l of SV t # _ \<Rightarrow> Some t | _ \<Rightarrow> None)"

fun first_status :: "int \<Rightarrow> nat \<Rightarrow> string list \<Rightarrow> string option" where
  "first_status lmax n [] = Some []"
| "first_status lmax n (l # ls) = (case bracket_text lmax l of
     Some t \<Rightarrow> if length t < n then Some t else None | None \<Rightarrow> first_status lmax n ls)"

definition wtsl_core_do_disconnect :: "node_env \<Rightarrow> op_state callback" where
  "wtsl_core_do_disconnect e n data ctx st = with_json e data st (\<lambda>root. do {
     mac \<leftarrow> text_field (e_json e) root ''mac'' 18;
     case query e (cbuf 64 (vap_cmd ''cfg'' (''kick_user '' @ mac))) (core_of st) of
       (None, s) \<Rightarrow> None
     | (Some out, s) \<Rightarrow> do {
         status \<leftarrow> first_status (e_lmax e) 8 (fgets_all 127 out);
         reply_json e (JObj [(''status'', JStr (if status = ''SUCC'' then ''success'' else ''failed''))]) (on_core s st) } })"

section \<open>Update and restore\<close>

definition upload_file :: string where
  "upload_file = ''/tmp/upgrade.bin''"

definition wtsl_core_do_upload :: "node_env \<Rightarrow> op_state callback" where
  "wtsl_core_do_upload e n data ctx st = (if \<not> ne_upload e then None else do {
     (t, tr) \<leftarrow> wtsl_core_parse_json_extract_file_header (ne_fw e) (ne_jhdr e) upload_file (w_fw (snd st) @ [Store upload_file data]);
     Some (Some t, (fst st, (snd st)\<lparr>w_fw := tr\<rparr>)) })"

definition wtsl_core_do_upgrade :: "node_env \<Rightarrow> op_state callback" where
  "wtsl_core_do_upgrade e n data ctx st = do {
     (r, tr) \<leftarrow> wtsl_core_firmware_upgrade (ne_fw e) (ne_jhdr e) upload_file (w_fw (snd st));
     (case r of Inl code \<Rightarrow> None | Inr t \<Rightarrow> Some (Some t, (fst st, (snd st)\<lparr>w_fw := tr\<rparr>))) }"

definition wtsl_core_do_restore :: "node_env \<Rightarrow> op_state callback" where
  "wtsl_core_do_restore e n data ctx st = (case command e ''rm /home/wt/env_config'' (core_of st) of (r, s) \<Rightarrow>
     if r \<noteq> 0 then Some (None, on_core s st) else Some (Some ''success'', on_core (snd (command e ''reboot'' s)) st))"

text \<open>The function returns the code 0 as a pointer.\<close>

definition wtsl_core_get_hw_resources_usage :: "node_env \<Rightarrow> op_state callback" where
  "wtsl_core_get_hw_resources_usage e n data ctx st = (if length (ne_hw e) < bss_size then Some (None, (ne_hw e, snd st)) else None)"

section \<open>Traffic and channel\<close>

text \<open>The counters of the lines up to the first with both; the line that is in the buffer at the end.\<close>

fun traffic_lines :: "int \<Rightarrow> string list \<Rightarrow> int \<times> int \<Rightarrow> string \<Rightarrow> int \<times> int \<times> string" where
  "traffic_lines lmax [] c buf = (fst c, snd c, buf)"
| "traffic_lines lmax (l # ls) c buf = (case sscanf_vals lmax ''           RX bytes:%llu %*s %*s  TX bytes:%llu %*s %*s'' l of
     [IV r, IV t] \<Rightarrow> (r, t, l)
   | [IV r] \<Rightarrow> traffic_lines lmax ls (r, snd c) l
   | _ \<Rightarrow> traffic_lines lmax ls c l)"

definition wtsl_core_get_node_traffic :: "node_env \<Rightarrow> op_state callback" where
  "wtsl_core_get_node_traffic e n data ctx st = with_json e data st (\<lambda>root. do {
     iface \<leftarrow> text_field (e_json e) root ''interface'' 64;
     case query e (cbuf 64 (''ifconfig '' @ iface)) (core_of st) of
       (None, s) \<Rightarrow> Some (None, on_core s st)
     | (Some out, s) \<Rightarrow> (let (rx, tx, buf) = traffic_lines (e_lmax e) (fgets_all 127 out) (0, 0) [] in
         case query e ''date +%s'' s of
           (None, s1) \<Rightarrow> Some (None, on_core s1 st)
         | (Some now, s1) \<Rightarrow> (let line = (case fgets_all 127 now of [] \<Rightarrow> buf | l # _ \<Rightarrow> l) in
             reply_json e (JObj [(''id'', JNum 0), (''timestamp'', JNum (atoi (e_lmax e) line mod 2 ^ 64)), (''rx_bytes'', JNum rx), (''tx_bytes'', JNum tx)])
               (on_core s1 st))) })"

text \<open>The value of the request, when there is one, is stored before it is checked.\<close>

definition wtsl_core_do_aifh :: "node_env \<Rightarrow> op_state callback" where
  "wtsl_core_do_aifh e n data ctx st = with_json e data st (\<lambda>root.
     let s = take_int (ne_core e) root ''aifh_sw'' (\<lambda>i. upd_basic (\<lambda>b. b\<lparr>bi_aifh_enable := i\<rparr>)) (core_of st);
         v = bi_aifh_enable (c_basic s)
     in if v \<noteq> 0 \<and> v \<noteq> 1 then Some (None, on_core s st)
        else (case command e (cbuf 64 (vap_cmd ''cfg'' (''set_acs_enable '' @ show_int v))) (save_int (ne_core e) ''AIFH_ENABLE'' v s) of (r, s1) \<Rightarrow>
          Some (if r \<noteq> 0 then None else Some ''success'', on_core s1 st)))"

definition switch_channels :: "int list" where
  "switch_channels = [41, 125, 209, 291, 375, 459, 541, 625, 709, 791, 1375, 1459, 1541, 1625, 1709, 1791, 1875, 1959, 2041, 2125, 2209, 2291,
     2479, 2563, 2645, 2729, 2813]"

definition wtsl_core_do_chswitch :: "node_env \<Rightarrow> op_state callback" where
  "wtsl_core_do_chswitch e n data ctx st = with_json e data st (\<lambda>root.
     let s = take_int (ne_core e) root ''channel'' (\<lambda>i. upd_basic (\<lambda>b. b\<lparr>bi_channel := i\<rparr>)) (core_of st);
         ch = bi_channel (c_basic s)
     in if ch \<notin> set switch_channels then Some (None, on_core s st)
        else (case command e (cbuf 64 (vap_cmd ''cfg'' (''bss_chan_switch '' @ show_int ch))) (save_int (ne_core e) ''CHANNEL'' ch s) of (r, s1) \<Rightarrow>
          Some (if r \<noteq> 0 then None else Some ''success'', on_core s1 st)))"

end
