(* ===== verification/RadioOps.thy ===== *)
theory RadioOps
  imports NodeOps
begin

text \<open>
  The operations that ask or set one driver parameter (slal/node/wtsl_core_node_callback.c): security algorithm, coding
  schemes, their bounds, the preset tests.  The driver answers with its status in brackets,
  which goes to 8 bytes; the first line counts.  A pipe that does not open is read through NULL.
\<close>

section \<open>The driver's answer\<close>

definition first_of :: "string \<Rightarrow> string" where
  "first_of out = (case fgets_all 127 out of [] \<Rightarrow> [] | l # _ \<Rightarrow> l)"

text \<open>The values a format takes from the first line, its first text being the status.\<close>

definition answer :: "node_env \<Rightarrow> string \<Rightarrow> string \<Rightarrow> core \<Rightarrow> (string \<times> sval list \<times> core) option" where
  "answer e cmd fmt s = (case query e cmd s of
     (None, s1) \<Rightarrow> None
   | (Some out, s1) \<Rightarrow> (case sscanf_vals (e_lmax e) fmt (first_of out) of
       SV t # vs \<Rightarrow> if length t < 8 then Some (t, vs, s1) else None
     | vs \<Rightarrow> Some ([], [], s1)))"

definition status_fmt :: string where
  "status_fmt = ''%*[^[][%[^]]''"

definition int_at :: "nat \<Rightarrow> sval list \<Rightarrow> int" where
  "int_at i vs = (if i < length vs then ival (vs ! i) else 0)"

text \<open>A command whose status alone decides.\<close>

definition status_op :: "node_env \<Rightarrow> string \<Rightarrow> op_state \<Rightarrow> op_result" where
  "status_op e cmd st = do {
     (status, vs, s) \<leftarrow> answer e cmd status_fmt (core_of st);
     Some (if status \<noteq> ''SUCC'' then None else Some ''success'', on_core s st) }"

section \<open>Security algorithm\<close>

definition wtsl_core_get_secalg :: "node_env \<Rightarrow> op_state callback" where
  "wtsl_core_get_secalg e n data ctx st = with_json e data st (\<lambda>root. do {
     mac \<leftarrow> text_field (e_json e) root ''user_mac'' 18;
     (status, vs, s) \<leftarrow> answer e (cbuf 64 (vap_cmd ''cfg'' (''get_sec_alg '' @ mac))) ''%*[^[][%[^]]%*[^[][%[^]]'' (core_of st);
     alg \<leftarrow> (case vs of SV a # _ \<Rightarrow> if length a < 20 then Some a else None | _ \<Rightarrow> Some []);
     if status \<noteq> ''SUCC'' then Some (None, on_core s st)
     else reply_json e (JObj [(''algorithm'', JStr alg)]) (on_core s st) })"

section \<open>Coding schemes\<close>

definition three_texts :: "node_env \<Rightarrow> json \<Rightarrow> (string \<times> string \<times> string) option" where
  "three_texts e root = do {
     mac \<leftarrow> text_field (e_json e) root ''user_mac'' 18;
     res \<leftarrow> text_field (e_json e) root ''res_type'' 18;
     dir \<leftarrow> text_field (e_json e) root ''dir'' 18;
     Some (mac, res, dir) }"

definition wtsl_core_set_adaptivemcs :: "node_env \<Rightarrow> op_state callback" where
  "wtsl_core_set_adaptivemcs e n data ctx st = with_json e data st (\<lambda>root. do {
     (mac, res, dir) \<leftarrow> three_texts e root;
     status_op e (cbuf 128 (vap_cmd ''alg'' (''sch_res_type_mcs '' @ mac @ '' '' @ res @ '' '' @ dir @ '' '' @
       show_int (int_field (e_json e) root ''mcs'' 0)))) st })"

definition wtsl_core_do_clearschmcs :: "node_env \<Rightarrow> op_state callback" where
  "wtsl_core_do_clearschmcs e n data ctx st = with_json e data st (\<lambda>root. do {
     mac \<leftarrow> text_field (e_json e) root ''user_mac'' 18;
     status_op e (cbuf 64 (vap_cmd ''alg'' (''clear_sch_mcs '' @ mac))) st })"

definition wtsl_core_get_adaptivemcsinfo :: "node_env \<Rightarrow> op_state callback" where
  "wtsl_core_get_adaptivemcsinfo e n data ctx st = with_json e data st (\<lambda>root. do {
     (mac, res, dir) \<leftarrow> three_texts e root;
     (status, vs, s) \<leftarrow> answer e (cbuf 128 (vap_cmd ''alg'' (''get_sch_res_type_mcs '' @ mac @ '' '' @ res @ '' '' @ dir)))
       ''%*[^[][%[^]]]mcs=%d'' (core_of st);
     if status \<noteq> ''SUCC'' then Some (None, on_core s st)
     else reply_json e (JObj [(''user_mac'', JStr mac), (''res_type'', JStr res), (''dir'', JStr dir), (''mcs'', JNum (int_at 0 vs))]) (on_core s st) })"

definition wtsl_core_get_mcsboundinfo :: "node_env \<Rightarrow> op_state callback" where
  "wtsl_core_get_mcsboundinfo e n data ctx st = with_json e data st (\<lambda>root. do {
     mac \<leftarrow> text_field (e_json e) root ''user_mac'' 18;
     (status, vs, s) \<leftarrow> answer e (cbuf 64 (vap_cmd ''alg'' (''get_mcs_bound '' @ mac))) ''%*[^[][%[^]]]low_bound=%d up_bound=%d'' (core_of st);
     if status \<noteq> ''SUCC'' then Some (None, on_core s st)
     else reply_json e (JObj [(''low_bound'', JNum (int_at 0 vs)), (''up_bound'', JNum (int_at 1 vs))]) (on_core s st) })"

text \<open>The command is cut by its 64 bytes.\<close>

definition wtsl_core_set_mcsbound :: "node_env \<Rightarrow> op_state callback" where
  "wtsl_core_set_mcsbound e n data ctx st = with_json e data st (\<lambda>root. do {
     mac \<leftarrow> text_field (e_json e) root ''user_mac'' 18;
     status_op e (cbuf 64 (vap_cmd ''alg'' (''set_mcs_bound '' @ mac @ '' '' @ show_int (int_field (e_json e) root ''low_bound'' 0) @ '' '' @
       show_int (int_field (e_json e) root ''up_bound'' 0)))) st })"

section \<open>Preset tests\<close>

text \<open>The operations whose reply is a constant once the parser's function and the copy to the list succeed.\<close>

definition preset :: "string \<Rightarrow> (core \<Rightarrow> int \<times> core) \<Rightarrow> op_state \<Rightarrow> op_result" where
  "preset msg f st = (case f (core_of st) of (r, s) \<Rightarrow> if r \<noteq> 0 then Some (None, on_core s st) else sync_reply msg (on_core s st))"

definition wtsl_core_do_shortrange :: "node_env \<Rightarrow> op_state callback" where
  "wtsl_core_do_shortrange e n data ctx st = preset ''do_shortrange_success'' (wtsl_core_parse_json_do_shortrange (ne_core e)) st"

definition wtsl_core_do_remoterange :: "node_env \<Rightarrow> op_state callback" where
  "wtsl_core_do_remoterange e n data ctx st = preset ''do_remoterange_success'' (wtsl_core_parse_json_do_remoterange (ne_core e)) st"

definition wtsl_core_do_lowlatency :: "node_env \<Rightarrow> op_state callback" where
  "wtsl_core_do_lowlatency e n data ctx st = preset ''do_lowlatency_success'' (wtsl_core_parse_json_do_lowlatency (ne_core e)) st"

definition wtsl_core_do_lowpow :: "node_env \<Rightarrow> op_state callback" where
  "wtsl_core_do_lowpow e n data ctx st = preset ''do_lowpow_success'' wtsl_core_parse_json_do_lowpow st"

text \<open>The script that spreads the driver's threads over the processors.\<close>

definition affinity_script :: string where
  "affinity_script = (let q = quoted; a = [CHR 0x27] in concat (map (\<lambda>l. l @ [CHR 0x0A])
     [''#!/bin/sh'', [], ''set_cpu_affinity() {'', ''    thread=$1'', ''    cpu_id=$2'', [],
      ''    pids=$(ps -o '' @ q ''comm,pid'' @ '' | grep -e '' @ q ''^$thread '' @ '' | awk '' @ a @ ''{print $2}'' @ a @ '')'', [],
      ''    if [ '' @ q ''$cpu_id'' @ '' -gt 0 ]; then'', ''        cpu_mask=$((0x1 << cpu_id))'', ''    else'', ''        cpu_mask=$((0xF))'', ''    fi'', [],
      ''    for pid in $pids; do'', ''        taskset -p $cpu_mask $pid >/dev/null 2>&1'', ''    done'', ''}'', [],
      ''set_cpu_affinity '' @ q ''hisi_rxdata'' @ '' 0'', ''set_cpu_affinity '' @ q ''hisi_frw'' @ '' 1'']))"

definition script_path :: string where
  "script_path = ''/tmp/set_cpu_affinity.sh''"

text \<open>When the script's file does not open, the number 1 is returned as a pointer.\<close>

definition wtsl_core_do_throughput :: "node_env \<Rightarrow> op_state callback" where
  "wtsl_core_do_throughput e n data ctx st = (if \<not> ne_script e then None else
     (let st1 = (fst st, (snd st)\<lparr>w_fw := w_fw (snd st) @ [Store script_path affinity_script, Chmod script_path 493]\<rparr>);
          vap = Some net_vap_name;
          s1 = run_all (ne_core e) [script_path, ''sysctl -w net.core.rmem_max=2097152'', ''sysctl -w net.core.wmem_max=2097152'',
                 ''sysctl -w net.core.netdev_max_backlog=4096'', cbuf 128 (vap_cmd ''cfg'' ''rx_thread_switch on''),
                 cbuf 128 (vap_cmd ''alg'' ''set_mcs_bound 00:00:00:00:00:00 6 30'')] (core_of st1);
          (r1, s2) = radio (slb_set_tx_power (e_shell e) vap 250) s1;
          s3 = wide_band (ne_core e) \<lparr>mp_cp_type = 0, mp_symbol_type = 1, mp_sysmsg_period = 1, mp_s_cfg_idx = 2\<rparr> s2;
          (r2, s4) = radio (slb_ifconfig (e_shell e) vap True) s3
      in Some (Some ''success'', on_core s4 st1)))"

end
