(* ===== verification/TraceOps.thy ===== *)
theory TraceOps
  imports RadioOps
begin

text \<open>
  The traces of the driver (\<open>wtsl_core_get_traceinfo\<close> in slal/node/wtsl_core_node_callback.c): six features, each with the rows
  it reads from the driver's output.  A row is a name and so many numbers; the reading goes on to the next row on a
  mismatch, to the next line on a match, and ends with the last row.  The feature is chosen by a prefix.
\<close>

section \<open>Rows\<close>

type_synonym rows = "(string \<times> int list) list"

definition zero_rows :: "nat \<Rightarrow> string list \<Rightarrow> rows" where
  "zero_rows k names = map (\<lambda>n. (n, replicate k 0)) names"

text \<open>The values read replace the first ones of the array.\<close>

definition put_row :: "nat \<Rightarrow> int list \<Rightarrow> rows \<Rightarrow> rows" where
  "put_row i vs rs = rs[i := (fst (rs ! i), vs @ drop (length vs) (snd (rs ! i)))]"

fun decs :: "nat \<Rightarrow> scan_item list" where
  "decs 0 = []"
| "decs (Suc k) = Sp # Dec # decs k"

definition row_fmt :: "nat \<Rightarrow> string \<Rightarrow> scan_item list" where
  "row_fmt k name = map Ch name @ decs k"

definition row_values :: "int \<Rightarrow> nat \<Rightarrow> string \<Rightarrow> string \<Rightarrow> int list" where
  "row_values lmax k name l = map ival (scan lmax (row_fmt k name) l)"

text \<open>One line against the rows from the \<open>i\<close>-th on: what the first match leaves, with its number.\<close>

fun match_rows :: "int \<Rightarrow> nat \<Rightarrow> string \<Rightarrow> nat \<Rightarrow> string list \<Rightarrow> rows \<Rightarrow> rows \<times> nat option" where
  "match_rows lmax k l i [] rs = (rs, None)"
| "match_rows lmax k l i (n # ns) rs = (let vs = row_values lmax k n l; rs1 = put_row i vs rs in
     if length vs = k then (rs1, Some i) else match_rows lmax k l (Suc i) ns rs1)"

text \<open>The same for the rows that are found by their name anywhere in the line.\<close>

fun find_rows :: "int \<Rightarrow> nat \<Rightarrow> string \<Rightarrow> nat \<Rightarrow> string list \<Rightarrow> rows \<Rightarrow> rows \<times> nat option" where
  "find_rows lmax k l i [] rs = (rs, None)"
| "find_rows lmax k l i (n # ns) rs = (if contains l n then (put_row i (row_values lmax k n l) rs, Some i)
     else find_rows lmax k l (Suc i) ns rs)"

text \<open>The lines in turn; a line with a text in brackets is the status, of less than \<open>st\<close> bytes.\<close>

fun trace_lines :: "int \<Rightarrow> nat \<Rightarrow> (string \<Rightarrow> rows \<Rightarrow> rows \<times> nat option) \<Rightarrow> nat \<Rightarrow> string list \<Rightarrow> rows \<Rightarrow> rows option" where
  "trace_lines lmax st f final [] rs = Some rs"
| "trace_lines lmax st f final (l # ls) rs = (case bracket_text lmax l of
     Some t \<Rightarrow> if length t < st then trace_lines lmax st f final ls rs else None
   | None \<Rightarrow> (case f l rs of (rs1, hit) \<Rightarrow> if hit = Some final then Some rs1 else trace_lines lmax st f final ls rs1))"

definition trace_output :: "node_env \<Rightarrow> string \<Rightarrow> string \<Rightarrow> core \<Rightarrow> (string list \<times> core) option" where
  "trace_output e feature mac s = (case query e (cbuf 64 (vap_cmd ''cfg'' (''trace '' @ feature @ '' '' @ mac))) s of
     (None, s1) \<Rightarrow> None | (Some out, s1) \<Rightarrow> Some (fgets_all 127 out, s1))"

definition trace_head :: "core \<Rightarrow> string \<Rightarrow> string \<Rightarrow> (string \<times> json) list" where
  "trace_head s feature mac = [(''role'', JNum (bi_type (c_basic s))), (''feature'', JStr feature), (''user_mac'', JStr mac)]"

definition names_json :: "string list \<Rightarrow> string \<times> json" where
  "names_json ns = (''protocols'', JArr (map JStr ns))"

definition stats_json :: "rows \<Rightarrow> string \<times> json" where
  "stats_json rs = (''stats'', JObj (map (\<lambda>(n, vs). (n, JArr (map JNum vs))) rs))"

section \<open>Features\<close>

definition vip_rows :: "string list" where
  "vip_rows = [''host_tx_h2h'', ''host_tx_h2d'', ''dmac_tx_h2d'', ''dmac_tx_sch_fill_tb'', ''host_rx_d2h'', ''host_rx_defrag_compl'', ''host_rx_deliver'']"

definition delay_rows :: "string list" where
  "delay_rows = [''TX_HMAC_FC_Q'', ''TX_DMAC_LC_Q'', ''RX_HMAC_DEFRAG'', ''RX_HMAC_REORDER'']"

definition drop_rows :: "string list" where
  "drop_rows = [''host_tx_fc_drop'', ''host_tx_retx_drop'', ''host_tx_a2h_drop'', ''dmac_tx_distribute_fail'', ''dmac_rx_parse_mac_hdr'',
     ''dmac_rx_netbuf_alloc_fail'', ''dmac_rx_gsec_fail'', ''dmac_rx_gsec_err'', ''host_rx_defrag_udpate'', ''host_rx_defrag_flush'',
     ''host_rx_reorder_lt_submit'', ''host_rx_reorder_dup'']"

definition access_rows :: "string list" where
  "access_rows = [''host_tx_XrcSetup'', ''dmac_msg34_tx_complete'', ''host_sync_phyid'', ''host_tx_SecCtxReq'', ''host_sync_sec_key'',
     ''host_tx_AssocSetup'', ''host_tx_XrcReconf'', ''host_retx_lce1'', ''dmac_lcl_tx_cnt'', ''host_usp_fail'', ''host_sec_fail'', ''dmac_decrypt_fail'']"

definition wtsl_core_get_traceinfo_vip :: "node_env \<Rightarrow> string \<Rightarrow> string \<Rightarrow> op_state \<Rightarrow> op_result" where
  "wtsl_core_get_traceinfo_vip e mac feature st = do {
     (ls, s) \<leftarrow> trace_output e feature mac (core_of st);
     rs \<leftarrow> trace_lines (e_lmax e) 8 (\<lambda>l. match_rows (e_lmax e) 4 l 0 vip_rows) 6 ls (zero_rows 4 vip_rows);
     reply_json e (JObj (trace_head s feature mac @ [names_json [''DHCP'', ''ARP_REQ'', ''ARP_RSP'', ''ICMP''], stats_json rs])) (on_core s st) }"

definition wtsl_core_get_traceinfo_delay :: "node_env \<Rightarrow> string \<Rightarrow> string \<Rightarrow> op_state \<Rightarrow> op_result" where
  "wtsl_core_get_traceinfo_delay e mac feature st = do {
     (ls, s) \<leftarrow> trace_output e feature mac (core_of st);
     rs \<leftarrow> trace_lines (e_lmax e) 16 (\<lambda>l. match_rows (e_lmax e) 10 l 0 delay_rows) 3 ls (zero_rows 10 delay_rows);
     reply_json e (JObj (trace_head s feature mac @
       [names_json [''skb1'', ''skb2'', ''skb3'', ''skb4'', ''skb5'', ''skb6'', ''skb7'', ''skb8'', ''skb9'', ''skb10''], stats_json rs])) (on_core s st) }"

definition wtsl_core_get_traceinfo_drop :: "node_env \<Rightarrow> string \<Rightarrow> string \<Rightarrow> op_state \<Rightarrow> op_result" where
  "wtsl_core_get_traceinfo_drop e mac feature st = do {
     (ls, s) \<leftarrow> trace_output e feature mac (core_of st);
     rs \<leftarrow> trace_lines (e_lmax e) 8 (\<lambda>l. match_rows (e_lmax e) 4 l 0 drop_rows) 11 ls (zero_rows 4 drop_rows);
     reply_json e (JObj (trace_head s feature mac @ [names_json [''drop_cnt'', ''rough_total'', ''ratio'', ''vip_drop_cnt''], stats_json rs])) (on_core s st) }"

definition wtsl_core_get_traceinfo_user_access :: "node_env \<Rightarrow> string \<Rightarrow> string \<Rightarrow> op_state \<Rightarrow> op_result" where
  "wtsl_core_get_traceinfo_user_access e mac feature st = do {
     (ls, s) \<leftarrow> trace_output e feature mac (core_of st);
     rs \<leftarrow> trace_lines (e_lmax e) 8 (\<lambda>l. find_rows (e_lmax e) 2 l 0 access_rows) 11 ls (zero_rows 2 access_rows);
     reply_json e (JObj (trace_head s feature mac @ [names_json [''fail_0'', ''fail_1''], stats_json rs])) (on_core s st) }"

text \<open>The coding schemes: a line with the period and two rows.  The log prints the period as a text (\<open>%s\<close>), a read from
  the address it is: a period other than 0 is a fault when messages of that level are logged (\<open>logs\<close>).\<close>

definition mcs_rows :: "string list" where
  "mcs_rows = [''first_trans'', ''retrans'']"

fun mcs_lines :: "int \<Rightarrow> bool \<Rightarrow> string list \<Rightarrow> int \<Rightarrow> rows \<Rightarrow> (int \<times> rows) option" where
  "mcs_lines lmax logs [] msec rs = Some (msec, rs)"
| "mcs_lines lmax logs (l # ls) msec rs = (case bracket_text lmax l of
     Some t \<Rightarrow> if length t < 8 then mcs_lines lmax logs ls msec rs else None
   | None \<Rightarrow> (case sscanf_vals lmax ''msec:%d'' l of
       [IV v] \<Rightarrow> if v \<noteq> 0 \<and> logs then None else mcs_lines lmax logs ls v rs
     | _ \<Rightarrow> (case match_rows lmax 6 l 0 mcs_rows rs of (rs1, hit) \<Rightarrow>
         if hit = Some 1 then Some (msec, rs1) else mcs_lines lmax logs ls msec rs1)))"

definition wtsl_core_get_traceinfo_mcs :: "node_env \<Rightarrow> string \<Rightarrow> string \<Rightarrow> op_state \<Rightarrow> op_result" where
  "wtsl_core_get_traceinfo_mcs e mac feature st = do {
     (ls, s) \<leftarrow> trace_output e feature mac (core_of st);
     (msec, rs) \<leftarrow> mcs_lines (e_lmax e) (wtsl_logger_should_log (ls_mode (w_log (snd st))) LOG_LEVEL_INFO) ls 0 (zero_rows 6 mcs_rows);
     reply_json e (JObj (trace_head s feature mac @ [(''msec'', JNum msec),
       names_json [''total'', ''0-9'', ''10-16'', ''17-22'', ''23-27'', ''28-31''], stats_json rs])) (on_core s st) }"

text \<open>The throughput: five texts of 16 bytes.\<close>

definition through_rows :: "string list" where
  "through_rows = [''host_tx_h2h'', ''host_tx_h2d'', ''host_rx_d2h'', ''host_rx_defrag_compl'', ''host_rx_deliver'']"

definition row_text :: "int \<Rightarrow> string \<Rightarrow> string \<Rightarrow> string option" where
  "row_text lmax name l = (case scan lmax (map Ch name @ [Sp, Word True]) l of SV t # _ \<Rightarrow> Some t | _ \<Rightarrow> None)"

fun text_row :: "int \<Rightarrow> string \<Rightarrow> nat \<Rightarrow> string list \<Rightarrow> (nat \<times> string) option" where
  "text_row lmax l i [] = None"
| "text_row lmax l i (n # ns) = (case row_text lmax n l of Some t \<Rightarrow> Some (i, t) | None \<Rightarrow> text_row lmax l (Suc i) ns)"

fun through_lines :: "int \<Rightarrow> string list \<Rightarrow> string list \<Rightarrow> string list option" where
  "through_lines lmax [] ts = Some ts"
| "through_lines lmax (l # ls) ts = (case bracket_text lmax l of
     Some t \<Rightarrow> if length t < 16 then through_lines lmax ls ts else None
   | None \<Rightarrow> (case text_row lmax l 0 through_rows of
       None \<Rightarrow> through_lines lmax ls ts
     | Some (i, t) \<Rightarrow> if length t \<ge> 16 then None
         else if i = 4 then Some (ts[i := t]) else through_lines lmax ls (ts[i := t])))"

definition wtsl_core_get_traceinfo_throughput :: "node_env \<Rightarrow> string \<Rightarrow> string \<Rightarrow> op_state \<Rightarrow> op_result" where
  "wtsl_core_get_traceinfo_throughput e mac feature st = do {
     (ls, s) \<leftarrow> trace_output e feature mac (core_of st);
     ts \<leftarrow> through_lines (e_lmax e) ls (replicate 5 []);
     reply_json e (JObj (trace_head s feature mac @ zip through_rows (map JStr ts))) (on_core s st) }"

section \<open>The operation\<close>

definition wtsl_core_get_traceinfo :: "node_env \<Rightarrow> op_state callback" where
  "wtsl_core_get_traceinfo e n data ctx st = with_json e data st (\<lambda>root. do {
     mac \<leftarrow> text_field (e_json e) root ''user_mac'' 18;
     feature \<leftarrow> text_field (e_json e) root ''feature'' 18;
     if strneq 3 ''vip'' feature then wtsl_core_get_traceinfo_vip e mac feature st
     else if strneq 10 ''throughput'' feature then wtsl_core_get_traceinfo_throughput e mac feature st
     else if strneq 5 ''delay'' feature then wtsl_core_get_traceinfo_delay e mac feature st
     else if strneq 4 ''drop'' feature then wtsl_core_get_traceinfo_drop e mac feature st
     else if strneq 3 ''mcs'' feature then wtsl_core_get_traceinfo_mcs e mac feature st
     else if strneq 11 ''user_access'' feature then wtsl_core_get_traceinfo_user_access e mac feature st
     else Some (None, st) })"

end
