(* ===== verification/SleOps.thy ===== *)
theory SleOps
  imports NodeOps
begin

text \<open>
  The operations on the SLE side (slal/node/wtsl_core_node_callback.c): scan, connect, the links, name and role, the
  links chosen for sending, the ports of the forwarding, the address in the flash.
\<close>

definition on_sle :: "sle_st \<Rightarrow> op_state \<Rightarrow> op_state" where
  "on_sle s st = (fst st, (snd st)\<lparr>w_sle := s\<rparr>)"

definition sle_of :: "op_state \<Rightarrow> sle_st" where
  "sle_of st = w_sle (snd st)"

section \<open>Scan and links\<close>

definition seek_json :: "seek_result \<Rightarrow> json" where
  "seek_json r = JObj [(''rssi'', JNum (sr_rssi r)), (''mac'', JStr (addr_text (sr_addr r)))]"

definition wtsl_core_sle_show_bss :: "node_env \<Rightarrow> op_state callback" where
  "wtsl_core_sle_show_bss e n data ctx st = reply_json e (JArr (map seek_json (sl_seek (sle_of st)))) st"

text \<open>The reports come in during the second the scan lasts.\<close>

fun seek_reports :: "seek_result list \<Rightarrow> sle_st \<Rightarrow> sle_st option" where
  "seek_reports [] s = Some s"
| "seek_reports (r # rs) s = do { s1 \<leftarrow> sle_sample_seek_result_info_cbk (Some r) s; seek_reports rs s1 }"

definition wtsl_core_sle_start_scan :: "node_env \<Rightarrow> op_state callback" where
  "wtsl_core_sle_start_scan e n data ctx st = do {
     s \<leftarrow> seek_reports (ne_found e) (sle_start_scan ((sle_of st)\<lparr>sl_seek := []\<rparr>));
     wtsl_core_sle_show_bss e n data ctx (on_sle (emit [Stop_seek] s) st) }"

definition wtsl_core_sle_connect :: "node_env \<Rightarrow> op_state callback" where
  "wtsl_core_sle_connect e n data ctx st = with_json e data st (\<lambda>root. do {
     mac \<leftarrow> text_field (e_json e) root ''mac'' 18;
     a \<leftarrow> scan_addr (e_lmax e) 2 mac (ne_jaddr e);
     Some (Some ''success'', on_sle (sle_create_connection a (sle_of st)) st) })"

definition wtsl_core_sle_conninfo :: "node_env \<Rightarrow> op_state callback" where
  "wtsl_core_sle_conninfo e n data ctx st = reply_json e (JArr (map (\<lambda>c. JObj [(''mac'', JStr (cm_mac c)), (''conn_id'', JNum (uint (cm_conn_id c)))])
     (filter (\<lambda>c. cm_state c = SLE_ACB_STATE_CONNECTED) (sl_conn (sle_of st))))) st"

section \<open>Name and role\<close>

definition wtsl_core_get_sle_basicinfo :: "node_env \<Rightarrow> op_state callback" where
  "wtsl_core_get_sle_basicinfo e n data ctx st = (let b = c_basic (core_of st) in
     reply_json e (JObj [(''sle_type'', JNum (bi_sle_type b)), (''sle_name'', JStr (bi_sle_name b)), (''mac'', JStr (bi_mac b)),
       (''sle_enable'', JNum (bi_sle_enable b))]) st)"

definition set_sle_name :: "node_env \<Rightarrow> json \<Rightarrow> op_state \<Rightarrow> op_state option" where
  "set_sle_name e root st = (case cj_get (e_json e) root ''sle_name'' of
     None \<Rightarrow> Some st
   | Some j \<Rightarrow> do { t \<leftarrow> copy_text 32 j;
       Some (on_core (save_str (ne_core e) ''SLE_NAME'' t (upd_basic (\<lambda>b. b\<lparr>bi_sle_name := t\<rparr>) (core_of st))) st) })"

definition set_sle_enable :: "node_env \<Rightarrow> json \<Rightarrow> op_state \<Rightarrow> op_state" where
  "set_sle_enable e root st = (case cj_get (e_json e) root ''sle_enable'' of
     None \<Rightarrow> st
   | Some j \<Rightarrow> (let v = valueint j; s = save_int (ne_core e) ''SLE_ENABLE'' v (upd_basic (\<lambda>b. b\<lparr>bi_sle_enable := v\<rparr>) (core_of st))
       in on_sle (emit [if v \<noteq> 0 then Enable else Disable] (sle_of st)) (on_core s st)))"

text \<open>A changed role restarts the device.\<close>

definition set_sle_type :: "node_env \<Rightarrow> json \<Rightarrow> op_state \<Rightarrow> op_state" where
  "set_sle_type e root st = (case cj_get (e_json e) root ''sle_type'' of
     None \<Rightarrow> st
   | Some j \<Rightarrow> (let v = valueint j; old = bi_sle_type (c_basic (core_of st));
         s = upd_basic (\<lambda>b. b\<lparr>bi_sle_type := v\<rparr>) (save_int (ne_core e) ''SLE_TYPE'' v (core_of st))
       in on_core (if old = v then s else snd (command e ''reboot'' s)) st))"

definition wtsl_core_set_sle_basicinfo :: "node_env \<Rightarrow> op_state callback" where
  "wtsl_core_set_sle_basicinfo e n data ctx st = with_json e data st (\<lambda>root. do {
     st1 \<leftarrow> set_sle_name e root st;
     Some (Some ''success'', set_sle_type e root (set_sle_enable e root st1)) })"

section \<open>The chosen links\<close>

text \<open>The ids of the array are stored without a check against its 20 places.\<close>

definition wtsl_core_set_announce_id :: "node_env \<Rightarrow> op_state callback" where
  "wtsl_core_set_announce_id e n data ctx st = with_json e data st (\<lambda>root.
     (case cj_get_cs (e_json e) root ''announce_id'' of
        None \<Rightarrow> Some (Some ''success'', st)
      | Some j \<Rightarrow> (let ids = map valueint (array_items j); s = sle_of st in
          if length ids > length (sl_ids s) then None
          else Some (Some ''success'', on_sle (s\<lparr>sl_ids := ids @ drop (length ids) (sl_ids s), sl_num := int (length ids)\<rparr>) st))))"

section \<open>The address in the flash\<close>

definition env_sed :: "string \<Rightarrow> string" where
  "env_sed mac = (let a = [CHR 0x27] in ''cat /tmp/enva.txt | strings | sed '' @ a @ ''s/^vap0_mac=.*/vap0_mac='' @ mac @ ''/'' @ a @ '' > /tmp/enva_temp.txt'')"

definition wtsl_core_config_vap0_mac :: "node_env \<Rightarrow> op_state callback" where
  "wtsl_core_config_vap0_mac e n data ctx st = with_json e data st (\<lambda>root.
     (case cj_get (e_json e) root ''vap0_mac'' of
        None \<Rightarrow> Some (Some ''success'', st)
      | Some j \<Rightarrow> do {
          mac \<leftarrow> copy_text 18 j;
          let (r0, s0) = command e ''nanddump -n -l 4096 /dev/mtd10 | strings > /tmp/enva.txt'' (core_of st);
          let (r, s1) = command e (''cat /tmp/enva.txt | grep '' @ quoted ''vap0_mac'') s0;
          let s2 = run_all (ne_core e) ((if r = 0 then [cbuf 128 (env_sed mac), ''mv /tmp/enva_temp.txt /tmp/enva.txt'']
               else [cbuf 128 (''echo vap0_mac='' @ mac @ '' >> /tmp/enva.txt'')]) @
               [''flash_erase /dev/mtd10 0 0'', ''nandwrite -p /dev/mtd10 /tmp/enva.txt'']) s1;
          Some (Some ''success'', on_core s2 st) }))"

section \<open>Ports\<close>

definition set_tcp_port :: "node_env \<Rightarrow> json \<Rightarrow> op_state \<Rightarrow> op_state" where
  "set_tcp_port e root st = (case cj_get (e_json e) root ''trans_tcp_port'' of
     None \<Rightarrow> st
   | Some j \<Rightarrow> (let v = valueint j in
       if bi_trans_tcp_port (c_basic (core_of st)) = v then st
       else on_sle (tcp_init v (sle_stop_tcp_server (sle_of st)))
              (on_core (save_int (ne_core e) ''TRANS_TCP_PORT'' v (upd_basic (\<lambda>b. b\<lparr>bi_trans_tcp_port := v\<rparr>) (core_of st))) st)))"

text \<open>Without braces only the assignment depends on the comparison: the UDP server restarts every time.\<close>

definition set_udp_port :: "node_env \<Rightarrow> json \<Rightarrow> op_state \<Rightarrow> op_state" where
  "set_udp_port e root st = (case cj_get (e_json e) root ''trans_udp_port'' of
     None \<Rightarrow> st
   | Some j \<Rightarrow> (let v = valueint j;
         s = (if bi_trans_udp_port (c_basic (core_of st)) \<noteq> v then upd_basic (\<lambda>b. b\<lparr>bi_trans_udp_port := v\<rparr>) (core_of st) else core_of st);
         p = bi_trans_udp_port (c_basic s)
       in on_sle (udp_init p (sle_stop_udp_server (sle_of st))) (on_core (save_int (ne_core e) ''TRANS_UDP_PORT'' p s) st)))"

definition wtsl_core_set_sle_trans_config :: "node_env \<Rightarrow> op_state callback" where
  "wtsl_core_set_sle_trans_config e n data ctx st = with_json e data st (\<lambda>root.
     Some (Some ''success'', set_udp_port e root (set_tcp_port e root st)))"

definition wtsl_core_get_sle_trans_config :: "node_env \<Rightarrow> op_state callback" where
  "wtsl_core_get_sle_trans_config e n data ctx st = (let b = c_basic (core_of st) in
     reply_json e (JObj [(''trans_tcp_port'', JNum (bi_trans_tcp_port b)), (''trans_udp_port'', JNum (bi_trans_udp_port b))]) st)"

end
