(* ===== verification/RuleOps.thy ===== *)
theory RuleOps
  imports NodeOps
begin

text \<open>
  The operations on the rules (slal/node/wtsl_core_node_callback.c): the rules made of all combinations of a request's
  lists, the listing of the firewall and of the traffic shaping, and the requests of the two rule engines, whose reply
  is written over the request.
\<close>

section \<open>Combinations\<close>

text \<open>One rule; \<open>NULL\<close> and empty texts are left out, a range of ports gets a colon.  The command has 2048 bytes,
  which are not checked.\<close>

definition range_port :: "string \<Rightarrow> string" where
  "range_port p = (if CHR ''-'' \<in> set p then takeWhile (\<lambda>c. c \<noteq> CHR ''-'') p @ '':'' @ tl (dropWhile (\<lambda>c. c \<noteq> CHR ''-'') p) else p)"

definition option_text :: "string \<Rightarrow> string \<Rightarrow> string" where
  "option_text w v = (if v = [] then [] else w @ v)"

definition rule_text :: "string \<Rightarrow> string \<Rightarrow> string \<Rightarrow> string \<Rightarrow> string \<Rightarrow> string option \<Rightarrow> string" where
  "rule_text src_ip src_port dst_ip dst_port protocol policy = ''iptables -A FORWARD'' @ option_text '' -s '' src_ip @ option_text '' -p '' protocol @
     option_text '' --sport '' (range_port src_port) @ option_text '' -d '' dst_ip @ option_text '' --dport '' (range_port dst_port) @
     option_text '' -j '' (or_empty policy)"

definition build_iptables_rule ::
    "node_env \<Rightarrow> string \<Rightarrow> string \<Rightarrow> string \<Rightarrow> string \<Rightarrow> string \<Rightarrow> string \<Rightarrow> string \<Rightarrow> string option \<Rightarrow> core \<Rightarrow> core option" where
  "build_iptables_rule e src_ip src_mac src_port dst_ip dst_mac dst_port protocol policy s =
     (let cmd = rule_text src_ip src_port dst_ip dst_port protocol policy
      in if length cmd \<ge> 2048 then None else Some (snd (command e cmd s)))"

text \<open>The texts of an array, each cut to its place, in 16 places; another item leaves its place empty.  An item beyond
  the places is written behind them.\<close>

fun put_fields :: "(json \<Rightarrow> string option) \<Rightarrow> nat \<Rightarrow> json list \<Rightarrow> string list \<Rightarrow> string list option" where
  "put_fields f i [] ts = Some ts"
| "put_fields f i (j # js) ts = (case f j of
     None \<Rightarrow> put_fields f (Suc i) js ts
   | Some t \<Rightarrow> if i < length ts then put_fields f (Suc i) js (ts[i := t]) else None)"

definition text_array :: "nat \<Rightarrow> json option \<Rightarrow> (nat \<times> string list) option" where
  "text_array n arr = (case arr of
     Some (JArr js) \<Rightarrow> map_option (Pair (length js)) (put_fields (\<lambda>j. map_option (take (n - 1)) (valuestring j)) 0 js (replicate 16 []))
   | _ \<Rightarrow> Some (1, replicate 16 []))"

definition number_text :: "json \<Rightarrow> string option" where
  "number_text j = (if is_number j then Some (cbuf 64 (show_int (valueint j))) else None)"

text \<open>The ports: an array of numbers, a range, or one empty place.\<close>

definition port_array :: "cjson \<Rightarrow> json \<Rightarrow> string \<Rightarrow> string \<Rightarrow> (nat \<times> string list) option" where
  "port_array cj root type_key key = (case (cj_get_cs cj root type_key, cj_get_cs cj root key) of
     (Some (JStr ty), Some (JArr js)) \<Rightarrow>
       if ty = ''array'' then map_option (Pair (length js)) (put_fields number_text 0 js (replicate 16 [])) else Some (1, replicate 16 [])
   | (Some (JStr ty), Some (JStr p)) \<Rightarrow>
       Some (1, if ty = ''range'' then (replicate 16 [])[0 := take 63 p] else replicate 16 [])
   | _ \<Rightarrow> Some (1, replicate 16 []))"

text \<open>\<open>for (int i = 0; i < n; i++)\<close> over the places of an array.\<close>

fun for_each :: "string list \<Rightarrow> nat \<Rightarrow> nat \<Rightarrow> (string \<Rightarrow> 's \<Rightarrow> 's option) \<Rightarrow> 's \<Rightarrow> 's option" where
  "for_each ts i 0 f s = Some s"
| "for_each ts i (Suc k) f s = (if i < length ts then do { s1 \<leftarrow> f (ts ! i) s; for_each ts (Suc i) k f s1 } else None)"

definition each :: "nat \<times> string list \<Rightarrow> (string \<Rightarrow> 's \<Rightarrow> 's option) \<Rightarrow> 's \<Rightarrow> 's option" where
  "each a f s = for_each (snd a) 0 (fst a) f s"

definition wtsl_core_acl_rules :: "node_env \<Rightarrow> op_state callback" where
  "wtsl_core_acl_rules e n data ctx st = with_json e data st (\<lambda>root. do {
     let get = cj_get_cs (e_json e) root;
     src_ips \<leftarrow> text_array 64 (get ''src_ip'');
     src_macs \<leftarrow> text_array 32 (get ''src_mac'');
     src_ports \<leftarrow> port_array (e_json e) root ''src_port_type'' ''src_port'';
     dst_ips \<leftarrow> text_array 64 (get ''dst_ip'');
     dst_macs \<leftarrow> text_array 32 (get ''dst_mac'');
     dst_ports \<leftarrow> port_array (e_json e) root ''dst_port_type'' ''dst_port'';
     protos \<leftarrow> text_array 16 (get ''protocol'');
     let policy = Option.bind (get ''policy'') valuestring;
     s \<leftarrow> each src_ips (\<lambda>si. each src_macs (\<lambda>sm. each src_ports (\<lambda>sp. each dst_ips (\<lambda>di. each dst_macs (\<lambda>dm.
            each dst_ports (\<lambda>dp. each protos (\<lambda>pr. build_iptables_rule e si sm sp di dm dp pr policy))))))) (core_of st);
     Some (Some ''success'', on_core s st) })"

section \<open>Listings\<close>

definition chomp :: "string \<Rightarrow> string" where
  "chomp l = takeWhile (\<lambda>c. c \<noteq> CHR 0x0A) l"

definition numbered :: "nat \<Rightarrow> string list \<Rightarrow> (string \<times> json) list" where
  "numbered k ls = map (\<lambda>(i, l). (''line'' @ show_nat i, JStr (chomp l))) (enumerate k ls)"

definition wtsl_core_get_acl_rules :: "node_env \<Rightarrow> op_state callback" where
  "wtsl_core_get_acl_rules e n data ctx st =
     (case query e (''iptables-save -t filter | grep '' @ quoted ''^-A FORWARD'') (core_of st) of
        (None, s) \<Rightarrow> Some (None, on_core s st)
      | (Some out, s) \<Rightarrow> reply_json e (JObj (numbered 1 (fgets_all 255 out))) (on_core s st))"

definition wtsl_core_clear_acl_rules :: "node_env \<Rightarrow> op_state callback" where
  "wtsl_core_clear_acl_rules e n data ctx st = Some (Some ''success'', on_core (snd (command e ''iptables -F'' (core_of st))) st)"

text \<open>The reply is copied whole if it is shorter than 8192, else its first 8191 bytes are.\<close>

definition cut_reply :: "string \<Rightarrow> string" where
  "cut_reply t = (if length t < 8192 then t else take 8191 t)"

text \<open>Over \<open>data\<close>, which has room for \<open>room\<close> bytes.\<close>

definition overwrite :: "nat \<Rightarrow> string \<Rightarrow> string option" where
  "overwrite room t = (if length (cut_reply t) + 1 \<le> room then Some (cut_reply t) else None)"

definition reply_over :: "node_env \<Rightarrow> json \<Rightarrow> op_state \<Rightarrow> op_result" where
  "reply_over e j st = map_option (\<lambda>t. (Some t, (t, snd st))) (overwrite bss_size (cj_print (e_json e) j))"

text \<open>A command's lines; none when the pipe does not open.\<close>

definition listed :: "node_env \<Rightarrow> nat \<Rightarrow> string \<Rightarrow> core \<Rightarrow> string list \<times> core" where
  "listed e width cmd s = (case query e cmd s of (None, s1) \<Rightarrow> ([], s1) | (Some out, s1) \<Rightarrow> (fgets_all width out, s1))"

definition chain_json :: "node_env \<Rightarrow> string \<Rightarrow> core \<Rightarrow> (string \<times> json) \<times> core" where
  "chain_json e ch s = (case listed e 1023 (cbuf 4096 (''iptables -w -S '' @ ch)) s of (ls, s1) \<Rightarrow>
     ((ch, JArr (map (\<lambda>l. JStr (chomp l)) (filter (\<lambda>l. \<not> strneq 2 l ''-P'') ls))), s1))"

definition wtsl_core_acl_get_rules :: "node_env \<Rightarrow> op_state callback" where
  "wtsl_core_acl_get_rules e n data ctx st = (let (i, s1) = chain_json e ''INPUT'' (core_of st); (u, s2) = chain_json e ''OUTPUT'' s1;
       (f, s3) = chain_json e ''FORWARD'' s2
     in reply_over e (JObj [i, u, f]) (on_core s3 st))"

definition table_json :: "node_env \<Rightarrow> string \<Rightarrow> string \<Rightarrow> core \<Rightarrow> (string \<times> json) \<times> core" where
  "table_json e obj key s = (case listed e 511 (cbuf 1024 (''tc -s '' @ obj @ '' show dev '' @ q_device (c_qos s))) s of (ls, s1) \<Rightarrow>
     ((key, JArr (map JStr (filter (\<lambda>l. l \<noteq> []) (map chomp ls)))), s1))"

definition wtsl_core_qos_get_rules :: "node_env \<Rightarrow> op_state callback" where
  "wtsl_core_qos_get_rules e n data ctx st = (let (q, s1) = table_json e ''qdisc'' ''qdiscs'' (core_of st); (c, s2) = table_json e ''class'' ''classes'' s1;
       (f, s3) = table_json e ''filter'' ''filters'' s2
     in reply_over e (JObj [q, c, f, (''device'', JStr (q_device (c_qos s3))), (''success'', JBool True)]) (on_core s3 st))"

section \<open>Requests\<close>

definition wtsl_core_acl_get_status :: "node_env \<Rightarrow> op_state callback" where
  "wtsl_core_acl_get_status e n data ctx st = reply_in bss_size (cj_print (e_json e) (JObj (acl_get_status (c_acl (core_of st)) []))) st"

definition wtsl_core_acl_switch :: "node_env \<Rightarrow> op_state callback" where
  "wtsl_core_acl_switch e n data ctx st = with_json e data st (\<lambda>root.
     Some (Some ''acl_switch_success'', (case cj_get (e_json e) root ''enabled'' of
       Some (JBool b) \<Rightarrow> (let s = core_of st in case acl_toggle_switch (e_shell e) b (c_acl s) (c_cmds s) of (r, a, tr) \<Rightarrow>
         on_core (s\<lparr>c_acl := a, c_cmds := tr\<rparr>) st)
     | _ \<Rightarrow> st)))"

text \<open>A member that is there gives its text, which may be NULL, and comparing that is a fault.\<close>

definition member_or :: "node_env \<Rightarrow> json \<Rightarrow> string \<Rightarrow> string \<Rightarrow> string option" where
  "member_or e root key d = (case cj_get (e_json e) root key of None \<Rightarrow> Some d | Some j \<Rightarrow> valuestring j)"

text \<open>The reply goes over the request's own bytes and the terminator behind them.\<close>

definition wtsl_core_acl_set_rules :: "node_env \<Rightarrow> op_state callback" where
  "wtsl_core_acl_set_rules e n data ctx st = with_json e data st (\<lambda>root. do {
     action \<leftarrow> member_or e root ''action'' ''list'';
     ch \<leftarrow> member_or e root ''chain'' ''FORWARD'';
     let s = core_of st;
     (r, resp, a, tr) \<leftarrow> acl_handle_request (e_shell e) (e_json e) action ch root [] (c_acl s) (c_cmds s);
     t \<leftarrow> overwrite (length data + 1) (cj_print (e_json e) (JObj resp));
     Some (Some t, on_core (s\<lparr>c_acl := a, c_cmds := tr\<rparr>) st) })"

definition wtsl_core_qos_set_rules :: "node_env \<Rightarrow> op_state callback" where
  "wtsl_core_qos_set_rules e n data ctx st = with_json e data st (\<lambda>root. do {
     action \<leftarrow> member_or e root ''action'' ''show'';
     obj_type \<leftarrow> member_or e root ''type'' ''qdisc'';
     let s = core_of st;
     (r, err, q, tr) \<leftarrow> tc_handle_request (e_shell e) (e_json e) action obj_type root 512 (c_qos s) (c_cmds s);
     let resp = (''success'', JBool (r = 0)) #
       (if r \<noteq> 0 then [(''error'', JStr (if err \<noteq> [] then err else ''tc command execution failed''))] else []);
     t \<leftarrow> overwrite (length data + 1) (cj_print (e_json e) (JObj resp));
     Some (Some t, on_core (s\<lparr>c_qos := q, c_cmds := tr\<rparr>) st) })"

end
