(* ===== verification/OpTable.thy ===== *)
theory OpTable
  imports RadioOps TraceOps SleOps RuleOps
begin

text \<open>
  The interface table on the operations themselves: what the X-macro table of slal/node/wtsl_core_node_manager.h puts
  into \<open>g_default_node_interface\<close> for each name, and the REST interface with it.
\<close>

section \<open>The table\<close>

definition op_table :: "node_env \<Rightarrow> (string \<times> op_state callback) list" where
  "op_table e = [
     (''wtsl_core_get_all_nodes_info'', wtsl_core_get_all_nodes_info e),
     (''wtsl_core_get_node_basicinfo'', wtsl_core_get_node_basicinfo e),
     (''wtsl_core_set_node_basicinfo'', wtsl_core_set_node_basicinfo e),
     (''wtsl_core_do_time_sync'', wtsl_core_do_time_sync e),
     (''wtsl_core_get_node_conninfo'', wtsl_core_get_node_conninfo e),
     (''wtsl_core_start_scan'', wtsl_core_start_scan e),
     (''wtsl_core_do_connect'', wtsl_core_do_connect e),
     (''wtsl_core_do_upload'', wtsl_core_do_upload e),
     (''wtsl_core_do_upgrade'', wtsl_core_do_upgrade e),
     (''wtsl_core_do_reboot'', wtsl_core_do_reboot e),
     (''wtsl_core_get_hw_resources_usage'', wtsl_core_get_hw_resources_usage e),
     (''wtsl_core_auto_join_net'', wtsl_core_auto_join_net e),
     (''wtsl_core_show_bss'', wtsl_core_show_bss e),
     (''wtsl_core_get_node_advinfo'', wtsl_core_get_node_advinfo e),
     (''wtsl_core_set_node_advinfo'', wtsl_core_set_node_advinfo e),
     (''wtsl_core_do_disconnect'', wtsl_core_do_disconnect e),
     (''wtsl_core_do_restore'', wtsl_core_do_restore e),
     (''wtsl_core_get_node_traffic'', wtsl_core_get_node_traffic e),
     (''wtsl_core_do_aifh'', wtsl_core_do_aifh e),
     (''wtsl_core_do_chswitch'', wtsl_core_do_chswitch e),
     (''wtsl_core_get_adaptivemcsinfo'', wtsl_core_get_adaptivemcsinfo e),
     (''wtsl_core_get_traceinfo'', wtsl_core_get_traceinfo e),
     (''wtsl_core_get_secalg'', wtsl_core_get_secalg e),
     (''wtsl_core_set_adaptivemcs'', wtsl_core_set_adaptivemcs e),
     (''wtsl_core_do_clearschmcs'', wtsl_core_do_clearschmcs e),
     (''wtsl_core_get_mcsboundinfo'', wtsl_core_get_mcsboundinfo e),
     (''wtsl_core_set_mcsbound'', wtsl_core_set_mcsbound e),
     (''wtsl_core_do_throughput'', wtsl_core_do_throughput e),
     (''wtsl_core_do_shortrange'', wtsl_core_do_shortrange e),
     (''wtsl_core_do_remoterange'', wtsl_core_do_remoterange e),
     (''wtsl_core_sle_start_scan'', wtsl_core_sle_start_scan e),
     (''wtsl_core_sle_show_bss'', wtsl_core_sle_show_bss e),
     (''wtsl_core_sle_connect'', wtsl_core_sle_connect e),
     (''wtsl_core_do_lowpow'', wtsl_core_do_lowpow e),
     (''wtsl_core_get_sle_basicinfo'', wtsl_core_get_sle_basicinfo e),
     (''wtsl_core_sle_conninfo'', wtsl_core_sle_conninfo e),
     (''wtsl_core_set_sle_basicinfo'', wtsl_core_set_sle_basicinfo e),
     (''wtsl_core_do_lowlatency'', wtsl_core_do_lowlatency e),
     (''wtsl_core_set_announce_id'', wtsl_core_set_announce_id e),
     (''wtsl_core_qos_get_status'', wtsl_core_qos_get_status e),
     (''wtsl_core_qos_switch'', wtsl_core_qos_switch e),
     (''wtsl_core_qos_get_rules'', wtsl_core_qos_get_rules e),
     (''wtsl_core_qos_set_rules'', wtsl_core_qos_set_rules e),
     (''wtsl_core_config_vap0_mac'', wtsl_core_config_vap0_mac e),
     (''wtsl_core_set_sle_trans_config'', wtsl_core_set_sle_trans_config e),
     (''wtsl_core_get_sle_trans_config'', wtsl_core_get_sle_trans_config e),
     (''wtsl_core_acl_get_status'', wtsl_core_acl_get_status e),
     (''wtsl_core_acl_switch'', wtsl_core_acl_switch e),
     (''wtsl_core_acl_get_rules'', wtsl_core_acl_get_rules e),
     (''wtsl_core_acl_set_rules'', wtsl_core_acl_set_rules e)]"

definition default_op :: "node_env \<Rightarrow> string \<Rightarrow> op_state callback option" where
  "default_op e name = Option.bind (default_interface name) (map_of (op_table e))"

text \<open>The surroundings of the REST interface whose functions are the program's own.\<close>

definition rest_env :: "node_env \<Rightarrow> 'd user_env \<Rightarrow> int \<times> int \<Rightarrow> string \<Rightarrow> ('d, world) http_env" where
  "rest_env e u unset mac = \<lparr>he_user = u, he_unset = unset, he_mac = mac, he_lmax = e_lmax e,
     he_nodes = (\<lambda>w. c_nodes (w_core w)), he_table = (\<lambda>t name. default_op e name)\<rparr>"

section \<open>Lookup\<close>

lemma op_table_fst: "map fst (op_table e) = map (\<lambda>(n, p, f, i). f) node_func_list"
  by (simp add: op_table_def node_func_list_def)

end
