(* ===== verification/OpProps.thy ===== *)
theory OpProps
  imports OpTable FirmwareProps LogProps SleProps ParserProps
begin

text \<open>
  What a request on a node comes to: from the path through the table to the operation, the effects of the
  operations on the program's state, and a program with its surroundings for the instances.
\<close>

section \<open>Steps\<close>

lemma command_eq: "command e c s = (sh_rc (e_shell e) (c_cmds s) c, s\<lparr>c_cmds := c_cmds s @ [c]\<rparr>)"
  by (simp add: command_def radio_def sys_def run_cmd_def)

lemma query_eq: "query e c s = (if sh_popen (e_shell e) (c_cmds s) c then (Some (sh_out (e_shell e) (c_cmds s) c), s\<lparr>c_cmds := c_cmds s @ [c]\<rparr>)
    else (None, s))"
  by (simp add: query_def radio_def pipe_def)

lemma op_state_simps [simp]: "core_of (on_core c st) = c" "on_core c (on_core d st) = on_core c st" "fst (on_core c st) = fst st"
  "on_core (core_of st) st = st" "sle_of (on_core c st) = sle_of st" "sle_of (on_sle x st) = x" "core_of (on_sle x st) = core_of st"
  "core_of (b, snd st) = core_of st"
  by (simp_all add: on_core_def core_of_def on_sle_def sle_of_def)

lemma rename_core [simp]: "w_core (rename_log e w) = w_core w"
  by (simp add: rename_log_def Let_def split: option.splits)

section \<open>From the path to the operation\<close>

lemma functions_distinct: "distinct (map (\<lambda>(n, p, f, i). f) node_func_list)"
  by code_simp

lemma default_op_in:
  assumes "(name, p, f, i) \<in> set node_func_list" "(f, g) \<in> set (op_table e)"
  shows "default_op e name = Some g"
proof -
  have "map_of (op_table e) f = Some g"
    using assms(2) functions_distinct by (intro map_of_is_SomeI) (simp_all add: op_table_fst)
  with table_entry [OF assms(1)] show ?thesis by (simp add: default_op_def)
qed

text \<open>The node with the number \<open>i\<close> is the local one, its interface table is there, and the calling context may run operations of the
  level \<open>p\<close>.\<close>

definition local_node :: "('d, 'w) http_env \<Rightarrow> ('d, 'w) http_st \<Rightarrow> int \<Rightarrow> wnode \<Rightarrow> bool" where
  "local_node e s i n \<longleftrightarrow> 0 \<le> i \<and> i < 2 ^ 31 \<and> 2 ^ 31 - 1 \<le> he_lmax e \<and> (\<exists>a c t. find_node e i s = Some (Some a) \<and>
     ncells (snd (he_nodes e (hs_world s))) a = Some c \<and> val c = n \<and> nd_interface n = Some t \<and> t \<in> ifaces (snd (he_nodes e (hs_world s)))) \<and>
     nd_perm_map n \<and> strcaseeq (nd_mac n) (he_mac e)"

lemma find_node_eq: "find_node e i s = find_wtsl_node_by_id (fst (he_nodes e (hs_world s))) i (snd (he_nodes e (hs_world s)))"
  by (simp add: find_node_def split_beta Let_def)

lemma call_local:
  assumes "find_node e i s = Some (Some a)" "ncells (snd (he_nodes e (hs_world s))) a = Some c" "nd_interface (val c) = Some t"
    and "t \<in> ifaces (snd (he_nodes e (hs_world s)))" "nd_perm_map (val c)" "strcaseeq (nd_mac (val c)) (he_mac e)"
    and "(name, p, f, j) \<in> set node_func_list" "p \<le> uc_permission (hs_ctx s)" "he_table e t name = Some g"
  shows "call_interface e (Some a) name data s =
    map_option (\<lambda>(r, (b, w)). (r, s\<lparr>hs_buf := b, hs_world := w\<rparr>)) (g (val c) data (hs_ctx s) (hs_buf s, hs_world s))"
proof -
  from table_entry [OF assms(7)] have i: "func_index name = Some j" "pe_required (global_perm_map ! j) = p" by auto
  from func_index_entry [OF i(1)] have "j < length global_perm_map" by (simp add: length_perm_map)
  with assms i show ?thesis
    by (cases "g (val c) data (hs_ctx s) (hs_buf s, hs_world s)")
      (auto simp: call_interface_def Let_def interface_wrapper_def check_permission_le check_is_remote_node_def)
qed

definition post_reply :: "string option \<Rightarrow> apiret" where
  "post_reply d = \<lparr>ar_status = (case d of None \<Rightarrow> -1 | Some t \<Rightarrow> if contains t ''errmsg'' then -1 else 0), ar_data = d\<rparr>"

lemma post_runs:
  assumes "(k, m, name) \<in> set post_routes" "(name, p, f, j) \<in> set node_func_list" "(f, g) \<in> set (op_table e)"
    and "local_node (rest_env e u unset mac) s i n" "p \<le> uc_permission (hs_ctx s)"
  shows "wtcoreapi_parse_http_post_cmd (rest_env e u unset mac) (path [''api'', ''v1'', ''nodes'', show_int i, k]) data s =
    map_option (\<lambda>(d, (b, w)). (post_reply d, s\<lparr>hs_buf := b, hs_world := w\<rparr>)) (g n data (hs_ctx s) (hs_buf s, hs_world s))"
proof -
  let ?e = "rest_env e u unset mac"
  from assms(4) obtain a c t where a: "find_node ?e i s = Some (Some a)" "ncells (snd (he_nodes ?e (hs_world s))) a = Some c" "n = val c"
    "nd_interface (val c) = Some t" "t \<in> ifaces (snd (he_nodes ?e (hs_world s)))" "nd_perm_map (val c)" "strcaseeq (nd_mac (val c)) (he_mac ?e)"
    and i: "0 \<le> i" "i < 2 ^ 31" "2 ^ 31 - 1 \<le> he_lmax ?e" by (auto simp: local_node_def)
  have "he_table ?e t name = Some g" by (simp add: rest_env_def default_op_in [OF assms(2,3)])
  from call_local [OF a(1,2,4-7) assms(2,5) this]
  show ?thesis unfolding a(3) post_operation_reached [OF assms(1) i a(1)]
    by (cases "g (val c) data (hs_ctx s) (hs_buf s, hs_world s)") (auto simp: post_reply_def)
qed

section \<open>What a reader can do\<close>

text \<open>Only what the radio said last and the commands run may be new.\<close>

definition only_asked :: "world \<Rightarrow> world \<Rightarrow> bool" where
  "only_asked w w' \<longleftrightarrow> (\<exists>v a tr. w' = w\<lparr>w_core := upd_basic (\<lambda>b. b\<lparr>bi_aifh_enable := v\<rparr>) ((w_core w)\<lparr>c_adv := a, c_cmds := tr\<rparr>)\<rparr>)"

lemma upd_basic_id: "upd_basic (\<lambda>b. b\<lparr>bi_aifh_enable := bi_aifh_enable (c_basic s)\<rparr>) s = s"
  by (simp add: upd_basic_def c_basic_def)

lemma only_askedI: "s = (w_core w)\<lparr>c_adv := a, c_cmds := tr\<rparr> \<Longrightarrow> only_asked w (w\<lparr>w_core := s\<rparr>)"
  unfolding only_asked_def
  by (rule exI [of _ "bi_aifh_enable (c_basic s)"], rule exI [of _ a], rule exI [of _ tr]) (metis upd_basic_id)

lemma only_asked_refl [simp]: "only_asked w w"
  using only_askedI [where w = w and s = "w_core w" and a = "c_adv (w_core w)" and tr = "c_cmds (w_core w)"] by simp

lemma only_asked_cmds [simp]: "only_asked w (w\<lparr>w_core := (w_core w)\<lparr>c_cmds := tr\<rparr>\<rparr>)"
  by (rule only_askedI [where a = "c_adv (w_core w)" and tr = tr]) simp

definition asks :: "op_state callback \<Rightarrow> bool" where
  "asks g \<longleftrightarrow> (\<forall>n d c st r st'. g n d c st = Some (r, st') \<longrightarrow> only_asked (snd st) (snd st'))"

lemma reply_asks: "only_asked w (snd st) \<Longrightarrow> reply_in room t st = Some (r, st') \<Longrightarrow> only_asked w (snd st')"
  by (auto simp: reply_in_def split: if_splits)

lemma reply_world: "reply_in room t st = Some (r, (b, w)) \<Longrightarrow> w = snd st"
  by (auto simp: reply_in_def split: if_splits)

lemma reply_over_world: "reply_over e j st = Some (r, (b, w)) \<Longrightarrow> w = snd st"
  by (auto simp: reply_over_def)

lemma radio_cmds: "\<exists>tr. snd (radio m s) = s\<lparr>c_cmds := tr\<rparr>"
  by (auto simp: radio_def split: prod.splits)

text \<open>The value a program of the radio interface ends with.\<close>

definition gives :: "('a \<Rightarrow> bool) \<Rightarrow> 'a cmd \<Rightarrow> bool" where
  "gives P m \<longleftrightarrow> (\<forall>s. P (fst (run_state m s)))"

lemma gives_bind: "(\<And>x. gives P (f x)) \<Longrightarrow> gives P (State_Monad.bind m f)"
  by (simp add: gives_def split: prod.splits)

lemma gives_split: "(\<And>x y. gives P (f x y)) \<Longrightarrow> gives P (case p of (x, y) \<Rightarrow> f x y)"
  by (cases p) simp

lemma gives_ret: "P x \<Longrightarrow> gives P (ret x)"
  by (simp add: gives_def)

lemma sync_advinfo_basic: "gives (\<lambda>(b, a'). \<exists>v. b = n\<lparr>bi_aifh_enable := v\<rparr>) (sync_advinfo sh lmax e n a)"
  unfolding sync_advinfo_def Let_def
  by (intro gives_bind gives_split gives_ret) auto

lemma get_node_advinfo_asks: "asks (wtsl_core_get_node_advinfo e)"
  unfolding asks_def
proof (intro allI impI)
  fix n d c r and st st' :: op_state
  assume g: "wtsl_core_get_node_advinfo e n d c st = Some (r, st')"
  let ?s = "core_of st"
  let ?m = "sync_advinfo (e_shell e) (e_lmax e) (e_boot (ne_core e)) (c_basic ?s) (c_adv ?s)"
  obtain b a tr where m: "run_state ?m (c_cmds ?s) = ((b, a), tr)" by (cases "run_state ?m (c_cmds ?s)") auto
  from sync_advinfo_basic [of "c_basic ?s" "e_shell e" "e_lmax e" "e_boot (ne_core e)" "c_adv ?s", unfolded gives_def, rule_format, of "c_cmds ?s"]
  obtain v where b: "b = (c_basic ?s)\<lparr>bi_aifh_enable := v\<rparr>" unfolding m by auto
  have "snd (create_node_advinfo_json e n ?s) = upd_basic (\<lambda>b. b\<lparr>bi_aifh_enable := v\<rparr>) (?s\<lparr>c_adv := a, c_cmds := tr\<rparr>)"
    by (simp add: create_node_advinfo_json_def radio_def m) (simp add: b upd_basic_def upd_adv_def c_basic_def)
  then have "only_asked (snd st) (snd (on_core (snd (create_node_advinfo_json e n ?s)) st))"
    by (auto simp: only_asked_def on_core_def core_of_def)
  with g show "only_asked (snd st) (snd st')"
    by (auto simp: wtsl_core_get_node_advinfo_def split: prod.splits intro: reply_asks)
qed

lemma core_cmds_asked: "only_asked (snd st) (snd (on_core ((core_of st)\<lparr>c_cmds := tr\<rparr>) st))"
    "only_asked w (snd (on_core ((core_of (b, w))\<lparr>c_cmds := tr\<rparr>) (b', w)))"
  by (simp_all add: on_core_def core_of_def)

lemma get_all_nodes_info_asks: "asks (wtsl_core_get_all_nodes_info e)"
  by (auto simp: asks_def wtsl_core_get_all_nodes_info_def Let_def split: option.splits Option.bind_splits prod.splits dest!: reply_world)

lemma get_node_basicinfo_asks: "asks (wtsl_core_get_node_basicinfo e)"
  by (auto simp: asks_def wtsl_core_get_node_basicinfo_def dest!: reply_world)

lemma status_asks: "asks (wtsl_core_qos_get_status e)" "asks (wtsl_core_acl_get_status e)"
  by (auto simp: asks_def wtsl_core_qos_get_status_def wtsl_core_acl_get_status_def Let_def dest!: reply_world)

lemma hw_asks: "asks (wtsl_core_get_hw_resources_usage e)"
  by (auto simp: asks_def wtsl_core_get_hw_resources_usage_def split: if_splits)

lemma conninfo_cmds: "wtsl_core_parse_json_view_users e j m s = Some (r, t, s') \<Longrightarrow> \<exists>tr. s' = s\<lparr>c_cmds := tr\<rparr>"
  using radio_cmds [of "pipe (e_sh e) (cbuf 64 (''iwpriv '' @ net_vap_name @ '' cfg view_users''))" s]
  by (auto simp: wtsl_core_parse_json_view_users_def split: prod.splits option.splits Option.bind_splits)

lemma conninfo_asks: "asks (wtsl_core_get_node_conninfo e)"
  by (auto simp: asks_def wtsl_core_get_node_conninfo_def core_cmds_asked split: option.splits Option.bind_splits dest!: conninfo_cmds)

lemma show_bss_cmds: "wtsl_core_parse_json_tnode_show_bss e m s = Some (r, t, s') \<Longrightarrow> \<exists>tr. s' = s\<lparr>c_cmds := tr\<rparr>"
  using radio_cmds [of "pipe (e_sh e) (cbuf 64 (''iwpriv '' @ net_vap_name @ '' cfg show_bss''))" s]
  by (auto simp: wtsl_core_parse_json_tnode_show_bss_def parse_show_bss_output_def split: prod.splits option.splits Option.bind_splits)

lemma show_bss_asks: "asks (wtsl_core_show_bss e)"
  by (auto simp: asks_def wtsl_core_show_bss_def core_cmds_asked split: if_splits Option.bind_splits dest!: show_bss_cmds reply_world)

lemma listed_cmds: "\<exists>tr. snd (listed e k c s) = s\<lparr>c_cmds := tr\<rparr>"
  using radio_cmds [of "pipe (e_shell e) c" s]
  by (auto simp: listed_def query_def split: prod.splits option.splits)

lemma chain_json_cmds: "\<exists>tr. snd (chain_json e c s) = s\<lparr>c_cmds := tr\<rparr>"
  using listed_cmds by (auto simp: chain_json_def split: prod.splits) (metis snd_conv)

lemma table_json_cmds: "\<exists>tr. snd (table_json e x k s) = s\<lparr>c_cmds := tr\<rparr>"
  using listed_cmds by (auto simp: table_json_def split: prod.splits) (metis snd_conv)

lemma three_cmds:
  assumes "\<And>s. \<exists>tr. snd (f s) = s\<lparr>c_cmds := tr\<rparr>" "\<And>s. \<exists>tr. snd (g s) = s\<lparr>c_cmds := tr\<rparr>" "\<And>s. \<exists>tr. snd (h s) = s\<lparr>c_cmds := tr\<rparr>"
  shows "\<exists>tr. snd (h (snd (g (snd (f s))))) = (s :: core)\<lparr>c_cmds := tr\<rparr>"
proof -
  from assms(1) [of s] obtain a where "snd (f s) = s\<lparr>c_cmds := a\<rparr>" by blast
  moreover from assms(2) [of "s\<lparr>c_cmds := a\<rparr>"] obtain b where "snd (g (s\<lparr>c_cmds := a\<rparr>)) = s\<lparr>c_cmds := b\<rparr>" by auto
  moreover from assms(3) [of "s\<lparr>c_cmds := b\<rparr>"] obtain c where "snd (h (s\<lparr>c_cmds := b\<rparr>)) = s\<lparr>c_cmds := c\<rparr>" by auto
  ultimately show ?thesis by auto
qed

lemma rules_ask: "asks (wtsl_core_acl_get_rules e)" "asks (wtsl_core_qos_get_rules e)"
proof -
  have "only_asked (snd st) (snd (on_core (snd (chain_json e x (snd (chain_json e y (snd (chain_json e z (core_of st))))))) st))" for x y z st
    using three_cmds [where f = "chain_json e z" and g = "chain_json e y" and h = "chain_json e x", OF chain_json_cmds chain_json_cmds chain_json_cmds, of "core_of st"]
    by (auto simp: core_cmds_asked)
  then show "asks (wtsl_core_acl_get_rules e)"
    by (auto simp: asks_def wtsl_core_acl_get_rules_def split_beta Let_def dest!: reply_over_world)
  have "only_asked (snd st) (snd (on_core (snd (table_json e x x' (snd (table_json e y y' (snd (table_json e z z' (core_of st))))))) st))" for x x' y y' z z' st
    using three_cmds [where f = "table_json e z z'" and g = "table_json e y y'" and h = "table_json e x x'", OF table_json_cmds table_json_cmds table_json_cmds, of "core_of st"]
    by (auto simp: core_cmds_asked)
  then show "asks (wtsl_core_qos_get_rules e)"
    by (auto simp: asks_def wtsl_core_qos_get_rules_def split_beta Let_def dest!: reply_over_world)
qed

lemmas reading_asks = get_all_nodes_info_asks get_node_basicinfo_asks status_asks hw_asks conninfo_asks show_bss_asks get_node_advinfo_asks rules_ask

text \<open>The automatic join stores the flag, in memory and in the file.\<close>

definition joined :: "node_env \<Rightarrow> world \<Rightarrow> world \<Rightarrow> bool" where
  "joined e w w' \<longleftrightarrow> (\<exists>v. w' = w\<lparr>w_core := save_int (ne_core e) ''AUTO_JOIN_NET'' v (upd_basic (\<lambda>b. b\<lparr>bi_auto_join_net_flag := v\<rparr>) (w_core w))\<rparr>)"

lemma auto_join_joins: "wtsl_core_auto_join_net e n d c st = Some (r, st') \<Longrightarrow> snd st' = snd st \<or> joined e (snd st) (snd st')"
  by (auto simp: wtsl_core_auto_join_net_def with_json_def joined_def on_core_def core_of_def Let_def split: option.splits Option.bind_splits)

lemma read_entries: "\<forall>(n, p, f, i) \<in> set node_func_list. n \<in> set read_operations \<longrightarrow> f \<in> {''wtsl_core_get_all_nodes_info'', ''wtsl_core_get_node_basicinfo'',
    ''wtsl_core_get_node_conninfo'', ''wtsl_core_get_hw_resources_usage'', ''wtsl_core_auto_join_net'', ''wtsl_core_show_bss'',
    ''wtsl_core_get_node_advinfo'', ''wtsl_core_qos_get_status'', ''wtsl_core_qos_get_rules'', ''wtsl_core_acl_get_status'', ''wtsl_core_acl_get_rules''}"
  by code_simp

lemma op_of_name:
  assumes "default_op e name = Some g"
  obtains p f i where "(name, p, f, i) \<in> set node_func_list" "(f, g) \<in> set (op_table e)"
  using assms by (auto simp: default_op_def default_interface_def bind_eq_Some_conv find_Some_iff dest!: map_of_SomeD) (metis nth_mem)

lemma table_functions_distinct: "distinct (map fst (op_table e))"
  using functions_distinct by (simp add: op_table_fst)

lemma read_op:
  assumes "default_op e name = Some g" "name \<in> set read_operations"
  shows "asks g \<or> g = wtsl_core_auto_join_net e"
proof -
  obtain p f i where f: "(name, p, f, i) \<in> set node_func_list" "(f, g) \<in> set (op_table e)" using op_of_name [OF assms(1)] by blast
  from bspec [OF read_entries f(1)] assms(2) have m: "f \<in> {''wtsl_core_get_all_nodes_info'', ''wtsl_core_get_node_basicinfo'',
    ''wtsl_core_get_node_conninfo'', ''wtsl_core_get_hw_resources_usage'', ''wtsl_core_auto_join_net'', ''wtsl_core_show_bss'',
    ''wtsl_core_get_node_advinfo'', ''wtsl_core_qos_get_status'', ''wtsl_core_qos_get_rules'', ''wtsl_core_acl_get_status'', ''wtsl_core_acl_get_rules''}"
    by simp
  have "map_of (op_table e) f = Some g" using f(2) table_functions_distinct by (rule map_of_is_SomeI [rotated])
  moreover have "\<exists>h. (f, h) \<in> set (op_table e) \<and> (asks h \<or> h = wtsl_core_auto_join_net e)"
    using m by (elim insertE emptyE) (simp_all add: op_table_def reading_asks)
  ultimately show ?thesis using map_of_is_SomeI [OF table_functions_distinct] by (metis option.inject)
qed

text \<open>What any call made with the level of reading comes to.\<close>

definition reader_effect :: "node_env \<Rightarrow> world \<Rightarrow> world \<Rightarrow> bool" where
  "reader_effect e w w' \<longleftrightarrow> only_asked w w' \<or> joined e w w'"

lemma call_reader:
  assumes "uc_permission (hs_ctx s) = PERMISSION_READ" "call_interface (rest_env e u unset mac) p name data s = Some (r, s')"
  shows "reader_effect e (hs_world s) (hs_world s')"
proof (cases "r = None \<and> s' = s")
  case False
  with call_interface_gate [OF assms(2)] read_allowed [OF assms(1)] have name: "name \<in> set read_operations" by blast
  from assms(2) obtain n i b w t where i: "func_index name = Some i" and s': "s' = s\<lparr>hs_buf := b, hs_world := w\<rparr>"
    and c: "interface_wrapper mac (Some n) (default_op e name) i data (Some (hs_ctx s)) (hs_buf s, hs_world s) = Some (r, (b, w))"
    by (auto simp: call_interface_def rest_env_def Let_def split: if_splits Option.bind_splits)
  from func_index_entry [OF i] wrapper_effect [OF c] s' False
  obtain g where "default_op e name = Some g" "g n data (hs_ctx s) (hs_buf s, hs_world s) = Some (r, (b, w))" by auto
  with read_op [OF this(1) name] auto_join_joins [of e n data "hs_ctx s" "(hs_buf s, hs_world s)" r "(b, w)"] s' show ?thesis
    by (fastforce simp: asks_def reader_effect_def)
qed (simp add: reader_effect_def)

lemma get_call_reader:
  "uc_permission (hs_ctx s) = PERMISSION_READ \<Longrightarrow> get_call (rest_env e u unset mac) p name buf s = Some (r, s') \<Longrightarrow>
   reader_effect e (hs_world s) (hs_world s')"
  using call_reader [of s e u unset mac p name "hs_buf s"] by (auto simp: get_call_def split: Option.bind_splits)

lemma reader_effect_refl [simp]: "reader_effect e w w"
  by (simp add: reader_effect_def)

lemma get_rules_reader:
  "uc_permission (hs_ctx s) = PERMISSION_READ \<Longrightarrow> get_rules (rest_env e u unset mac) p way st ru s = Some (r, s') \<Longrightarrow>
   reader_effect e (hs_world s) (hs_world s')"
  by (auto simp: get_rules_def split: if_splits dest: get_call_reader)

lemma get_nodes_reader:
  assumes "uc_permission (hs_ctx s) = PERMISSION_READ" "wtsl_core_get_nodes_functions (rest_env e u unset mac) ts s = Some (r, s')"
  shows "reader_effect e (hs_world s) (hs_world s')"
  using assms(2) unfolding wtsl_core_get_nodes_functions_def
  by (auto split: Option.bind_splits if_splits option.splits dest: get_call_reader [OF assms(1)] get_rules_reader [OF assms(1)])

lemma post_nodes_reader:
  assumes "uc_permission (hs_ctx s) = PERMISSION_READ" "wtsl_core_post_nodes_functions (rest_env e u unset mac) ts d s = Some (r, s')"
  shows "reader_effect e (hs_world s) (hs_world s')"
  using post_nodes_cases [OF assms(2)] by (auto dest: call_reader [OF assms(1)])

lemma post_users_world: "wtsl_core_post_users_functions e url d s = Some (r, s') \<Longrightarrow> hs_world s' = hs_world s"
  by (auto simp: wtsl_core_post_users_functions_def Let_def split_beta split: option.splits Option.bind_splits)

section \<open>A program for the instances\<close>

text \<open>Its one peer is itself, its JSON library knows the request \<open>j\<close>, its shell's programs succeed and print the answer.\<close>

definition demo_shell :: "string \<Rightarrow> shell" where
  "demo_shell out = \<lparr>sh_popen = (\<lambda>_ _. True), sh_rc = (\<lambda>_ _. 0), sh_out = (\<lambda>_ _. out)\<rparr>"

definition demo_printer :: "json \<Rightarrow> string" where
  "demo_printer j = (case j of JObj ((k, JArr js) # r) \<Rightarrow> k @ show_nat (length js) | _ \<Rightarrow> ''{}'')"

definition demo_node_env :: "json \<Rightarrow> string \<Rightarrow> node_env" where
  "demo_node_env j out = \<lparr>ne_core = (demo_core_env (\<lambda>_. Some j))\<lparr>e_sh := demo_shell out, e_cj := (demo_cjson (\<lambda>_. Some j))\<lparr>cj_print := demo_printer\<rparr>\<rparr>, ne_date = None, ne_rename = (\<lambda>_ _. False), ne_zone = 0,
     ne_upload = True, ne_script = True, ne_fw = demo_fw (\<lambda>_. True) 0, ne_hw = [], ne_jhdr = demo_header, ne_jusers = (0, 0, 0),
     ne_jaddr = replicate 6 0, ne_found = []\<rparr>"

definition demo_world :: world where
  "demo_world = \<lparr>w_core = demo_core\<lparr>c_nodes := (Some demo_nlist, demo_nheap)\<rparr>, w_log = demo_log, w_files = Map.empty, w_sle = no_sle, w_fw = []\<rparr>"

definition demo_rest :: "json \<Rightarrow> string \<Rightarrow> (tables, world) http_env" where
  "demo_rest j out = rest_env (demo_node_env j out) (demo_user_env j) (0, 0) ''aa:01''"

definition demo_rest_st :: "permission_level \<Rightarrow> (tables, world) http_st" where
  "demo_rest_st p = \<lparr>hs_ctx = demo_ctx\<lparr>uc_permission := p\<rparr>, hs_user = demo_st, hs_buf = [], hs_world = demo_world\<rparr>"

lemma demo_local: "local_node (demo_rest j out) (demo_rest_st p) 0 (demo_node 0 ''AA:01'' 1)"
  by (auto simp: local_node_def demo_rest_def rest_env_def find_node_def find_wtsl_node_by_id_def search_loop.simps demo_nlist_def demo_nheap_def
      demo_node_def demo_rest_st_def demo_world_def e_lmax_def demo_node_env_def demo_core_env_def demo_env_def nd_mac_def demo_mac)

lemma demo_node_env_simps [simp]: "cj_parse (e_json (demo_node_env j out)) d = Some j" "cj_get (e_json (demo_node_env j out)) = member_by strcaseeq"
  "cj_get_cs (e_json (demo_node_env j out)) = member_by (=)" "ne_zone (demo_node_env j out) = 0" "e_shell (demo_node_env j out) = demo_shell out"
  "e_lmax (demo_node_env j out) = ce_lmax (demo_env None)" "cj_print (e_json (demo_node_env j out)) = demo_printer"
  by (simp_all add: demo_node_env_def e_json_def demo_core_env_def demo_cjson_def e_shell_def e_lmax_def)

lemma demo_rest_st_simps [simp]: "uc_permission (hs_ctx (demo_rest_st p)) = p" "hs_world (demo_rest_st p) = demo_world" "hs_buf (demo_rest_st p) = []"
  by (simp_all add: demo_rest_st_def)

section \<open>Requests\<close>

text \<open>C5. A POST whose path names the local node and an operation runs that operation of the program on the body, the
  context and the state, when the context has the operation's level, and the reply and the state are what it leaves.\<close>

theorem post_runs_operation:
  assumes "(k, m, name) \<in> set post_routes" "(name, p, f, j) \<in> set node_func_list" "(f, g) \<in> set (op_table e)"
    and "local_node (rest_env e u unset mac) s i n" "p \<le> uc_permission (hs_ctx s)"
  shows "wtcoreapi_parse_http_post_cmd (rest_env e u unset mac) (path [''api'', ''v1'', ''nodes'', show_int i, k]) data s =
    map_option (\<lambda>(d, (b, w)). (post_reply d, s\<lparr>hs_buf := b, hs_world := w\<rparr>)) (g n data (hs_ctx s) (hs_buf s, hs_world s))"
  by (rule post_runs [OF assms])

theorem post_runs_operation_witness:
  "wtcoreapi_parse_http_post_cmd (demo_rest JNull []) (path [''api'', ''v1'', ''nodes'', show_int 0, ''restore'']) [] (demo_rest_st PERMISSION_WRITE) =
    Some (\<lparr>ar_status = 0, ar_data = Some ''success''\<rparr>,
      (demo_rest_st PERMISSION_WRITE)\<lparr>hs_world := demo_world\<lparr>w_core := (w_core demo_world)\<lparr>c_cmds := [''rm /home/wt/env_config'', ''reboot'']\<rparr>\<rparr>\<rparr>)"
proof -
  have "\<not> contains ''success'' ''errmsg''" by code_simp
  then show ?thesis
    using post_runs_operation [of "''restore''" None "''do_restore''" PERMISSION_WRITE "''wtsl_core_do_restore''" 16
        "wtsl_core_do_restore (demo_node_env JNull [])" "demo_node_env JNull []", OF _ _ _ demo_local [unfolded demo_rest_def], of PERMISSION_WRITE "[]"]
    by (simp add: post_routes_def node_func_list_def op_table_def demo_rest_def wtsl_core_do_restore_def command_eq post_reply_def
        demo_shell_def on_core_def core_of_def) (simp add: demo_world_def demo_core_def demo_rest_st_def)
qed



section \<open>Time\<close>

lemma time_sync_runs:
  assumes "cj_parse (e_json e) (c_text data) = Some root" "text_member e root ''time'' = Some t" "is_valid_time (ne_zone e) t time_format = 0" "length t \<le> 21"
  shows "\<exists>w. wtsl_core_do_time_sync e n data c st = Some (Some ''set time success'', (fst st, w)) \<and>
    w_core w = (core_of st)\<lparr>c_cmds := c_cmds (core_of st) @ [date_command t]\<rparr>"
  using assms by (auto simp: wtsl_core_do_time_sync_def with_json_def date_command_def command_eq Let_def on_core_def)

text \<open>C6. The text of a time that passes the check goes into the shell's command as it is, from the POST to the shell: quotes and what the
  shell does with them included; a text longer than 21 characters is written past the command's array, and one that does not pass has no effect.\<close>

theorem time_request_runs_text:
  assumes "local_node (rest_env e u unset mac) s i n" "PERMISSION_EXECUTE \<le> uc_permission (hs_ctx s)"
    and "cj_parse (e_json e) (c_text data) = Some root" "text_member e root ''time'' = Some t"
  defines "post \<equiv> wtcoreapi_parse_http_post_cmd (rest_env e u unset mac) (path [''api'', ''v1'', ''nodes'', show_int i, ''timesync'']) data s"
  shows "if is_valid_time (ne_zone e) t time_format \<noteq> 0 then post = Some (\<lparr>ar_status = -1, ar_data = None\<rparr>, s)
    else if 21 < length t then post = None
    else \<exists>w. post = Some (\<lparr>ar_status = 0, ar_data = Some ''set time success''\<rparr>, s\<lparr>hs_world := w\<rparr>) \<and>
      c_cmds (w_core w) = c_cmds (w_core (hs_world s)) @ [''date -s '' @ [CHR 0x22] @ t @ [CHR 0x22]]"
proof -
  have ok: "\<not> contains ''set time success'' ''errmsg''" by code_simp
  have run: "post = map_option (\<lambda>(d, (b, w)). (post_reply d, s\<lparr>hs_buf := b, hs_world := w\<rparr>))
      (wtsl_core_do_time_sync e n data (hs_ctx s) (hs_buf s, hs_world s))"
    unfolding post_def
    by (rule post_runs [where m = None and name = "''do_time_sync''" and f = "''wtsl_core_do_time_sync''" and j = 3, OF _ _ _ assms(1,2)]) (simp_all add: post_routes_def node_func_list_def op_table_def)
  consider "is_valid_time (ne_zone e) t time_format \<noteq> 0" | "is_valid_time (ne_zone e) t time_format = 0" "21 < length t"
    | "is_valid_time (ne_zone e) t time_format = 0" "length t \<le> 21" by linarith
  then show ?thesis
  proof cases
    case 3
    from time_sync_runs [OF assms(3,4) this, of n "hs_ctx s" "(hs_buf s, hs_world s)"] obtain w where
      "wtsl_core_do_time_sync e n data (hs_ctx s) (hs_buf s, hs_world s) = Some (Some ''set time success'', (hs_buf s, w))"
      "w_core w = (w_core (hs_world s))\<lparr>c_cmds := c_cmds (w_core (hs_world s)) @ [date_command t]\<rparr>" by (auto simp: core_of_def)
    then show ?thesis using 3 ok by (auto simp: run post_reply_def date_command_def)
  qed (use assms(3,4) in \<open>simp_all add: run wtsl_core_do_time_sync_def with_json_def post_reply_def date_command_def\<close>)
qed

text \<open>A text of 21 characters that the check takes for a time: the shell runs the restart.\<close>

theorem time_request_runs_text_witness:
  "\<exists>w. wtcoreapi_parse_http_post_cmd (demo_rest (JObj [(''time'', JStr ''2024-1-41:1:1`reboot`'')]) [])
      (path [''api'', ''v1'', ''nodes'', show_int 0, ''timesync'']) [] (demo_rest_st PERMISSION_EXECUTE) =
      Some (\<lparr>ar_status = 0, ar_data = Some ''set time success''\<rparr>, (demo_rest_st PERMISSION_EXECUTE)\<lparr>hs_world := w\<rparr>) \<and>
    c_cmds (w_core w) = [''date -s '' @ [CHR 0x22] @ ''2024-1-41:1:1`reboot`'' @ [CHR 0x22]]"
proof -
  let ?j = "JObj [(''time'', JStr ''2024-1-41:1:1`reboot`'')]"
  have "is_valid_time 0 ''2024-1-41:1:1`reboot`'' time_format = 0" by code_simp
  moreover have "c_cmds (w_core demo_world) = []" by (simp add: demo_world_def demo_core_def)
  ultimately show ?thesis
    using time_request_runs_text [of "demo_node_env ?j []", OF demo_local [unfolded demo_rest_def], of PERMISSION_EXECUTE "[]" ?j "''2024-1-41:1:1`reboot`''"]
    by (simp add: text_member_def strcaseeq_def demo_rest_def)
qed

text \<open>A request to restart never restarts: the check of the token is a function that always refuses.\<close>

lemma reboot_never: "wtsl_core_do_reboot e n d c st = Some (r, st') \<Longrightarrow> r = None \<and> st' = st"
  by (auto simp: wtsl_core_do_reboot_def with_json_def check_user_has_permission_def split: option.splits Option.bind_splits if_splits)

text \<open>No request restarts the device by the operation made for it: the check of the user and the token
  always refuses, so a POST to \<open>reboot\<close> is a fault, or fails and changes nothing, even for an administrator.\<close>

theorem reboot_request_without_effect:
  assumes "local_node (rest_env e u unset mac) s i n" "PERMISSION_ADMIN \<le> uc_permission (hs_ctx s)"
  shows "wtcoreapi_parse_http_post_cmd (rest_env e u unset mac) (path [''api'', ''v1'', ''nodes'', show_int i, ''reboot'']) data s
    \<in> {None, Some (\<lparr>ar_status = -1, ar_data = None\<rparr>, s)}"
proof -
  have "wtcoreapi_parse_http_post_cmd (rest_env e u unset mac) (path [''api'', ''v1'', ''nodes'', show_int i, ''reboot'']) data s =
    map_option (\<lambda>(d, (b, w)). (post_reply d, s\<lparr>hs_buf := b, hs_world := w\<rparr>)) (wtsl_core_do_reboot e n data (hs_ctx s) (hs_buf s, hs_world s))"
    by (rule post_runs [where m = None and name = "''do_reboot''" and f = "''wtsl_core_do_reboot''" and j = 9, OF _ _ _ assms]) (simp_all add: post_routes_def node_func_list_def op_table_def)
  then show ?thesis
    using reboot_never [of e n data "hs_ctx s" "(hs_buf s, hs_world s)"]
    by (cases "wtsl_core_do_reboot e n data (hs_ctx s) (hs_buf s, hs_world s)") (auto simp: post_reply_def)
qed

theorem reboot_request_without_effect_witness:
  "wtcoreapi_parse_http_post_cmd (demo_rest (JObj []) []) (path [''api'', ''v1'', ''nodes'', show_int 0, ''reboot'']) [] (demo_rest_st PERMISSION_ADMIN)
    \<in> {None, Some (\<lparr>ar_status = -1, ar_data = None\<rparr>, demo_rest_st PERMISSION_ADMIN)}"
  using reboot_request_without_effect [of "demo_node_env (JObj []) []", OF demo_local [unfolded demo_rest_def], of PERMISSION_ADMIN "[]"]
  by (simp add: demo_rest_def)

section \<open>The list of nodes\<close>

lemma node_items_from:
  assumes "reg_holds (l, h) ns" "ids_positional ns" "i + k = length ns"
  shows "node_items (Some l) h i k = Some (map node_item (drop i ns))"
  using assms(3)
proof (induction k arbitrary: i)
  case (Suc k)
  then have i: "i < length ns" by simp
  from nl.lookup_position [OF assms(1,2) i] have look: "find_wtsl_node_by_id (Some l) (int i) h = Some (Some (reg_place (l, h) i))"
    by (simp add: reg_lookup_def)
  from nl.fetch_place [OF assms(1) i] obtain c where "ncells h (reg_place (l, h) i) = Some c" "val c = ns ! i" by (auto simp: reg_fetch_def)
  with Suc i show ?case by (simp add: look Cons_nth_drop_Suc [symmetric])
qed simp



end
