(* ===== verification/TraceProps.thy ===== *)
theory TraceProps
  imports OpProps
begin

text \<open>
  Reading the driver's answers back: the rows of the traces, the status in brackets that decides the operations
  of the radio, and a channel that is refused.
\<close>

section \<open>Rows\<close>

text \<open>A row as the driver prints it.\<close>

definition row_line :: "string \<Rightarrow> int list \<Rightarrow> string" where
  "row_line n vs = n @ concat (map (\<lambda>v. CHR '' '' # show_int v) vs) @ [CHR 0x0A]"

lemma render_decs: "render (decs (length vs)) vs = concat (map (\<lambda>v. CHR '' '' # show_int v) vs)"
  by (induction vs) simp_all

lemma render_name: "render (map Ch n @ f) vs = n @ render f vs"
  by (induction n) simp_all

lemma decimals_row: "decimals (row_fmt k n) = k"
proof -
  have "decimals (decs k) = k" by (induction k) simp_all
  then show ?thesis unfolding row_fmt_def by (induction n) simp_all
qed

lemma separated_row: "\<forall>c \<in> set n. \<not> isspace c \<Longrightarrow> separated (row_fmt k n)"
proof -
  have "separated (decs k)"
  proof (induction k)
    case (Suc k)
    then show ?case by (cases k) simp_all
  qed simp
  then show "\<forall>c \<in> set n. \<not> isspace c \<Longrightarrow> separated (row_fmt k n)" unfolding row_fmt_def by (induction n) simp_all
qed

lemma row_values_own:
  assumes "\<forall>c \<in> set n. \<not> isspace c" "\<forall>v \<in> set vs. int32 v" "2 ^ 31 - 1 \<le> lmax"
  shows "row_values lmax (length vs) n (row_line n vs) = vs"
proof -
  have "row_line n vs = render (row_fmt (length vs) n) vs @ [CHR 0x0A]"
    by (simp add: row_line_def row_fmt_def render_name render_decs)
  moreover have "\<not> isdigit (CHR 0x0A)" by (simp add: isdigit_def)
  ultimately show ?thesis
    using scan_render [OF separated_row [OF assms(1)] decimals_row [symmetric] assms(2,3), of "[CHR 0x0A]"]
    by (simp add: row_values_def comp_def)
qed

lemma scan_mismatch: "\<not> prefix m s \<Longrightarrow> scan lmax (map Ch m @ f) s = []"
  by (induction m arbitrary: s) (auto split: list.splits)

lemma row_values_other:
  assumes "\<not> prefix m n" "CHR '' '' \<notin> set m" "CHR 0x0A \<notin> set m"
  shows "row_values lmax k m (row_line n vs) = []"
proof -
  have "\<not> prefix m (n @ c # r)" if "c \<notin> set m" for c r
    using assms(1) that by (auto simp: prefix_append prefix_Cons)
  then have "\<not> prefix m (row_line n vs)"
    using assms(2,3) by (cases vs) (auto simp: row_line_def)
  then show ?thesis by (simp add: row_values_def row_fmt_def scan_mismatch)
qed

lemma match_rows_hit:
  assumes "\<forall>m \<in> set pre. row_values lmax k m l = []" "row_values lmax k n l = vs" "length vs = k" "0 < k"
  shows "match_rows lmax k l i (pre @ n # post) rs = (put_row (i + length pre) vs rs, Some (i + length pre))"
  using assms(1)
proof (induction pre arbitrary: i)
  case Nil
  then show ?case by (simp add: assms Let_def)
next
  case (Cons m pre)
  moreover have "put_row i [] rs = rs" by (simp add: put_row_def)
  ultimately show ?case using assms(4) by (simp add: Let_def)
qed

lemma bracket_none: "CHR ''['' \<notin> set l \<Longrightarrow> bracket_text lmax l = None"
proof -
  have "scan_fmt ''%*[^[][%[^]]'' = [Until False (CHR ''[''), Ch (CHR ''[''), Until True (CHR '']'')]" by code_simp
  note fmt = this
  assume "CHR ''['' \<notin> set l"
  then have tw: "takeWhile (\<lambda>x. x \<noteq> CHR ''['') l = l" by (auto simp: takeWhile_eq_all_conv)
  have "sscanf_vals lmax ''%*[^[][%[^]]'' l = []" unfolding sscanf_vals_def fmt by (simp add: assign_def Let_def tw)
  then show ?thesis by (simp add: bracket_text_def)
qed

text \<open>The names of a feature, none of which begins another, without blanks and brackets.\<close>

definition row_names :: "string list \<Rightarrow> bool" where
  "row_names ns \<longleftrightarrow> distinct ns \<and> (\<forall>m \<in> set ns. \<forall>n \<in> set ns. prefix m n \<longrightarrow> m = n) \<and>
     (\<forall>n \<in> set ns. \<forall>c \<in> set n. \<not> isspace c \<and> c \<noteq> CHR ''['')"

lemma feature_names: "row_names vip_rows" "row_names delay_rows" "row_names drop_rows"
  by code_simp+

lemma row_line_plain:
  assumes "CHR ''['' \<notin> set n"
  shows "CHR ''['' \<notin> set (row_line n vs)"
  using assms show_int_chars [of "CHR ''[''"] by (auto simp: row_line_def isdigit_def)

lemma fgets_rows:
  assumes "\<forall>(n, vs) \<in> set rs. length (row_line n vs) \<le> 127 \<and> CHR 0x0A \<notin> set n"
  shows "fgets_all 127 (concat (map (\<lambda>(n, vs). row_line n vs) rs) @ rest) = map (\<lambda>(n, vs). row_line n vs) rs @ fgets_all 127 rest"
  using assms
proof (induction rs)
  case (Cons r rs)
  obtain n vs where r: "r = (n, vs)" by force
  let ?b = "n @ concat (map (\<lambda>v. CHR '' '' # show_int v) vs)"
  have "CHR 0x0A \<notin> set ?b" using Cons.prems show_int_chars [of "CHR 0x0A"] by (auto simp: r isdigit_def)
  moreover have "length ?b < 127" using Cons.prems by (auto simp: r row_line_def)
  ultimately have "fgets_all 127 (?b @ CHR 0x0A # s) = (?b @ [CHR 0x0A]) # fgets_all 127 s" for s by (rule fgets_all_line)
  from this [of "concat (map (\<lambda>(n, vs). row_line n vs) rs) @ rest"] Cons show ?case by (simp add: r row_line_def)
qed simp

text \<open>The lines of the rows from the \<open>j\<close>-th on, when those before have been read.\<close>

lemma trace_rows:
  assumes "row_names names" "length vss = length names" "\<forall>vs \<in> set vss. length vs = k \<and> (\<forall>v \<in> set vs. int32 v)"
    and "2 ^ 31 - 1 \<le> lmax" "0 < k" "j < length names"
  shows "trace_lines lmax st (\<lambda>l. match_rows lmax k l 0 names) (length names - 1)
      (map (\<lambda>(n, vs). row_line n vs) (drop j (zip names vss)) @ rest)
      (take j (zip names vss) @ drop j (zero_rows k names)) = Some (zip names vss)"
  using assms(6)
proof (induction "length names - j" arbitrary: j)
  case (Suc x)
  let ?Z = "zip names vss" and ?n = "names ! j" and ?vs = "vss ! j"
  let ?l = "row_line ?n ?vs" and ?R = "take j (zip names vss) @ drop j (zero_rows k names)"
  have j: "j < length vss" "?vs \<in> set vss" "?n \<in> set names" using Suc.prems assms(2) by auto
  then have vs: "length ?vs = k" "\<forall>v \<in> set ?vs. int32 v" using assms(3) by auto
  have plain: "\<forall>n \<in> set names. (\<forall>c \<in> set n. \<not> isspace c \<and> c \<noteq> CHR ''['')" using assms(1) by (simp add: row_names_def)
  have "CHR ''['' \<notin> set ?n" using plain j(3) by blast
  then have br: "bracket_text lmax ?l = None" by (intro bracket_none row_line_plain)
  have own: "row_values lmax k ?n ?l = ?vs"
    using row_values_own [of ?n ?vs lmax] plain j(3) vs assms(4) by auto
  have other: "row_values lmax k m ?l = []" if "m \<in> set (take j names)" for m
  proof (rule row_values_other)
    have m: "m \<in> set names" using that by (rule in_set_takeD)
    have "m \<noteq> ?n" using that assms(1) Suc.prems by (auto simp: row_names_def in_set_conv_nth nth_eq_iff_index_eq)
    with assms(1) j(3) m show "\<not> prefix m ?n" by (auto simp: row_names_def)
    have "isspace (CHR 0x0A)" by (simp add: isspace_def)
    with plain m isspace_blank show "CHR '' '' \<notin> set m" "CHR 0x0A \<notin> set m" by blast+
  qed
  have split: "take j names @ ?n # drop (Suc j) names = names" using Suc.prems by (rule id_take_nth_drop [symmetric])
  have put: "put_row j ?vs ?R = take (Suc j) ?Z @ drop (Suc j) (zero_rows k names)"
    using Suc.prems j(1) vs(1) assms(2)
    by (simp add: put_row_def zero_rows_def nth_append list_update_append take_Suc_conv_app_nth Cons_nth_drop_Suc [symmetric] min_def)
  have hit: "match_rows lmax k ?l 0 names ?R = (take (Suc j) ?Z @ drop (Suc j) (zero_rows k names), Some j)"
    using match_rows_hit [of "take j names" lmax k ?l ?n ?vs 0 "drop (Suc j) names" ?R] other own vs(1) assms(5) Suc.prems
    by (simp add: split put)
  have d: "drop j ?Z = (?n, ?vs) # drop (Suc j) ?Z" using Suc.prems j(1) by (simp add: Cons_nth_drop_Suc [symmetric])
  show ?case
  proof (cases "Suc j = length names")
    case True
    then have "drop (Suc j) (zero_rows k names) = []" "length names - 1 = j" by (simp_all add: zero_rows_def)
    then show ?thesis using assms(2) True by (simp add: d br hit)
  next
    case False
    then have "Suc j < length names" using Suc.prems by simp
    then show ?thesis using Suc.hyps(1) [of "Suc j"] Suc.hyps(2) False by (auto simp add: d br hit)
  qed
qed simp

section \<open>The reply\<close>

text \<open>The features whose rows are numbers read in order: their names of columns and rows.\<close>

definition row_features :: "(string \<times> string list \<times> string list) list" where
  "row_features = [(''vip'', [''DHCP'', ''ARP_REQ'', ''ARP_RSP'', ''ICMP''], vip_rows),
     (''delay'', [''skb1'', ''skb2'', ''skb3'', ''skb4'', ''skb5'', ''skb6'', ''skb7'', ''skb8'', ''skb9'', ''skb10''], delay_rows),
     (''drop'', [''drop_cnt'', ''rough_total'', ''ratio'', ''vip_drop_cnt''], drop_rows)]"

lemma trace_rows_all:
  assumes "row_names names" "names \<noteq> []" "length vss = length names" "\<forall>vs \<in> set vss. length vs = k \<and> (\<forall>v \<in> set vs. int32 v)"
    and "2 ^ 31 - 1 \<le> lmax" "0 < k" "\<forall>(n, vs) \<in> set (zip names vss). length (row_line n vs) \<le> 127"
  shows "trace_lines lmax st (\<lambda>l. match_rows lmax k l 0 names) (length names - 1)
      (fgets_all 127 (concat (map (\<lambda>(n, vs). row_line n vs) (zip names vss)) @ rest)) (zero_rows k names) = Some (zip names vss)"
proof -
  have "isspace (CHR 0x0A)" by (simp add: isspace_def)
  then have "CHR 0x0A \<notin> set n" if "n \<in> set names" for n using assms(1) that by (auto simp: row_names_def)
  then have "\<forall>(n, vs) \<in> set (zip names vss). length (row_line n vs) \<le> 127 \<and> CHR 0x0A \<notin> set n"
    using assms(7) by (auto dest: set_zip_leftD)
  from fgets_rows [OF this, of rest] trace_rows [OF assms(1,3,4,5,6), of 0 st "fgets_all 127 rest"] assms(2) show ?thesis by simp
qed

lemma row_counts: "length vip_rows = 7" "length delay_rows = 4" "length drop_rows = 12"
  by (simp_all add: vip_rows_def delay_rows_def drop_rows_def)

lemma row_features_ok: "(f, cols, names) \<in> set row_features \<Longrightarrow> row_names names \<and> names \<noteq> [] \<and> 0 < length cols"
  using row_counts by (auto simp: row_features_def feature_names)

text \<open>C27. A request for a trace of rows replies with what the driver printed: for every feature whose driver output is its
  rows, in order and each in a line of at most 127 characters, whatever follows, the reply has each row's name with its numbers.\<close>

theorem trace_reads_rows:
  assumes "(feature, cols, names) \<in> set row_features" "cj_parse (e_json e) (c_text data) = Some root"
    and "text_field (e_json e) root ''user_mac'' 18 = Some mac" "text_field (e_json e) root ''feature'' 18 = Some feature"
    and "query e (cbuf 64 (vap_cmd ''cfg'' (''trace '' @ feature @ '' '' @ mac))) (core_of st) =
      (Some (concat (map (\<lambda>(n, vs). row_line n vs) (zip names vss)) @ rest), s)"
    and "length vss = length names" "\<forall>vs \<in> set vss. length vs = length cols \<and> (\<forall>v \<in> set vs. int32 v)" "2 ^ 31 - 1 \<le> e_lmax e"
    and "\<forall>(n, vs) \<in> set (zip names vss). length (row_line n vs) \<le> 127"
  shows "wtsl_core_get_traceinfo e n data c st = reply_json e (JObj (trace_head s feature mac @
    [names_json cols, (''stats'', JObj (map (\<lambda>(n, vs). (n, JArr (map JNum vs))) (zip names vss)))])) (on_core s st)"
proof -
  define ls where "ls = fgets_all 127 (concat (map (\<lambda>(n, vs). row_line n vs) (zip names vss)) @ rest)"
  have rows: "trace_lines (e_lmax e) w (\<lambda>l. match_rows (e_lmax e) (length cols) l 0 names) (length names - 1) ls (zero_rows (length cols) names) =
      Some (zip names vss)" for w
    unfolding ls_def by (rule trace_rows_all) (use assms(6-9) row_features_ok [OF assms(1)] in auto)
  have out: "trace_output e feature mac (core_of st) = Some (ls, s)"
    unfolding trace_output_def assms(5) ls_def by simp
  from assms(1) consider "feature = ''vip''" "cols = [''DHCP'', ''ARP_REQ'', ''ARP_RSP'', ''ICMP'']" "names = vip_rows"
    | "feature = ''delay''" "cols = [''skb1'', ''skb2'', ''skb3'', ''skb4'', ''skb5'', ''skb6'', ''skb7'', ''skb8'', ''skb9'', ''skb10'']" "names = delay_rows"
    | "feature = ''drop''" "cols = [''drop_cnt'', ''rough_total'', ''ratio'', ''vip_drop_cnt'']" "names = drop_rows"
    by (auto simp: row_features_def)
  then show ?thesis
  proof cases
    case 1
    then have "length cols = 4" by simp
    from 1 assms(2-4) out rows [of 8, unfolded this 1(3) row_counts] show ?thesis
      by (simp add: wtsl_core_get_traceinfo_def with_json_def strneq_def wtsl_core_get_traceinfo_vip_def stats_json_def row_counts)
  next
    case 2
    then have "length cols = 10" by simp
    from 2 assms(2-4) out rows [of 16, unfolded this 2(3) row_counts] show ?thesis
      by (simp add: wtsl_core_get_traceinfo_def with_json_def strneq_def wtsl_core_get_traceinfo_delay_def stats_json_def row_counts)
  next
    case 3
    then have "length cols = 4" by simp
    from 3 assms(2-4) out rows [of 8, unfolded this 3(3) row_counts] show ?thesis
      by (simp add: wtsl_core_get_traceinfo_def with_json_def strneq_def wtsl_core_get_traceinfo_drop_def stats_json_def row_counts)
  qed
qed

definition demo_delay :: string where
  "demo_delay = concat (map (\<lambda>(n, vs). row_line n vs) (zip delay_rows (replicate 4 (replicate 10 7))))"

definition demo_trace :: json where
  "demo_trace = JObj [(''user_mac'', JStr ''aa:01''), (''feature'', JStr ''delay'')]"

lemma length_row_7: "length (row_line n (replicate k 7)) = length n + 2 * k + 1"
proof -
  have "length (show_int 7) = 1" by code_simp
  then show ?thesis by (simp add: row_line_def length_concat comp_def sum_list_replicate)
qed

lemma delay_zip: "zip delay_rows (replicate 4 x) = map (\<lambda>n. (n, x)) delay_rows"
  using row_counts(2) by (simp add: zip_replicate2)

theorem trace_reads_rows_witness:
  "\<exists>s. wtsl_core_get_traceinfo (demo_node_env demo_trace demo_delay) (demo_node 0 ''AA:01'' 1) [] demo_ctx ([], demo_world) =
    reply_json (demo_node_env demo_trace demo_delay) (JObj (trace_head s ''delay'' ''aa:01'' @
      [names_json [''skb1'', ''skb2'', ''skb3'', ''skb4'', ''skb5'', ''skb6'', ''skb7'', ''skb8'', ''skb9'', ''skb10''],
       (''stats'', JObj (map (\<lambda>n. (n, JArr (replicate 10 (JNum 7)))) delay_rows))])) (on_core s ([], demo_world))"
proof -
  let ?e = "demo_node_env demo_trace demo_delay"
  let ?c = "cbuf 64 (vap_cmd ''cfg'' (''trace '' @ ''delay'' @ '' '' @ ''aa:01''))"
  let ?s = "snd (query ?e ?c (core_of ([], demo_world)))"
  let ?cols = "[''skb1'', ''skb2'', ''skb3'', ''skb4'', ''skb5'', ''skb6'', ''skb7'', ''skb8'', ''skb9'', ''skb10'']"
  have lines: "\<forall>(n, vs) \<in> set (zip delay_rows (replicate 4 (replicate 10 7))). length (row_line n vs) \<le> 127"
    unfolding delay_zip by (simp add: length_row_7) (simp add: delay_rows_def)
  have q: "query ?e ?c (core_of ([], demo_world)) = (Some (concat (map (\<lambda>(n, vs). row_line n vs) (zip delay_rows (replicate 4 (replicate 10 7)))) @ []), ?s)"
    by (simp add: query_eq demo_shell_def demo_delay_def)
  have f: "(''delay'', ?cols, delay_rows) \<in> set row_features" by (simp add: row_features_def)
  have m: "text_field (e_json ?e) demo_trace ''user_mac'' 18 = Some ''aa:01''" "text_field (e_json ?e) demo_trace ''feature'' 18 = Some ''delay''"
    by (simp_all add: text_field_def demo_trace_def copy_text_def strcaseeq_def tolower_def)
  have l: "2 ^ 31 - 1 \<le> e_lmax ?e" by (simp add: e_lmax_def demo_node_env_def demo_core_env_def demo_env_def)
  have "wtsl_core_get_traceinfo ?e (demo_node 0 ''AA:01'' 1) [] demo_ctx ([], demo_world) = reply_json ?e (JObj (trace_head ?s ''delay'' ''aa:01'' @
      [names_json ?cols, (''stats'', JObj (map (\<lambda>(n, vs). (n, JArr (map JNum vs))) (zip delay_rows (replicate 4 (replicate 10 7)))))])) (on_core ?s ([], demo_world))"
    by (rule trace_reads_rows [OF f _ m q _ _ l lines]) (simp_all add: row_counts int32_def)
  then show ?thesis unfolding delay_zip by (intro exI [of _ ?s]) (simp add: comp_def)
qed

section \<open>The status\<close>

lemma take_line_prefix: "CHR 0x0A \<notin> set a \<Longrightarrow> length a \<le> n \<Longrightarrow> \<exists>m. fst (take_line n (a @ s)) = a @ m"
proof (induction a arbitrary: n)
  case (Cons c a)
  then obtain k where n: "n = Suc k" by (cases n) auto
  with Cons obtain m where "fst (take_line k (a @ s)) = a @ m" by fastforce
  with Cons.prems n show ?case by (auto simp: split_beta Let_def)
qed simp

text \<open>An answer whose first line has a status in brackets.\<close>

definition answer_line :: "string \<Rightarrow> string \<Rightarrow> bool" where
  "answer_line status out \<longleftrightarrow> (\<exists>pre more. out = pre @ CHR ''['' # status @ CHR '']'' # more \<and> pre \<noteq> [] \<and> status \<noteq> [] \<and> length status < 8 \<and>
     length pre + length status \<le> 125 \<and> CHR ''['' \<notin> set pre \<and> CHR '']'' \<notin> set status \<and> CHR 0x0A \<notin> set (pre @ status))"

lemma status_read:
  assumes "answer_line status out"
  shows "sscanf_vals lmax status_fmt (first_of out) = [SV status]"
proof -
  from assms obtain pre more where o: "out = pre @ CHR ''['' # status @ CHR '']'' # more" "pre \<noteq> []" "status \<noteq> []"
    "length pre + length status \<le> 125" "CHR ''['' \<notin> set pre" "CHR '']'' \<notin> set status" "CHR 0x0A \<notin> set (pre @ status)"
    by (auto simp: answer_line_def)
  let ?a = "pre @ CHR ''['' # status @ [CHR '']'']"
  from o take_line_prefix [of ?a 127 more] obtain m where m: "fst (take_line 127 out) = ?a @ m" by auto
  moreover have "out \<noteq> []" using o(1) by simp
  ultimately have "fgets_all 127 out = (?a @ m) # fgets_all 127 (snd (take_line 127 out))" by (subst fgets_all.simps) (simp only: if_False simp_thms, simp)
  then have f: "first_of out = ?a @ m" by (simp add: first_of_def)
  have "scan_fmt status_fmt = [Until False (CHR ''[''), Ch (CHR ''[''), Until True (CHR '']'')]" by code_simp
  moreover have "takeWhile (\<lambda>x. x \<noteq> CHR ''['') (?a @ m) = pre" using o(5) by (simp add: takeWhile_append2 [of pre])
      (auto simp: takeWhile_append)
  moreover have "takeWhile (\<lambda>x. x \<noteq> CHR '']'') (status @ CHR '']'' # m) = status" using o(6) by (auto simp: takeWhile_append)
  ultimately show ?thesis unfolding sscanf_vals_def f using o(2,3) by (simp add: assign_def Let_def)
qed

lemma status_op_answer:
  assumes "sh_popen (e_shell e) (c_cmds (core_of st)) cmd" "answer_line status (sh_out (e_shell e) (c_cmds (core_of st)) cmd)"
  shows "status_op e cmd st = Some (if status = ''SUCC'' then Some ''success'' else None, on_core ((core_of st)\<lparr>c_cmds := c_cmds (core_of st) @ [cmd]\<rparr>) st)"
proof -
  have "length status < 8" using assms(2) by (auto simp: answer_line_def)
  then show ?thesis using assms status_read [OF assms(2)] by (simp add: status_op_def answer_def query_eq)
qed

lemma length_show_int_2: "0 \<le> v \<Longrightarrow> v < 100 \<Longrightarrow> length (show_int v) \<le> 2"
  by (simp add: show_int_def show_nat.simps [of "nat v"] show_nat.simps [of "nat v div 10"])


definition demo_bound :: json where
  "demo_bound = JObj [(''user_mac'', JStr ''aa:01''), (''low_bound'', JNum 6), (''up_bound'', JNum 30)]"


end
