(* ===== verification/RuleProps.thy ===== *)
theory RuleProps
  imports OpProps
begin

text \<open>
  What a request makes of the rules: the combinations of its lists, and the reply of the rule engines that is
  written over the request.
\<close>

section \<open>Lists of a request\<close>

text \<open>The texts of an array, cut to their places; one empty text without an array.\<close>

definition item_text :: "nat \<Rightarrow> json \<Rightarrow> string option" where
  "item_text n j = map_option (take (n - 1)) (valuestring j)"

definition listed_texts :: "nat \<Rightarrow> json option \<Rightarrow> string list" where
  "listed_texts n arr = (case arr of Some (JArr js) \<Rightarrow> map (\<lambda>j. or_empty (item_text n j)) js | _ \<Rightarrow> [[]])"

definition listed_ports :: "json option \<Rightarrow> json option \<Rightarrow> string list" where
  "listed_ports ty p = (case (ty, p) of
     (Some (JStr t), Some (JArr js)) \<Rightarrow> if t = ''array'' then map (\<lambda>j. or_empty (number_text j)) js else [[]]
   | (Some (JStr t), Some (JStr s)) \<Rightarrow> if t = ''range'' then [take 63 s] else [[]]
   | _ \<Rightarrow> [[]])"

text \<open>The rules a request asks for: every combination, the last list running fastest.\<close>

definition request_rules :: "(string \<Rightarrow> json option) \<Rightarrow> string list" where
  "request_rules get = [rule_text si sp di dp pr (Option.bind (get ''policy'') valuestring).
     si \<leftarrow> listed_texts 64 (get ''src_ip''), sm \<leftarrow> listed_texts 32 (get ''src_mac''), sp \<leftarrow> listed_ports (get ''src_port_type'') (get ''src_port''),
     di \<leftarrow> listed_texts 64 (get ''dst_ip''), dm \<leftarrow> listed_texts 32 (get ''dst_mac''), dp \<leftarrow> listed_ports (get ''dst_port_type'') (get ''dst_port''),
     pr \<leftarrow> listed_texts 16 (get ''protocol'')]"

definition short_array :: "json option \<Rightarrow> bool" where
  "short_array a \<longleftrightarrow> (case a of Some (JArr js) \<Rightarrow> length js \<le> 16 | _ \<Rightarrow> True)"

definition rule_keys :: "string list" where
  "rule_keys = [''src_ip'', ''src_mac'', ''src_port'', ''dst_ip'', ''dst_mac'', ''dst_port'', ''protocol'']"

section \<open>Arrays\<close>

lemma put_fields_short:
  assumes "i + length js \<le> length ts" "\<forall>k. i \<le> k \<and> k < length ts \<longrightarrow> ts ! k = []"
  shows "\<exists>r. put_fields f i js ts = Some r \<and> take (i + length js) r = take i ts @ map (\<lambda>j. or_empty (f j)) js \<and> length r = length ts"
  using assms
proof (induction js arbitrary: i ts)
  case (Cons j js)
  let ?ts = "ts[i := or_empty (f j)]"
  have i: "i < length ts" using Cons.prems(1) by simp
  then have same: "ts[i := []] = ts" using Cons.prems(2) by (metis list_update_id order_refl)
  from i have step: "put_fields f i (j # js) ts = put_fields f (Suc i) js ?ts"
    using same by (cases "f j") (auto simp: or_empty_def)
  from Cons.IH [of "Suc i" ?ts] Cons.prems obtain r where "put_fields f (Suc i) js ?ts = Some r"
    "take (Suc i + length js) r = take (Suc i) ?ts @ map (\<lambda>j. or_empty (f j)) js" "length r = length ts" by auto
  moreover have "take (Suc i) ?ts = take i ts @ [or_empty (f j)]" using i by (simp add: take_Suc_conv_app_nth)
  ultimately show ?case using step by auto
qed simp

lemma put_fields_16:
  assumes "length js \<le> 16"
  shows "\<exists>r. put_fields f 0 js (replicate 16 []) = Some r \<and> take (length js) r = map (\<lambda>j. or_empty (f j)) js \<and> length r = 16"
  using put_fields_short [of 0 js "replicate 16 []" f] assms by auto

definition stands_for :: "(nat \<times> string list) option \<Rightarrow> string list \<Rightarrow> bool" where
  "stands_for a ts \<longleftrightarrow> (\<exists>k r. a = Some (k, r) \<and> k \<le> length r \<and> take k r = ts)"

lemma text_array_listed: "short_array a \<Longrightarrow> stands_for (text_array n a) (listed_texts n a)"
proof -
  assume a: "short_array a"
  show ?thesis
  proof (cases "\<exists>js. a = Some (JArr js)")
    case True
    then obtain js where js: "a = Some (JArr js)" by blast
    with a have "length js \<le> 16" by (simp add: short_array_def)
    from put_fields_16 [OF this, of "item_text n"] obtain r where "put_fields (item_text n) 0 js (replicate 16 []) = Some r"
      "take (length js) r = map (\<lambda>j. or_empty (item_text n j)) js" "length r = 16" by blast
    with \<open>length js \<le> 16\<close> show ?thesis unfolding stands_for_def
      by (intro exI [of _ "length js"] exI [of _ r]) (simp add: js text_array_def listed_texts_def item_text_def [abs_def])
  next
    case False
    then show ?thesis
      by (cases a) (auto simp: stands_for_def text_array_def listed_texts_def split: json.splits)
  qed
qed

lemma port_array_listed: "short_array (cj_get_cs cj root pk) \<Longrightarrow>
    stands_for (port_array cj root tk pk) (listed_ports (cj_get_cs cj root tk) (cj_get_cs cj root pk))"
proof -
  assume a: "short_array (cj_get_cs cj root pk)"
  show ?thesis
  proof (cases "\<exists>js. cj_get_cs cj root pk = Some (JArr js) \<and> cj_get_cs cj root tk = Some (JStr ''array'')")
    case True
    then obtain js where js: "cj_get_cs cj root pk = Some (JArr js)" "cj_get_cs cj root tk = Some (JStr ''array'')" by blast
    with a have "length js \<le> 16" by (simp add: short_array_def)
    from put_fields_16 [OF this, of number_text] obtain r where "put_fields number_text 0 js (replicate 16 []) = Some r"
      "take (length js) r = map (\<lambda>j. or_empty (number_text j)) js" "length r = 16" by blast
    with \<open>length js \<le> 16\<close> show ?thesis unfolding stands_for_def
      by (intro exI [of _ "length js"] exI [of _ r]) (simp add: js port_array_def listed_ports_def)
  next
    case False
    then show ?thesis
      by (auto simp: stands_for_def port_array_def listed_ports_def numeral_eq_Suc split: option.splits json.splits)
  qed
qed

section \<open>Loops\<close>

text \<open>A step that runs commands, and its repetition over a list.\<close>

definition runs :: "(core \<Rightarrow> core option) \<Rightarrow> string list \<Rightarrow> bool" where
  "runs f cs \<longleftrightarrow> (\<forall>s. f s = Some (s\<lparr>c_cmds := c_cmds s @ cs\<rparr>))"

lemma for_each_runs:
  assumes "i + k \<le> length ts" "\<forall>x \<in> set (take k (drop i ts)). runs (f x) (g x)"
  shows "runs (for_each ts i k f) (concat (map g (take k (drop i ts))))"
  using assms
proof (induction k arbitrary: i)
  case 0
  then show ?case by (simp add: runs_def)
next
  case (Suc k)
  then have d: "drop i ts = ts ! i # drop (Suc i) ts" by (simp add: Cons_nth_drop_Suc)
  with Suc.prems have "runs (f (ts ! i)) (g (ts ! i))" by simp
  moreover from Suc d have "runs (for_each ts (Suc i) k f) (concat (map g (take k (drop (Suc i) ts))))" by simp
  ultimately show ?case using Suc.prems(1) by (simp add: runs_def d)
qed

lemma each_runs:
  assumes "stands_for (Some a) ts" "\<And>x. x \<in> set ts \<Longrightarrow> runs (f x) (g x)"
  shows "runs (each a f) (concat (map g ts))"
proof -
  from assms(1) have "0 + fst a \<le> length (snd a)" "take (fst a) (drop 0 (snd a)) = ts" by (auto simp: stands_for_def)
  from for_each_runs [OF this(1), of f g] this(2) assms(2) show ?thesis by (simp add: each_def [abs_def])
qed

lemma build_runs: "length (rule_text si sp di dp pr po) < 2048 \<Longrightarrow>
    runs (build_iptables_rule e si sm sp di dm dp pr po) [rule_text si sp di dp pr po]"
  by (simp add: runs_def build_iptables_rule_def Let_def command_eq)

lemma stands_forE:
  assumes "stands_for x ts"
  obtains a where "x = Some a" "stands_for (Some a) ts"
  using assms by (auto simp: stands_for_def)

lemma request_rules_concat:
  "request_rules get = concat (map (\<lambda>si. concat (map (\<lambda>sm. concat (map (\<lambda>sp. concat (map (\<lambda>di. concat (map (\<lambda>dm. concat (map (\<lambda>dp.
     concat (map (\<lambda>pr. [rule_text si sp di dp pr (Option.bind (get ''policy'') valuestring)]) (listed_texts 16 (get ''protocol''))))
     (listed_ports (get ''dst_port_type'') (get ''dst_port'')))) (listed_texts 32 (get ''dst_mac'')))) (listed_texts 64 (get ''dst_ip''))))
     (listed_ports (get ''src_port_type'') (get ''src_port'')))) (listed_texts 32 (get ''src_mac'')))) (listed_texts 64 (get ''src_ip'')))"
  by (simp add: request_rules_def)

text \<open>C7. The seven nested loops over the lists of a request run exactly the rules of all combinations, in the order of a list
  comprehension over the lists, when no list has more than 16 entries and no rule 2048 characters.  The addresses of the
  devices are combined as well, although no rule mentions them: each rule is repeated for each of them.\<close>

theorem rules_are_all_combinations:
  assumes "cj_parse (e_json e) (c_text data) = Some root" "\<forall>k \<in> set rule_keys. short_array (cj_get_cs (e_json e) root k)"
    and "\<forall>r \<in> set (request_rules (cj_get_cs (e_json e) root)). length r < 2048"
  shows "wtsl_core_acl_rules e n data c st = Some (Some ''success'',
    on_core ((core_of st)\<lparr>c_cmds := c_cmds (core_of st) @ request_rules (cj_get_cs (e_json e) root)\<rparr>) st)"
proof -
  let ?get = "cj_get_cs (e_json e) root" and ?po = "Option.bind (cj_get_cs (e_json e) root ''policy'') valuestring"
  have short: "short_array (?get k)" if "k \<in> set rule_keys" for k using assms(2) that by blast
  from text_array_listed [OF short, of "''src_ip''" 64] obtain sip where sip: "text_array 64 (?get ''src_ip'') = Some sip"
    "stands_for (Some sip) (listed_texts 64 (?get ''src_ip''))" by (auto simp: rule_keys_def elim: stands_forE)
  from text_array_listed [OF short, of "''src_mac''" 32] obtain sma where sma: "text_array 32 (?get ''src_mac'') = Some sma"
    "stands_for (Some sma) (listed_texts 32 (?get ''src_mac''))" by (auto simp: rule_keys_def elim: stands_forE)
  from text_array_listed [OF short, of "''dst_ip''" 64] obtain dip where dip: "text_array 64 (?get ''dst_ip'') = Some dip"
    "stands_for (Some dip) (listed_texts 64 (?get ''dst_ip''))" by (auto simp: rule_keys_def elim: stands_forE)
  from text_array_listed [OF short, of "''dst_mac''" 32] obtain dma where dma: "text_array 32 (?get ''dst_mac'') = Some dma"
    "stands_for (Some dma) (listed_texts 32 (?get ''dst_mac''))" by (auto simp: rule_keys_def elim: stands_forE)
  from text_array_listed [OF short, of "''protocol''" 16] obtain pro where pro: "text_array 16 (?get ''protocol'') = Some pro"
    "stands_for (Some pro) (listed_texts 16 (?get ''protocol''))" by (auto simp: rule_keys_def elim: stands_forE)
  from port_array_listed [OF short, of "''src_port''" "''src_port_type''"] obtain spo where
    spo: "port_array (e_json e) root ''src_port_type'' ''src_port'' = Some spo"
      "stands_for (Some spo) (listed_ports (?get ''src_port_type'') (?get ''src_port''))" by (auto simp: rule_keys_def elim: stands_forE)
  from port_array_listed [OF short, of "''dst_port''" "''dst_port_type''"] obtain dpo where
    dpo: "port_array (e_json e) root ''dst_port_type'' ''dst_port'' = Some dpo"
      "stands_for (Some dpo) (listed_ports (?get ''dst_port_type'') (?get ''dst_port''))" by (auto simp: rule_keys_def elim: stands_forE)
  have "runs (each sip (\<lambda>si. each sma (\<lambda>sm. each spo (\<lambda>sp. each dip (\<lambda>di. each dma (\<lambda>dm. each dpo (\<lambda>dp. each pro (\<lambda>pr.
      build_iptables_rule e si sm sp di dm dp pr ?po)))))))) (request_rules ?get)"
    unfolding request_rules_concat
    by (intro each_runs sip(2) sma(2) spo(2) dip(2) dma(2) dpo(2) pro(2) build_runs)
      (use assms(3) in \<open>unfold request_rules_concat, fastforce\<close>)
  then show ?thesis using assms(1) sip(1) sma(1) dip(1) dma(1) pro(1) spo(1) dpo(1)
    by (simp add: wtsl_core_acl_rules_def with_json_def Let_def runs_def)
qed

definition demo_rules :: json where
  "demo_rules = JObj [(''src_ip'', JArr [JStr ''10.0.0.1'', JStr ''10.0.0.2'']), (''src_port_type'', JStr ''range''), (''src_port'', JStr ''80-90''),
     (''protocol'', JArr [JStr ''tcp'', JStr ''udp'']), (''policy'', JStr ''DROP'')]"

text \<open>Two sources and two protocols.\<close>

theorem rules_are_all_combinations_witness:
  "wtsl_core_acl_rules (demo_node_env demo_rules []) (demo_node 0 ''AA:01'' 1) [] demo_ctx ([], demo_world) = Some (Some ''success'',
    ([], demo_world\<lparr>w_core := (w_core demo_world)\<lparr>c_cmds := [''iptables -A FORWARD -s 10.0.0.1 -p tcp --sport 80:90 -j DROP'',
      ''iptables -A FORWARD -s 10.0.0.1 -p udp --sport 80:90 -j DROP'', ''iptables -A FORWARD -s 10.0.0.2 -p tcp --sport 80:90 -j DROP'',
      ''iptables -A FORWARD -s 10.0.0.2 -p udp --sport 80:90 -j DROP'']\<rparr>\<rparr>))"
proof -
  let ?e = "demo_node_env demo_rules []"
  have r: "request_rules (cj_get_cs (e_json ?e) demo_rules) = [''iptables -A FORWARD -s 10.0.0.1 -p tcp --sport 80:90 -j DROP'',
      ''iptables -A FORWARD -s 10.0.0.1 -p udp --sport 80:90 -j DROP'', ''iptables -A FORWARD -s 10.0.0.2 -p tcp --sport 80:90 -j DROP'',
      ''iptables -A FORWARD -s 10.0.0.2 -p udp --sport 80:90 -j DROP'']"
    by (simp add: request_rules_def demo_rules_def listed_texts_def listed_ports_def item_text_def or_empty_def rule_text_def option_text_def range_port_def)
  have "\<forall>k \<in> set rule_keys. short_array (cj_get_cs (e_json ?e) demo_rules k)"
    by (simp add: rule_keys_def demo_rules_def short_array_def)
  moreover have "c_cmds (w_core demo_world) = []" by (simp add: demo_world_def demo_core_def)
  ultimately show ?thesis
    using rules_are_all_combinations [of ?e "[]" demo_rules "demo_node 0 ''AA:01'' 1" demo_ctx "([], demo_world)", unfolded r]
    by (simp add: on_core_def core_of_def)
qed

section \<open>The reply over the request\<close>

text \<open>A request to the rule engines whose reply is longer than itself is written past the end of its own body, however
  it was handled; a reply that fits stands where the request was.\<close>

lemma acl_set_rules_room:
  assumes "cj_parse (e_json e) (c_text data) = Some root" "member_or e root ''action'' ''list'' = Some action" "member_or e root ''chain'' ''FORWARD'' = Some ch"
    and "acl_handle_request (e_shell e) (e_json e) action ch root [] (c_acl (core_of st)) (c_cmds (core_of st)) = Some (r, resp, a, tr)"
    and "length (cj_print (e_json e) (JObj resp)) < 8192"
  shows "wtsl_core_acl_set_rules e n data c st = None \<longleftrightarrow> length data < length (cj_print (e_json e) (JObj resp))"
  using assms by (simp add: wtsl_core_acl_set_rules_def with_json_def Let_def overwrite_def cut_reply_def)

section \<open>What is lost\<close>

lemma aifh_saves:
  assumes "wtsl_core_do_aifh e n data c st = Some (Some t, st')"
  shows "\<exists>v. v \<in> {0, 1} \<and> bi_aifh_enable (c_basic (core_of st')) = v \<and>
    c_cfg (core_of st') = c_cfg (save_int (ne_core e) ''AIFH_ENABLE'' v (core_of st))"
proof -
  have keep: "c_cfg (save_int x k v (y\<lparr>c_sp := z\<rparr>)) = c_cfg (save_int x k v y)" for x k v y z by (simp add: save_int_def)
  from assms show ?thesis
    by (auto simp: wtsl_core_do_aifh_def with_json_def Let_def take_int_def command_eq keep upd_basic_def [of _ "core_of st"]
        split: option.splits if_splits) (auto simp: c_basic_def keep save_int_def)
qed

text \<open>The switch for the avoidance of interference that a successful request sets does not survive a restart: it is written under a name
  the start never reads, and what the start reads is what it would have read before.\<close>

theorem aifh_lost_at_restart:
  assumes "wtsl_core_do_aifh e n data c st = Some (Some t, st')"
    and "e_io (ne_core e) = (\<lambda>_ _. io_ok)" "is_valid_value (Some (ce_js (e_cfg (ne_core e))))" "2 ^ 31 - 1 \<le> e_lmax e" "wf_file (c_cfg (core_of st))"
  shows "bi_aifh_enable (c_basic (core_of st')) \<in> {0, 1} \<and>
    bi_aifh_enable (read_basic (cfg_of (ne_core e) (core_of st')) b) = bi_aifh_enable (read_basic (cfg_of (ne_core e) (core_of st)) b)"
proof -
  let ?c = "cfg_of (ne_core e) (core_of st)" and ?c' = "cfg_of (ne_core e) (core_of st')"
  from aifh_saves [OF assms(1)] obtain v where v: "v \<in> {0, 1}" "bi_aifh_enable (c_basic (core_of st')) = v"
    and f: "c_cfg (core_of st') = c_cfg (save_int (ne_core e) ''AIFH_ENABLE'' v (core_of st))" by blast
  have k: "key_ok ''AIFH_ENABLE''" "int32 v" using v(1) by (auto simp: key_ok_def is_valid_key_def trimmed_def isspace_def int32_def)
  have "ce_file ?c' = put_all (cfg_put (ce_jk ?c) (ce_jv ?c)) (map (\<lambda>(k, v). (k, show_int v)) [(''AIFH_ENABLE'', v)]) (c_cfg (core_of st))"
    using save_int_put [OF _ k, of "ne_core e" "core_of st"] assms(2) f by (simp add: cfg_of_def)
  from rd_int_saved [OF _ _ assms(5) _ this, of "''ACS_ENABLE''" "bi_aifh_enable b"] assms(3,4) k
  have "rd_int ?c' ''ACS_ENABLE'' (bi_aifh_enable b) = rd_int ?c ''ACS_ENABLE'' (bi_aifh_enable b)"
    by (simp add: cfg_of_def e_lmax_def)
  with v show ?thesis by (simp add: read_basic_def)
qed

section \<open>The chosen links\<close>

text \<open>The links a request chooses get the next data from the network, in the order of the request, and only that: the data after it goes to
  all connected links again.  More links than the array has places are stored behind it.\<close>

theorem chosen_links_once:
  assumes "cj_parse (e_json e) (c_text data) = Some root" "cj_get_cs (e_json e) root ''announce_id'' = Some (JArr js)" "js \<noteq> []"
  shows "if length (sl_ids (sle_of st)) < length js then wtsl_core_set_announce_id e n data c st = None
    else \<exists>st' s1 s2. wtsl_core_set_announce_id e n data c st = Some (Some ''success'', st') \<and>
      sle_client_senddata d1 (sle_of st') = Some s1 \<and> sl_out s1 = sl_out (sle_of st) @ map (\<lambda>j. Fast_send (word_of_int (valueint j)) d1) js \<and>
      sle_client_senddata d2 s1 = Some s2 \<and> sl_out s2 = sl_out s1 @ map (\<lambda>i. Fast_send i d2) (connected_ids (sle_of st))"
  using assms
  by (simp add: wtsl_core_set_announce_id_def with_json_def Let_def sle_client_senddata_def emit_def connected_ids_def comp_def)

text \<open>One link is connected, two others are chosen.\<close>

theorem chosen_links_once_witness:
  "\<exists>st' s1 s2. wtsl_core_set_announce_id (demo_node_env (JObj [(''announce_id'', JArr [JNum 7, JNum 3])]) []) (demo_node 0 ''AA:01'' 1) [] demo_ctx
      ([], demo_world\<lparr>w_sle := no_sle\<lparr>sl_conn := [\<lparr>cm_conn_id = 4, cm_state = SLE_ACB_STATE_CONNECTED, cm_mac = []\<rparr>]\<rparr>\<rparr>) = Some (Some ''success'', st') \<and>
    sle_client_senddata [1] (sle_of st') = Some s1 \<and> sl_out s1 = [Fast_send 7 [1], Fast_send 3 [1]] \<and>
    sle_client_senddata [2] s1 = Some s2 \<and> sl_out s2 = [Fast_send 7 [1], Fast_send 3 [1], Fast_send 4 [2]]"
  using chosen_links_once [of "demo_node_env (JObj [(''announce_id'', JArr [JNum 7, JNum 3])]) []" "[]" "JObj [(''announce_id'', JArr [JNum 7, JNum 3])]" "[JNum 7, JNum 3]"
      "([], demo_world\<lparr>w_sle := no_sle\<lparr>sl_conn := [\<lparr>cm_conn_id = 4, cm_state = SLE_ACB_STATE_CONNECTED, cm_mac = []\<rparr>]\<rparr>\<rparr>)"
      "demo_node 0 ''AA:01'' 1" demo_ctx "[1]" "[2]"]
  by (auto simp: sle_of_def no_sle_def connected_ids_def)

text \<open>A request that succeeds, on an empty configuration.\<close>

theorem aifh_lost_at_restart_witness:
  "\<exists>t st'. wtsl_core_do_aifh (demo_node_env (JObj [(''aifh_sw'', JNum 1)]) []) (demo_node 0 ''AA:01'' 1) [] demo_ctx ([], demo_world) = Some (Some t, st') \<and>
    bi_aifh_enable (c_basic (core_of st')) = 1 \<and>
    bi_aifh_enable (read_basic (cfg_of (ne_core (demo_node_env (JObj [(''aifh_sw'', JNum 1)]) [])) (core_of st')) (c_basic (w_core demo_world))) = 0"
proof -
  let ?e = "demo_node_env (JObj [(''aifh_sw'', JNum 1)]) []"
  let ?s = "upd_basic (\<lambda>b. b\<lparr>bi_aifh_enable := 1\<rparr>) (w_core demo_world)"
  have cj: "cj_get (e_cj (ne_core ?e)) = member_by strcaseeq" by (simp add: demo_node_env_def demo_cjson_def)
  have run: "\<exists>c. wtsl_core_do_aifh ?e (demo_node 0 ''AA:01'' 1) [] demo_ctx ([], demo_world) = Some (Some ''success'', on_core c ([], demo_world)) \<and> c_basic c = c_basic ?s"
    by (simp add: wtsl_core_do_aifh_def with_json_def take_int_def cj Let_def strcaseeq_def command_eq demo_shell_def core_of_def)
      (intro exI conjI, rule refl, simp add: c_basic_def save_int_def upd_basic_def)
  then obtain c where c: "wtsl_core_do_aifh ?e (demo_node 0 ''AA:01'' 1) [] demo_ctx ([], demo_world) = Some (Some ''success'', on_core c ([], demo_world))"
    "c_basic c = c_basic ?s" by blast
  have "bi_aifh_enable (c_basic (core_of (on_core c ([], demo_world)))) \<in> {0, 1} \<and>
    bi_aifh_enable (read_basic (cfg_of (ne_core ?e) (core_of (on_core c ([], demo_world)))) (c_basic (w_core demo_world))) =
    bi_aifh_enable (read_basic (cfg_of (ne_core ?e) (core_of ([], demo_world))) (c_basic (w_core demo_world)))"
    by (rule aifh_lost_at_restart [OF c(1)])
      (simp_all add: demo_node_env_def demo_core_env_def demo_env_def is_valid_value_def e_lmax_def wf_file_def core_of_def demo_world_def demo_core_def)
  moreover have "bi_aifh_enable (read_basic (cfg_of (ne_core ?e) (core_of ([], demo_world))) (c_basic (w_core demo_world))) = 0"
    by (simp add: read_basic_def rd_int_def config_get_int_def config_get_def cfg_of_def core_of_def demo_world_def demo_core_def demo_node_env_def
        demo_core_env_def demo_env_def c_basic_def demo_sp_def zero_info_def zero_basic_def)
  moreover have "bi_aifh_enable (c_basic c) = 1" by (simp add: c(2))
  ultimately show ?thesis using c(1) by (intro exI [of _ "''success''"] exI [of _ "on_core c ([], demo_world)"]) simp
qed

end
