(* ===== verification/CoreApi.thy ===== *)
theory CoreApi
  imports DataParser
begin

text \<open>
  The state of the link (api/wtsl_core_api.c) and the thread that watches it (slal/wtsl_core_splink_state.c): what the driver says
  of the connected users, the signal level and its version goes to the global node, the address of the peer to the
  front of the three addresses the automatic join tries, and a lost link wakes the automatic join.
\<close>

section \<open>State\<close>

text \<open>The static variables of \<open>get_view_users_info\<close>, and how often the automatic join was signalled.\<close>

record api_st =
  ap_last_user_num :: int
  ap_add_mac :: bool
  ap_signals :: nat

definition api_start :: api_st where
  "api_start = \<lparr>ap_last_user_num = 0, ap_add_mac = True, ap_signals = 0\<rparr>"

definition upd_sp :: "(splink_info \<Rightarrow> splink_info) \<Rightarrow> core \<Rightarrow> core" where
  "upd_sp f s = s\<lparr>c_sp := f (c_sp s)\<rparr>"

definition is_tnode :: "core \<Rightarrow> bool" where
  "is_tnode s \<longleftrightarrow> sp_node_type (c_sp s) = sp_code SP_TNODE"

section \<open>Version\<close>

definition wtsl_core_get_version :: "int \<times> string" where
  "wtsl_core_get_version = (235, ''0665e0c6'')"

text \<open>The first line with the text has at most 31 characters of the version, of which four are kept.  None of the lines: no version.\<close>

definition version_of :: "string \<Rightarrow> string option" where
  "version_of l = (case strstr l ''device version:'' of
     None \<Rightarrow> None
   | Some p \<Rightarrow> (let w = take 31 (takeWhile (\<lambda>c. \<not> isspace c) (ltrim (drop 15 p))) in if w = [] then None else Some (take 4 w)))"

fun first_version :: "string list \<Rightarrow> string" where
  "first_version [] = []"
| "first_version (l # ls) = (case version_of l of Some v \<Rightarrow> v | None \<Rightarrow> first_version ls)"

text \<open>The array is not written when the pipe does not open; \<open>junk\<close> is what it holds as a text.\<close>

definition get_firmware_version :: "core_env \<Rightarrow> string \<Rightarrow> core \<Rightarrow> int \<times> string \<times> core" where
  "get_firmware_version e junk s = (case radio (pipe (e_sh e) (cbuf 128 (iwpriv (Some net_vap_name) ''cfg'' ''get_version''))) s of
     (None, s1) \<Rightarrow> (-1, junk, s1)
   | (Some out, s1) \<Rightarrow> (let v = first_version (fgets_all 127 out) in (if v \<noteq> [] then 0 else -1, v, s1)))"

definition get_hardware_version :: int where "get_hardware_version = 1"
definition get_os_version :: int where "get_os_version = 1"
definition get_software_app_version :: int where "get_software_app_version = 50"
definition get_software_lib_version :: int where "get_software_lib_version = 235"

text \<open>Printed into the 32 bytes of \<open>version\<close>.\<close>

definition get_all_version :: "core_env \<Rightarrow> string \<Rightarrow> core \<Rightarrow> core option" where
  "get_all_version e junk s = (case get_firmware_version e junk s of (r, v, s1) \<Rightarrow>
     (let t = CHR ''v'' # show_int get_hardware_version @ ''.'' @ show_int get_os_version @ ''.'' @ show_int get_software_app_version @ ''_'' @
        show_int get_software_lib_version @ ''.'' @ v
      in if length t < 32 then Some (upd_basic (\<lambda>b. b\<lparr>bi_version := t\<rparr>) s1) else None))"

section \<open>Users\<close>

text \<open>The line with the role: the state and the number of users as far as it has them; the number is compared with the last one.\<close>

definition role_line :: "int \<Rightarrow> string \<Rightarrow> int \<times> int \<Rightarrow> core \<times> api_st \<Rightarrow> (int \<times> int) \<times> core \<times> api_st" where
  "role_line lmax l sn sa = (if \<not> contains l ''vap_role'' then (sn, sa)
     else (let vs = sscanf_vals lmax ''vap_role[%d], vap_state[%d], user_num[%d], scanning[%d], roamming[%d]'' l;
               st = (if 2 \<le> length vs then ival (vs ! 1) else fst sn);
               num = (if 3 \<le> length vs then ival (vs ! 2) else snd sn);
               last = ap_last_user_num (snd sa)
           in ((st, num), upd_sp (\<lambda>p. p\<lparr>need_refresh := (last \<noteq> 0 \<and> last \<noteq> num), link_state := st, user_num := num\<rparr>) (fst sa),
               (snd sa)\<lparr>ap_last_user_num := num\<rparr>)))"

text \<open>\<open>%s\<close> goes into 18 bytes.  A new address moves the others back, and all three are saved.\<close>

definition save_macs :: "core_env \<Rightarrow> core \<Rightarrow> core" where
  "save_macs e s = (let m = bi_auto_join_net_mac (c_basic s) in
     save_str e ''AUTO_JOIN_NET_MAC2'' (m ! 2) (save_str e ''AUTO_JOIN_NET_MAC1'' (m ! 1) (save_str e ''AUTO_JOIN_NET_MAC0'' (m ! 0) s)))"

definition remember_mac :: "core_env \<Rightarrow> core \<Rightarrow> core" where
  "remember_mac e s = (let m = sp_mac (c_sp s); ms = bi_auto_join_net_mac (c_basic s) in
     if m = ms ! 0 then s else save_macs e (upd_basic (\<lambda>b. b\<lparr>bi_auto_join_net_mac := [m, ms ! 0, ms ! 1]\<rparr>) s))"

definition user_entry :: "core_env \<Rightarrow> string \<Rightarrow> core \<times> api_st \<Rightarrow> (core \<times> api_st) option" where
  "user_entry e l sa = (if \<not> (contains l ''ms'' \<and> is_tnode (fst sa) \<and> ap_add_mac (snd sa)) then Some sa
     else do {
       s1 \<leftarrow> (case sscanf_vals (ce_lmax (e_cfg e)) ''%d %s'' l of
          [IV u, SV m] \<Rightarrow> if length m < 18 then Some (upd_sp (\<lambda>p. p\<lparr>uid := u, sp_mac := m\<rparr>) (fst sa)) else None
        | [IV u] \<Rightarrow> Some (upd_sp (\<lambda>p. p\<lparr>uid := u\<rparr>) (fst sa))
        | _ \<Rightarrow> Some (fst sa));
       Some (remember_mac e s1, (snd sa)\<lparr>ap_add_mac := False\<rparr>) })"

text \<open>After every line a T node without a link wakes the automatic join.\<close>

definition wake_join :: "core \<times> api_st \<Rightarrow> core \<times> api_st" where
  "wake_join sa = (if link_state (c_sp (fst sa)) \<noteq> 1 \<and> is_tnode (fst sa)
     then (fst sa, (snd sa)\<lparr>ap_signals := Suc (ap_signals (snd sa)), ap_add_mac := True\<rparr>) else sa)"

fun users_loop :: "core_env \<Rightarrow> string list \<Rightarrow> int \<times> int \<Rightarrow> core \<times> api_st \<Rightarrow> (core \<times> api_st) option" where
  "users_loop e [] sn sa = Some sa"
| "users_loop e (l # ls) sn sa = (case role_line (ce_lmax (e_cfg e)) l sn sa of (sn1, sa1) \<Rightarrow> do {
     sa2 \<leftarrow> user_entry e l sa1;
     users_loop e ls sn1 (wake_join sa2) })"

text \<open>A pipe that does not open is read through NULL.\<close>

definition get_view_users_info :: "core_env \<Rightarrow> core \<times> api_st \<Rightarrow> (core \<times> api_st) option" where
  "get_view_users_info e sa = (case radio (pipe (e_sh e) (cbuf 64 (iwpriv (Some net_vap_name) ''cfg'' ''view_users''))) (fst sa) of
     (None, s) \<Rightarrow> None
   | (Some out, s) \<Rightarrow> users_loop e (fgets_all 127 out) (-1, -1) (s, snd sa))"

section \<open>Signal level\<close>

fun signal_loop :: "int \<Rightarrow> string list \<Rightarrow> core \<Rightarrow> core" where
  "signal_loop lmax [] s = s"
| "signal_loop lmax (l # ls) s = signal_loop lmax ls (case sscanf_vals lmax ''%d      %d'' l of
     [IV u, IV r] \<Rightarrow> upd_basic (\<lambda>b. b\<lparr>bi_rssi := r\<rparr>) (upd_sp (\<lambda>p. p\<lparr>uid := u\<rparr>) s)
   | [IV u] \<Rightarrow> upd_sp (\<lambda>p. p\<lparr>uid := u\<rparr>) s
   | _ \<Rightarrow> s)"

definition get_rssi_info :: "core_env \<Rightarrow> core \<Rightarrow> core option" where
  "get_rssi_info e s = (case radio (pipe (e_sh e) (cbuf 64 (iwpriv (Some net_vap_name) ''cfg'' ''get_rssi''))) s of
     (None, s1) \<Rightarrow> None | (Some out, s1) \<Rightarrow> Some (signal_loop (ce_lmax (e_cfg e)) (fgets_all 63 out) s1))"

section \<open>The watcher\<close>

definition take_channel :: "core_env \<Rightarrow> core \<Rightarrow> core" where
  "take_channel e s = (case radio (slb_get_channel (e_sh e) (ce_lmax (e_cfg e)) (Some net_vap_name)) s of (ch, s1) \<Rightarrow>
     if ch \<noteq> 0 \<and> bi_channel (c_basic s1) \<noteq> ch then save_int e ''CHANNEL'' ch (upd_basic (\<lambda>b. b\<lparr>bi_channel := ch\<rparr>) s1) else s1)"

definition wtsl_core_get_splink_info :: "core_env \<Rightarrow> string \<Rightarrow> core \<times> api_st \<Rightarrow> (int \<times> core \<times> api_st) option" where
  "wtsl_core_get_splink_info e junk sa = do {
     (s1, a) \<leftarrow> get_view_users_info e sa;
     s2 \<leftarrow> get_all_version e junk (take_channel e s1);
     s3 \<leftarrow> (if is_tnode s2 \<and> link_state (c_sp s2) = 1 then get_rssi_info e s2 else Some s2);
     Some (link_state (c_sp s3), s3, a) }"

text \<open>One round of the thread: the node in the list gets the parameters.\<close>

definition watcher_round :: "core_env \<Rightarrow> string \<Rightarrow> core \<times> api_st \<Rightarrow> (core \<times> api_st) option" where
  "watcher_round e junk sa = do {
     (r, s, a) \<leftarrow> wtsl_core_get_splink_info e junk sa;
     (case c_nodes s of
        (None, h) \<Rightarrow> Some (s, a)
      | (Some l, h) \<Rightarrow> do { (k, h1) \<leftarrow> update_wtsl_node_basicinfo (Some l) (c_basic s) h; Some (s\<lparr>c_nodes := (Some l, h1)\<rparr>, a) }) }"

fun watcher_rounds :: "core_env \<Rightarrow> string \<Rightarrow> nat \<Rightarrow> core \<times> api_st \<Rightarrow> (core \<times> api_st) option" where
  "watcher_rounds e junk 0 sa = Some sa"
| "watcher_rounds e junk (Suc n) sa = Option.bind (watcher_round e junk sa) (watcher_rounds e junk n)"

end
