(* ===== verification/ApiProps.thy ===== *)
theory ApiProps
  imports CoreApi ParserProps
begin

text \<open>
  The watcher of the link: a lost link always wakes the automatic join, and the three addresses it tries are the
  ones a restart reads back.
\<close>

section \<open>A node and its driver\<close>

definition joined_env :: "string \<Rightarrow> core_env" where
  "joined_env st = (demo_core_env (\<lambda>_. None))\<lparr>e_sh := quiet_shell\<lparr>sh_out := (\<lambda>_ _. ''vap_role[1], vap_state['' @ st @ ''], user_num[1], scanning[0], roamming[0]''
     @ [CHR 0x0A] @ ''0 aa:bb:cc:dd:ee:02 ms'' @ [CHR 0x0A])\<rparr>\<rparr>"

definition joined_core :: core where
  "joined_core = upd_sp (\<lambda>p. p\<lparr>sp_node_type := sp_code SP_TNODE\<rparr>) (upd_basic (\<lambda>b. b\<lparr>bi_auto_join_net_mac := [[], [], []]\<rparr>) demo_core)"

lemma joined_basic: "c_basic joined_core = (c_basic demo_core)\<lparr>bi_auto_join_net_mac := [[], [], []]\<rparr>"
  by (simp add: joined_core_def upd_sp_def c_basic_def upd_basic_def)

lemma joined_fields: "c_cfg joined_core = None" "sp_mac (c_sp joined_core) = []" "is_tnode joined_core" "e_io (joined_env st) = (\<lambda>_ _. io_ok)"
  "sh_out (e_sh (joined_env st)) t c \<noteq> []"
  by (simp_all add: joined_core_def joined_env_def upd_sp_def upd_basic_def demo_core_def demo_sp_def is_tnode_def demo_core_env_def)

section \<open>The automatic join is woken\<close>

lemma role_line_frames:
  "role_line lmax l sn (s, a) = (sn1, (s1, a1)) \<Longrightarrow> sp_node_type (c_sp s1) = sp_node_type (c_sp s) \<and> c_basic s1 = c_basic s \<and>
     c_cfg s1 = c_cfg s \<and> ap_signals a1 = ap_signals a \<and> c_nodes s1 = c_nodes s"
  by (auto simp: role_line_def Let_def upd_sp_def c_basic_def split: if_splits)

lemma remember_frames: "sp_node_type (c_sp (remember_mac e s)) = sp_node_type (c_sp s)" "link_state (c_sp (remember_mac e s)) = link_state (c_sp s)"
  by (simp_all add: remember_mac_def save_macs_def Let_def upd_basic_def)

lemma user_entry_frames:
  assumes "user_entry e l (s, a) = Some (s1, a1)"
  shows "sp_node_type (c_sp s1) = sp_node_type (c_sp s) \<and> ap_signals a1 = ap_signals a"
  using assms
  by (auto simp: user_entry_def remember_frames upd_sp_def split: if_splits Option.bind_splits list.splits sval.splits)

lemma is_tnode_eq: "sp_node_type (c_sp s) = sp_node_type (c_sp t) \<Longrightarrow> is_tnode s = is_tnode t"
  by (simp add: is_tnode_def)

lemma users_loop_signals:
  assumes "users_loop e ls sn (s, a) = Some (s', a')"
  shows "sp_node_type (c_sp s') = sp_node_type (c_sp s) \<and> ap_signals a \<le> ap_signals a' \<and>
    (ls \<noteq> [] \<and> is_tnode s \<and> link_state (c_sp s') \<noteq> 1 \<longrightarrow> ap_signals a < ap_signals a' \<and> ap_add_mac a')"
  using assms
proof (induction ls arbitrary: sn s a)
  case (Cons l ls)
  obtain sn1 s1 a1 where r: "role_line (ce_lmax (e_cfg e)) l sn (s, a) = (sn1, (s1, a1))" by (metis surj_pair)
  with Cons.prems obtain s2 a2 where u: "user_entry e l (s1, a1) = Some (s2, a2)"
    and n: "users_loop e ls sn1 (wake_join (s2, a2)) = Some (s', a')" by (auto split: Option.bind_splits)
  obtain a3 where w: "wake_join (s2, a2) = (s2, a3)" by (cases "link_state (c_sp s2) \<noteq> 1 \<and> is_tnode s2") (auto simp: wake_join_def)
  have a3: "ap_signals a2 \<le> ap_signals a3" "link_state (c_sp s2) \<noteq> 1 \<and> is_tnode s2 \<Longrightarrow> ap_signals a2 < ap_signals a3 \<and> ap_add_mac a3"
    using w by (auto simp: wake_join_def split: if_splits)
  have t: "sp_node_type (c_sp s2) = sp_node_type (c_sp s)" "ap_signals a2 = ap_signals a"
    using role_line_frames [OF r] user_entry_frames [OF u] by auto
  from Cons.IH [OF n [unfolded w]] have ih: "sp_node_type (c_sp s') = sp_node_type (c_sp s2)" "ap_signals a3 \<le> ap_signals a'"
    "ls \<noteq> [] \<and> is_tnode s2 \<and> link_state (c_sp s') \<noteq> 1 \<longrightarrow> ap_signals a3 < ap_signals a' \<and> ap_add_mac a'" by auto
  have tn: "is_tnode s2 = is_tnode s" using is_tnode_eq [OF t(1)] .
  show ?case
  proof (cases "ls = []")
    case True
    with n w have "s' = s2" "a' = a3" by auto
    with a3 t tn show ?thesis by auto
  next
    case False
    with ih a3(1) t tn show ?thesis by auto
  qed
qed simp

text \<open>C9. Whenever a report of the driver with at least one line leaves a T node without a link, the automatic join has been
  signalled since, and the next address seen will be remembered; no report takes a signal back.\<close>

theorem lost_link_wakes_join:
  assumes "get_view_users_info e (s, a) = Some (s', a')" "is_tnode s" "link_state (c_sp s') \<noteq> 1"
    and "sh_out (e_sh e) (c_cmds s) (cbuf 64 (iwpriv (Some net_vap_name) ''cfg'' ''view_users'')) \<noteq> []"
  shows "ap_signals a < ap_signals a' \<and> ap_add_mac a'"
proof -
  let ?c = "cbuf 64 (iwpriv (Some net_vap_name) ''cfg'' ''view_users'')" and ?s = "s\<lparr>c_cmds := c_cmds s @ [cbuf 64 (iwpriv (Some net_vap_name) ''cfg'' ''view_users'')]\<rparr>"
  from assms(1) have "users_loop e (fgets_all 127 (sh_out (e_sh e) (c_cmds s) ?c)) (-1, -1) (?s, a) = Some (s', a')"
    by (auto simp: get_view_users_info_def radio_def pipe_def split: if_splits)
  moreover have "fgets_all 127 (sh_out (e_sh e) (c_cmds s) ?c) \<noteq> []" using assms(4) by (subst fgets_all.simps) simp
  moreover have "is_tnode ?s" using assms(2) by (simp add: is_tnode_def)
  ultimately show ?thesis using users_loop_signals assms(3) by blast
qed

theorem lost_link_wakes_join_witness:
  "\<exists>s' a'. get_view_users_info (joined_env ''0'') (joined_core, api_start) = Some (s', a') \<and> link_state (c_sp s') = 0 \<and>
    ap_signals api_start < ap_signals a' \<and> ap_add_mac a'"
proof -
  have "map_option (\<lambda>(s, a). link_state (c_sp s)) (get_view_users_info (joined_env ''0'') (joined_core, api_start)) = Some 0" by code_simp
  then obtain s' a' where r: "get_view_users_info (joined_env ''0'') (joined_core, api_start) = Some (s', a')" and l: "link_state (c_sp s') = 0" by auto
  from lost_link_wakes_join [OF r joined_fields(3) _ joined_fields(5)] l r show ?thesis by auto
qed

section \<open>The addresses\<close>

text \<open>What the arrays of 18 bytes hold, and what the file has of them.\<close>

definition mac_text :: "string \<Rightarrow> bool" where
  "mac_text m \<longleftrightarrow> length m < 18 \<and> (\<forall>c \<in> set m. \<not> isspace c)"

definition macs_ok :: "core \<Rightarrow> bool" where
  "macs_ok s \<longleftrightarrow> (\<exists>a b c. bi_auto_join_net_mac (c_basic s) = [a, b, c] \<and> mac_text a \<and> mac_text b \<and> mac_text c) \<and> mac_text (sp_mac (c_sp s))"

definition file_mac :: "core_env \<Rightarrow> string \<Rightarrow> core \<Rightarrow> string" where
  "file_mac e k s = rd_str (cfg_of e s) k 18 []"

definition macs_saved :: "core_env \<Rightarrow> core \<Rightarrow> bool" where
  "macs_saved e s \<longleftrightarrow> wf_file (c_cfg s) \<and>
     bi_auto_join_net_mac (c_basic s) = map (\<lambda>k. file_mac e k s) [''AUTO_JOIN_NET_MAC0'', ''AUTO_JOIN_NET_MAC1'', ''AUTO_JOIN_NET_MAC2'']"

lemma cbuf_cbuf: "n \<le> m \<Longrightarrow> cbuf n (cbuf m t) = cbuf n t"
  by (simp add: cbuf_def min_def)

lemma rd_str_read:
  "n \<le> 256 \<Longrightarrow> 0 < n \<Longrightarrow> is_valid_value (Some cur) \<Longrightarrow> rd_str c k n cur = (case cfg_read (ce_jk c) (ce_jv c) k (ce_file c) of None \<Rightarrow> cur | Some t \<Rightarrow> cbuf n t)"
  by (cases "ce_file c") (auto simp: rd_str_def config_get_def cfg_read_def is_valid_value_def cbuf_cbuf split: option.splits)

lemma mac_keys: "key_ok ''AUTO_JOIN_NET_MAC0''" "key_ok ''AUTO_JOIN_NET_MAC1''" "key_ok ''AUTO_JOIN_NET_MAC2''" "key_ok ''CHANNEL''"
  by (simp_all add: key_ok_def is_valid_key_def trimmed_def isspace_def)

lemma mac_good: "key_ok k \<Longrightarrow> mac_text m \<Longrightarrow> good_entry k m"
proof -
  assume k: "key_ok k" and m: "mac_text m"
  have "isspace (CHR 0x0A)" "isspace (CHR 0x0D)" by (simp_all add: isspace_def)
  with m have "CHR 0x0A \<notin> set m" "CHR 0x0D \<notin> set m" by (auto simp: mac_text_def)
  moreover from m have "trimmed m" by (cases m rule: rev_cases) (auto simp: mac_text_def trimmed_def hd_append)
  ultimately show ?thesis using k m by (simp add: good_entry_def key_ok_def is_valid_value_def mac_text_def)
qed

lemma cut_int_good: "key_ok k \<Longrightarrow> good_entry k (cbuf 32 (show_int v))"
proof -
  assume k: "key_ok k"
  let ?t = "cbuf 32 (show_int v)"
  have sub: "set ?t \<subseteq> set (show_int v)" by (simp add: cbuf_def set_take_subset)
  then have sp: "\<forall>c \<in> set ?t. \<not> isspace c" using show_int_not_space by blast
  have "isspace (CHR 0x0A)" "isspace (CHR 0x0D)" by (simp_all add: isspace_def)
  with sp have "CHR 0x0A \<notin> set ?t" "CHR 0x0D \<notin> set ?t" by auto
  moreover from sp have "trimmed ?t" by (cases ?t rule: rev_cases) (auto simp: trimmed_def hd_append)
  moreover have "length ?t < 32" by (simp add: cbuf_def)
  ultimately show ?thesis using k by (simp add: good_entry_def key_ok_def is_valid_value_def)
qed

lemma save_str_put: "e_io e = (\<lambda>_ _. io_ok) \<Longrightarrow> c_cfg (save_str e k v s) = cfg_put (ce_jk (e_cfg e)) (ce_jv (e_cfg e)) k v (c_cfg s)"
  by (simp add: save_str_def cfg_put_def)

lemma save_str_file:
  assumes "e_io e = (\<lambda>_ _. io_ok)" "wf_file (c_cfg s)" "good_entry k v"
  shows "wf_file (c_cfg (save_str e k v s))" "file_mac e k' (save_str e k v s) = (if k' = k then cbuf 18 v else file_mac e k' s)"
  using cfg.wf_put [OF assms(2,3)] cfg.read_put [OF assms(2,3)]
  by (simp_all add: save_str_put [OF assms(1)] file_mac_def rd_str_read is_valid_value_def cfg_of_def)

lemma remember_mac_saves:
  assumes "e_io e = (\<lambda>_ _. io_ok)" "macs_ok s" "wf_file (c_cfg s)"
  shows "macs_ok (remember_mac e s) \<and> wf_file (c_cfg (remember_mac e s)) \<and> bi_auto_join_net_mac (c_basic (remember_mac e s)) ! 0 = sp_mac (c_sp s) \<and>
    (macs_saved e s \<or> sp_mac (c_sp s) \<noteq> bi_auto_join_net_mac (c_basic s) ! 0 \<longrightarrow> macs_saved e (remember_mac e s))"
proof (cases "sp_mac (c_sp s) = bi_auto_join_net_mac (c_basic s) ! 0")
  case True
  then show ?thesis using assms by (simp add: remember_mac_def Let_def)
next
  case False
  let ?m = "sp_mac (c_sp s)"
  from assms(2) obtain a b c where ms: "bi_auto_join_net_mac (c_basic s) = [a, b, c]" and ok: "mac_text a" "mac_text b" "mac_text c" "mac_text ?m"
    by (auto simp: macs_ok_def)
  let ?s = "upd_basic (\<lambda>b'. b'\<lparr>bi_auto_join_net_mac := [?m, a, b]\<rparr>) s"
  have r: "remember_mac e s = save_macs e ?s" using False ms by (simp add: remember_mac_def Let_def)
  let ?t = "save_str e ''AUTO_JOIN_NET_MAC0'' ?m ?s"
  let ?u = "save_str e ''AUTO_JOIN_NET_MAC1'' a ?t"
  let ?v = "save_str e ''AUTO_JOIN_NET_MAC2'' b ?u"
  have wf: "wf_file (c_cfg ?s)" using assms(3) by simp
  note g = mac_good [OF mac_keys(1) ok(4)] mac_good [OF mac_keys(2) ok(1)] mac_good [OF mac_keys(3) ok(2)]
  note f0 = save_str_file [OF assms(1) wf g(1)]
  note f1 = save_str_file [OF assms(1) f0(1) g(2)]
  note f2 = save_str_file [OF assms(1) f1(1) g(3)]
  have sv: "save_macs e ?s = ?v" by (simp add: save_macs_def Let_def numeral_2_eq_2)
  have "sp_mac (c_sp ?v) = ?m" by (simp add: upd_basic_def)
  moreover have "cbuf 18 ?m = ?m" "cbuf 18 a = a" "cbuf 18 b = b" using ok by (simp_all add: mac_text_def)
  ultimately show ?thesis unfolding r sv using ok f2(1) by (simp add: macs_ok_def macs_saved_def f2(2) f1(2) f0(2))
qed

text \<open>What every step of a round keeps.\<close>

definition macs_inv :: "core_env \<Rightarrow> core \<Rightarrow> bool" where
  "macs_inv e s \<longleftrightarrow> macs_ok s \<and> macs_saved e s"

lemma macs_inv_frame:
  assumes "bi_auto_join_net_mac (c_basic t) = bi_auto_join_net_mac (c_basic s)" "sp_mac (c_sp t) = sp_mac (c_sp s)" "c_cfg t = c_cfg s"
  shows "macs_inv e t = macs_inv e s"
  using assms by (simp add: macs_inv_def macs_ok_def macs_saved_def file_mac_def cfg_of_def)

lemma role_line_macs:
  "role_line lmax l sn (s, a) = (sn1, (s1, a1)) \<Longrightarrow> sp_mac (c_sp s1) = sp_mac (c_sp s)"
  by (auto simp: role_line_def Let_def upd_sp_def split: if_splits)

lemma scanned_word:
  assumes "sscanf_vals lmax ''%d %s'' l = [IV u, SV m]"
  shows "\<forall>c \<in> set m. \<not> isspace c"
proof -
  have "scan_fmt ''%d %s'' = [Dec, Sp, Word True]" by code_simp
  with assms show ?thesis
    by (auto simp: sscanf_vals_def assign_def Let_def split: prod.splits if_splits dest: set_takeWhileD)
qed

lemma user_entry_macs:
  assumes "e_io e = (\<lambda>_ _. io_ok)" "user_entry e l (s, a) = Some (s1, a1)" "macs_inv e s"
  shows "macs_inv e s1"
proof (cases "contains l ''ms'' \<and> is_tnode s \<and> ap_add_mac a")
  case False
  then have "s1 = s" using assms(2) by (simp add: user_entry_def split: if_splits)
  with assms(3) show ?thesis by simp
next
  case True
  let ?c = "case sscanf_vals (ce_lmax (e_cfg e)) ''%d %s'' l of
      [IV u, SV m] \<Rightarrow> if length m < 18 then Some (upd_sp (\<lambda>p. p\<lparr>uid := u, sp_mac := m\<rparr>) s) else None
    | [IV u] \<Rightarrow> Some (upd_sp (\<lambda>p. p\<lparr>uid := u\<rparr>) s) | _ \<Rightarrow> Some s"
  from True assms(2) have "Option.bind ?c (\<lambda>t. Some (remember_mac e t, a\<lparr>ap_add_mac := False\<rparr>)) = Some (s1, a1)"
    by (simp only: user_entry_def fst_conv snd_conv) simp
  then obtain t where t: "?c = Some t" and s1: "s1 = remember_mac e t" by (cases ?c) auto
  have b: "c_basic t = c_basic s" "c_cfg t = c_cfg s"
    using t by (auto simp: upd_sp_def c_basic_def split: list.splits sval.splits if_splits)
  have m: "mac_text (sp_mac (c_sp t))"
    using t assms(3) scanned_word [of "ce_lmax (e_cfg e)" l]
    by (auto simp: upd_sp_def macs_inv_def macs_ok_def mac_text_def split: list.splits sval.splits if_splits)
  have "macs_ok t" using assms(3) b m by (auto simp: macs_inv_def macs_ok_def)
  moreover have "macs_saved e t" "wf_file (c_cfg t)" using assms(3) b by (simp_all add: macs_inv_def macs_saved_def file_mac_def cfg_of_def)
  ultimately show ?thesis using remember_mac_saves [OF assms(1)] s1 by (simp add: macs_inv_def)
qed

lemma users_loop_macs:
  assumes "e_io e = (\<lambda>_ _. io_ok)" "users_loop e ls sn (s, a) = Some (s', a')" "macs_inv e s"
  shows "macs_inv e s'"
  using assms(2,3)
proof (induction ls arbitrary: sn s a)
  case (Cons l ls)
  obtain sn1 s1 a1 where r: "role_line (ce_lmax (e_cfg e)) l sn (s, a) = (sn1, (s1, a1))" by (metis surj_pair)
  with Cons.prems obtain s2 a2 where u: "user_entry e l (s1, a1) = Some (s2, a2)"
    and n: "users_loop e ls sn1 (wake_join (s2, a2)) = Some (s', a')" by (auto split: Option.bind_splits)
  obtain a3 where w: "wake_join (s2, a2) = (s2, a3)" by (cases "link_state (c_sp s2) \<noteq> 1 \<and> is_tnode s2") (auto simp: wake_join_def)
  have "macs_inv e s1 = macs_inv e s" using role_line_frames [OF r] role_line_macs [OF r] by (intro macs_inv_frame) auto
  with user_entry_macs [OF assms(1) u] Cons.prems(2) have "macs_inv e s2" by simp
  from Cons.IH [OF n [unfolded w] this] show ?case .
qed simp

lemma signal_loop_macs: "macs_inv e (signal_loop lmax ls s) = macs_inv e s"
proof (induction ls arbitrary: s)
  case (Cons l ls)
  show ?case unfolding signal_loop.simps Cons.IH
    by (rule macs_inv_frame) (auto simp: upd_sp_def upd_basic_def c_basic_def split: list.splits sval.splits)
qed simp

lemma radio_macs: "radio m s = (r, s1) \<Longrightarrow> macs_inv e s1 = macs_inv e s"
  using radio_frames [of m s] by (intro macs_inv_frame) auto

lemma take_channel_macs:
  assumes "e_io e = (\<lambda>_ _. io_ok)" "macs_inv e s"
  shows "macs_inv e (take_channel e s)"
proof -
  obtain ch s1 where r: "radio (slb_get_channel (e_sh e) (ce_lmax (e_cfg e)) (Some net_vap_name)) s = (ch, s1)" by (cases "radio (slb_get_channel (e_sh e) (ce_lmax (e_cfg e)) (Some net_vap_name)) s") auto
  then have i: "macs_inv e s1" using radio_macs [OF r] assms(2) by simp
  let ?t = "upd_basic (\<lambda>b. b\<lparr>bi_channel := ch\<rparr>) s1"
  have "macs_inv e ?t = macs_inv e s1" by (rule macs_inv_frame) (simp_all, simp_all add: upd_basic_def)
  with i have it: "macs_inv e ?t" by simp
  then have wf: "wf_file (c_cfg ?t)" by (simp add: macs_inv_def macs_saved_def)
  have sv: "save_int e ''CHANNEL'' ch ?t = save_str e ''CHANNEL'' (cbuf 32 (show_int ch)) ?t"
    by (simp add: save_int_def save_str_def config_set_int_def)
  note f = save_str_file [OF assms(1) wf cut_int_good [OF mac_keys(4)]]
  have "macs_inv e (save_int e ''CHANNEL'' ch ?t)"
    using it f unfolding sv macs_inv_def macs_ok_def macs_saved_def by auto
  with i show ?thesis by (simp add: take_channel_def r)
qed

lemma version_macs: "get_all_version e junk s = Some s1 \<Longrightarrow> macs_inv e s1 = macs_inv e s"
proof -
  assume a: "get_all_version e junk s = Some s1"
  obtain r v s2 where g: "get_firmware_version e junk s = (r, v, s2)" by (cases "get_firmware_version e junk s") auto
  obtain o1 s3 where p: "radio (pipe (e_sh e) (cbuf 128 (iwpriv (Some net_vap_name) ''cfg'' ''get_version''))) s = (o1, s3)"
    by (cases "radio (pipe (e_sh e) (cbuf 128 (iwpriv (Some net_vap_name) ''cfg'' ''get_version''))) s") auto
  have "s2 = s3" using g p by (cases o1) (auto simp: get_firmware_version_def Let_def)
  with p have i: "macs_inv e s2 = macs_inv e s" using radio_macs by simp
  from a g obtain t where t: "s1 = upd_basic (\<lambda>b. b\<lparr>bi_version := t\<rparr>) s2" by (auto simp: get_all_version_def Let_def split: if_splits)
  have "macs_inv e s1 = macs_inv e s2" unfolding t by (rule macs_inv_frame) (simp_all, simp_all add: upd_basic_def)
  with i show ?thesis by simp
qed

lemma splink_info_macs:
  assumes io: "e_io e = (\<lambda>_ _. io_ok)" and r: "wtsl_core_get_splink_info e junk (s, a) = Some (k, s', a')" and i: "macs_inv e s"
  shows "macs_inv e s'"
proof -
  obtain s1 a1 where u: "get_view_users_info e (s, a) = Some (s1, a1)"
    using r by (auto simp: wtsl_core_get_splink_info_def bind_eq_Some_conv)
  then obtain s2 where v: "get_all_version e junk (take_channel e s1) = Some s2"
    using r by (auto simp: wtsl_core_get_splink_info_def bind_eq_Some_conv)
  obtain op s0 where p: "radio (pipe (e_sh e) (cbuf 64 (iwpriv (Some net_vap_name) ''cfg'' ''view_users''))) s = (op, s0)"
    by (cases "radio (pipe (e_sh e) (cbuf 64 (iwpriv (Some net_vap_name) ''cfg'' ''view_users''))) s") auto
  from u p obtain out where "users_loop e (fgets_all 127 out) (-1, -1) (s0, a) = Some (s1, a1)"
    by (cases op) (auto simp: get_view_users_info_def)
  from users_loop_macs [OF io this] have "macs_inv e s1" using radio_macs [OF p] i by simp
  from take_channel_macs [OF io this] have i2: "macs_inv e s2" using version_macs [OF v] by simp
  show ?thesis
  proof (cases "is_tnode s2 \<and> link_state (c_sp s2) = 1")
    case False
    with r u v have "s' = s2" by (auto simp: wtsl_core_get_splink_info_def)
    with i2 show ?thesis by simp
  next
    case True
    with r u v have g: "get_rssi_info e s2 = Some s'" by (auto simp: wtsl_core_get_splink_info_def bind_eq_Some_conv)
    obtain oq s3 where q: "radio (pipe (e_sh e) (cbuf 64 (iwpriv (Some net_vap_name) ''cfg'' ''get_rssi''))) s2 = (oq, s3)"
      by (cases "radio (pipe (e_sh e) (cbuf 64 (iwpriv (Some net_vap_name) ''cfg'' ''get_rssi''))) s2") auto
    from g q have "macs_inv e s' = macs_inv e s3" by (cases oq) (auto simp: get_rssi_info_def signal_loop_macs)
    with radio_macs [OF q] i2 show ?thesis by simp
  qed
qed

lemma round_macs:
  assumes "e_io e = (\<lambda>_ _. io_ok)" "watcher_round e junk (s, a) = Some (s', a')" "macs_inv e s"
  shows "macs_inv e s'"
proof -
  obtain k s1 a1 where r: "wtsl_core_get_splink_info e junk (s, a) = Some (k, s1, a1)"
    using assms(2) by (auto simp: watcher_round_def bind_eq_Some_conv)
  have i: "macs_inv e s1" by (rule splink_info_macs [OF assms(1) r assms(3)])
  have "\<exists>n. s' = s1\<lparr>c_nodes := n\<rparr> \<or> s' = s1"
    using assms(2) r by (auto simp: watcher_round_def bind_eq_Some_conv split: prod.splits option.splits)
  then obtain n where "s' = s1\<lparr>c_nodes := n\<rparr> \<or> s' = s1" ..
  moreover have "macs_inv e (s1\<lparr>c_nodes := n\<rparr>) = macs_inv e s1" by (rule macs_inv_frame) (simp_all add: c_basic_def)
  ultimately show ?thesis using i by auto
qed

lemma rounds_macs:
  assumes "e_io e = (\<lambda>_ _. io_ok)" "watcher_rounds e junk n (s, a) = Some (s', a')" "macs_inv e s"
  shows "macs_inv e s'"
  using assms(2,3)
proof (induction n arbitrary: s a)
  case (Suc n)
  then obtain s1 a1 where r: "watcher_round e junk (s, a) = Some (s1, a1)" and n: "watcher_rounds e junk n (s1, a1) = Some (s', a')"
    by (auto simp: bind_eq_Some_conv)
  from Suc.IH [OF n round_macs [OF assms(1) r Suc.prems(2)]] show ?case .
qed simp

text \<open>C24. Through any number of rounds of the watcher, whatever the driver reports, the three addresses the automatic join tries are
  the ones a restart reads back from the file; they stay words of at most 17 characters.\<close>

theorem join_addresses_survive:
  assumes "watcher_rounds e junk n (s, a) = Some (s', a')" "e_io e = (\<lambda>_ _. io_ok)" "wf_file (c_cfg s)" "macs_ok s"
    and "bi_auto_join_net_mac b = [[], [], []]" "bi_auto_join_net_mac (read_basic (cfg_of e s) b) = bi_auto_join_net_mac (c_basic s)"
  shows "bi_auto_join_net_mac (read_basic (cfg_of e s') b) = bi_auto_join_net_mac (c_basic s') \<and> macs_ok s' \<and> wf_file (c_cfg s')"
proof -
  have eq: "bi_auto_join_net_mac (read_basic (cfg_of e t) b) = map (\<lambda>k. file_mac e k t)
      [''AUTO_JOIN_NET_MAC0'', ''AUTO_JOIN_NET_MAC1'', ''AUTO_JOIN_NET_MAC2'']" for t
    using assms(5) by (simp add: read_basic_def file_mac_def numeral_2_eq_2)
  have "macs_inv e s" using assms(3,4,6) eq [of s] by (simp add: macs_inv_def macs_saved_def)
  from rounds_macs [OF assms(2,1) this] show ?thesis using eq [of s'] by (simp add: macs_inv_def macs_saved_def)
qed

theorem join_addresses_survive_witness:
  "\<exists>s' a'. watcher_rounds (joined_env ''1'') ''-'' 1 (joined_core, api_start) = Some (s', a') \<and>
    bi_auto_join_net_mac (read_basic (cfg_of (joined_env ''1'') s') (c_basic joined_core)) = [''aa:bb:cc:dd:ee:02'', [], []]"
proof -
  let ?e = "joined_env ''1''"
  have "map_option (\<lambda>(k, s, a). (bi_auto_join_net_mac (c_basic s), Option.is_none (fst (c_nodes s)))) (wtsl_core_get_splink_info ?e ''-'' (joined_core, api_start)) =
      Some ([''aa:bb:cc:dd:ee:02'', [], []], True)" by code_simp
  then obtain k s' a' where i: "wtsl_core_get_splink_info ?e ''-'' (joined_core, api_start) = Some (k, s', a')"
    and m: "bi_auto_join_net_mac (c_basic s') = [''aa:bb:cc:dd:ee:02'', [], []]" and n: "fst (c_nodes s') = None" by (auto simp: Option.is_none_def)
  from n have "watcher_round ?e ''-'' (joined_core, api_start) = Some (s', a')" by (cases "c_nodes s'") (simp add: watcher_round_def i)
  then have r: "watcher_rounds ?e ''-'' 1 (joined_core, api_start) = Some (s', a')" by simp
  have "bi_auto_join_net_mac (read_basic (cfg_of ?e joined_core) (c_basic joined_core)) = bi_auto_join_net_mac (c_basic joined_core)"
    by (simp add: read_basic_def cfg_of_def joined_fields rd_str_def config_get_def joined_basic numeral_2_eq_2)
  moreover have "macs_ok joined_core" "bi_auto_join_net_mac (c_basic joined_core) = [[], [], []]"
    by (simp_all add: macs_ok_def joined_basic joined_fields mac_text_def)
  ultimately show ?thesis using join_addresses_survive [OF r joined_fields(4)] r m by (simp add: joined_fields wf_file_def)
qed

end
