(* ===== verification/JoinThreads.thy ===== *)
theory JoinThreads
  imports SplinkState ApiProps
begin

text \<open>
  The threads around the automatic join (slal/wtsl_core_splink_state.c, the users' report of api/wtsl_core_api.c and the switch of
  slal/node/wtsl_core_node_callback.c) as they interleave: the watcher, the join thread, the thread of the web server and the
  heartbeats, over the three mutexes and the two condition variables they share.  A step is one access to the shared data or one
  operation on a mutex or a condition variable; the flag is read as one access with what is tested beside it.
\<close>

section \<open>States\<close>

datatype thread = Watcher | Joiner | Server | Beat

text \<open>\<open>global_node_info.mutex\<close>, \<open>auto_join_net_mutex\<close>, \<open>auto_join_net_flag_mutex\<close>.\<close>

datatype mtx = Global_Mutex | Join_Mutex | Flag_Mutex

text \<open>Where each thread is.  A line of the report is read, tested, and when the link is down the join thread is signalled.\<close>

datatype w_pc = W_Top | W_LockGlobal | W_Line | W_Test | W_LockJoin | W_Signal | W_UnlockJoin | W_Rest | W_Exit

datatype j_pc = J_Top | J_LockFlag | J_FlagTest | J_FlagWait | J_FlagWoken | J_UnlockFlag
  | J_LockJoin | J_LinkTest | J_LinkWait | J_LinkWoken | J_Check | J_Join | J_UnlockJoin | J_Exit

text \<open>The server's thread runs one request at a time: one that sets the switch, or one that holds the global mutex.\<close>

datatype h_pc = H_Idle | H_LockFlag | H_SetFlag | H_SignalFlag | H_UnlockFlag | H_LockGlobal | H_Global

datatype b_pc = B_Idle | B_LockGlobal | B_Send

record threads =
  t_w :: w_pc
  t_j :: j_pc
  t_h :: h_pc
  t_b :: b_pc
  t_global :: "thread option"
  t_join :: "thread option"
  t_flagm :: "thread option"
  t_run :: bool
  t_node :: bool
  t_type :: bool
  t_link :: bool
  t_flag :: bool
  t_idx :: nat
  t_tried :: "nat list"
  t_signals :: nat

text \<open>A signal wakes the thread that waits, if it does.\<close>

definition signal_join :: "j_pc \<Rightarrow> j_pc" where
  "signal_join p = (if p = J_LinkWait then J_LinkWoken else p)"

definition signal_flag :: "j_pc \<Rightarrow> j_pc" where
  "signal_flag p = (if p = J_FlagWait then J_FlagWoken else p)"

section \<open>Steps\<close>

inductive thr_step :: "threads \<Rightarrow> threads \<Rightarrow> bool" where
  \<comment> \<open>the watcher\<close>
  w_enter: "t_w s = W_Top \<Longrightarrow> t_run s \<Longrightarrow> thr_step s (s\<lparr>t_w := W_LockGlobal\<rparr>)"
| w_leave: "t_w s = W_Top \<Longrightarrow> \<not> t_run s \<Longrightarrow> thr_step s (s\<lparr>t_w := W_Exit\<rparr>)"
| w_lock: "t_w s = W_LockGlobal \<Longrightarrow> t_global s = None \<Longrightarrow> thr_step s (s\<lparr>t_w := W_Line, t_global := Some Watcher\<rparr>)"
| w_role: "t_w s = W_Line \<Longrightarrow> thr_step s (s\<lparr>t_w := W_Test, t_link := k\<rparr>)"
| w_other: "t_w s = W_Line \<Longrightarrow> thr_step s (s\<lparr>t_w := W_Test\<rparr>)"
| w_end: "t_w s = W_Line \<Longrightarrow> thr_step s (s\<lparr>t_w := W_Rest\<rparr>)"
| w_down: "t_w s = W_Test \<Longrightarrow> \<not> t_link s \<and> t_node s \<Longrightarrow> thr_step s (s\<lparr>t_w := W_LockJoin\<rparr>)"
| w_up: "t_w s = W_Test \<Longrightarrow> \<not> (\<not> t_link s \<and> t_node s) \<Longrightarrow> thr_step s (s\<lparr>t_w := W_Line\<rparr>)"
| w_lock_join: "t_w s = W_LockJoin \<Longrightarrow> t_join s = None \<Longrightarrow> thr_step s (s\<lparr>t_w := W_Signal, t_join := Some Watcher\<rparr>)"
| w_signal: "t_w s = W_Signal \<Longrightarrow>
    thr_step s (s\<lparr>t_w := W_UnlockJoin, t_j := signal_join (t_j s), t_signals := Suc (t_signals s)\<rparr>)"
| w_unlock_join: "t_w s = W_UnlockJoin \<Longrightarrow> thr_step s (s\<lparr>t_w := W_Line, t_join := None\<rparr>)"
| w_unlock: "t_w s = W_Rest \<Longrightarrow> thr_step s (s\<lparr>t_w := W_Top, t_global := None\<rparr>)"
  \<comment> \<open>the join thread\<close>
| j_enter: "t_j s = J_Top \<Longrightarrow> t_run s \<and> t_type s \<Longrightarrow> thr_step s (s\<lparr>t_j := J_LockFlag\<rparr>)"
| j_leave: "t_j s = J_Top \<Longrightarrow> \<not> (t_run s \<and> t_type s) \<Longrightarrow> thr_step s (s\<lparr>t_j := J_Exit\<rparr>)"
| j_lock_flag: "t_j s = J_LockFlag \<Longrightarrow> t_flagm s = None \<Longrightarrow> thr_step s (s\<lparr>t_j := J_FlagTest, t_flagm := Some Joiner\<rparr>)"
| j_flag_off: "t_j s = J_FlagTest \<Longrightarrow> \<not> t_flag s \<Longrightarrow> thr_step s (s\<lparr>t_j := J_FlagWait, t_flagm := None\<rparr>)"
| j_flag_on: "t_j s = J_FlagTest \<Longrightarrow> t_flag s \<Longrightarrow> thr_step s (s\<lparr>t_j := J_UnlockFlag\<rparr>)"
| j_flag_spurious: "t_j s = J_FlagWait \<Longrightarrow> thr_step s (s\<lparr>t_j := J_FlagWoken\<rparr>)"
| j_flag_woken: "t_j s = J_FlagWoken \<Longrightarrow> t_flagm s = None \<Longrightarrow> thr_step s (s\<lparr>t_j := J_FlagTest, t_flagm := Some Joiner\<rparr>)"
| j_unlock_flag: "t_j s = J_UnlockFlag \<Longrightarrow> thr_step s (s\<lparr>t_j := J_LockJoin, t_flagm := None\<rparr>)"
| j_lock_join: "t_j s = J_LockJoin \<Longrightarrow> t_join s = None \<Longrightarrow> thr_step s (s\<lparr>t_j := J_LinkTest, t_join := Some Joiner\<rparr>)"
| j_link_up: "t_j s = J_LinkTest \<Longrightarrow> t_link s \<and> t_run s \<Longrightarrow> thr_step s (s\<lparr>t_j := J_LinkWait, t_join := None\<rparr>)"
| j_link_down: "t_j s = J_LinkTest \<Longrightarrow> \<not> (t_link s \<and> t_run s) \<Longrightarrow> thr_step s (s\<lparr>t_j := J_Check\<rparr>)"
| j_link_spurious: "t_j s = J_LinkWait \<Longrightarrow> thr_step s (s\<lparr>t_j := J_LinkWoken\<rparr>)"
| j_link_woken: "t_j s = J_LinkWoken \<Longrightarrow> t_join s = None \<Longrightarrow>
    thr_step s (s\<lparr>t_j := J_LinkTest, t_join := Some Joiner, t_idx := 0\<rparr>)"
| j_check_off: "t_j s = J_Check \<Longrightarrow> \<not> t_flag s \<Longrightarrow> thr_step s (s\<lparr>t_j := J_UnlockJoin\<rparr>)"
| j_check_on: "t_j s = J_Check \<Longrightarrow> t_flag s \<Longrightarrow> thr_step s (s\<lparr>t_j := J_Join\<rparr>)"
| j_join: "t_j s = J_Join \<Longrightarrow>
    thr_step s (s\<lparr>t_j := J_UnlockJoin, t_tried := t_tried s @ [t_idx s], t_idx := (if t_idx s = 2 then 0 else t_idx s + 1)\<rparr>)"
| j_unlock_join: "t_j s = J_UnlockJoin \<Longrightarrow> thr_step s (s\<lparr>t_j := J_Top, t_join := None\<rparr>)"
  \<comment> \<open>the server: a scan and the defaults clear the switch without the mutex\<close>
| h_clear: "t_h s = H_Idle \<Longrightarrow> thr_step s (s\<lparr>t_flag := False\<rparr>)"
| h_switch: "t_h s = H_Idle \<Longrightarrow> thr_step s (s\<lparr>t_h := H_LockFlag\<rparr>)"
| h_lock_flag: "t_h s = H_LockFlag \<Longrightarrow> t_flagm s = None \<Longrightarrow> thr_step s (s\<lparr>t_h := H_SetFlag, t_flagm := Some Server\<rparr>)"
| h_set: "t_h s = H_SetFlag \<Longrightarrow> thr_step s (s\<lparr>t_h := H_SignalFlag, t_flag := f\<rparr>)"
| h_signal: "t_h s = H_SignalFlag \<Longrightarrow> thr_step s (s\<lparr>t_h := H_UnlockFlag, t_j := signal_flag (t_j s)\<rparr>)"
| h_unlock_flag: "t_h s = H_UnlockFlag \<Longrightarrow> thr_step s (s\<lparr>t_h := H_Idle, t_flagm := None\<rparr>)"
| h_request: "t_h s = H_Idle \<Longrightarrow> thr_step s (s\<lparr>t_h := H_LockGlobal\<rparr>)"
| h_lock_global: "t_h s = H_LockGlobal \<Longrightarrow> t_global s = None \<Longrightarrow> thr_step s (s\<lparr>t_h := H_Global, t_global := Some Server\<rparr>)"
| h_unlock_global: "t_h s = H_Global \<Longrightarrow> thr_step s (s\<lparr>t_h := H_Idle, t_global := None, t_type := y\<rparr>)"
  \<comment> \<open>the heartbeats, and the end of the program\<close>
| b_beat: "t_b s = B_Idle \<Longrightarrow> thr_step s (s\<lparr>t_b := B_LockGlobal\<rparr>)"
| b_lock: "t_b s = B_LockGlobal \<Longrightarrow> t_global s = None \<Longrightarrow> thr_step s (s\<lparr>t_b := B_Send, t_global := Some Beat\<rparr>)"
| b_unlock: "t_b s = B_Send \<Longrightarrow> thr_step s (s\<lparr>t_b := B_Idle, t_global := None\<rparr>)"
| release: "thr_step s (s\<lparr>t_run := False\<rparr>)"

inductive_cases thr_stepE: "thr_step s s'"

definition thr_start :: "threads \<Rightarrow> bool" where
  "thr_start s \<longleftrightarrow> t_w s = W_Top \<and> t_j s = J_Top \<and> t_h s = H_Idle \<and> t_b s = B_Idle \<and>
     t_global s = None \<and> t_join s = None \<and> t_flagm s = None \<and> t_idx s = 0 \<and> t_tried s = []"

abbreviation thr_reach :: "threads \<Rightarrow> bool" where
  "thr_reach \<equiv> reachable thr_start thr_step"

section \<open>Who holds what\<close>

definition holder :: "mtx \<Rightarrow> threads \<Rightarrow> thread option" where
  "holder m s = (case m of Global_Mutex \<Rightarrow> t_global s | Join_Mutex \<Rightarrow> t_join s | Flag_Mutex \<Rightarrow> t_flagm s)"

text \<open>The critical sections, by the place of each thread.\<close>

definition inside :: "mtx \<Rightarrow> thread \<Rightarrow> threads \<Rightarrow> bool" where
  "inside m t s = (case (m, t) of
     (Global_Mutex, Watcher) \<Rightarrow> t_w s \<in> {W_Line, W_Test, W_LockJoin, W_Signal, W_UnlockJoin, W_Rest}
   | (Global_Mutex, Server) \<Rightarrow> t_h s = H_Global
   | (Global_Mutex, Beat) \<Rightarrow> t_b s = B_Send
   | (Join_Mutex, Watcher) \<Rightarrow> t_w s \<in> {W_Signal, W_UnlockJoin}
   | (Join_Mutex, Joiner) \<Rightarrow> t_j s \<in> {J_LinkTest, J_Check, J_Join, J_UnlockJoin}
   | (Flag_Mutex, Joiner) \<Rightarrow> t_j s \<in> {J_FlagTest, J_UnlockFlag}
   | (Flag_Mutex, Server) \<Rightarrow> t_h s \<in> {H_SetFlag, H_SignalFlag, H_UnlockFlag}
   | _ \<Rightarrow> False)"

definition wants :: "thread \<Rightarrow> threads \<Rightarrow> mtx option" where
  "wants t s = (case t of
     Watcher \<Rightarrow> (if t_w s = W_LockGlobal then Some Global_Mutex else if t_w s = W_LockJoin then Some Join_Mutex else None)
   | Joiner \<Rightarrow> (if t_j s \<in> {J_LockFlag, J_FlagWoken} then Some Flag_Mutex
       else if t_j s \<in> {J_LockJoin, J_LinkWoken} then Some Join_Mutex else None)
   | Server \<Rightarrow> (if t_h s = H_LockFlag then Some Flag_Mutex else if t_h s = H_LockGlobal then Some Global_Mutex else None)
   | Beat \<Rightarrow> (if t_b s = B_LockGlobal then Some Global_Mutex else None))"

definition waits_for :: "threads \<Rightarrow> thread \<Rightarrow> thread \<Rightarrow> bool" where
  "waits_for s t u \<longleftrightarrow> (\<exists>m. wants t s = Some m \<and> holder m s = Some u)"

text \<open>A mutex is held by the thread inside its critical section, and a thread that sleeps on a condition has had its reason, or the
  signal is on its way.\<close>

definition exclusive :: "mtx \<Rightarrow> threads \<Rightarrow> bool" where
  "exclusive m s \<longleftrightarrow> (\<forall>t. holder m s = Some t \<longleftrightarrow> inside m t s)"

definition link_awake :: "threads \<Rightarrow> bool" where
  "link_awake s \<longleftrightarrow> (t_j s = J_LinkWait \<and> t_node s \<longrightarrow> t_link s \<or> t_w s \<in> {W_Test, W_LockJoin, W_Signal})"

definition flag_awake :: "threads \<Rightarrow> bool" where
  "flag_awake s \<longleftrightarrow> (t_j s = J_FlagWait \<longrightarrow> \<not> t_flag s \<or> t_h s = H_SignalFlag)"

definition thr_inv :: "threads \<Rightarrow> bool" where
  "thr_inv s \<longleftrightarrow> (\<forall>m. exclusive m s) \<and> link_awake s \<and> flag_awake s"

lemma all_mtx: "(\<forall>m. P m) \<longleftrightarrow> P Global_Mutex \<and> P Join_Mutex \<and> P Flag_Mutex"
  by (metis mtx.exhaust)

lemma all_thread: "(\<forall>t. P t) \<longleftrightarrow> P Watcher \<and> P Joiner \<and> P Server \<and> P Beat"
  by (metis thread.exhaust)

lemma exclusive_global: "exclusive Global_Mutex s \<longleftrightarrow>
    (t_global s = Some Watcher \<longleftrightarrow> t_w s \<in> {W_Line, W_Test, W_LockJoin, W_Signal, W_UnlockJoin, W_Rest}) \<and>
    (t_global s = Some Server \<longleftrightarrow> t_h s = H_Global) \<and> (t_global s = Some Beat \<longleftrightarrow> t_b s = B_Send) \<and> t_global s \<noteq> Some Joiner"
  unfolding exclusive_def all_thread by (simp add: holder_def inside_def) argo

lemma exclusive_join: "exclusive Join_Mutex s \<longleftrightarrow>
    (t_join s = Some Watcher \<longleftrightarrow> t_w s \<in> {W_Signal, W_UnlockJoin}) \<and>
    (t_join s = Some Joiner \<longleftrightarrow> t_j s \<in> {J_LinkTest, J_Check, J_Join, J_UnlockJoin}) \<and> t_join s \<noteq> Some Server \<and> t_join s \<noteq> Some Beat"
  unfolding exclusive_def all_thread by (simp add: holder_def inside_def)

lemma exclusive_flag: "exclusive Flag_Mutex s \<longleftrightarrow>
    (t_flagm s = Some Joiner \<longleftrightarrow> t_j s \<in> {J_FlagTest, J_UnlockFlag}) \<and>
    (t_flagm s = Some Server \<longleftrightarrow> t_h s \<in> {H_SetFlag, H_SignalFlag, H_UnlockFlag}) \<and> t_flagm s \<noteq> Some Watcher \<and> t_flagm s \<noteq> Some Beat"
  unfolding exclusive_def all_thread by (simp add: holder_def inside_def) argo

lemma signals [simp]:
  "q \<noteq> J_LinkWait \<Longrightarrow> q \<noteq> J_LinkWoken \<Longrightarrow> signal_join p = q \<longleftrightarrow> p = q"
  "q \<noteq> J_FlagWait \<Longrightarrow> q \<noteq> J_FlagWoken \<Longrightarrow> signal_flag p = q \<longleftrightarrow> p = q"
  "signal_join p \<noteq> J_LinkWait" "signal_flag p \<noteq> J_FlagWait"
  by (auto simp: signal_join_def signal_flag_def)

lemma exclusive_global_step: "thr_step s s' \<Longrightarrow> exclusive Global_Mutex s \<Longrightarrow> exclusive Global_Mutex s'"
  unfolding exclusive_global by (erule thr_stepE) (simp_all, auto)

lemma exclusive_join_step: "thr_step s s' \<Longrightarrow> exclusive Join_Mutex s \<Longrightarrow> exclusive Join_Mutex s'"
  unfolding exclusive_join by (erule thr_stepE) (simp_all, auto)

lemma exclusive_flag_step: "thr_step s s' \<Longrightarrow> exclusive Flag_Mutex s \<Longrightarrow> exclusive Flag_Mutex s'"
  unfolding exclusive_flag by (erule thr_stepE) (simp_all, auto)

lemma link_awake_step: "thr_step s s' \<Longrightarrow> link_awake s \<Longrightarrow> link_awake s'"
  unfolding link_awake_def by (erule thr_stepE) auto

lemma flag_awake_step: "thr_step s s' \<Longrightarrow> flag_awake s \<Longrightarrow> flag_awake s'"
  unfolding flag_awake_def by (erule thr_stepE) auto

text \<open>The join thread as SplinkState has it: what a scan and a join will do counts as done when they begin, and a thread
  that waits for the link starts again at the first address.\<close>

fun join_phase :: "j_pc \<Rightarrow> aj_phase" where
  "join_phase J_Top = AJ_Top" | "join_phase J_LockFlag = AJ_Flag" | "join_phase J_FlagTest = AJ_Flag"
| "join_phase J_FlagWait = AJ_Flag" | "join_phase J_FlagWoken = AJ_Flag" | "join_phase J_UnlockFlag = AJ_Link"
| "join_phase J_LockJoin = AJ_Link" | "join_phase J_LinkTest = AJ_Link" | "join_phase J_LinkWait = AJ_Link"
| "join_phase J_LinkWoken = AJ_Link" | "join_phase J_Check = AJ_Check" | "join_phase J_Join = AJ_Top"
| "join_phase J_UnlockJoin = AJ_Top" | "join_phase J_Exit = AJ_Exit"

definition join_idx :: "j_pc \<Rightarrow> nat \<Rightarrow> nat" where
  "join_idx p i = (case p of J_Join \<Rightarrow> next_idx i | J_LinkWait \<Rightarrow> 0 | J_LinkWoken \<Rightarrow> 0 | _ \<Rightarrow> i)"

definition join_tried :: "j_pc \<Rightarrow> nat \<Rightarrow> nat list \<Rightarrow> nat list" where
  "join_tried p i t = (case p of J_Join \<Rightarrow> t @ [i] | _ \<Rightarrow> t)"

definition join_view :: "threads \<Rightarrow> aj" where
  "join_view s = \<lparr>aj_phase = join_phase (t_j s), aj_idx = join_idx (t_j s) (t_idx s), aj_run = t_run s, aj_tnode = t_type s,
     aj_flag = t_flag s, aj_linked = t_link s, aj_tried = join_tried (t_j s) (t_idx s) (t_tried s)\<rparr>"

lemma aj_env_to: "aj_phase b = aj_phase a \<Longrightarrow> aj_idx b = aj_idx a \<Longrightarrow> aj_tried b = aj_tried a \<Longrightarrow> aj_step a b"
proof -
  assume "aj_phase b = aj_phase a" "aj_idx b = aj_idx a" "aj_tried b = aj_tried a"
  then have "b = a\<lparr>aj_run := aj_run b, aj_tnode := aj_tnode b, aj_flag := aj_flag b, aj_linked := aj_linked b\<rparr>" by simp
  then show "aj_step a b" using aj_step.env by metis
qed

lemma signal_phase [simp]: "join_phase (signal_join p) = join_phase p" "join_phase (signal_flag p) = join_phase p"
  "join_idx (signal_join p) = join_idx p" "join_idx (signal_flag p) = join_idx p"
  "join_tried (signal_join p) = join_tried p" "join_tried (signal_flag p) = join_tried p"
  by (auto simp: signal_join_def signal_flag_def join_idx_def join_tried_def fun_eq_iff)

lemmas join_defs = join_view_def join_idx_def join_tried_def next_idx_def

lemma join_view_step:
  assumes "thr_step s s'"
  shows "aj_step (join_view s) (join_view s')"
  using assms
proof cases
  case j_enter
  then show ?thesis using aj_step.enter [of "join_view s"] by (simp add: join_defs)
next
  case j_leave
  then show ?thesis using aj_step.leave [of "join_view s"] by (simp add: join_defs)
next
  case j_flag_on
  then show ?thesis using aj_step.flag_set [of "join_view s"] by (simp add: join_defs)
next
  case j_link_up
  then show ?thesis using aj_step.link_wait [of "join_view s"] by (simp add: join_defs)
next
  case j_link_down
  then show ?thesis using aj_step.link_down [of "join_view s"] by (simp add: join_defs)
next
  case j_check_off
  then show ?thesis using aj_step.flag_cleared [of "join_view s"] by (simp add: join_defs)
next
  case j_check_on
  then show ?thesis using aj_step.join [of "join_view s"] by (cases "t_idx s = 2") (simp_all add: join_defs)
next
  case w_signal
  then show ?thesis by (intro aj_env_to) (simp_all add: join_view_def)
next
  case h_signal
  then show ?thesis by (intro aj_env_to) (simp_all add: join_view_def)
qed (simp_all add: aj_env_to join_defs)

interpretation thr: refinement_mapping thr_start thr_step thr_inv aj_start aj_step join_view
proof (unfold_locales, goal_cases)
  case (1 s)
  then show ?case by (simp add: thr_start_def thr_inv_def all_mtx exclusive_global exclusive_join exclusive_flag link_awake_def flag_awake_def)
next
  case (2 s s')
  then show ?case
    using exclusive_global_step exclusive_join_step exclusive_flag_step link_awake_step flag_awake_step
    by (simp add: thr_inv_def all_mtx)
next
  case (3 s)
  then show ?case by (simp add: thr_start_def aj_start_def join_defs)
qed (simp add: join_view_step)

section \<open>Who waits for whom\<close>

text \<open>The thread has taken a step.\<close>

definition moved :: "thread \<Rightarrow> threads \<Rightarrow> threads \<Rightarrow> bool" where
  "moved t s s' \<longleftrightarrow> thr_step s s' \<and> (case t of Watcher \<Rightarrow> t_w s' \<noteq> t_w s | Joiner \<Rightarrow> t_j s' \<noteq> t_j s | Server \<Rightarrow> t_h s' \<noteq> t_h s | Beat \<Rightarrow> t_b s' \<noteq> t_b s)"

lemma movedI: "thr_step s s' \<Longrightarrow> (case t of Watcher \<Rightarrow> t_w s' \<noteq> t_w s | Joiner \<Rightarrow> t_j s' \<noteq> t_j s | Server \<Rightarrow> t_h s' \<noteq> t_h s | Beat \<Rightarrow> t_b s' \<noteq> t_b s) \<Longrightarrow>
    \<exists>s'. moved t s s'"
  by (auto simp: moved_def)

lemmas joiner_rules = movedI [OF thr_step.j_link_up] movedI [OF thr_step.j_link_down] movedI [OF thr_step.j_check_on]
  movedI [OF thr_step.j_check_off] movedI [OF thr_step.j_join] movedI [OF thr_step.j_unlock_join] movedI [OF thr_step.j_flag_on]
  movedI [OF thr_step.j_flag_off] movedI [OF thr_step.j_unlock_flag]

lemmas server_rules = movedI [OF thr_step.h_unlock_global] movedI [OF thr_step.h_set] movedI [OF thr_step.h_signal] movedI [OF thr_step.h_unlock_flag]

lemmas watcher_rules = movedI [OF thr_step.w_end] movedI [OF thr_step.w_down] movedI [OF thr_step.w_up] movedI [OF thr_step.w_lock_join]
  movedI [OF thr_step.w_signal] movedI [OF thr_step.w_unlock_join] movedI [OF thr_step.w_unlock]

lemma joiner_moves: "inside m Joiner s \<Longrightarrow> \<exists>s'. moved Joiner s s'"
  by (cases m; cases "t_link s \<and> t_run s"; cases "t_flag s") (auto simp: inside_def joiner_rules)

lemma server_moves: "inside m Server s \<Longrightarrow> \<exists>s'. moved Server s s'"
  by (cases m) (auto simp: inside_def server_rules)

lemma beat_moves: "inside m Beat s \<Longrightarrow> \<exists>s'. moved Beat s s'"
  by (cases m) (auto simp: inside_def movedI [OF thr_step.b_unlock])

lemma watcher_moves: "inside m Watcher s \<Longrightarrow> t_w s \<noteq> W_LockJoin \<or> t_join s = None \<Longrightarrow> \<exists>s'. moved Watcher s s'"
  by (cases m; cases "\<not> t_link s \<and> t_node s") (auto simp: inside_def watcher_rules)

lemma holder_inside: "thr_inv s \<Longrightarrow> holder m s = Some t \<longleftrightarrow> inside m t s"
  by (simp add: thr_inv_def exclusive_def)

text \<open>A thread that holds what another waits for moves itself, or is the watcher, which waits for the join thread, which moves.\<close>

lemma wait_ends:
  assumes "thr_inv s" "waits_for s t u"
  shows "\<exists>v s'. (u = v \<or> waits_for s u v) \<and> moved v s s'"
proof -
  from assms obtain m where u: "inside m u s" by (auto simp: waits_for_def holder_inside)
  show ?thesis
  proof (cases "u = Watcher \<and> t_w s = W_LockJoin \<and> t_join s \<noteq> None")
    case True
    then obtain v where v: "holder Join_Mutex s = Some v" by (auto simp: holder_def)
    with assms(1) have "inside Join_Mutex v s" by (simp add: holder_inside)
    with True have "inside Join_Mutex Joiner s" "v = Joiner" by (cases v; auto simp: inside_def)+
    with joiner_moves True v show ?thesis by (fastforce simp: waits_for_def wants_def)
  next
    case False
    with u joiner_moves server_moves beat_moves watcher_moves have "\<exists>s'. moved u s s'" by (cases u) blast+
    then show ?thesis by blast
  qed
qed

lemma waiting_stays: "wants t s = Some m \<Longrightarrow> moved t s s' \<Longrightarrow> holder m s = None"
  unfolding moved_def
  by (elim conjE thr_stepE; cases t) (auto simp: wants_def holder_def signal_join_def signal_flag_def split: if_splits)

section \<open>A run\<close>

definition demo_at :: "w_pc \<Rightarrow> j_pc \<Rightarrow> h_pc \<Rightarrow> thread option \<Rightarrow> thread option \<Rightarrow> thread option \<Rightarrow> bool \<Rightarrow> nat \<Rightarrow> nat list \<Rightarrow> nat \<Rightarrow> threads" where
  "demo_at w j h g jm fm link i tried n = \<lparr>t_w = w, t_j = j, t_h = h, t_b = B_Idle, t_global = g, t_join = jm, t_flagm = fm, t_run = True, t_node = True,
     t_type = True, t_link = link, t_flag = True, t_idx = i, t_tried = tried, t_signals = n\<rparr>"

text \<open>The join thread waits for the link to go down; the watcher reports it, and waits again while the join thread tries the first address;
  a request waits behind the watcher.\<close>

lemma demo_waits: "thr_reach (demo_at W_Test J_LinkWait H_Idle (Some Watcher) None None False 0 [] 0)"
proof -
  have "thr_reach (demo_at W_Top J_Top H_Idle None None None True 0 [] 0)" by (rule reachable.start) (simp add: demo_at_def thr_start_def)
  then have "thr_reach (demo_at W_Top J_LockFlag H_Idle None None None True 0 [] 0)"
    using thr_step.j_enter [of "demo_at W_Top J_Top H_Idle None None None True 0 [] 0"] by (simp add: demo_at_def signal_join_def reachable.step)
  then have "thr_reach (demo_at W_Top J_FlagTest H_Idle None None (Some Joiner) True 0 [] 0)"
    using thr_step.j_lock_flag [of "demo_at W_Top J_LockFlag H_Idle None None None True 0 [] 0"] by (simp add: demo_at_def signal_join_def reachable.step)
  then have "thr_reach (demo_at W_Top J_UnlockFlag H_Idle None None (Some Joiner) True 0 [] 0)"
    using thr_step.j_flag_on [of "demo_at W_Top J_FlagTest H_Idle None None (Some Joiner) True 0 [] 0"] by (simp add: demo_at_def signal_join_def reachable.step)
  then have "thr_reach (demo_at W_Top J_LockJoin H_Idle None None None True 0 [] 0)"
    using thr_step.j_unlock_flag [of "demo_at W_Top J_UnlockFlag H_Idle None None (Some Joiner) True 0 [] 0"] by (simp add: demo_at_def signal_join_def reachable.step)
  then have "thr_reach (demo_at W_Top J_LinkTest H_Idle None (Some Joiner) None True 0 [] 0)"
    using thr_step.j_lock_join [of "demo_at W_Top J_LockJoin H_Idle None None None True 0 [] 0"] by (simp add: demo_at_def signal_join_def reachable.step)
  then have "thr_reach (demo_at W_Top J_LinkWait H_Idle None None None True 0 [] 0)"
    using thr_step.j_link_up [of "demo_at W_Top J_LinkTest H_Idle None (Some Joiner) None True 0 [] 0"] by (simp add: demo_at_def signal_join_def reachable.step)
  then have "thr_reach (demo_at W_LockGlobal J_LinkWait H_Idle None None None True 0 [] 0)"
    using thr_step.w_enter [of "demo_at W_Top J_LinkWait H_Idle None None None True 0 [] 0"] by (simp add: demo_at_def signal_join_def reachable.step)
  then have "thr_reach (demo_at W_Line J_LinkWait H_Idle (Some Watcher) None None True 0 [] 0)"
    using thr_step.w_lock [of "demo_at W_LockGlobal J_LinkWait H_Idle None None None True 0 [] 0"] by (simp add: demo_at_def signal_join_def reachable.step)
  then show ?thesis
    using thr_step.w_role [of "demo_at W_Line J_LinkWait H_Idle (Some Watcher) None None True 0 [] 0" False] by (simp add: demo_at_def signal_join_def reachable.step)
qed

lemma demo_blocked: "thr_reach (demo_at W_LockJoin J_Join H_LockGlobal (Some Watcher) (Some Joiner) None False 0 [] 1)"
proof -
  note demo_waits
  then have "thr_reach (demo_at W_LockJoin J_LinkWait H_Idle (Some Watcher) None None False 0 [] 0)"
    using thr_step.w_down [of "demo_at W_Test J_LinkWait H_Idle (Some Watcher) None None False 0 [] 0"] by (simp add: demo_at_def signal_join_def reachable.step)
  then have "thr_reach (demo_at W_Signal J_LinkWait H_Idle (Some Watcher) (Some Watcher) None False 0 [] 0)"
    using thr_step.w_lock_join [of "demo_at W_LockJoin J_LinkWait H_Idle (Some Watcher) None None False 0 [] 0"] by (simp add: demo_at_def signal_join_def reachable.step)
  then have "thr_reach (demo_at W_UnlockJoin J_LinkWoken H_Idle (Some Watcher) (Some Watcher) None False 0 [] 1)"
    using thr_step.w_signal [of "demo_at W_Signal J_LinkWait H_Idle (Some Watcher) (Some Watcher) None False 0 [] 0"] by (simp add: demo_at_def signal_join_def reachable.step)
  then have "thr_reach (demo_at W_Line J_LinkWoken H_Idle (Some Watcher) None None False 0 [] 1)"
    using thr_step.w_unlock_join [of "demo_at W_UnlockJoin J_LinkWoken H_Idle (Some Watcher) (Some Watcher) None False 0 [] 1"] by (simp add: demo_at_def signal_join_def reachable.step)
  then have "thr_reach (demo_at W_Line J_LinkTest H_Idle (Some Watcher) (Some Joiner) None False 0 [] 1)"
    using thr_step.j_link_woken [of "demo_at W_Line J_LinkWoken H_Idle (Some Watcher) None None False 0 [] 1"] by (simp add: demo_at_def signal_join_def reachable.step)
  then have "thr_reach (demo_at W_Line J_Check H_Idle (Some Watcher) (Some Joiner) None False 0 [] 1)"
    using thr_step.j_link_down [of "demo_at W_Line J_LinkTest H_Idle (Some Watcher) (Some Joiner) None False 0 [] 1"] by (simp add: demo_at_def signal_join_def reachable.step)
  then have "thr_reach (demo_at W_Line J_Join H_Idle (Some Watcher) (Some Joiner) None False 0 [] 1)"
    using thr_step.j_check_on [of "demo_at W_Line J_Check H_Idle (Some Watcher) (Some Joiner) None False 0 [] 1"] by (simp add: demo_at_def signal_join_def reachable.step)
  then have "thr_reach (demo_at W_Test J_Join H_Idle (Some Watcher) (Some Joiner) None False 0 [] 1)"
    using thr_step.w_other [of "demo_at W_Line J_Join H_Idle (Some Watcher) (Some Joiner) None False 0 [] 1"] by (simp add: demo_at_def signal_join_def reachable.step)
  then have "thr_reach (demo_at W_LockJoin J_Join H_Idle (Some Watcher) (Some Joiner) None False 0 [] 1)"
    using thr_step.w_down [of "demo_at W_Test J_Join H_Idle (Some Watcher) (Some Joiner) None False 0 [] 1"] by (simp add: demo_at_def signal_join_def reachable.step)
  then show ?thesis
    using thr_step.h_request [of "demo_at W_LockJoin J_Join H_Idle (Some Watcher) (Some Joiner) None False 0 [] 1"] by (simp add: demo_at_def signal_join_def reachable.step)
qed

lemma demo_tried: "thr_reach (demo_at W_LockJoin J_UnlockJoin H_LockGlobal (Some Watcher) (Some Joiner) None False 1 [0] 1)"
  using demo_blocked thr_step.j_join [of "demo_at W_LockJoin J_Join H_LockGlobal (Some Watcher) (Some Joiner) None False 0 [] 1"] by (simp add: demo_at_def reachable.step)

section \<open>Properties\<close>

text \<open>C12. However the threads interleave, the mutexes exclude, and what the join thread does refines the automatic join alone: the addresses
  it tries are in bounds and in turn.\<close>

theorem threads_refine_join:
  assumes "thr_reach s"
  shows "aj_reach (join_view s) \<and> (inside m t s \<and> inside m u s \<longrightarrow> t = u) \<and> (\<forall>i \<in> set (t_tried s). i < 3) \<and> in_turn (t_tried s)"
proof -
  have i: "thr_inv s" by (rule thr.reachable_inv [OF assms])
  have a: "aj_reach (join_view s)" by (rule thr.reachable_abs [OF assms])
  from ajs.reachable_inv [OF this] have "\<forall>i \<in> set (t_tried s). i < 3" "in_turn (t_tried s)"
    by (auto simp: aj_inv_def join_view_def join_tried_def in_turn_snoc split: j_pc.splits)
  moreover from i have "inside m t s \<and> inside m u s \<longrightarrow> t = u" by (metis holder_inside option.inject)
  ultimately show ?thesis using a by simp
qed

theorem threads_refine_join_witness: "aj_reach (join_view (demo_at W_LockJoin J_UnlockJoin H_LockGlobal (Some Watcher) (Some Joiner) None False 1 [0] 1)) \<and> in_turn [0]"
  using threads_refine_join [OF demo_tried, of Join_Mutex Joiner Joiner] by (simp add: demo_at_def)






text \<open>The join thread keeps its mutex through the scan, the four seconds of sleep and the join: the watcher waits for it with the global
  mutex in its hand, and every request that needs the global mutex waits with it.\<close>

theorem request_waits_for_join:
  "\<exists>s. thr_reach s \<and> waits_for s Server Watcher \<and> waits_for s Watcher Joiner \<and> t_j s = J_Join"
  using demo_blocked by (intro exI [of _ "demo_at W_LockJoin J_Join H_LockGlobal (Some Watcher) (Some Joiner) None False 0 [] 1"]) (simp add: demo_at_def waits_for_def wants_def holder_def)

text \<open>Nobody signals the condition of the link once the watcher has ended: the join thread sleeps on.\<close>

theorem asleep_after_release:
  assumes "thr_step s s'" "t_w s = W_Exit" "t_j s = J_LinkWait" "s' \<noteq> s\<lparr>t_j := J_LinkWoken\<rparr>"
  shows "t_w s' = W_Exit \<and> t_j s' = J_LinkWait"
  using assms by (elim thr_stepE) (auto simp: signal_flag_def)

section \<open>The report\<close>

lemma role_line_link:
  "role_line lmax l sn (s, a) = (sn1, (s1, a1)) \<Longrightarrow> is_tnode s1 = is_tnode s \<and> ap_signals a1 = ap_signals a \<and> (\<not> contains l ''vap_role'' \<longrightarrow> s1 = s)"
  by (auto simp: role_line_def Let_def upd_sp_def is_tnode_def split: if_splits)

lemma user_entry_link:
  assumes "user_entry e l (s, a) = Some (s1, a1)"
  shows "link_state (c_sp s1) = link_state (c_sp s) \<and> is_tnode s1 = is_tnode s \<and> ap_signals a1 = ap_signals a"
  using assms
  by (auto simp: user_entry_def remember_mac_def save_macs_def Let_def upd_sp_def upd_basic_def is_tnode_def
      split: if_splits Option.bind_splits list.splits sval.splits)

text \<open>The line, then the test with its signal: what one line of the report does, as steps of the watcher.\<close>

lemma line_run:
  assumes "t_w x = W_Line" "t_join x = None" "role \<or> k = t_link x"
  shows "\<exists>y. thr_step\<^sup>*\<^sup>* x y \<and> t_w y = W_Line \<and> t_join y = None \<and> t_link y = k \<and> t_node y = t_node x \<and>
    t_signals y = t_signals x + (if \<not> k \<and> t_node x then 1 else 0)"
proof -
  let ?y = "x\<lparr>t_w := W_Test, t_link := k\<rparr>"
  have y: "thr_step x ?y"
  proof (cases role)
    case True
    show ?thesis by (rule thr_step.w_role [OF assms(1)])
  next
    case False
    with assms(3) have "?y = x\<lparr>t_w := W_Test\<rparr>" by simp
    then show ?thesis using thr_step.w_other [OF assms(1)] by simp
  qed
  show ?thesis
  proof (cases "\<not> k \<and> t_node x")
    case False
    then have "thr_step ?y (?y\<lparr>t_w := W_Line\<rparr>)" by (intro thr_step.w_up) simp_all
    moreover have "?y\<lparr>t_w := W_Line\<rparr> = x\<lparr>t_link := k\<rparr>" using assms(1) by (cases x) simp
    ultimately have "thr_step\<^sup>*\<^sup>* x (x\<lparr>t_link := k\<rparr>)" using y by simp
    with False assms show ?thesis by (intro exI [of _ "x\<lparr>t_link := k\<rparr>"]) auto
  next
    case True
    let ?z = "?y\<lparr>t_w := W_LockJoin\<rparr>" and ?u = "?y\<lparr>t_w := W_Signal, t_join := Some Watcher\<rparr>"
    let ?v = "?y\<lparr>t_join := Some Watcher, t_w := W_UnlockJoin, t_j := signal_join (t_j x), t_signals := Suc (t_signals x)\<rparr>"
    have "thr_step ?y ?z" using True by (intro thr_step.w_down) simp_all
    moreover have "thr_step ?z ?u" using thr_step.w_lock_join [of ?z] assms(2) by simp
    moreover have "thr_step ?u ?v" using thr_step.w_signal [of ?u] by simp
    moreover have "thr_step ?v (?v\<lparr>t_w := W_Line, t_join := None\<rparr>)" by (intro thr_step.w_unlock_join) simp
    ultimately have "thr_step\<^sup>*\<^sup>* x (?v\<lparr>t_w := W_Line, t_join := None\<rparr>)"
      using y by (metis (no_types, lifting) rtranclp.rtrancl_into_rtrancl rtranclp.rtrancl_refl)
    with True show ?thesis by (intro exI [of _ "?v\<lparr>t_w := W_Line, t_join := None\<rparr>"]) simp
  qed
qed

text \<open>C13. The users' report of the driver is a run of the watcher: line by line it takes the state of the link and signals exactly as
  often as the report's function does.\<close>

theorem report_is_watcher_run:
  assumes "users_loop e ls sn (s, a) = Some (s', a')" "t_w x = W_Line" "t_join x = None"
    and "t_link x \<longleftrightarrow> link_state (c_sp s) = 1" "t_node x \<longleftrightarrow> is_tnode s"
  shows "\<exists>y. thr_step\<^sup>*\<^sup>* x y \<and> t_w y = W_Line \<and> t_join y = None \<and> (t_link y \<longleftrightarrow> link_state (c_sp s') = 1) \<and> (t_node y \<longleftrightarrow> is_tnode s') \<and>
    t_signals y + ap_signals a = t_signals x + ap_signals a'"
  using assms
proof (induction ls arbitrary: sn s a x)
  case (Cons l ls)
  obtain sn1 s1 a1 where r: "role_line (ce_lmax (e_cfg e)) l sn (s, a) = (sn1, (s1, a1))" by (metis surj_pair)
  with Cons.prems(1) obtain s2 a2 where u: "user_entry e l (s1, a1) = Some (s2, a2)"
    and n: "users_loop e ls sn1 (wake_join (s2, a2)) = Some (s', a')" by (auto split: Option.bind_splits)
  let ?k = "link_state (c_sp s2) = 1"
  obtain a3 where w: "wake_join (s2, a2) = (s2, a3)" by (cases "link_state (c_sp s2) \<noteq> 1 \<and> is_tnode s2") (auto simp: wake_join_def)
  have f: "is_tnode s2 = is_tnode s" "ap_signals a2 = ap_signals a" "\<not> contains l ''vap_role'' \<Longrightarrow> ?k = t_link x"
    using role_line_link [OF r] user_entry_link [OF u] Cons.prems(4) by auto
  have d: "contains l ''vap_role'' \<or> ?k = t_link x" using f(3) by blast
  obtain y where y0: "thr_step\<^sup>*\<^sup>* x y \<and> t_w y = W_Line \<and> t_join y = None \<and> t_link y = ?k \<and> t_node y = t_node x \<and>
      t_signals y = t_signals x + (if \<not> ?k \<and> t_node x then 1 else 0)"
    using line_run [OF Cons.prems(2,3) d] ..
  note run = y0 [THEN conjunct1] and y = y0 [THEN conjunct2, THEN conjunct1] y0 [THEN conjunct2, THEN conjunct2, THEN conjunct1]
    y0 [THEN conjunct2, THEN conjunct2, THEN conjunct2, THEN conjunct1]
  have y4: "t_node y = t_node x" and sy: "t_signals y = t_signals x + (if \<not> ?k \<and> t_node x then 1 else 0)" using y0 by simp_all
  have y5: "t_node y \<longleftrightarrow> is_tnode s2" using y4 Cons.prems(5) f(1) by simp
  have sg: "t_signals y + ap_signals a = t_signals x + ap_signals a3" using sy f(1,2) Cons.prems(5) w by (auto simp: wake_join_def split: if_splits)
  obtain z where z: "thr_step\<^sup>*\<^sup>* y z \<and> t_w z = W_Line \<and> t_join z = None \<and> (t_link z \<longleftrightarrow> link_state (c_sp s') = 1) \<and>
      (t_node z \<longleftrightarrow> is_tnode s') \<and> t_signals z + ap_signals a3 = t_signals y + ap_signals a'"
    using Cons.IH [OF n [unfolded w] y(1) y(2) y(3) y5] ..
  have "thr_step\<^sup>*\<^sup>* x z" using run z by (metis rtranclp_trans)
  with z sg show ?case by (intro exI [of _ z]) simp
qed auto

theorem report_is_watcher_run_witness:
  "\<exists>y. thr_step\<^sup>*\<^sup>* (demo_at W_Line J_Top H_Idle (Some Watcher) None None False 0 [] 0) y \<and> \<not> t_link y \<and> t_signals y = 2"
proof -
  let ?ls = "fgets_all 127 (sh_out (e_sh (joined_env ''0'')) [] [])"
  have "map_option (\<lambda>(s, a). (link_state (c_sp s), ap_signals a)) (users_loop (joined_env ''0'') ?ls (-1, -1) (joined_core, api_start)) = Some (0, 2)"
    by code_simp
  then obtain s' a' where r: "users_loop (joined_env ''0'') ?ls (-1, -1) (joined_core, api_start) = Some (s', a')"
    and v: "link_state (c_sp s') = 0" "ap_signals a' = 2" by auto
  have "link_state (c_sp joined_core) \<noteq> 1" by (simp add: joined_core_def upd_sp_def upd_basic_def demo_core_def demo_sp_def)
  with report_is_watcher_run [OF r, of "demo_at W_Line J_Top H_Idle (Some Watcher) None None False 0 [] 0"] v joined_fields(3)
  show ?thesis by (auto simp: demo_at_def api_start_def)
qed

end
