(* ===== verification/Resources.thy ===== *)
theory Resources
  imports NodeOps
begin

text \<open>
  The report on the machine (dataparser/wtsl_core_dataparser.c and slal/slb/wtsl_core_slb_interface.c): processors from
  \<open>mpstat\<close>, load, memory and disk, printed as a JSON text.  The numbers of type \<open>double\<close> are a parameter: their constants,
  operations, reading and printing with two digits.  Unsigned numbers wrap at the width of \<open>unsigned long\<close>.
\<close>

section \<open>Numbers\<close>

record 'd doubles =
  fp_const :: "string \<Rightarrow> 'd"
  fp_int :: "int \<Rightarrow> 'd"
  fp_add :: "'d \<Rightarrow> 'd \<Rightarrow> 'd"
  fp_sub :: "'d \<Rightarrow> 'd \<Rightarrow> 'd"
  fp_mul :: "'d \<Rightarrow> 'd \<Rightarrow> 'd"
  fp_div :: "'d \<Rightarrow> 'd \<Rightarrow> 'd"
  fp_less :: "'d \<Rightarrow> 'd \<Rightarrow> bool"
  fp_leq :: "'d \<Rightarrow> 'd \<Rightarrow> bool"
  fp_scan :: "string \<Rightarrow> ('d \<times> string) option"
  fp_show :: "'d \<Rightarrow> string"

text \<open>What the system gives: the texts of the command and the files (None when they do not open), the disk's block size,
  blocks and free blocks, random numbers, the time; \<open>re_m\<close> is the number of values of \<open>unsigned long\<close>.\<close>

record 'd machine =
  re_fp :: "'d doubles"
  re_m :: int
  re_lmax :: int
  re_mpstat :: "string option"
  re_loadavg :: "string option"
  re_meminfo :: "string option"
  re_statvfs :: "(int \<times> int \<times> int) option"
  re_rand :: "nat \<Rightarrow> int"
  re_time :: int

text \<open>\<open>%lf\<close> repeated, up to the first that is no number.\<close>

fun scan_doubles :: "'d doubles \<Rightarrow> nat \<Rightarrow> string \<Rightarrow> 'd list" where
  "scan_doubles f 0 s = []"
| "scan_doubles f (Suc n) s = (case fp_scan f (ltrim s) of None \<Rightarrow> [] | Some (d, r) \<Rightarrow> d # scan_doubles f n r)"

definition strip_prefix :: "string \<Rightarrow> string \<Rightarrow> string option" where
  "strip_prefix p s = (if take (length p) s = p then Some (drop (length p) s) else None)"

text \<open>\<open>%lu\<close>: None when there is no number; a number out of range gives the largest one.\<close>

definition scan_ulong :: "int \<Rightarrow> string \<Rightarrow> int option" where
  "scan_ulong m s = (let (neg, u) = sign_split (ltrim s) in
     if u = [] \<or> \<not> isdigit (hd u) then None
     else let n = int (fst (read_digits 0 u)) in Some (if n \<ge> m then m - 1 else if neg then (- n) mod m else n))"

section \<open>Processors\<close>

text \<open>A line of averages for all processors, or for one of the first four.\<close>

definition scan_all :: "'d doubles \<Rightarrow> string \<Rightarrow> 'd list" where
  "scan_all f l = (case strip_prefix ''Average:'' l of None \<Rightarrow> [] | Some r \<Rightarrow>
     (case strip_prefix ''all'' (ltrim r) of None \<Rightarrow> [] | Some t \<Rightarrow> scan_doubles f 9 t))"

definition scan_core :: "'d doubles \<Rightarrow> int \<Rightarrow> string \<Rightarrow> (int \<times> 'd list) option" where
  "scan_core f lmax l = (case strip_prefix ''Average:'' l of None \<Rightarrow> None | Some r \<Rightarrow>
     (case strtol lmax (ltrim r) of (v, t) \<Rightarrow> if t = ltrim r then None else Some (to_int32 v, scan_doubles f 9 t)))"

definition idle_to_usage :: "'d doubles \<Rightarrow> 'd list \<Rightarrow> 'd" where
  "idle_to_usage f ds = fp_sub f (fp_const f ''100.0'') (ds ! 8)"

definition average_line :: "'d doubles \<Rightarrow> int \<Rightarrow> string \<Rightarrow> 'd \<times> 'd list \<Rightarrow> 'd \<times> 'd list" where
  "average_line f lmax l uc =
     (if contains l ''Average:'' \<and> contains l ''all'' then
        (let ds = scan_all f l in if length ds \<ge> 9 then (idle_to_usage f ds, snd uc) else uc)
      else if contains l ''Average:'' \<and> (contains l '' 0'' \<or> contains l '' 1'' \<or> contains l '' 2'' \<or> contains l '' 3'') then
        (case scan_core f lmax l of
           Some (i, ds) \<Rightarrow> if length ds \<ge> 9 \<and> 0 \<le> i \<and> i < 4 then (fst uc, (snd uc)[nat i := idle_to_usage f ds]) else uc
         | None \<Rightarrow> uc)
      else uc)"

definition get_cpu_usage_stats :: "'d machine \<Rightarrow> int \<times> 'd \<times> 'd list" where
  "get_cpu_usage_stats e = (let f = re_fp e; z = fp_const f ''0.0'' in
     case re_mpstat e of
       None \<Rightarrow> (-1, z, replicate 4 z)
     | Some out \<Rightarrow> (case dropWhile (\<lambda>l. \<not> contains l ''Average:'') (fgets_all 255 out) of
           [] \<Rightarrow> (-1, z, replicate 4 z)
         | h # ls \<Rightarrow> (0, fold (average_line f (re_lmax e)) ls (z, replicate 4 z))))"

definition get_load_average :: "'d machine \<Rightarrow> 'd list" where
  "get_load_average e = (let z = fp_const (re_fp e) ''0.0'' in
     case re_loadavg e of None \<Rightarrow> replicate 3 z
     | Some t \<Rightarrow> (let ds = scan_doubles (re_fp e) 3 t in ds @ drop (length ds) (replicate 3 z)))"

section \<open>Memory and disk\<close>

record mem_stat =
  ms_total :: int
  ms_free :: int
  ms_buffers :: int
  ms_cached :: int

definition mem_line :: "int \<Rightarrow> string \<Rightarrow> mem_stat \<Rightarrow> mem_stat" where
  "mem_line m l s = (let num = (\<lambda>k c. case scan_ulong m (drop k l) of None \<Rightarrow> c | Some v \<Rightarrow> v) in
     if strneq 9 l ''MemTotal:'' then s\<lparr>ms_total := num 9 (ms_total s)\<rparr>
     else if strneq 8 l ''MemFree:'' then s\<lparr>ms_free := num 8 (ms_free s)\<rparr>
     else if strneq 8 l ''Buffers:'' then s\<lparr>ms_buffers := num 8 (ms_buffers s)\<rparr>
     else if strneq 7 l ''Cached:'' then s\<lparr>ms_cached := num 7 (ms_cached s)\<rparr>
     else s)"

text \<open>Total, used, free and the share in use; None when the function fails.\<close>

definition get_memory_usage :: "'d machine \<Rightarrow> (int \<times> int \<times> int \<times> 'd) option" where
  "get_memory_usage e = (case re_meminfo e of None \<Rightarrow> None | Some t \<Rightarrow>
     (let f = re_fp e; m = re_m e;
          s = fold (mem_line m) (fgets_all 255 t) \<lparr>ms_total = 0, ms_free = 0, ms_buffers = 0, ms_cached = 0\<rparr>;
          used = (ms_total s - ms_free s - ms_buffers s - ms_cached s) mod m
      in if ms_total s = 0 then None
         else Some ((ms_total s * 1024) mod m, (used * 1024) mod m, ((ms_free s + ms_buffers s + ms_cached s) * 1024) mod m,
           fp_mul f (fp_div f (fp_int f used) (fp_int f (ms_total s))) (fp_const f ''100.0''))))"

definition get_disk_usage :: "'d machine \<Rightarrow> (int \<times> int \<times> int \<times> 'd) option" where
  "get_disk_usage e = (case re_statvfs e of None \<Rightarrow> None | Some (frsize, blocks, bfree) \<Rightarrow>
     (let f = re_fp e; m = re_m e; bs = frsize mod m; total = (blocks * bs) mod m; free = (bfree * bs) mod m; used = (total - free) mod m
      in Some (total, used, free, fp_mul f (fp_div f (fp_int f used) (fp_int f total)) (fp_const f ''100.0''))))"

text \<open>Divided by 1024 while a larger unit is left; 31 characters of it are kept.\<close>

fun scale_units :: "'d doubles \<Rightarrow> string list \<Rightarrow> 'd \<Rightarrow> 'd \<times> string" where
  "scale_units f (u # v # us) d = (if fp_leq f (fp_const f ''1024.0'') d then scale_units f (v # us) (fp_div f d (fp_const f ''1024.0'')) else (d, u))"
| "scale_units f us d = (d, hd us)"

definition units :: "string list" where
  "units = [''B'', ''KB'', ''M'', ''GB'', ''TB'']"

definition format_bytes :: "'d doubles \<Rightarrow> int \<Rightarrow> nat \<Rightarrow> string" where
  "format_bytes f b n = (case scale_units f units (fp_int f b) of (d, u) \<Rightarrow> cbuf n (fp_show f d @ '' '' @ u))"

section \<open>The report\<close>

definition jquoted :: "string \<Rightarrow> string" where
  "jquoted s = CHR 0x22 # s @ [CHR 0x22]"

fun commas :: "string list \<Rightarrow> string" where
  "commas [] = []" | "commas [x] = x" | "commas (x # y # r) = x @ '','' @ commas (y # r)"

definition json_object :: "(string \<times> string) list \<Rightarrow> string" where
  "json_object kvs = ''{'' @ commas (map (\<lambda>(k, v). jquoted k @ '': '' @ v) kvs) @ ''}''"

text \<open>Without \<open>mpstat\<close> the load stands for the use, and random numbers for the share of each processor.\<close>

definition estimate :: "'d doubles \<Rightarrow> (nat \<Rightarrow> int) \<Rightarrow> 'd \<Rightarrow> 'd \<times> 'd list" where
  "estimate f rnd load1 = (let c = fp_const f; top = (\<lambda>x. if fp_less f (c ''100.0'') x then c ''100.0'' else x);
       overall = top (fp_mul f load1 (c ''25.0''))
     in (overall, map (\<lambda>i. top (fp_mul f overall (fp_add f (c ''0.9'') (fp_div f (fp_int f (rnd i mod 20)) (c ''100.0''))))) [0..<4]))"

definition size_report :: "'d doubles \<Rightarrow> int \<times> int \<times> int \<times> 'd \<Rightarrow> string" where
  "size_report f r = (case r of (t, u, fr, p) \<Rightarrow> json_object
     [(''total'', show_int t), (''used'', show_int u), (''free'', show_int fr), (''usage_percent'', fp_show f p),
      (''total_str'', jquoted (format_bytes f t 32)), (''used_str'', jquoted (format_bytes f u 32)), (''free_str'', jquoted (format_bytes f fr 32))])"

definition core_object :: "'d doubles \<Rightarrow> nat \<Rightarrow> 'd \<Rightarrow> string" where
  "core_object f i d = ''{'' @ jquoted ''core'' @ '': '' @ show_nat i @ '', '' @ jquoted ''usage_percent'' @ '': '' @ fp_show f d @ ''}''"

definition slb_node_get_hw_resources_info :: "'d machine \<Rightarrow> string" where
  "slb_node_get_hw_resources_info e = (let f = re_fp e; z = fp_const f ''0.0''; zero = (0, 0, 0, z);
       (r, usage, cores) = get_cpu_usage_stats e; load = get_load_average e;
       mem = (case get_memory_usage e of None \<Rightarrow> zero | Some v \<Rightarrow> v); disk = (case get_disk_usage e of None \<Rightarrow> zero | Some v \<Rightarrow> v);
       (usage1, cores1) = (if r \<noteq> 0 then estimate f (re_rand e) (load ! 0) else (usage, cores))
     in cbuf 1024 (json_object [(''data'', json_object [
          (''timestamp'', show_int (re_time e)),
          (''cpu'', json_object [
            (''overall'', json_object [(''usage_percent'', fp_show f usage1)]),
            (''loadavg'', json_object [(''load1'', fp_show f (load ! 0)), (''load5'', fp_show f (load ! 1)), (''load15'', fp_show f (load ! 2))]),
            (''cores'', ''['' @ commas (map (\<lambda>i. core_object f i (cores1 ! i)) [0..<4]) @ '']'')]),
          (''memory'', size_report f mem), (''disk'', size_report f disk)])]))"

section \<open>Reading the memory\<close>

text \<open>A row of the system's table: the name, blanks, the number of kilobytes.\<close>

definition mem_row :: "string \<times> nat \<times> nat \<Rightarrow> string" where
  "mem_row r = (case r of (k, p, v) \<Rightarrow> k @ '':'' @ replicate p (CHR '' '') @ show_nat v @ '' kB'')"

definition row_ok :: "int \<Rightarrow> string \<times> nat \<times> nat \<Rightarrow> bool" where
  "row_ok m r \<longleftrightarrow> (case r of (k, p, v) \<Rightarrow> CHR '':'' \<notin> set k \<and> CHR 0x0A \<notin> set k \<and> length (mem_row r) < 255 \<and> int v < m)"

lemma strneq_name:
  "CHR '':'' \<notin> set k \<Longrightarrow> CHR '':'' \<notin> set q \<Longrightarrow> strneq (Suc (length q)) (k @ CHR '':'' # r) (q @ '':'') \<longleftrightarrow> k = q"
proof (induction k arbitrary: q)
  case Nil
  then show ?case by (cases q) (auto simp: strneq_def)
next
  case (Cons c k)
  then show ?case by (cases q) (auto simp: strneq_def)
qed

lemma strneq_name_to:
  assumes "CHR '':'' \<notin> set k" "CHR '':'' \<notin> set q" "w = q @ '':''" "n = length w"
  shows "strneq n (k @ CHR '':'' # r) w \<longleftrightarrow> k = q"
  using strneq_name [OF assms(1,2), of r] assms(3,4) by simp

lemma ltrim_blanks: "c \<noteq> CHR '' '' \<and> \<not> isspace c \<Longrightarrow> ltrim (replicate p (CHR '' '') @ c # r) = c # r"
  by (induction p) (simp_all add: ltrim_def isspace_def)

lemma scan_row: "int v < m \<Longrightarrow> scan_ulong m (replicate p (CHR '' '') @ show_nat v @ '' kB'' @ r) = Some (int v)"
proof -
  assume v: "int v < m"
  obtain c t where ct: "show_nat v = c # t" by (cases "show_nat v") auto
  have d: "isdigit c" using show_nat_hd_digit [of v] ct by simp
  then have n: "c \<noteq> CHR '' ''" "\<not> isspace c" "c \<noteq> CHR ''-''" "c \<noteq> CHR ''+''" by (auto simp: isdigit_def isspace_def)
  have l: "ltrim (replicate p (CHR '' '') @ show_nat v @ '' kB'' @ r) = show_nat v @ '' kB'' @ r"
    using n ltrim_blanks [of c p "t @ '' kB'' @ r"] ct by simp
  have s: "sign_split (show_nat v @ '' kB'' @ r) = (False, show_nat v @ '' kB'' @ r)" using n ct by (simp add: sign_split_def)
  have "read_digits 0 (show_nat v @ '' kB'' @ r) = read_digits v ('' kB'' @ r)"
    using read_digits_append [of "show_nat v" 0 "'' kB'' @ r"] show_nat_digits [of v] read_show_nat [of v] by simp
  also have "\<dots> = (v, '' kB'' @ r)" by (simp add: isdigit_def)
  finally have "fst (read_digits 0 (show_nat v @ '' kB'' @ r)) = v" by simp
  with l s v d ct show ?thesis by (simp add: scan_ulong_def Let_def)
qed

lemma mem_line_row:
  assumes "row_ok m (k, p, v)"
  shows "mem_line m (mem_row (k, p, v) @ [CHR 0x0A]) s =
    (if k = ''MemTotal'' then s\<lparr>ms_total := int v\<rparr> else if k = ''MemFree'' then s\<lparr>ms_free := int v\<rparr>
     else if k = ''Buffers'' then s\<lparr>ms_buffers := int v\<rparr> else if k = ''Cached'' then s\<lparr>ms_cached := int v\<rparr> else s)"
proof -
  let ?r = "replicate p (CHR '' '') @ show_nat v @ '' kB'' @ [CHR 0x0A]"
  have row: "mem_row (k, p, v) @ [CHR 0x0A] = k @ CHR '':'' # ?r" by (simp add: mem_row_def)
  have v: "int v < m" and k: "CHR '':'' \<notin> set k" using assms by (simp_all add: row_ok_def)
  have n: "strneq 9 (k @ CHR '':'' # ?r) ''MemTotal:'' \<longleftrightarrow> k = ''MemTotal''" "strneq 8 (k @ CHR '':'' # ?r) ''MemFree:'' \<longleftrightarrow> k = ''MemFree''"
    "strneq 8 (k @ CHR '':'' # ?r) ''Buffers:'' \<longleftrightarrow> k = ''Buffers''" "strneq 7 (k @ CHR '':'' # ?r) ''Cached:'' \<longleftrightarrow> k = ''Cached''"
    by (rule strneq_name_to [OF k]; simp)+
  have d: "drop (Suc (length k)) (k @ CHR '':'' # ?r) = ?r" by simp
  have sc: "scan_ulong m ?r = Some (int v)" using scan_row [OF v, of p "[CHR 0x0A]"] by simp
  show ?thesis unfolding row mem_line_def Let_def n
    using d sc by auto
qed

definition kernel_text :: "(string \<times> nat \<times> nat) list \<Rightarrow> string" where
  "kernel_text rows = concat (map (\<lambda>r. mem_row r @ [CHR 0x0A]) rows)"

definition row_value :: "(string \<times> nat \<times> nat) list \<Rightarrow> string \<Rightarrow> int" where
  "row_value rows k = (case map_of (rev (map (\<lambda>(k, p, v). (k, int v)) rows)) k of None \<Rightarrow> 0 | Some v \<Rightarrow> v)"

lemma mem_row_line: "row_ok m r \<Longrightarrow> CHR 0x0A \<notin> set (mem_row r) \<and> length (mem_row r) < 255"
proof -
  assume "row_ok m r"
  moreover obtain k p v where "r = (k, p, v)" by (cases r)
  moreover have "CHR 0x0A \<notin> set (show_nat v)" using show_nat_digits [of v] by (auto simp: isdigit_def)
  ultimately show ?thesis by (auto simp: row_ok_def mem_row_def)
qed

lemma kernel_lines: "\<forall>r \<in> set rows. row_ok m r \<Longrightarrow> fgets_all 255 (kernel_text rows) = map (\<lambda>r. mem_row r @ [CHR 0x0A]) rows"
proof (induction rows)
  case (Cons r rows)
  then show ?case using mem_row_line [of m r] fgets_all_line [of "mem_row r" 255 "kernel_text rows"] by (simp add: kernel_text_def)
qed (simp add: kernel_text_def)

lemma mem_fold:
  assumes "\<forall>r \<in> set rows. row_ok m r"
  shows "fold (mem_line m) (map (\<lambda>r. mem_row r @ [CHR 0x0A]) rows) \<lparr>ms_total = 0, ms_free = 0, ms_buffers = 0, ms_cached = 0\<rparr> =
    \<lparr>ms_total = row_value rows ''MemTotal'', ms_free = row_value rows ''MemFree'', ms_buffers = row_value rows ''Buffers'',
     ms_cached = row_value rows ''Cached''\<rparr>"
  using assms
proof (induction rows rule: rev_induct)
  case (snoc r rows)
  obtain k p v where r: "r = (k, p, v)" by (cases r)
  with snoc have "row_ok m (k, p, v)" by simp
  from mem_line_row [OF this] snoc show ?case by (simp add: r row_value_def)
qed (simp add: row_value_def)

text \<open>C16. The report reads the system's table of the memory: used is what is neither free nor buffers nor cache, free the rest, each
  in bytes as far as \<open>unsigned long\<close> goes; what it calls used and free adds up to the total.\<close>

theorem memory_reads_table:
  assumes "re_meminfo e = Some (kernel_text rows)" "\<forall>r \<in> set rows. row_ok (re_m e) r" "row_value rows ''MemTotal'' \<noteq> 0"
  shows "\<exists>t u f p. get_memory_usage e = Some (t, u, f, p) \<and> t = (row_value rows ''MemTotal'' * 1024) mod re_m e \<and>
    f = ((row_value rows ''MemFree'' + row_value rows ''Buffers'' + row_value rows ''Cached'') * 1024) mod re_m e \<and>
    u = ((row_value rows ''MemTotal'' - row_value rows ''MemFree'' - row_value rows ''Buffers'' - row_value rows ''Cached'') * 1024) mod re_m e \<and>
    (u + f) mod re_m e = t"
proof -
  let ?t = "row_value rows ''MemTotal''" and ?f = "row_value rows ''MemFree''" and ?b = "row_value rows ''Buffers''" and ?c = "row_value rows ''Cached''"
  have add: "((?t - ?f - ?b - ?c) * 1024 mod re_m e + (?f + ?b + ?c) * 1024 mod re_m e) mod re_m e = ?t * 1024 mod re_m e"
    by (simp add: mod_add_eq algebra_simps)
  have "(?t - ?f - ?b - ?c) mod re_m e * 1024 mod re_m e = (?t - ?f - ?b - ?c) * 1024 mod re_m e" by (simp add: mod_mult_left_eq)
  with add assms show ?thesis by (simp add: get_memory_usage_def kernel_lines mem_fold Let_def)
qed

text \<open>Numbers for the examples.\<close>

definition whole_numbers :: "int doubles" where
  "whole_numbers = \<lparr>fp_const = (\<lambda>s. fst (strtol (2 ^ 31 - 1) s)), fp_int = (\<lambda>i. i), fp_add = (+), fp_sub = (-), fp_mul = (*), fp_div = (div),
     fp_less = (<), fp_leq = (\<le>), fp_scan = (\<lambda>s. case strtol (2 ^ 31 - 1) s of (v, r) \<Rightarrow> if r = s then None else Some (v, r)), fp_show = show_int\<rparr>"

definition demo_machine :: "string \<Rightarrow> int machine" where
  "demo_machine t = \<lparr>re_fp = whole_numbers, re_m = 2 ^ 32, re_lmax = 2 ^ 31 - 1, re_mpstat = None, re_loadavg = None, re_meminfo = Some t,
     re_statvfs = None, re_rand = (\<lambda>_. 0), re_time = 0\<rparr>"

text \<open>Four gigabytes on a machine of 32 bits: the total is shown as 0.\<close>

theorem memory_reads_table_witness:
  "\<exists>p. get_memory_usage (demo_machine (kernel_text [(''MemTotal'', 8, 4194304), (''MemFree'', 9, 1048576), (''Buffers'', 9, 0), (''Cached'', 10, 1048576)])) =
     Some (0, 2147483648, 2147483648, p)"
proof -
  let ?rows = "[(''MemTotal'', 8, 4194304), (''MemFree'', 9, 1048576), (''Buffers'', 9, 0), (''Cached'', 10, 1048576)]"
  have "\<forall>r \<in> set ?rows. row_ok 4294967296 r" by (simp add: row_ok_def mem_row_def show_nat.simps)
  moreover have "row_value ?rows ''MemTotal'' = 4194304" "row_value ?rows ''MemFree'' = 1048576" "row_value ?rows ''Buffers'' = 0"
    "row_value ?rows ''Cached'' = 1048576" by (simp_all add: row_value_def)
  moreover have "re_m (demo_machine (kernel_text ?rows)) = 4294967296" "re_meminfo (demo_machine (kernel_text ?rows)) = Some (kernel_text ?rows)"
    by (simp_all only: demo_machine_def machine.simps) simp
  ultimately have "\<exists>t u f p. get_memory_usage (demo_machine (kernel_text ?rows)) = Some (t, u, f, p) \<and> t = 0 \<and> f = 2147483648 \<and> u = 2147483648"
    using memory_reads_table [of "demo_machine (kernel_text ?rows)" ?rows] by (simp only: if_False) simp
  then show ?thesis by blast
qed

text \<open>The unit is the first that leaves less than 1024, or the last.\<close>

lemma scale_units_spec:
  assumes "us \<noteq> []"
  shows "\<exists>i < length us. scale_units f us d = (((\<lambda>x. fp_div f x (fp_const f ''1024.0'')) ^^ i) d, us ! i) \<and>
    (i < length us - 1 \<longrightarrow> \<not> fp_leq f (fp_const f ''1024.0'') (((\<lambda>x. fp_div f x (fp_const f ''1024.0'')) ^^ i) d)) \<and>
    (\<forall>j < i. fp_leq f (fp_const f ''1024.0'') (((\<lambda>x. fp_div f x (fp_const f ''1024.0'')) ^^ j) d))"
  using assms
proof (induction f us d rule: scale_units.induct)
  case (1 f u v us d)
  let ?g = "\<lambda>x. fp_div f x (fp_const f ''1024.0'')"
  show ?case
  proof (cases "fp_leq f (fp_const f ''1024.0'') d")
    case True
    with "1.IH" obtain i where i: "i < length (v # us)" "scale_units f (v # us) (?g d) = ((?g ^^ i) (?g d), (v # us) ! i)"
      "i < length us \<longrightarrow> \<not> fp_leq f (fp_const f ''1024.0'') ((?g ^^ i) (?g d))"
      "\<forall>j < i. fp_leq f (fp_const f ''1024.0'') ((?g ^^ j) (?g d))" by auto
    have "fp_leq f (fp_const f ''1024.0'') ((?g ^^ j) d)" if "j < Suc i" for j
      using that True i(4) by (cases j) (auto simp: funpow_Suc_right simp del: funpow.simps(2))
    with i True show ?thesis by (intro exI [of _ "Suc i"]) (auto simp: funpow_Suc_right simp del: funpow.simps(2))
  qed (intro exI [of _ 0], simp)
qed auto

text \<open>The report on the machine always fits into its buffer and the request's, whatever the system says, and the request never answers:
  the report is in the buffer, the result is NULL.\<close>

theorem resource_request_unanswered:
  "wtsl_core_get_hw_resources_usage (e\<lparr>ne_hw := slb_node_get_hw_resources_info m\<rparr>) n data ctx st =
     Some (None, (slb_node_get_hw_resources_info m, snd st)) \<and> length (slb_node_get_hw_resources_info m) < 1024"
proof -
  have "length (slb_node_get_hw_resources_info m) < 1024"
    unfolding slb_node_get_hw_resources_info_def Let_def by (auto simp: length_cbuf split: prod.splits)
  then show ?thesis by (simp add: wtsl_core_get_hw_resources_usage_def bss_size_def)
qed

end
