(* ===== verification/Startup.thy ===== *)
theory Startup
  imports ParserProps LogManager HttpMain Acl
begin

text \<open>
  The start of the program: the environment of the firewall commands (slal/slb/wtsl_core_slb_init.c) and the whole of
  \<open>wtsl_core_main\<close> (wtsl_core.c), which starts the parts modelled in the other theories one after the other.
\<close>

section \<open>Environment of iptables\<close>

text \<open>\<open>st\<close>: what \<open>stat\<close> says of a path, nothing there or whether it is a directory; \<open>mk\<close>, \<open>se\<close>: whether the directory can be created
  and the variable set to a value.  The state is the value of the variable.\<close>

definition alt_paths :: "string list" where
  "alt_paths = [''/usr/lib/xtables'', ''/usr/local/lib/xtables'', ''/lib/xtables'']"

definition lock_dir_result :: "(string \<Rightarrow> bool option) \<Rightarrow> bool \<Rightarrow> int" where
  "lock_dir_result st mk = (case st ''/tmp/run'' of None \<Rightarrow> if mk then 0 else -1 | Some d \<Rightarrow> if d then 0 else -1)"

definition slb_init_iptables_env :: "(string \<Rightarrow> bool option) \<Rightarrow> bool \<Rightarrow> (string \<Rightarrow> bool) \<Rightarrow> string option \<Rightarrow> int \<times> string option" where
  "slb_init_iptables_env st mk se var = (let r = lock_dir_result st mk in
     if st ''/usr/lib/xtables'' = Some True then (if se ''/usr/lib/xtables'' then (r, Some ''/usr/lib/xtables'') else (-1, var))
     else (case find (\<lambda>p. st p = Some True \<and> se p) alt_paths of Some p \<Rightarrow> (r, Some p) | None \<Rightarrow> (r, var)))"

definition slb_module_init :: "(string \<Rightarrow> bool option) \<Rightarrow> bool \<Rightarrow> (string \<Rightarrow> bool) \<Rightarrow> string option \<Rightarrow> int \<times> string option" where
  "slb_module_init st mk se var = (0, snd (slb_init_iptables_env st mk se var))"

text \<open>When the variable can be set, it is set to the first of the three directories that is there.\<close>

lemma libdir_first:
  "(\<forall>p. se p) \<Longrightarrow> snd (slb_module_init st mk se var) = (case find (\<lambda>p. st p = Some True) alt_paths of Some p \<Rightarrow> Some p | None \<Rightarrow> var)"
  by (simp add: slb_module_init_def slb_init_iptables_env_def alt_paths_def)

section \<open>The start\<close>

text \<open>The outside of the parts that are started: random numbers and memory for the address, the database engine, the clock,
  whether the log file opens and the upload thread starts, whether the web server starts on a port, the paths and variables.\<close>

record 'd main_env =
  me_core :: core_env
  me_rand :: "int list"
  me_buf :: "string option"
  me_sql :: "'d sqlite"
  me_date :: "string option"
  me_now :: int
  me_time :: string
  me_log_opens :: bool
  me_log_thread :: bool
  me_daemon :: "int \<Rightarrow> bool"
  me_stat :: "string \<Rightarrow> bool option"
  me_mkdir :: bool
  me_setenv :: "string \<Rightarrow> bool"

datatype core_thread = Watcher_Thread | Node_Service_Thread | Gnode_Service_Thread | Auto_Join_Thread | Sle_Thread

record 'd program =
  pg_core :: core
  pg_db :: "'d option"
  pg_log :: log_system
  pg_files :: files
  pg_port :: int
  pg_serving :: bool
  pg_libdir :: "string option"
  pg_threads :: "core_thread list"

definition create_splink_state_watcher :: "'d program \<Rightarrow> 'd program" where
  "create_splink_state_watcher p = p\<lparr>pg_threads := pg_threads p @
     [Watcher_Thread, Node_Service_Thread, Gnode_Service_Thread, Auto_Join_Thread, Sle_Thread]\<rparr>"

text \<open>What the lamp's command returns becomes the result; a log that does not start makes it 1; the results of the database, the
  radio and the web server are not looked at.  The web server runs before the rule engines have their state.  The state is the one
  the threads start from; the result is returned when they have ended.\<close>

definition wtsl_core_main :: "'d main_env \<Rightarrow> 'd program \<Rightarrow> (int \<times> 'd program) option" where
  "wtsl_core_main e p = (let ce = me_core e; c = pg_core p; cfg = cfg_of ce c; sh = e_sh ce; jk = ce_jk cfg; jv = ce_jv cfg in
     case run_state (wtsl_core_start sh cfg (e_boot ce) (me_rand e) (me_buf e) (c_sp c) (c_adv c)) (c_cmds c) of
       (None, tr) \<Rightarrow> None
     | (Some (sp, a), tr) \<Rightarrow> (let
         lamp = fst (run_state (role_lamp sh (bi_type (basic_info (node_info sp)))) (c_cmds c));
         (dr, db) = init_db (me_sql e) jk jv (c_cfg c);
         (lr, lg, fs) = wtsl_logger_init (Some ''wtsl_app'') (me_date e) (me_now e) (me_time e) (me_log_opens e) (me_log_thread e) sp (pg_files p);
         result = (if lr \<noteq> 0 then 1 else lamp);
         (ir, lib) = slb_module_init (me_stat e) (me_mkdir e) (me_setenv e) (pg_libdir p);
         (hr, port, serving) = wtsl_http_main jk jv (ce_lmax cfg) (me_daemon e) (c_cfg c) (pg_port p)
       in (case sync_ip_to_js_cfg (e_cj ce) port (e_web ce) (Some js_cfg_path) (Some (basic_info (node_info sp))) (c_web c) of
             None \<Rightarrow> None
           | Some (wr, web) \<Rightarrow> Some (result, create_splink_state_watcher (p\<lparr>
               pg_core := c\<lparr>c_sp := sp, c_adv := a, c_cmds := tr, c_web := web,
                 c_qos := qos_init_state net_bridge_name, c_acl := acl_init_state net_bridge_name\<rparr>,
               pg_db := db, pg_log := lg, pg_files := fs, pg_port := port, pg_serving := serving, pg_libdir := lib\<rparr>)))))"

section \<open>Properties\<close>

lemma main_parts:
  assumes "wtsl_core_main e p = Some (r, p')"
  defines "ce \<equiv> me_core e" and "c \<equiv> pg_core p"
  obtains sp a tr lr lg fs where
    "run_state (wtsl_core_start (e_sh ce) (cfg_of ce c) (e_boot ce) (me_rand e) (me_buf e) (c_sp c) (c_adv c)) (c_cmds c) = (Some (sp, a), tr)"
    "wtsl_logger_init (Some ''wtsl_app'') (me_date e) (me_now e) (me_time e) (me_log_opens e) (me_log_thread e) sp (pg_files p) = (lr, lg, fs)"
    "r = (if lr \<noteq> 0 then 1 else fst (run_state (role_lamp (e_sh ce) (bi_type (basic_info (node_info sp)))) (c_cmds c)))"
    "pg_db p' = snd (init_db (me_sql e) (ce_jk (cfg_of ce c)) (ce_jv (cfg_of ce c)) (c_cfg c))"
    "c_sp (pg_core p') = sp" "pg_log p' = lg" "pg_files p' = fs"
    "c_qos (pg_core p') = qos_init_state net_bridge_name" "c_acl (pg_core p') = acl_init_state net_bridge_name"
  using assms
  by (auto simp: wtsl_core_main_def Let_def create_splink_state_watcher_def split: prod.splits option.splits)

text \<open>The start goes through whenever the radio's part does and the page's configuration can be written.\<close>

lemma main_returns:
  assumes "run_state (wtsl_core_start (e_sh (me_core e)) (cfg_of (me_core e) (pg_core p)) (e_boot (me_core e)) (me_rand e) (me_buf e)
      (c_sp (pg_core p)) (c_adv (pg_core p))) (c_cmds (pg_core p)) = (Some (sp, a), tr)" "e_web (me_core e)"
  shows "\<exists>r p'. wtsl_core_main e p = Some (r, p')"
  using assms by (simp add: wtsl_core_main_def Let_def sync_ip_to_js_cfg_def split: prod.splits)

definition demo_main_env :: "tables main_env" where
  "demo_main_env = \<lparr>me_core = (demo_core_env (\<lambda>_. None))\<lparr>e_boot := demo_boot\<lparr>be_chdir := False\<rparr>\<rparr>, me_rand = [1, 2, 3, 4, 5, 6],
     me_buf = Some (replicate 24 (CHR 0x00)), me_sql = demo_sqlite, me_date = None, me_now = 0, me_time = ''-'',
     me_log_opens = True, me_log_thread = True, me_daemon = (\<lambda>_. True), me_stat = (\<lambda>_. None), me_mkdir = True, me_setenv = (\<lambda>_. True)\<rparr>"

definition demo_program :: "tables program" where
  "demo_program = \<lparr>pg_core = demo_core, pg_db = None, pg_log = start_state None None 0 demo_sp, pg_files = (\<lambda>_. None), pg_port = 8080,
     pg_serving = False, pg_libdir = None, pg_threads = []\<rparr>"

lemma demo_main: "\<exists>r p'. wtsl_core_main demo_main_env demo_program = Some (r, p')"
proof -
  let ?start = "run_state (wtsl_core_start quiet_shell ((demo_env None)\<lparr>ce_js := ''-''\<rparr>) (demo_boot\<lparr>be_chdir := False\<rparr>) [1, 2, 3, 4, 5, 6]
      (Some (replicate 24 (CHR 0x00))) demo_sp demo_mcs) []"
  have "Option.is_none (fst ?start) = False" by code_simp
  then obtain sp a tr where st: "?start = (Some (sp, a), tr)" by (cases ?start) (auto simp: Option.is_none_def)
  have "cfg_of (me_core demo_main_env) (pg_core demo_program) = (demo_env None)\<lparr>ce_js := ''-''\<rparr>"
    by (simp add: cfg_of_def demo_main_env_def demo_core_env_def demo_program_def demo_core_def demo_env_def)
  with st show ?thesis using main_returns [of demo_main_env demo_program sp a tr]
    by (simp add: demo_main_env_def demo_core_env_def demo_program_def demo_core_def)
qed

lemma main_result:
  assumes "wtsl_core_main e p = Some (r, p')"
  shows "r = 0 \<longleftrightarrow> me_log_opens e \<and> me_log_thread e \<and>
    fst (run_state (role_lamp (e_sh (me_core e)) (bi_type (c_basic (pg_core p')))) (c_cmds (pg_core p))) = 0"
proof -
  from main_parts [OF assms] obtain sp a tr lr lg fs where
    m: "wtsl_logger_init (Some ''wtsl_app'') (me_date e) (me_now e) (me_time e) (me_log_opens e) (me_log_thread e) sp (pg_files p) = (lr, lg, fs)"
    "r = (if lr \<noteq> 0 then 1 else fst (run_state (role_lamp (e_sh (me_core e)) (bi_type (basic_info (node_info sp)))) (c_cmds (pg_core p))))"
    "c_sp (pg_core p') = sp" by metis
  from m(1) have "lr = 0 \<longleftrightarrow> me_log_opens e \<and> me_log_thread e"
    by (auto simp: wtsl_logger_init_def open_log_file_def Let_def split: prod.splits if_splits)
  with m(2,3) show ?thesis by (auto simp: c_basic_def)
qed

text \<open>What the program returns in the end: success exactly when the lamp's command did and the log is there and its thread runs; whether the
  database, the web server or the environment of the firewall are there makes no difference.\<close>

theorem main_reports:
  assumes "wtsl_core_main e p = Some (r, p')"
  shows "r = 0 \<longleftrightarrow> me_log_opens e \<and> me_log_thread e \<and>
    fst (run_state (role_lamp (e_sh (me_core e)) (bi_type (c_basic (pg_core p')))) (c_cmds (pg_core p))) = 0"
  by (rule main_result [OF assms])

theorem main_reports_witness: "\<exists>p'. wtsl_core_main demo_main_env demo_program = Some (0, p')"
proof -
  obtain r p' where m: "wtsl_core_main demo_main_env demo_program = Some (r, p')" using demo_main by blast
  have "fst (run_state (role_lamp quiet_shell ty) tr) = 0" for ty tr by (simp add: role_lamp_def sys_def quiet_shell_def run_cmd_def)
  with main_reports [OF m] have "r = 0" by (simp add: demo_main_env_def demo_core_env_def)
  with m show ?thesis by blast
qed



end
