(* ===== verification/SleServers.thy ===== *)
theory SleServers
  imports Systems OpProps
begin

text \<open>
  The servers of the SLE forwarding as threads (slal/sle/sle_tcp_server.c, sle_udp_server.c): which TCP servers are alive while the
  port is changed by requests (slal/node/wtsl_core_node_callback.c), and what ends the UDP server.
\<close>

section \<open>TCP servers\<close>

text \<open>A server listens on its port, alone or busy with one client until that goes.\<close>

record tcp_srv =
  ts_port :: int
  ts_client :: "nat option"

text \<open>The port of the node, the flag, the threads created that have not begun, the servers that listen, the last client
  accepted (\<open>g_client_socket\<close>), the number of the next one, and whether the program has called \<open>exit\<close>.\<close>

record tcp_sys =
  ty_port :: int
  ty_run :: bool
  ty_new :: nat
  ty_live :: "tcp_srv list"
  ty_last :: "nat option"
  ty_next :: nat
  ty_exit :: bool

definition htons :: "int \<Rightarrow> int" where
  "htons p = p mod 65536"

text \<open>A port another server listens on cannot be bound, and a server that cannot bind ends the program; for the port 0 the system
  chooses a free one.  A server that finds the flag cleared closes at once.\<close>

definition create_tcp_server :: "tcp_sys \<Rightarrow> tcp_sys" where
  "create_tcp_server y = (let p = htons (ty_port y) in
     if p \<noteq> 0 \<and> p \<in> ts_port ` set (ty_live y) then y\<lparr>ty_exit := True\<rparr>
     else if ty_run y then y\<lparr>ty_live := ty_live y @ [\<lparr>ts_port = p, ts_client = None\<rparr>]\<rparr> else y)"

definition lose_client :: "nat \<Rightarrow> tcp_srv \<Rightarrow> tcp_srv" where
  "lose_client c s = (if ts_client s = Some c then s\<lparr>ts_client := None\<rparr> else s)"

definition accept_client :: "nat \<Rightarrow> tcp_sys \<Rightarrow> tcp_sys" where
  "accept_client i y = y\<lparr>ty_live := (ty_live y)[i := (ty_live y ! i)\<lparr>ts_client := Some (ty_next y)\<rparr>], ty_last := Some (ty_next y), ty_next := Suc (ty_next y)\<rparr>"

text \<open>When the client has gone its server looks at the flag, and accepts the next or closes.\<close>

definition client_gone :: "nat \<Rightarrow> tcp_sys \<Rightarrow> tcp_sys" where
  "client_gone c y = y\<lparr>ty_live := (if ty_run y then map (lose_client c) (ty_live y)
     else filter (\<lambda>s. ts_client s \<noteq> Some c) (ty_live y))\<rparr>"

inductive tcp_step :: "tcp_sys \<Rightarrow> tcp_sys \<Rightarrow> bool" where
  begins: "\<not> ty_exit y \<Longrightarrow> ty_new y = Suc k \<Longrightarrow> tcp_step y (create_tcp_server (y\<lparr>ty_new := k\<rparr>))"
| accepts: "\<not> ty_exit y \<Longrightarrow> i < length (ty_live y) \<Longrightarrow> ts_client (ty_live y ! i) = None \<Longrightarrow> tcp_step y (accept_client i y)"
| goes: "\<not> ty_exit y \<Longrightarrow> s \<in> set (ty_live y) \<Longrightarrow> ts_client s = Some c \<Longrightarrow> tcp_step y (client_gone c y)"
| fails: "\<not> ty_exit y \<Longrightarrow> ty_new y > 0 \<or> ty_live y \<noteq> [] \<Longrightarrow> tcp_step y (y\<lparr>ty_exit := True\<rparr>)"
| set_port: "\<not> ty_exit y \<Longrightarrow> tcp_step y (y\<lparr>ty_port := p\<rparr>)"
| stop: "\<not> ty_exit y \<Longrightarrow> tcp_step y (y\<lparr>ty_run := False\<rparr>)"
| starts: "\<not> ty_exit y \<Longrightarrow> tcp_step y (y\<lparr>ty_run := True, ty_new := Suc (ty_new y)\<rparr>)"

inductive_cases tcp_stepE: "tcp_step y y'"

definition tcp_begin :: "tcp_sys \<Rightarrow> bool" where
  "tcp_begin y \<longleftrightarrow> ty_live y = [] \<and> ty_new y = 0 \<and> ty_next y = 0 \<and> ty_last y = None \<and> \<not> ty_exit y"

text \<open>No two servers have a port that was asked for, and a client has come before.\<close>

definition bound :: "int list \<Rightarrow> int list" where
  "bound ps = filter (\<lambda>p. p \<noteq> 0) ps"

lemma bound_simps [simp]: "bound [] = []" "bound (p # ps) = (if p = 0 then bound ps else p # bound ps)" "bound (ps @ qs) = bound ps @ bound qs"
  "p \<in> set (bound ps) \<longleftrightarrow> p \<in> set ps \<and> p \<noteq> 0"
  by (auto simp: bound_def)

definition tcp_inv :: "tcp_sys \<Rightarrow> bool" where
  "tcp_inv y \<longleftrightarrow> distinct (bound (map ts_port (ty_live y))) \<and> (\<forall>s \<in> set (ty_live y). \<forall>c. ts_client s = Some c \<longrightarrow> c < ty_next y)"

lemma ports_kept [simp]: "ts_port (lose_client c s) = ts_port s" "ts_port \<circ> lose_client c = ts_port"
  by (auto simp: lose_client_def)

lemma ports_update [simp]: "map ts_port (xs[i := (xs ! i)\<lparr>ts_client := c\<rparr>]) = map ts_port xs"
  by (cases "i < length xs") (simp_all add: map_update list_update_same_conv list_update_beyond)

lemma bound_filter: "distinct (bound (map ts_port xs)) \<Longrightarrow> distinct (bound (map ts_port (filter P xs)))"
  by (induction xs) auto

lemma tcp_inv_step: "tcp_step y y' \<Longrightarrow> tcp_inv y \<Longrightarrow> tcp_inv y'"
proof (erule tcp_stepE, goal_cases)
  case (2 i)
  then have "\<forall>t \<in> set (ty_live y'). \<forall>c. ts_client t = Some c \<longrightarrow> c < Suc (ty_next y)"
    by (auto simp: tcp_inv_def accept_client_def dest!: subsetD [OF set_update_subset_insert] intro: less_SucI)
  with 2 show ?case by (simp add: tcp_inv_def accept_client_def)
next
  case (3 s c)
  then show ?case by (auto simp: tcp_inv_def client_gone_def bound_filter lose_client_def)
qed (auto simp: tcp_inv_def create_tcp_server_def Let_def)

interpretation tcp: invariant_system tcp_begin tcp_step tcp_inv
  by unfold_locales (simp add: tcp_begin_def tcp_inv_def, rule tcp_inv_step)

text \<open>A server without a client does not notice that it is to stop.\<close>

lemma next_step: "tcp_step y y' \<Longrightarrow> ty_next y \<le> ty_next y'"
  by (erule tcp_stepE) (auto simp: create_tcp_server_def accept_client_def client_gone_def Let_def)

lemma next_grows: "tcp_step\<^sup>*\<^sup>* y y' \<Longrightarrow> ty_next y \<le> ty_next y'"
  by (induction rule: rtranclp_induct) (auto dest: next_step)

lemma idle_stays_step: "tcp_step y y' \<Longrightarrow> s \<in> set (ty_live y) \<Longrightarrow> ts_client s = None \<Longrightarrow> ty_next y' = ty_next y \<Longrightarrow> s \<in> set (ty_live y')"
proof (erule tcp_stepE, goal_cases)
  case (3 t c)
  then show ?case by (force simp: client_gone_def lose_client_def)
qed (auto simp: create_tcp_server_def accept_client_def Let_def)

lemma idle_stays:
  assumes "tcp_step\<^sup>*\<^sup>* y y'" "s \<in> set (ty_live y)" "ts_client s = None" "ty_next y' = ty_next y"
  shows "s \<in> set (ty_live y')"
  using assms
proof (induction rule: rtranclp_induct)
  case (step z u)
  from next_grows [OF step(1)] next_step [OF step(2)] step.prems(3) have n: "ty_next z = ty_next y" "ty_next u = ty_next z" by auto
  with step idle_stays_step [OF step(2)] show ?case by simp
qed simp

section \<open>Changes of the port\<close>

text \<open>What the driver's trace does to the servers, each request given its second: the server of the last client accepted, whose reading
  is shut down, leaves; then one begins on the new port.\<close>

fun tcp_event :: "sle_event \<Rightarrow> tcp_sys \<Rightarrow> tcp_sys" where
  "tcp_event Tcp_stop y = (case ty_last y of None \<Rightarrow> y\<lparr>ty_run := False\<rparr> | Some c \<Rightarrow> client_gone c (y\<lparr>ty_run := False\<rparr>))"
| "tcp_event (Tcp_start p) y = create_tcp_server (y\<lparr>ty_port := p, ty_run := True\<rparr>)"
| "tcp_event _ y = y"

definition tcp_events :: "sle_event list \<Rightarrow> tcp_sys \<Rightarrow> tcp_sys" where
  "tcp_events es y = fold (\<lambda>e y. if ty_exit y then y else tcp_event e y) es y"

lemma tcp_events_simps [simp]: "tcp_events [] y = y" "tcp_events (e # es) y = tcp_events es (if ty_exit y then y else tcp_event e y)"
  "tcp_events (es @ fs) y = tcp_events fs (tcp_events es y)"
  by (simp_all add: tcp_events_def)

lemma tcp_events_exit [simp]: "ty_exit y \<Longrightarrow> tcp_events es y = y"
  by (induction es) auto

text \<open>It is a run of the threads.\<close>

lemma gone_run:
  assumes "\<not> ty_exit y"
  shows "tcp_step\<^sup>*\<^sup>* y (client_gone c y)"
proof (cases "\<exists>s \<in> set (ty_live y). ts_client s = Some c")
  case True
  with assms show ?thesis using tcp_step.goes by blast
next
  case False
  then have "\<forall>s \<in> set (ty_live y). lose_client c s = s \<and> ts_client s \<noteq> Some c" by (auto simp: lose_client_def)
  then have "client_gone c y = y" by (simp add: client_gone_def map_idI filter_id_conv)
  then show ?thesis by simp
qed

lemma tcp_event_run: "\<not> ty_exit y \<Longrightarrow> tcp_step\<^sup>*\<^sup>* y (tcp_event e y)"
proof (induction e y rule: tcp_event.induct)
  case (1 y)
  then have "tcp_step y (y\<lparr>ty_run := False\<rparr>)" by (rule tcp_step.stop)
  moreover have "tcp_step\<^sup>*\<^sup>* (y\<lparr>ty_run := False\<rparr>) (client_gone c (y\<lparr>ty_run := False\<rparr>))" for c using 1 by (intro gone_run) simp
  ultimately show ?case by (auto split: option.split intro: converse_rtranclp_into_rtranclp)
next
  case (2 p y)
  let ?a = "y\<lparr>ty_port := p\<rparr>"
  let ?b = "?a\<lparr>ty_run := True, ty_new := Suc (ty_new ?a)\<rparr>"
  have "tcp_step y ?a" "tcp_step ?a ?b" using 2 tcp_step.starts [of ?a] by (auto intro: tcp_step.set_port)
  moreover have "tcp_step ?b (create_tcp_server (?b\<lparr>ty_new := ty_new y\<rparr>))" using 2 by (intro tcp_step.begins) simp_all
  moreover have "?b\<lparr>ty_new := ty_new y\<rparr> = y\<lparr>ty_port := p, ty_run := True\<rparr>" by simp
  ultimately show ?case by (auto intro: converse_rtranclp_into_rtranclp)
qed simp_all

lemma tcp_events_run: "tcp_step\<^sup>*\<^sup>* y (tcp_events es y)"
proof (induction es arbitrary: y)
  case (Cons e es)
  show ?case
  proof (cases "ty_exit y")
    case False
    with tcp_event_run [OF False] Cons show ?thesis by (auto intro: rtranclp_trans)
  qed simp
qed simp

text \<open>With a client at the one server the change works: that server leaves, the next one is alone on the new port.\<close>

lemma change_with_client:
  assumes "\<not> ty_exit y" "ty_live y = [\<lparr>ts_port = q, ts_client = Some c\<rparr>]" "ty_last y = Some c"
  shows "tcp_events [Tcp_stop, Tcp_start p] y =
    y\<lparr>ty_live := [\<lparr>ts_port = htons p, ts_client = None\<rparr>], ty_run := True, ty_port := p\<rparr>"
  using assms by (simp add: client_gone_def create_tcp_server_def)

text \<open>Without one, every server stays: the program ends when a port comes again.\<close>

definition all_idle :: "tcp_sys \<Rightarrow> bool" where
  "all_idle y \<longleftrightarrow> \<not> ty_exit y \<and> (\<forall>s \<in> set (ty_live y). ts_client s = None)"

lemma change_idle:
  assumes "all_idle y"
  shows "tcp_events [Tcp_stop, Tcp_start p] y = create_tcp_server (y\<lparr>ty_port := p, ty_run := True\<rparr>)"
proof -
  have "filter (\<lambda>s. ts_client s \<noteq> Some c) (ty_live y) = ty_live y" for c using assms by (auto simp: all_idle_def filter_id_conv)
  then have "tcp_event Tcp_stop y = y\<lparr>ty_run := False\<rparr>" by (auto simp: client_gone_def split: option.split)
  with assms show ?thesis by (simp add: all_idle_def)
qed


text \<open>The restarts of a sequence of ports: those that are not the current one.\<close>

fun changed :: "int \<Rightarrow> int list \<Rightarrow> int list" where
  "changed p [] = []"
| "changed p (v # vs) = (if v = p then [] else [v]) @ changed v vs"

definition restarts :: "int \<Rightarrow> int list \<Rightarrow> sle_event list" where
  "restarts p vs = concat (map (\<lambda>v. [Tcp_stop, Tcp_start v]) (changed p vs))"

lemma idle_restarts:
  assumes "all_idle y" "distinct (bound (map ts_port (ty_live y)))"
  shows "ty_exit (tcp_events (concat (map (\<lambda>v. [Tcp_stop, Tcp_start v]) vs)) y) \<longleftrightarrow>
    \<not> distinct (bound (map ts_port (ty_live y) @ map htons vs))"
  using assms
proof (induction vs arbitrary: y)
  case (Cons v vs)
  let ?z = "create_tcp_server (y\<lparr>ty_port := v, ty_run := True\<rparr>)"
  have e: "tcp_events (concat (map (\<lambda>v. [Tcp_stop, Tcp_start v]) (v # vs))) y = tcp_events (concat (map (\<lambda>v. [Tcp_stop, Tcp_start v]) vs)) ?z"
    using change_idle [OF Cons.prems(1), of v] by (simp only: concat.simps list.map tcp_events_simps(3))
  show ?case
  proof (cases "htons v \<noteq> 0 \<and> htons v \<in> ts_port ` set (ty_live y)")
    case True
    then have "ty_exit ?z" by (simp add: create_tcp_server_def)
    with e True show ?thesis by auto
  next
    case False
    then have z: "?z = y\<lparr>ty_port := v, ty_run := True, ty_live := ty_live y @ [\<lparr>ts_port = htons v, ts_client = None\<rparr>]\<rparr>"
      by (auto simp: create_tcp_server_def)
    have "all_idle ?z" using Cons.prems(1) unfolding z by (auto simp: all_idle_def)
    moreover have "distinct (bound (map ts_port (ty_live ?z)))" using Cons.prems(2) False unfolding z by auto
    ultimately have "ty_exit (tcp_events (concat (map (\<lambda>v. [Tcp_stop, Tcp_start v]) vs)) ?z) \<longleftrightarrow>
        \<not> distinct (bound (map ts_port (ty_live ?z) @ map htons vs))" by (rule Cons.IH)
    moreover have "ty_live ?z = ty_live y @ [\<lparr>ts_port = htons v, ts_client = None\<rparr>]" unfolding z by simp
    ultimately show ?thesis using e by simp
  qed
qed (simp add: all_idle_def)

section \<open>Requests\<close>

definition asks_port :: "node_env \<Rightarrow> string \<Rightarrow> int \<Rightarrow> bool" where
  "asks_port e d v \<longleftrightarrow> (case cj_parse (e_json e) (c_text d) of None \<Rightarrow> False
     | Some root \<Rightarrow> (case cj_get (e_json e) root ''trans_tcp_port'' of None \<Rightarrow> False | Some j \<Rightarrow> valueint j = v))"

definition tcp_port :: "world \<Rightarrow> int" where
  "tcp_port w = bi_trans_tcp_port (c_basic (w_core w))"

text \<open>One request: the node has the port, and its server is restarted if it was another one.\<close>

lemma udp_port_frames: "c_nodes (core_of (set_udp_port e root st)) = c_nodes (core_of st)" "fst (set_udp_port e root st) = fst st"
  "bi_trans_tcp_port (c_basic (core_of (set_udp_port e root st))) = bi_trans_tcp_port (c_basic (core_of st))"
  "\<exists>us. sl_out (sle_of (set_udp_port e root st)) = sl_out (sle_of st) @ us \<and> (\<forall>y. tcp_events us y = y)"
  by (auto simp: set_udp_port_def on_sle_def on_core_def core_of_def sle_of_def Let_def udp_init_def sle_stop_udp_server_def emit_def split: option.split)

lemma trans_request:
  assumes "asks_port e d v"
  shows "\<exists>w'. wtsl_core_set_sle_trans_config e n d ctx (b, w) = Some (Some ''success'', (b, w')) \<and> tcp_port w' = v \<and>
    c_nodes (w_core w') = c_nodes (w_core w) \<and> (\<exists>us. sl_out (w_sle w') = sl_out (w_sle w) @ restarts (tcp_port w) [v] @ us \<and> (\<forall>y. tcp_events us y = y))"
proof -
  from assms obtain root j where r: "cj_parse (e_json e) (c_text d) = Some root" "cj_get (e_json e) root ''trans_tcp_port'' = Some j" "valueint j = v"
    by (auto simp: asks_port_def split: option.splits)
  let ?s = "set_tcp_port e root (b, w)"
  have s: "c_nodes (core_of ?s) = c_nodes (w_core w)" "fst ?s = b" "bi_trans_tcp_port (c_basic (core_of ?s)) = v"
    "sl_out (sle_of ?s) = sl_out (w_sle w) @ restarts (tcp_port w) [v]"
    using r by (auto simp: set_tcp_port_def on_sle_def on_core_def core_of_def sle_of_def Let_def tcp_init_def sle_stop_tcp_server_def emit_def
        restarts_def tcp_port_def)
  obtain b' w' where u: "set_udp_port e root ?s = (b', w')" by fastforce
  with udp_port_frames [of e root ?s] s r show ?thesis
    by (auto simp: wtsl_core_set_sle_trans_config_def with_json_def core_of_def sle_of_def tcp_port_def)
qed

fun posts :: "('d, world) http_env \<Rightarrow> string \<Rightarrow> string list \<Rightarrow> ('d, world) http_st \<Rightarrow> ('d, world) http_st option" where
  "posts h url [] s = Some s"
| "posts h url (d # ds) s = do { (r, s1) \<leftarrow> wtcoreapi_parse_http_post_cmd h url d s; posts h url ds s1 }"

lemma restarts_Cons: "restarts p (v # vs) = restarts p [v] @ restarts v vs"
  by (simp add: restarts_def)

lemma posts_restart:
  assumes "local_node (rest_env e u unset mac) s i n" "PERMISSION_WRITE \<le> uc_permission (hs_ctx s)" "list_all2 (asks_port e) ds vs"
  shows "\<exists>s' es. posts (rest_env e u unset mac) (path [''api'', ''v1'', ''nodes'', show_int i, ''sle_trans_config'']) ds s = Some s' \<and>
    sl_out (w_sle (hs_world s')) = sl_out (w_sle (hs_world s)) @ es \<and> (\<forall>y. tcp_events es y = tcp_events (restarts (tcp_port (hs_world s)) vs) y)"
  using assms(3,1,2)
proof (induction ds vs arbitrary: s rule: list_all2_induct)
  case Nil
  then show ?case by (auto simp: restarts_def)
next
  case (Cons d ds v vs)
  from trans_request [OF Cons.hyps(1)] obtain w us where w: "wtsl_core_set_sle_trans_config e n d (hs_ctx s) (hs_buf s, hs_world s) = Some (Some ''success'', (hs_buf s, w))"
    "tcp_port w = v" "c_nodes (w_core w) = c_nodes (w_core (hs_world s))" "\<forall>y. tcp_events us y = y"
    "sl_out (w_sle w) = sl_out (w_sle (hs_world s)) @ restarts (tcp_port (hs_world s)) [v] @ us" by metis
  let ?s = "s\<lparr>hs_buf := hs_buf s, hs_world := w\<rparr>"
  have run: "wtcoreapi_parse_http_post_cmd (rest_env e u unset mac) (path [''api'', ''v1'', ''nodes'', show_int i, ''sle_trans_config'']) d s =
      Some (post_reply (Some ''success''), ?s)"
    using post_runs [where m = "Some 16" and name = "''set_sle_trans_config''" and f = "''wtsl_core_set_sle_trans_config''" and j = 44
        and k = "''sle_trans_config''" and g = "wtsl_core_set_sle_trans_config e", OF _ _ _ Cons.prems] w(1)
    by (simp add: post_routes_def node_func_list_def op_table_def)
  have "local_node (rest_env e u unset mac) ?s i n" using Cons.prems(1) w(3) by (simp add: local_node_def find_node_eq rest_env_def)
  from Cons.IH [OF this] Cons.prems(2) obtain s' es where
    "posts (rest_env e u unset mac) (path [''api'', ''v1'', ''nodes'', show_int i, ''sle_trans_config'']) ds ?s = Some s'"
    "sl_out (w_sle (hs_world s')) = sl_out (w_sle w) @ es" "\<forall>y. tcp_events es y = tcp_events (restarts v vs) y"
    using w(2) by auto
  then show ?case using run w(4,5) restarts_Cons [of "tcp_port (hs_world s)" v vs] by auto
qed


text \<open>Two requests, for another port and back to the first.\<close>

definition port_env :: node_env where
  "port_env = (demo_node_env JNull [])\<lparr>ne_core := (ne_core (demo_node_env JNull []))\<lparr>e_cj :=
     demo_cjson (\<lambda>d. Some (JObj [(''trans_tcp_port'', JNum (if d = ''a'' then 8000 else 9981))]))\<rparr>\<rparr>"

definition port_state :: "(tables, world) http_st" where
  "port_state = (demo_rest_st PERMISSION_WRITE)\<lparr>hs_world := demo_world\<lparr>w_core := upd_basic (\<lambda>b. b\<lparr>bi_trans_tcp_port := 9981\<rparr>) (w_core demo_world)\<rparr>\<rparr>"

definition port_server :: tcp_sys where
  "port_server = \<lparr>ty_port = 9981, ty_run = True, ty_new = 0, ty_live = [\<lparr>ts_port = 9981, ts_client = None\<rparr>], ty_last = None, ty_next = 0, ty_exit = False\<rparr>"


section \<open>The UDP server\<close>

text \<open>The thread: it begins without a client, receives until there is nothing or something wrong, and closes the socket.\<close>

definition create_udp_server :: "(sockaddr_in \<times> bytes) list \<Rightarrow> sle_st \<Rightarrow> sle_st option" where
  "create_udp_server ds s = do { s1 \<leftarrow> udp_recv_msg ds (s\<lparr>sl_udp_open := True, sl_client := None\<rparr>); Some (s1\<lparr>sl_udp_open := False\<rparr>) }"

lemma udp_recv_empty: "udp_recv_msg (ds @ (a, []) # es) s = udp_recv_msg ds s"
  by (induction ds s rule: udp_recv_msg.induct) (auto split: Option.bind_split)

text \<open>An empty datagram ends the UDP server: what comes after it is not forwarded, and nothing from the links is sent on, until a request
  starts the server again.\<close>

theorem empty_datagram_ends_udp:
  assumes "create_udp_server (ds @ (a, []) # es) s = Some s'"
  shows "create_udp_server ds s = Some s' \<and> snd (sle_udp_server_send d s') = s' \<and> fst (sle_udp_server_send d s') = -1"
proof -
  from assms have "create_udp_server ds s = Some s'" by (simp add: create_udp_server_def udp_recv_empty)
  moreover from this have "\<not> sl_udp_open s'" by (auto simp: create_udp_server_def split: Option.bind_splits)
  ultimately show ?thesis by (auto simp: sle_udp_server_send_def split: option.split)
qed

theorem empty_datagram_ends_udp_witness:
  "\<exists>s'. create_udp_server [(a, []), (a, [1])] no_sle = Some s' \<and> create_udp_server [] no_sle = Some s' \<and> fst (sle_udp_server_send [1] s') = -1"
proof -
  obtain s' where "create_udp_server ([] @ (a, []) # [(a, [1])]) no_sle = Some s'" by (simp add: create_udp_server_def)
  from this empty_datagram_ends_udp [OF this, of "[1]"] show ?thesis by auto
qed

end
