(* ===== verification/SleConnect.thy ===== *)
theory SleConnect
  imports OpProps
begin

text \<open>
  From the scan for SLE devices to a connection: the address the scan shows is read back by the request that connects to it.
\<close>

section \<open>Addresses\<close>

definition low :: "nat \<Rightarrow> char" where
  "low d = tolower (SlbNode.hex_digit d)"

lemma of_char_low: "d < 16 \<Longrightarrow> of_char (low d) = (if d < 10 then 48 + d else 87 + d :: nat)"
  by (auto simp: low_def SlbNode.hex_digit_def tolower_def)

lemma low_not: "d < 16 \<Longrightarrow> of_char c < (48 :: nat) \<or> of_char c = (58 :: nat) \<or> of_char c > (102 :: nat) \<Longrightarrow> low d \<noteq> c"
  using of_char_low [of d] by (auto split: if_splits)

lemma low_digit:
  assumes "d < 16"
  shows "xdigit_val (low d) = Some d" "low d \<noteq> CHR '':''" "low d \<noteq> CHR ''-''" "low d \<noteq> CHR ''+''" "\<not> isspace (low d)"
    "tolower (low d) \<noteq> CHR ''x''"
proof -
  have t: "tolower (low d) = low d" using of_char_low [OF assms] by (simp add: tolower_def)
  show "xdigit_val (low d) = Some d" using of_char_low [OF assms] assms by (auto simp: xdigit_val_def t Let_def)
  show "tolower (low d) \<noteq> CHR ''x''" unfolding t by (rule low_not [OF assms]) simp
  show "low d \<noteq> CHR '':''" "low d \<noteq> CHR ''-''" "low d \<noteq> CHR ''+''" by (rule low_not [OF assms]; simp)+
  have "isspace c \<Longrightarrow> of_char c < (48 :: nat)" for c by (auto simp: isspace_def)
  then show "\<not> isspace (low d)" using low_not [OF assms] by blast
qed

lemma byte_text: "\<exists>h l. h < 16 \<and> l < 16 \<and> hex_lower b = [low h, low l] \<and> int (16 * h + l) = uint b"
proof -
  have b: "unat b < 256" using unsigned_less [of b] by simp
  have "16 * (unat b div 16) + unat b mod 16 = unat b" by simp
  then have "int (16 * (unat b div 16) + unat b mod 16) = uint b" by (metis uint_nat)
  with b show ?thesis
    by (intro exI [of _ "unat b div 16"] exI [of _ "unat b mod 16"]) (auto simp: hex_lower_def hex2_def low_def less_mult_imp_div_less)
qed

text \<open>\<open>%02x\<close> reads a printed byte.\<close>

lemma strtol16_byte:
  assumes "2 ^ 31 - 1 \<le> lmax"
  shows "strtol16 lmax (hex_lower b) = (uint b, [])"
proof -
  obtain h l where h: "h < 16" "l < 16" "hex_lower b = [low h, low l]" "int (16 * h + l) = uint b" using byte_text by blast
  have "uint b < 256" using uint_lt2p [of b] by simp
  moreover have "- lmax - 1 \<le> 0" using assms by simp
  then have "- lmax - 1 \<le> uint b" using uint_ge_0 [of b] by (rule order_trans)
  ultimately have c: "clamp lmax (uint b) = uint b" using assms by (simp add: clamp_def)
  have "ltrim [low h, low l] = [low h, low l]" using low_digit(5) [OF h(1)] by (simp add: ltrim_def)
  moreover have "sign_split [low h, low l] = (False, [low h, low l])" using low_digit(3,4) [OF h(1)] by (simp add: sign_split_def)
  ultimately show ?thesis using low_digit(1) [OF h(1)] low_digit(1) [OF h(2)] h(3,4) c
    by (simp add: strtol16_def drop_0x_def is_xdigit_def Let_def)
qed

lemma scan_byte:
  assumes "2 ^ 31 - 1 \<le> lmax"
  shows "scan lmax (Hex 2 # f) (hex_lower b @ r) = IV (uint b) # scan lmax f r"
proof -
  obtain h l where h: "h < 16" "l < 16" "hex_lower b = [low h, low l]" using byte_text by blast
  have t: "ltrim (hex_lower b @ r) = hex_lower b @ r" using low_digit(5) [OF h(1)] h(3) by (simp add: ltrim_def)
  have k: "take 2 (hex_lower b @ r) = hex_lower b" "drop 2 (hex_lower b @ r) = r" "hex_lower b \<noteq> []" using h(3) by simp_all
  have "uint b < 256" using uint_lt2p [of b] by simp
  moreover have "- (2 ^ 31) \<le> uint b" by (rule order_trans [OF _ uint_ge_0]) simp
  ultimately have "to_int32 (uint b) = uint b" by (intro to_int32_id) auto
  with strtol16_byte [OF assms, of b] show ?thesis using k(3) by (simp only: scan.simps t Let_def k(1,2) prod.case) simp
qed

lemma scan_addr_text:
  assumes "2 ^ 31 - 1 \<le> lmax" "length a = 6"
  shows "scan lmax (addr_fmt 2) (addr_text a) = map (\<lambda>b. IV (uint b)) a"
proof -
  obtain a0 a1 a2 a3 a4 a5 where a: "a = [a0, a1, a2, a3, a4, a5]"
    using assms(2) by (auto simp: length_Suc_conv numeral_eq_Suc)
  note s = scan_byte [OF assms(1)]
  have last: "scan lmax [Hex 2] (hex_lower b) = [IV (uint b)]" for b using s [of "[]" b "[]"] by simp
  show ?thesis unfolding a addr_text_def addr_fmt_def by (simp add: s last del: scan.simps(6))
qed

section \<open>Storing them\<close>

text \<open>Each byte is stored as four; the next one covers three of them.\<close>

lemma poke_byte: "p + 4 \<le> length m \<Longrightarrow> poke_int p (uint (b :: 8 word)) m = Some (take p m @ [b, 0, 0, 0] @ drop (p + 4) m)"
proof -
  have "uint b < 256" using uint_lt2p [of b] by simp
  then have "nat (uint b mod 2 ^ 32) = unat b" using uint_ge_0 [of b] by simp
  moreover have "le_bytes 4 (unat b) = [b, 0, 0, 0]" proof -
    have "unat b < 256" using unsigned_less [of b] by simp
    then have "le_bytes (Suc (Suc (Suc (Suc 0)))) (unat b) = [b, 0, 0, 0]" by simp
    then show ?thesis by (simp only: eval_nat_numeral BitM.simps One_nat_def numeral_One)
  qed
  ultimately show "p + 4 \<le> length m \<Longrightarrow> ?thesis" by (simp add: poke_int_def)
qed

lemma poke_bytes:
  assumes "p + length bs + 3 \<le> length m"
  shows "\<exists>m'. poke_ints p (map uint (bs :: 8 word list)) m = Some m' \<and> length m' = length m \<and> take (p + length bs) m' = take p m @ bs"
  using assms
proof (induction bs arbitrary: p m)
  case (Cons b bs)
  let ?m = "take p m @ [b, 0, 0, 0] @ drop (p + 4) m"
  have l: "length ?m = length m" using Cons.prems by simp
  with Cons.prems Cons.IH [of "Suc p" ?m] obtain m' where
    m': "poke_ints (Suc p) (map uint bs) ?m = Some m'" "length m' = length ?m" "take (Suc p + length bs) m' = take (Suc p) ?m @ bs" by auto
  have "poke_int p (uint b) m = Some ?m" using Cons.prems by (intro poke_byte) simp
  moreover have "take (Suc p) ?m = take p m @ [b]" using Cons.prems by simp
  ultimately show ?case using m' l by (intro exI [of _ m']) simp
qed simp

lemma scan_addr_back:
  assumes "2 ^ 31 - 1 \<le> lmax" "length a = 6" "9 \<le> length m"
  shows "scan_addr lmax 2 (addr_text a) m = Some a"
proof -
  have "map ival (scan lmax (addr_fmt 2) (addr_text a)) = map uint a" by (simp add: scan_addr_text [OF assms(1,2)] comp_def)
  then show ?thesis using poke_bytes [of 0 a m] assms(2,3) by (auto simp: scan_addr_def)
qed

lemma length_addr_text: "length a = 6 \<Longrightarrow> length (addr_text a) = 17"
proof -
  have h: "length (hex_lower b) = 2" for b by (simp add: hex_lower_def hex2_def)
  assume "length a = 6"
  then obtain a0 a1 a2 a3 a4 a5 where "a = [a0, a1, a2, a3, a4, a5]" by (auto simp: length_Suc_conv numeral_eq_Suc)
  then show ?thesis by (simp add: addr_text_def h)
qed

section \<open>From the scan to the connection\<close>

lemma seek_reports_all: "seek_reports rs s = seek_all rs s"
proof (induction rs arbitrary: s)
  case (Cons r rs)
  then have "seek_reports rs = seek_all rs" by (intro ext)
  then show ?case by simp
qed simp

lemma seek_all_from:
  "seek_all rs s = Some t \<Longrightarrow> set (sl_seek t) \<subseteq> set (sl_seek s) \<union> set rs"
proof (induction rs arbitrary: s)
  case (Cons r rs)
  then show ?case by (fastforce simp: seek_step bind_eq_Some_conv split: if_splits)
qed simp


definition found_env :: node_env where
  "found_env = (demo_node_env (JObj [(''mac'', JStr (addr_text [17, 34, 51, 68, 85, 102]))]) [])\<lparr>ne_jaddr := replicate 9 0,
     ne_found := [\<lparr>sr_addr = [1, 2, 3, 4, 5, 6], sr_rssi = -40\<rparr>, \<lparr>sr_addr = [17, 34, 51, 68, 85, 102], sr_rssi = -50\<rparr>]\<rparr>"


end
