(* ===== verification/Services.thy ===== *)
theory Services
  imports Systems SplinkState Multicast HttpMain SlbNode
begin

text \<open>
  The long-running services around their loops: the sockets of the multicast heartbeats (slal/wtsl_core_splink_mc.c), the thread that starts
  the DHCP programs and the node service (slal/wtsl_core_splink_state.c, slal/node/wtsl_core_node_service.c), and the process with
  its signals (wtsl_app/main.c, slal/sle/sle_client.c).
\<close>

section \<open>Multicast sockets\<close>

text \<open>The calls on a socket, with the texts the addresses are read from.\<close>

datatype sock_op = Sock_Create | Sock_Reuse | Sock_Bind string int | Sock_Index string | Sock_Mcast_If | Sock_Join string string
  | Sock_Leave string | Sock_Close

text \<open>A call whose failure counts closes the socket and ends the program (True); others are only logged.\<close>

fun sock_calls :: "(sock_op \<Rightarrow> bool) \<Rightarrow> (sock_op \<times> bool) list \<Rightarrow> bool \<times> sock_op list" where
  "sock_calls ok [] = (True, [])"
| "sock_calls ok ((c, fatal) # cs) = (if fatal \<and> \<not> ok c then (False, c # (if c = Sock_Create then [] else [Sock_Close]))
     else (case sock_calls ok cs of (r, t) \<Rightarrow> (r, c # t)))"

definition multicast_group :: string where "multicast_group = ''239.0.0.1''"

definition multicast_port :: int where "multicast_port = 9988"

definition init_send_socket :: "(sock_op \<Rightarrow> bool) \<Rightarrow> bool \<times> sock_op list" where
  "init_send_socket ok = sock_calls ok [(Sock_Create, True), (Sock_Bind ''0.0.0.0'' 0, True)]"

definition init_recv_socket :: "(sock_op \<Rightarrow> bool) \<Rightarrow> string \<Rightarrow> bool \<times> sock_op list" where
  "init_recv_socket ok ip = sock_calls ok [(Sock_Create, True), (Sock_Reuse, True), (Sock_Bind ip multicast_port, True),
     (Sock_Index ''wt_br0'', True), (Sock_Mcast_If, False), (Sock_Join multicast_group ip, False)]"

text \<open>None: the program has ended.\<close>

definition wtsl_core_splink_gnode_service ::
    "(sock_op \<Rightarrow> bool) \<Rightarrow> string \<Rightarrow> (int \<times> int \<times> mc_recv) list \<Rightarrow> mc_state \<Rightarrow> (mc_state \<times> sock_op list) option" where
  "wtsl_core_splink_gnode_service ok ip rounds s = (case init_send_socket ok of (a, t) \<Rightarrow>
     if \<not> a then None
     else (case init_recv_socket ok ip of (b, u) \<Rightarrow>
       if \<not> b then None
       else Some (mc_service rounds s, t @ u @ [Sock_Close, Sock_Leave multicast_group, Sock_Close])))"

lemma sock_calls_fails: "fst (sock_calls ok cs) \<longleftrightarrow> (\<forall>(c, fatal) \<in> set cs. fatal \<longrightarrow> ok c)"
  by (induction ok cs rule: sock_calls.induct) (auto split: prod.splits)

text \<open>The failure to join the group is not noticed; a missing bridge or an address that cannot be bound ends the whole program.\<close>

theorem gnode_service_ends_program:
  "wtsl_core_splink_gnode_service ok ip rounds s = None \<longleftrightarrow>
     \<not> (ok Sock_Create \<and> ok (Sock_Bind ''0.0.0.0'' 0) \<and> ok Sock_Reuse \<and> ok (Sock_Bind ip multicast_port) \<and> ok (Sock_Index ''wt_br0''))"
proof -
  have "fst (init_send_socket ok) \<longleftrightarrow> ok Sock_Create \<and> ok (Sock_Bind ''0.0.0.0'' 0)"
    unfolding init_send_socket_def sock_calls_fails by simp
  moreover have "fst (init_recv_socket ok ip) \<longleftrightarrow> ok Sock_Create \<and> ok Sock_Reuse \<and> ok (Sock_Bind ip multicast_port) \<and> ok (Sock_Index ''wt_br0'')"
    unfolding init_recv_socket_def sock_calls_fails by simp
  ultimately show ?thesis by (auto simp: wtsl_core_splink_gnode_service_def split: prod.splits)
qed

section \<open>The DHCP files\<close>

definition text_lines :: "string list \<Rightarrow> string" where
  "text_lines ls = concat (map (\<lambda>l. l @ [CHR 0x0A]) ls)"

definition udhcpd_config :: string where
  "udhcpd_config = text_lines [''interface wt_br0:1'', ''start 192.168.100.10'', ''end 192.168.100.200'', ''netmask 255.255.255.0'',
     ''router 192.168.100.1'', ''lease_file /tmp/udhcpd_leases.txt'', ''lease 86400'', ''max_lease 604800'']"

definition tab :: string where "tab = [CHR 0x09]"

definition udhcpc_script :: string where
  "udhcpc_script = text_lines [''#!/bin/sh'', ''INTERFACE=wt_br0:1'', ''echo $1'', ''case '' @ [CHR 0x22] @ ''$1'' @ [CHR 0x22] @ '' in'',
     tab @ ''bound|renew)'', tab @ tab @ ''ifconfig $INTERFACE $ip'', tab @ tab @ ''# route add default gw $router dev $INTERFACE'', tab @ tab @ '';;'',
     tab @ ''deconfig)'', tab @ tab @ ''ifconfig $INTERFACE 0.0.0.0'', tab @ tab @ '';;'', ''esac'']"

section \<open>The node service thread\<close>

text \<open>One round: the number of users, whether the DHCP file opens, whether the socket can be created and bound, the address, and
  whether the two threads can be created.\<close>

record service_round =
  sr_users :: int
  sr_opened :: bool
  sr_socket :: bool
  sr_bind :: bool
  sr_local :: sockaddr_in
  sr_recv :: bool
  sr_beat :: bool

record service =
  sd_svc :: svc
  sd_cmds :: "string list"
  sd_file :: "(string \<times> string) option"
  sd_pauses :: nat
  sd_serving :: bool

definition dhcp_side :: "shell \<Rightarrow> bool \<Rightarrow> int \<Rightarrow> bool \<Rightarrow> service \<Rightarrow> service" where
  "dhcp_side sh gnode dhcp opened s = (if gnode
     then s\<lparr>sd_cmds := wtsl_core_start_dhcpd_server sh opened dhcp (sd_cmds s),
            sd_file := (if opened then Some (''/tmp/udhcpd.conf'', udhcpd_config) else sd_file s)\<rparr>
     else s\<lparr>sd_cmds := wtsl_core_start_dhcpc_client sh opened dhcp (sd_cmds s),
            sd_file := (if opened then Some (''/tmp/udhcpc_script'', udhcpc_script) else sd_file s)\<rparr>)"

text \<open>A thread that cannot be created makes the start fail; what has been started stays.\<close>

definition wtsl_core_splink_start_node_service_thread :: "service_round \<Rightarrow> svc \<Rightarrow> (int \<times> svc) option" where
  "wtsl_core_splink_start_node_service_thread r v = (case start_node_service (sr_socket r) (sr_bind r) (sr_local r) v of
     None \<Rightarrow> None
   | Some (k, v1) \<Rightarrow> Some (if k = 0 \<and> \<not> (sr_recv r \<and> sr_beat r) then -1 else k, v1))"

text \<open>The service that has started returns when the program is to end; one that has not returns at once.\<close>

fun wtsl_core_splink_node_service :: "shell \<Rightarrow> bool \<Rightarrow> int \<Rightarrow> service_round list \<Rightarrow> service \<Rightarrow> service option" where
  "wtsl_core_splink_node_service sh gnode dhcp [] s = Some s"
| "wtsl_core_splink_node_service sh gnode dhcp (r # rs) s =
     (if sr_users r \<le> 0 then wtsl_core_splink_node_service sh gnode dhcp rs (s\<lparr>sd_pauses := Suc (sd_pauses s)\<rparr>)
      else (let s1 = dhcp_side sh gnode dhcp (sr_opened r) s in
        case wtsl_core_splink_start_node_service_thread r (sd_svc s1) of
          None \<Rightarrow> None
        | Some (k, v) \<Rightarrow> if k = 0 then Some (s1\<lparr>sd_svc := v, sd_serving := True\<rparr>)
            else wtsl_core_splink_node_service sh gnode dhcp rs (s1\<lparr>sd_svc := v\<rparr>)))"

text \<open>As long as the address cannot be bound the thread runs the commands again and again without a pause, the start of the DHCP
  server among them.\<close>

theorem failed_bind_spins:
  assumes "\<forall>r \<in> set rs. 0 < sr_users r \<and> \<not> (sr_socket r \<and> sr_bind r)"
  shows "\<exists>s'. wtsl_core_splink_node_service sh True dhcp rs s = Some s' \<and> sd_pauses s' = sd_pauses s \<and> sd_svc s' = sd_svc s \<and>
    sd_cmds s' = sd_cmds s @ concat (map (\<lambda>r. start_dhcpd_cmds (sr_opened r) dhcp) rs)"
  using assms
proof (induction rs arbitrary: s)
  case (Cons r rs)
  let ?s = "dhcp_side sh True dhcp (sr_opened r) s"
  have n: "wtsl_core_splink_start_node_service_thread r (sd_svc ?s) = Some (-1, sd_svc ?s)"
    using Cons.prems by (auto simp: wtsl_core_splink_start_node_service_thread_def start_node_service_def)
  have s: "sd_pauses ?s = sd_pauses s" "sd_svc ?s = sd_svc s" "sd_cmds ?s = sd_cmds s @ start_dhcpd_cmds (sr_opened r) dhcp"
    by (simp_all add: dhcp_side_def wtsl_core_start_dhcpd_server_def)
  have "\<not> sr_users r \<le> 0" using Cons.prems by auto
  then have "wtsl_core_splink_node_service sh True dhcp (r # rs) s = wtsl_core_splink_node_service sh True dhcp rs ?s"
    using n by simp
  with Cons.IH [of ?s] Cons.prems s show ?case by auto
qed auto

theorem failed_bind_spins_witness:
  "\<exists>s'. wtsl_core_splink_node_service quiet_shell True 1 (replicate 3 \<lparr>sr_users = 1, sr_opened = True, sr_socket = True, sr_bind = False, sr_local = a, sr_recv = True, sr_beat = True\<rparr>) s = Some s' \<and>
    filter (\<lambda>c. c = ''udhcpd /tmp/udhcpd.conf'') (sd_cmds s') = filter (\<lambda>c. c = ''udhcpd /tmp/udhcpd.conf'') (sd_cmds s) @ replicate 3 ''udhcpd /tmp/udhcpd.conf''"
proof -
  let ?rs = "replicate 3 \<lparr>sr_users = 1, sr_opened = True, sr_socket = True, sr_bind = False, sr_local = a, sr_recv = True, sr_beat = True\<rparr>"
  obtain s' where "wtsl_core_splink_node_service quiet_shell True 1 ?rs s = Some s'"
    "sd_cmds s' = sd_cmds s @ concat (map (\<lambda>r. start_dhcpd_cmds (sr_opened r) 1) ?rs)"
    using failed_bind_spins [of ?rs quiet_shell 1 s] by auto
  then show ?thesis by (simp add: numeral_3_eq_3 start_dhcpd_cmds_def)
qed

section \<open>The process and its signals\<close>

datatype signum = SIGINT | SIGTERM | SIGSEGV | SIGILL | SIGKILL

text \<open>Which signals the handler is installed for, the flag of the threads, the web server, the command lines, an instruction that
  faults and is run again when the handler returns, and whether the process is gone.\<close>

record process =
  pr_handled :: "signum list"
  pr_run :: bool
  pr_serving :: bool
  pr_cmds :: "string list"
  pr_stuck :: bool
  pr_gone :: bool

text \<open>\<open>signal_handler\<close> of the application, which also stands for the one of the same name in the library.\<close>

definition app_signal_handler :: "shell \<Rightarrow> signum \<Rightarrow> process \<Rightarrow> process" where
  "app_signal_handler sh n p = (if n = SIGINT \<or> n = SIGTERM
     then (case run_state (wtsl_core_release sh) (pr_cmds p) of ((r, run), tr) \<Rightarrow> p\<lparr>pr_serving := False, pr_run := (run \<noteq> 0), pr_cmds := tr\<rparr>)
     else p)"

definition app_main :: "process \<Rightarrow> process" where
  "app_main p = p\<lparr>pr_handled := [SIGINT, SIGTERM]\<rparr>"

text \<open>The system refuses a handler for \<open>SIGKILL\<close>.\<close>

definition register_signal :: "process \<Rightarrow> process" where
  "register_signal p = p\<lparr>pr_handled := filter (\<lambda>n. n \<noteq> SIGKILL) [SIGINT, SIGTERM, SIGSEGV, SIGKILL, SIGILL] @ pr_handled p\<rparr>"

definition deliver :: "shell \<Rightarrow> signum \<Rightarrow> process \<Rightarrow> process" where
  "deliver sh n p = (if n \<in> set (pr_handled p) \<and> n \<noteq> SIGKILL then app_signal_handler sh n p else p\<lparr>pr_gone := True\<rparr>)"

text \<open>Signals come, an instruction faults, and the program ends when its threads have seen the flag.\<close>

inductive proc_step :: "shell \<Rightarrow> process \<Rightarrow> process \<Rightarrow> bool" for sh where
  signal: "\<not> pr_gone p \<Longrightarrow> n \<noteq> SIGKILL \<Longrightarrow> proc_step sh p (deliver sh n p)"
| fault: "\<not> pr_gone p \<Longrightarrow> proc_step sh p (deliver sh SIGSEGV (p\<lparr>pr_stuck := True\<rparr>))"
| returns: "\<not> pr_gone p \<Longrightarrow> \<not> pr_run p \<Longrightarrow> proc_step sh p (p\<lparr>pr_gone := True\<rparr>)"

definition proc_start :: "process \<Rightarrow> bool" where
  "proc_start p \<longleftrightarrow> (\<exists>q. p = register_signal (app_main q) \<and> \<not> pr_gone q)"

definition proc_inv :: "process \<Rightarrow> bool" where
  "proc_inv p \<longleftrightarrow> {SIGINT, SIGTERM, SIGSEGV, SIGILL} \<subseteq> set (pr_handled p) \<and> (pr_gone p \<longrightarrow> \<not> pr_run p)"

lemma handler_frames [simp]: "pr_handled (app_signal_handler sh n p) = pr_handled p" "pr_gone (app_signal_handler sh n p) = pr_gone p"
  "pr_stuck (app_signal_handler sh n p) = pr_stuck p" "n \<noteq> SIGINT \<Longrightarrow> n \<noteq> SIGTERM \<Longrightarrow> app_signal_handler sh n p = p"
  by (simp_all add: app_signal_handler_def split: prod.splits)

lemma proc_inv_step: "proc_step sh p p' \<Longrightarrow> proc_inv p \<Longrightarrow> proc_inv p'"
proof (induction rule: proc_step.induct)
  case (signal p n)
  then show ?case by (cases n) (auto simp: deliver_def proc_inv_def)
qed (auto simp: deliver_def proc_inv_def)

interpretation proc: invariant_system proc_start "proc_step sh" proc_inv for sh
proof (unfold_locales, goal_cases)
  case (1 p)
  then show ?case by (auto simp: proc_start_def proc_inv_def register_signal_def app_main_def)
next
  case (2 p q)
  then show ?case by (rule proc_inv_step)
qed

lemma stuck_stays: "(proc_step sh)\<^sup>*\<^sup>* p q \<Longrightarrow> pr_stuck p \<Longrightarrow> pr_stuck q"
proof (induction rule: rtranclp_induct)
  case (step q r)
  from step(2) step.IH [OF step.prems] show ?case by cases (auto simp: deliver_def)
qed simp

text \<open>Once the SLE thread has installed its handlers a memory fault does not end the program: until someone asks the program to end the
  instruction faults again and again.\<close>

theorem fault_repeats:
  assumes "reachable proc_start (proc_step sh) p" "(proc_step sh)\<^sup>*\<^sup>* (deliver sh SIGSEGV (p\<lparr>pr_stuck := True\<rparr>)) q" "pr_run q"
  shows "pr_stuck q \<and> \<not> pr_gone q \<and> deliver sh SIGSEGV (q\<lparr>pr_stuck := True\<rparr>) = q"
proof -
  let ?f = "deliver sh SIGSEGV (p\<lparr>pr_stuck := True\<rparr>)"
  have p: "proc_inv p" by (rule proc.reachable_inv [OF assms(1)])
  then have f: "?f = p\<lparr>pr_stuck := True\<rparr>" by (simp add: deliver_def proc_inv_def)
  with p have "proc_inv ?f" by (simp add: proc_inv_def)
  from proc.inv_run [OF assms(2) this] have q: "proc_inv q" .
  have "pr_stuck q" using stuck_stays [OF assms(2)] f by simp
  moreover from this q have "deliver sh SIGSEGV (q\<lparr>pr_stuck := True\<rparr>) = q" by (simp add: deliver_def proc_inv_def)
  ultimately show ?thesis using q assms(3) by (simp add: proc_inv_def)
qed

definition demo_process :: process where
  "demo_process = register_signal (app_main
     \<lparr>pr_handled = [], pr_run = True, pr_serving = True, pr_cmds = [], pr_stuck = False, pr_gone = False\<rparr>)"

theorem fault_repeats_witness:
  "\<not> pr_gone (deliver quiet_shell SIGILL (deliver quiet_shell SIGSEGV (demo_process\<lparr>pr_stuck := True\<rparr>)))"
proof -
  let ?f = "deliver quiet_shell SIGSEGV (demo_process\<lparr>pr_stuck := True\<rparr>)"
  have r: "reachable proc_start (proc_step quiet_shell) demo_process"
    by (rule reachable.start, simp only: proc_start_def demo_process_def, rule exI, rule conjI, rule refl) simp
  have "\<not> pr_gone ?f" by (simp add: deliver_def demo_process_def register_signal_def app_main_def)
  then have s: "(proc_step quiet_shell)\<^sup>*\<^sup>* ?f (deliver quiet_shell SIGILL ?f)" by (intro r_into_rtranclp proc_step.signal) simp_all
  have "pr_run (deliver quiet_shell SIGILL ?f)" by (simp add: deliver_def demo_process_def register_signal_def app_main_def)
  from fault_repeats [OF r s this] show ?thesis by simp
qed

end
