(* ===== verification/Spec2Isabelle.thy ===== *)
theory Spec2Isabelle
  imports CoreList NodeList NodeService SplinkState CfgManager UserDb UserManager NodeManager Qos Acl Multicast
    HttpApi HttpMain SlbNode ParserProps FirmwareProps LogProps SleProps OpTable TraceProps RuleProps ApiProps
    JoinThreads Resources Startup SleServers SleConnect Services
begin

text \<open>
  Verification of the WTSL core (src/src/wtsl_core), the daemon of a short-range radio node: a web
  server for the node's operator, a registry of the nodes heard on the network, the commands
  that drive the radio, the traffic shaping and the firewall, the update of the firmware, the upload of the log, and
  a second radio (SLE) over which it forwards data.

  The parts and how they interact.  \<open>wtsl_core.c\<close> starts everything.  The web server's callback
  (HttpMain: protocol/http/wtsl_core_httpmain.c) collects a request and hands it to the REST
  interface (HttpApi: protocol/http/wtsl_core_http_restful_api.c), which splits the path, finds
  the node (NodeList: slal/node/wtsl_core_node_list.c) and calls the operation through the
  permission wrapper (NodeManager: slal/node/wtsl_core_node_manager.c and .h).  The operations behind the table
  (slal/node/wtsl_core_node_callback.c) are NodeOps (nodes, parameters, time, networks, update, traffic, channel), RadioOps (one
  driver parameter each), TraceOps (the traces of the driver), SleOps (the SLE side) and RuleOps (firewall and traffic
  rules); OpTable joins them to the interface table and the REST interface.  They work over the data parser (DataParser:
  dataparser/wtsl_core_dataparser.c) on the state of CoreState.  User requests go
  to the user manager (UserManager: user/wtsl_core_user_manager.c) over the database (UserDb:
  db/wtsl_core_db.c).  The rule engines (Qos, Acl over RuleSnapshot:
  slal/slb/wtsl_core_slb_qos_core.c, wtsl_core_slb_acl_core.c) turn requests into command lines.
  The node service (NodeService: slal/node/wtsl_core_node_service.c, utils/wtsl_core_net_utils.c)
  keeps the registry up to date from heartbeats; SplinkState (slal/wtsl_core_splink_state.c) starts it and
  joins networks, CoreApi (the same file and api/wtsl_core_api.c) watches the link, JoinThreads has their threads as they
  interleave; Multicast (slal/wtsl_core_splink_mc.c) keeps the table of peer G nodes;
  Services has the sockets of that, the thread that starts the node service, and the process with its signals (wtsl_app/main.c).
  Parameters persist in the configuration file (CfgManager: utils/wtsl_cfg_manager.c).  The radio itself is
  driven by command lines (SlbInterface, SlbSettings, SlbNode: slal/slb/wtsl_core_slb_interface.c): setters and getters,
  the start of the node and its reconfiguration; SlbNode also has the beginning and the end of wtsl_core.c,
  Startup the whole of its start with slal/slb/wtsl_core_slb_init.c, Resources the report on the machine (dataparser and slb_interface).
  Firmware (dataparser/wtsl_core_dataparser_ota.c) checks and installs an update.  LogManager
  (utils/wtsl_log_manager.c) writes the log, LogUpload (utils/wtsl_client_upload.c) sends it away.  SleClient
  (slal/sle/sle_conn_client.c, sle_client.c, sle_tcp_server.c, sle_udp_server.c) keeps the SLE links and forwards the data of
  network clients to them; SleServers has the threads of its servers, SleConnect goes from the scan to a connection; SleOta (slal/sle/sle_simple_ota_*.c) sends a firmware over a link.

  Theories.  Prelude: C strings, numbers, lines, the shell.  LinkHeap: allocation and pointer
  chains.  CoreList (utils/wtsl_core_list.c and .h) and NodeList: the two linked lists on their heaps,
  each operation refined to a function on the stored sequence.  NodeTypes: the structs.  CJson:
  JSON values and the cJSON library as a parameter.  Scanf: the conversions of \<open>sscanf\<close> and printing with
  the same format.  NodeTime: \<open>strptime\<close>, \<open>mktime\<close> and the check of a time.  Systems: reachable states, invariants and refinement of transition systems.  Then one
  theory per part as named above;
  ParserProps, FirmwareProps, LogProps, SleProps, OpProps, TraceProps, RuleProps and ApiProps hold what is proved of the theories they import.

  State and operations.  Pointers are addresses in a heap of cells; \<open>None\<close> of an option result is
  a memory fault (NULL or dangling access, a write past a buffer, a second free), so a theorem that
  an operation returns \<open>Some\<close> says it has none.  Global variables are records passed and
  returned (\<open>svc\<close>, \<open>user_st\<close>, \<open>qos_state\<close>, \<open>acl_state\<close>, \<open>core\<close>, \<open>log_system\<close>, \<open>sle_st\<close>, \<open>http_st\<close>, \<open>server\<close>); \<open>world\<close> is what the node operations share.
  Command lines given to the
  shell are the trace of the state; what the shell answers is a parameter; the radio interface is written in
  the state monad over that trace (\<open>cmd\<close>).  The traces of the commands, of the SLE driver and of the update are kept apart, so
  the order between them is not modelled.  Strings in fixed
  buffers are cut where the code cuts them.  Errors are the code's return values, or
  constructors with their code.

  Parameters, with what is assumed of them only where a theorem names it: the shell (\<open>shell\<close>), the
  JSON library (\<open>cjson\<close>, \<open>cjson_ok\<close>; its printer is taken to have memory), the database engine (\<open>sqlite\<close>, \<open>sqlite_sound\<close>), MD5, clock and
  random numbers, the web server library (\<open>mhd\<close>), the network of the upload (\<open>attempt\<close>), the files and commands of the update (\<open>fw_env\<close>),
  the allocator's failures, what uninitialised memory holds, the zone of the clock (one offset), numbers of type \<open>double\<close> and what the
  system's tables say (\<open>doubles\<close>, \<open>machine\<close>), and the paths and variables of the start.

  Interfaces.  \<open>indexed_seq\<close> (CoreList) and \<open>node_registry\<close> (NodeList) state what the clients of the lists
  use and are interpreted on the heap operations; \<open>kv_config\<close> (CfgManager) states set and get of
  the configuration; \<open>rule_log\<close> (RuleSnapshot) the bounded snapshot of rules, interpreted by Qos
  and Acl; \<open>invariant_system\<close> and \<open>refinement_mapping\<close> (Systems) state what a transition system keeps and implements, interpreted on the
  automatic join (SplinkState), on all threads around it (JoinThreads), on the TCP servers (SleServers) and on the process under its signals (Services).  Permission levels are an instance of \<open>order\<close>.

  Lemma groups.  Heap lists: representation (\<open>is_list\<close>, \<open>is_nlist\<close>, \<open>owns\<close>) and one refinement per
  operation.  Service: frames, heartbeats, the receive loop.  Configuration: lines, entries, set and
  get, faults of the reading.  Users: soundness of each statement's use, login, registration,
  password change.  Authorization: the wrapper's gate, and its consequence for every path of the
  REST interface, with abstract operations and with the program's own (\<open>reader_effect\<close>).  Requests: bounds of the buffer, exactly one
  execution, and from a path to the operation it runs (\<open>post_runs\<close>).  Rules: snapshot
  invariant, replay, deletion, the combinations of a request (\<open>runs\<close>, \<open>stands_for\<close>).  Radio: one contract for all setters (\<open>accepted\<close>, \<open>setting_cmd\<close>), what a
  reconfiguration issues (\<open>issues\<close>), the order of the bandwidths, the defaults, the random address, the status and the rows the driver
  prints (\<open>answer_line\<close>, \<open>trace_rows\<close>).  Time: which texts the check accepts.  Update: what is checked before anything runs, what a failure
  puts back.  Log: frames, their round trip and damage.  Link: the addresses a restart reads back,
  the waking of the join.  Threads: exclusion, no lost
  signal, no deadlock, refinement of the join alone, and the report of the driver as a run of the watcher (\<open>thr_inv\<close>, \<open>waits_for\<close>, \<open>join_view\<close>).
  Start: what it returns, and from the start to the first login.  SLE: the table of devices, what reaches a link, the transfer of a file, which
  servers a change of the port leaves (\<open>tcp_events\<close>, a run of \<open>tcp_step\<close>).
  Several properties state what the code does where that is not
  what it is meant to do; they are the findings of the manifest.

  Bounds and fuel.  Loops over linked lists are \<open>partial_function (option)\<close>; that they return is part of the
  refinement lemmas (a well-formed list is finite).  Loops over arrays and texts are structural or
  have a measure.  The long type of \<open>strtol\<close> and \<open>atoi\<close> is the parameter \<open>lmax\<close> (31 or 63 bits).
  Sizes of the web server are 64-bit words.

  Not modelled: logging output, sleeping, the locks other than those of JoinThreads (each other loop is the sequence of its
  rounds), the creation of threads, the registration of callbacks that only print, the arithmetic of floating-point
  numbers, and code that nothing calls or that is not compiled.
  Vendored headers (microhttpd, cJSON, sqlite, the SLE driver) are interfaces of code that is not in the
  repository.
\<close>

end
